(* ===== verification/GB_Prelude.thy ===== *)
theory GB_Prelude
  imports Main "HOL-Library.Word" "HOL-Library.Monad_Syntax"
begin

text \<open>
  Shared vocabulary of the greybus development: the machine integers of the C code, the
  errno values, bounds-checked access to byte buffers, the little-endian wire integers and
  the interface that every fixed-size wire structure implements.

  Conventions used by every theory.
  \<^item> A C function that can only return a status is a HOL function to \<^typ>\<open>int\<close>: 0 or a
    negated errno, as in the source.
  \<^item> \<open>'a option\<close> as the outermost result type means that the C code may run into undefined
    behaviour (access outside a buffer, dereference of a freed object or of NULL): \<open>None\<close> is
    that fault, \<open>Some r\<close> is a run without one.
  \<^item> Locks are not represented: each critical section is one function, so that an interleaving
    of concurrent handlers is a sequence of those functions.
  \<^item> Messages printed to the kernel log are not represented.
\<close>

unbundle bit_operations_syntax

section \<open>Machine integers and errno values\<close>

type_synonym u8 = "8 word"
type_synonym u16 = "16 word"
type_synonym u32 = "32 word"
type_synonym u64 = "64 word"
type_synonym size_t = "64 word"
type_synonym bytes = "8 word list"

abbreviation (input) ENOENT :: int where "ENOENT \<equiv> 2"
abbreviation (input) EINTR :: int where "EINTR \<equiv> 4"
abbreviation (input) EIO :: int where "EIO \<equiv> 5"
abbreviation (input) EAGAIN :: int where "EAGAIN \<equiv> 11"
abbreviation (input) ENOMEM :: int where "ENOMEM \<equiv> 12"
abbreviation (input) EEXIST :: int where "EEXIST \<equiv> 17"
abbreviation (input) ENODEV :: int where "ENODEV \<equiv> 19"
abbreviation (input) EINVAL :: int where "EINVAL \<equiv> 22"
abbreviation (input) ENOSPC :: int where "ENOSPC \<equiv> 28"
abbreviation (input) EBADR :: int where "EBADR \<equiv> 53"
abbreviation (input) EILSEQ :: int where "EILSEQ \<equiv> 84"
abbreviation (input) EMSGSIZE :: int where "EMSGSIZE \<equiv> 90"
abbreviation (input) EPROTONOSUPPORT :: int where "EPROTONOSUPPORT \<equiv> 93"
abbreviation (input) ENOTCONN :: int where "ENOTCONN \<equiv> 107"
abbreviation (input) ESHUTDOWN :: int where "ESHUTDOWN \<equiv> 108"
abbreviation (input) ETIMEDOUT :: int where "ETIMEDOUT \<equiv> 110"
abbreviation (input) EINPROGRESS :: int where "EINPROGRESS \<equiv> 115"
abbreviation (input) ECANCELED :: int where "ECANCELED \<equiv> 125"
abbreviation (input) ENOTSUPP :: int where "ENOTSUPP \<equiv> 524"

section \<open>Collections of facts\<close>

named_theorems gb_defs \<open>definitions of small operations that proofs unfold freely\<close>
named_theorems gb_frame \<open>fields and objects that an operation leaves alone\<close>

section \<open>Byte buffers\<close>

text \<open>
  A C buffer is a list of bytes. Reading or writing outside it is undefined behaviour, so
  both accessors are partial.
\<close>

definition rd8 :: "bytes \<Rightarrow> nat \<Rightarrow> u8 option" where
  "rd8 buf i = (if i < length buf then Some (buf ! i) else None)"

definition rd_bytes :: "bytes \<Rightarrow> nat \<Rightarrow> nat \<Rightarrow> bytes option" where
  "rd_bytes buf off n = (if off + n \<le> length buf then Some (take n (drop off buf)) else None)"

definition wr_bytes :: "bytes \<Rightarrow> nat \<Rightarrow> bytes \<Rightarrow> bytes option" where
  "wr_bytes buf off bs =
     (if off + length bs \<le> length buf
      then Some (take off buf @ bs @ drop (off + length bs) buf) else None)"

lemma rd8_Some_iff [simp]: "rd8 buf i = Some b \<longleftrightarrow> i < length buf \<and> b = buf ! i"
  by (auto simp: rd8_def)

lemma rd8_None_iff [simp]: "rd8 buf i = None \<longleftrightarrow> length buf \<le> i"
  by (auto simp: rd8_def)

lemma wr_bytes_length: "wr_bytes buf off bs = Some buf' \<Longrightarrow> length buf' = length buf"
  by (auto simp: wr_bytes_def split: if_splits)

lemma wr_bytes_None_iff: "wr_bytes buf off bs = None \<longleftrightarrow> length buf < off + length bs"
  by (auto simp: wr_bytes_def)

lemma wr_bytes_nth:
  assumes "wr_bytes buf off bs = Some buf'" "i < length buf"
  shows "buf' ! i = (if off \<le> i \<and> i < off + length bs then bs ! (i - off) else buf ! i)"
  using assms by (auto simp: wr_bytes_def nth_append min_def add.commute split: if_splits)

lemma rd_wr_bytes: "wr_bytes buf off bs = Some buf' \<Longrightarrow> rd_bytes buf' off (length bs) = Some bs"
  by (auto simp: wr_bytes_def rd_bytes_def split: if_splits)

lemma rd_bytes_Some: "rd_bytes buf off n = Some bs \<Longrightarrow> length bs = n \<and> off + n \<le> length buf"
  by (auto simp: rd_bytes_def split: if_splits)

section \<open>Little-endian integers\<close>

definition le16_to_cpu :: "u8 \<Rightarrow> u8 \<Rightarrow> u16" where
  "le16_to_cpu b0 b1 = ucast b0 OR push_bit 8 (ucast b1)"

definition cpu_to_le16 :: "u16 \<Rightarrow> bytes" where
  "cpu_to_le16 w = [ucast w, ucast (drop_bit 8 w)]"

definition le32_to_cpu :: "u8 \<Rightarrow> u8 \<Rightarrow> u8 \<Rightarrow> u8 \<Rightarrow> u32" where
  "le32_to_cpu b0 b1 b2 b3 =
     ucast b0 OR push_bit 8 (ucast b1) OR push_bit 16 (ucast b2) OR push_bit 24 (ucast b3)"

definition cpu_to_le32 :: "u32 \<Rightarrow> bytes" where
  "cpu_to_le32 w =
     [ucast w, ucast (drop_bit 8 w), ucast (drop_bit 16 w), ucast (drop_bit 24 w)]"

lemma length_cpu_to_le16 [simp]: "length (cpu_to_le16 w) = 2"
  by (simp add: cpu_to_le16_def)

lemma length_cpu_to_le32 [simp]: "length (cpu_to_le32 w) = 4"
  by (simp add: cpu_to_le32_def)

lemma le16_roundtrip [simp]: "le16_to_cpu (ucast w) (ucast (drop_bit 8 w)) = w"
  unfolding le16_to_cpu_def
  by (rule bit_word_eqI) (auto simp: bit_simps)

lemma le16_zero [simp]: "le16_to_cpu 0 0 = 0"
  by (simp add: le16_to_cpu_def)

lemma le16_split_low [simp]: "ucast (le16_to_cpu a b) = a"
  unfolding le16_to_cpu_def
  by (rule bit_word_eqI) (auto simp: bit_simps)

lemma le16_split_high [simp]: "ucast (drop_bit 8 (le16_to_cpu a b)) = b"
  unfolding le16_to_cpu_def
  by (rule bit_word_eqI) (auto simp: bit_simps dest: bit_imp_le_length)

lemma le32_roundtrip [simp]:
  "le32_to_cpu (ucast w) (ucast (drop_bit 8 w)) (ucast (drop_bit 16 w)) (ucast (drop_bit 24 w)) = w"
proof (unfold le32_to_cpu_def, rule bit_word_eqI)
  fix n assume "n < LENGTH(32)"
  then consider "n < 8" | "8 \<le> n" "n < 16" | "16 \<le> n" "n < 24" | "24 \<le> n" "n < 32"
    by fastforce
  then show "bit (ucast (ucast w :: u8) OR push_bit 8 (ucast (ucast (drop_bit 8 w) :: u8))
      OR push_bit 16 (ucast (ucast (drop_bit 16 w) :: u8))
      OR push_bit 24 (ucast (ucast (drop_bit 24 w) :: u8)) :: u32) n = bit w n"
    by cases (auto simp: bit_simps)
qed

text \<open>The size a little-endian field can express.\<close>

lemma unat_le16_bound: "unat (w :: u16) < 65536"
  using unsigned_less [of w, where 'a = nat] by simp

lemma unat_ucast_u16 [simp]: "unat (ucast (w :: u16) :: size_t) = unat w"
  using unat_le16_bound [of w] by (simp add: unsigned_ucast_eq take_bit_nat_eq_self)

lemma unat_ucast_u32 [simp]: "unat (ucast (w :: u32) :: size_t) = unat w"
  using unsigned_less [of w, where 'a = nat] by (simp add: unsigned_ucast_eq take_bit_nat_eq_self)

section \<open>Kernel id allocator\<close>

text \<open>
  ida_simple_get of the kernel returns an id that is not in use, inside \<open>[lo, hi)\<close> (no upper
  bound when \<open>hi\<close> is 0), or a negative errno. Which id it picks is not fixed: \<open>ans\<close> is the
  kernel's answer, and an answer that breaks the documented contract counts as -ENOSPC.
\<close>

definition ida_simple_get :: "int \<Rightarrow> nat \<Rightarrow> nat \<Rightarrow> nat set \<Rightarrow> int \<times> nat set" where
  "ida_simple_get ans lo hi used =
     (if ans < 0 then (ans, used)
      else if lo \<le> nat ans \<and> (hi = 0 \<or> nat ans < hi) \<and> nat ans \<notin> used
        then (ans, insert (nat ans) used)
      else (- ENOSPC, used))"

definition ida_simple_remove :: "nat \<Rightarrow> nat set \<Rightarrow> nat set" where
  [gb_defs]: "ida_simple_remove i used = used - {i}"

lemma ida_simple_get_ok:
  "ida_simple_get ans lo hi used = (r, used') \<Longrightarrow> 0 \<le> r \<Longrightarrow>
   nat r \<notin> used \<and> used' = insert (nat r) used \<and> lo \<le> nat r \<and> (hi = 0 \<or> nat r < hi)"
  by (auto simp: ida_simple_get_def split: if_splits)

lemma ida_simple_get_fail: "ida_simple_get ans lo hi used = (r, used') \<Longrightarrow> r < 0 \<Longrightarrow> used' = used"
  by (auto simp: ida_simple_get_def split: if_splits)

text \<open>An id that was handed out and given back leaves the allocator as it was.\<close>

lemma ida_get_remove:
  "ida_simple_get ans lo hi used = (r, used') \<Longrightarrow> 0 \<le> r \<Longrightarrow> ida_simple_remove (nat r) used' = used"
  by (auto simp: ida_simple_remove_def dest: ida_simple_get_ok)

end
