(* ===== verification/GB_Protocol.thy ===== *)
theory GB_Protocol
  imports GB_Prelude
begin

text \<open>
  The registry of protocol drivers (protocol.c, protocol.h): one global list sorted by
  protocol id (ascending) and version (newest first), looked up with an early exit, with a
  saturating 8-bit use count per entry. The list is shown to implement a finite map from
  (id, major, minor) to use counts; that contract is the locale \<open>protocol_registry\<close>.
\<close>

section \<open>Data and operations\<close>

text \<open>struct gb_protocol; the handlers it points to are reached through its identity.\<close>

record gb_protocol =
  pr_id :: u8
  pr_major :: u8
  pr_minor :: u8
  pr_count :: u8
  pr_name :: string

type_synonym proto_key = "u8 \<times> u8 \<times> u8"

definition proto_key :: "gb_protocol \<Rightarrow> proto_key" where
  [gb_defs]: "proto_key p = (pr_id p, pr_major p, pr_minor p)"

text \<open>
  The search loop of gb_protocol_find. A pointer into the global list is a position in it;
  \<open>continue\<close> is the recursive call and \<open>break\<close> leaves with NULL.
\<close>

fun gb_protocol_find :: "gb_protocol list \<Rightarrow> u8 \<Rightarrow> u8 \<Rightarrow> u8 \<Rightarrow> nat option" where
  "gb_protocol_find [] i major minor = None"
| "gb_protocol_find (p # ps) i major minor =
     (if pr_id p < i then map_option Suc (gb_protocol_find ps i major minor)
      else if i < pr_id p then None
      else if major < pr_major p then map_option Suc (gb_protocol_find ps i major minor)
      else if pr_major p < major then None
      else if minor < pr_minor p then map_option Suc (gb_protocol_find ps i major minor)
      else if pr_minor p < minor then None
      else Some 0)"

text \<open>
  The loop of __gb_protocol_register: \<open>None\<close> when a matching protocol is met, otherwise the
  list with the new protocol inserted before the entry where the loop stopped (or at the
  tail).
\<close>

fun protocol_insert :: "gb_protocol \<Rightarrow> gb_protocol list \<Rightarrow> gb_protocol list option" where
  "protocol_insert p [] = Some [p]"
| "protocol_insert p (e # ps) =
     (if pr_id e < pr_id p then map_option ((#) e) (protocol_insert p ps)
      else if pr_id p < pr_id e then Some (p # e # ps)
      else if pr_major p < pr_major e then map_option ((#) e) (protocol_insert p ps)
      else if pr_major e < pr_major p then Some (p # e # ps)
      else if pr_minor p < pr_minor e then map_option ((#) e) (protocol_insert p ps)
      else if pr_minor e < pr_minor p then Some (p # e # ps)
      else None)"

text \<open>
  The list part of __gb_protocol_register; binding the connections that wait for the new
  protocol (gb_bundle_bind_protocols) follows it on success.
\<close>

definition gb_protocol_register :: "gb_protocol \<Rightarrow> gb_protocol list \<Rightarrow> int \<times> gb_protocol list" where
  "gb_protocol_register p ps =
     (case protocol_insert p ps of None \<Rightarrow> (- EEXIST, ps) | Some ps' \<Rightarrow> (0, ps'))"

definition gb_protocol_deregister ::
    "gb_protocol option \<Rightarrow> gb_protocol list \<Rightarrow> bool \<times> gb_protocol list" where
  "gb_protocol_deregister arg ps =
     (case arg of None \<Rightarrow> (False, ps)
      | Some p \<Rightarrow>
         (case gb_protocol_find ps (pr_id p) (pr_major p) (pr_minor p) of
            None \<Rightarrow> (False, ps)
          | Some n \<Rightarrow>
             (if pr_count (ps ! n) = 0 then (True, take n ps @ drop (Suc n) ps)
              else (False, ps))))"

text \<open>
  gb_protocol_get. The answer of try_module_get on the owning module is the argument
  \<open>got_module\<close>; a protocol pointer is its position in the list.
\<close>

definition gb_protocol_get ::
    "bool \<Rightarrow> u8 \<Rightarrow> u8 \<Rightarrow> u8 \<Rightarrow> gb_protocol list \<Rightarrow> nat option \<times> gb_protocol list" where
  "gb_protocol_get got_module i major minor ps =
     (case gb_protocol_find ps i major minor of
        None \<Rightarrow> (None, ps)
      | Some n \<Rightarrow>
         (if \<not> got_module then (None, ps)
          else if pr_count (ps ! n) \<noteq> 255
            then (Some n, ps[n := (ps ! n)\<lparr>pr_count := pr_count (ps ! n) + 1\<rparr>])
          else (Some n, ps)))"

definition gb_protocol_put :: "gb_protocol \<Rightarrow> gb_protocol list \<Rightarrow> gb_protocol list" where
  "gb_protocol_put p ps =
     (case gb_protocol_find ps (pr_id p) (pr_major p) (pr_minor p) of
        None \<Rightarrow> ps
      | Some n \<Rightarrow>
         (if pr_count (ps ! n) \<noteq> 0
          then ps[n := (ps ! n)\<lparr>pr_count := pr_count (ps ! n) - 1\<rparr>] else ps))"

text \<open>
  The version exchange of gb_protocol_get_version: \<open>ret\<close> and \<open>resp\<close> are what
  gb_operation_sync returned and stored. The result is the status and, on success, the
  version recorded in the connection.
\<close>

definition gb_protocol_get_version :: "gb_protocol \<Rightarrow> int \<Rightarrow> u8 \<times> u8 \<Rightarrow> int \<times> (u8 \<times> u8) option" where
  "gb_protocol_get_version p ret resp =
     (if ret \<noteq> 0 then (ret, None)
      else if pr_major p < fst resp then (- ENOTSUPP, None)
      else (0, Some resp))"

section \<open>The order of the list\<close>

definition proto_before :: "gb_protocol \<Rightarrow> gb_protocol \<Rightarrow> bool" where
  "proto_before p q \<longleftrightarrow>
     pr_id p < pr_id q \<or>
     pr_id p = pr_id q \<and>
       (pr_major q < pr_major p \<or> pr_major p = pr_major q \<and> pr_minor q < pr_minor p)"

definition protocols_sorted :: "gb_protocol list \<Rightarrow> bool" where
  "protocols_sorted ps \<longleftrightarrow> sorted_wrt proto_before ps"

lemma protocols_sorted_simps [simp]:
  "protocols_sorted []"
  "protocols_sorted (p # ps) \<longleftrightarrow> (\<forall>q \<in> set ps. proto_before p q) \<and> protocols_sorted ps"
  by (auto simp: protocols_sorted_def)

lemma proto_before_key: "proto_before p q \<Longrightarrow> proto_key p \<noteq> proto_key q"
  by (auto simp: proto_before_def proto_key_def)

lemma proto_before_trans: "proto_before p q \<Longrightarrow> proto_before q r \<Longrightarrow> proto_before p r"
  by (auto simp: proto_before_def)

text \<open>\<open>proto_before\<close> depends on the keys only, so changing a use count keeps the order.\<close>

lemma proto_before_count [simp]:
  "proto_before (p\<lparr>pr_count := c\<rparr>) q = proto_before p q"
  "proto_before q (p\<lparr>pr_count := c\<rparr>) = proto_before q p"
  by (simp_all add: proto_before_def)

lemma proto_key_count [simp]: "proto_key (p\<lparr>pr_count := c\<rparr>) = proto_key p"
  by (simp add: proto_key_def)

lemma protocols_sorted_distinct: "protocols_sorted ps \<Longrightarrow> distinct (map proto_key ps)"
  by (induction ps) (auto dest: proto_before_key)

lemma sorted_update_count:
  "protocols_sorted ps \<Longrightarrow> n < length ps \<Longrightarrow> protocols_sorted (ps[n := (ps ! n)\<lparr>pr_count := c\<rparr>])"
  by (auto simp: protocols_sorted_def sorted_wrt_iff_nth_less nth_list_update)

lemma sorted_remove_nth:
  assumes "protocols_sorted ps"
  shows "protocols_sorted (take n ps @ drop (Suc n) ps)"
proof -
  have "Suc n + k < length ps \<Longrightarrow> j < n \<Longrightarrow> proto_before (ps ! j) (ps ! (Suc n + k))" for j k
    using assms by (simp add: protocols_sorted_def sorted_wrt_iff_nth_less)
  then show ?thesis
    using assms
    by (auto simp: protocols_sorted_def sorted_wrt_append sorted_wrt_take sorted_wrt_drop
        in_set_conv_nth)
qed

section \<open>Search and insertion\<close>

lemma gb_protocol_find_sound:
  "gb_protocol_find ps i ma mi = Some n \<Longrightarrow> n < length ps \<and> proto_key (ps ! n) = (i, ma, mi)"
  by (induction ps arbitrary: n) (auto simp: proto_key_def not_less split: if_splits)

lemma proto_before_skip:
  "pr_id p < i \<or> pr_id p = i \<and> (ma < pr_major p \<or> pr_major p = ma \<and> mi < pr_minor p) \<Longrightarrow>
   gb_protocol_find (p # ps) i ma mi = map_option Suc (gb_protocol_find ps i ma mi)"
  by (elim disjE conjE) simp_all

lemma proto_before_key_iff:
  "proto_key q = (i, ma, mi) \<Longrightarrow> proto_before p q \<longleftrightarrow>
   pr_id p < i \<or> pr_id p = i \<and> (ma < pr_major p \<or> pr_major p = ma \<and> mi < pr_minor p)"
  by (simp add: proto_before_def proto_key_def)

text \<open>The early exits lose nothing: on a sorted list every registered key is found.\<close>

lemma gb_protocol_find_complete:
  assumes "protocols_sorted ps" "n < length ps" "proto_key (ps ! n) = (i, ma, mi)"
  shows "gb_protocol_find ps i ma mi = Some n"
  using assms
proof (induction ps arbitrary: n)
  case (Cons p ps)
  show ?case
  proof (cases n)
    case 0
    with Cons.prems show ?thesis by (auto simp: proto_key_def)
  next
    case (Suc m)
    with Cons.prems have m: "m < length ps" "proto_key (ps ! m) = (i, ma, mi)"
      and before: "proto_before p (ps ! m)"
      by auto
    from Cons.IH Cons.prems(1) m have "gb_protocol_find ps i ma mi = Some m" by simp
    with proto_before_skip [OF before [unfolded proto_before_key_iff [OF m(2)]]] Suc
    show ?thesis by simp
  qed
qed simp

lemma gb_protocol_find_None:
  "protocols_sorted ps \<Longrightarrow>
   gb_protocol_find ps i ma mi = None \<longleftrightarrow> (i, ma, mi) \<notin> proto_key ` set ps"
proof
  assume s: "protocols_sorted ps" and none: "gb_protocol_find ps i ma mi = None"
  show "(i, ma, mi) \<notin> proto_key ` set ps"
  proof
    assume "(i, ma, mi) \<in> proto_key ` set ps"
    then obtain n where "n < length ps" "proto_key (ps ! n) = (i, ma, mi)"
      by (auto simp: in_set_conv_nth)
    then show False using gb_protocol_find_complete [OF s] none by simp
  qed
next
  assume "(i, ma, mi) \<notin> proto_key ` set ps"
  then show "gb_protocol_find ps i ma mi = None"
    by (metis gb_protocol_find_sound image_eqI not_None_eq nth_mem)
qed

text \<open>The comparison chain of the insertion loop decides \<open>proto_before\<close>.\<close>

lemma protocol_insert_Cons:
  "protocol_insert p (e # ps) =
     (if proto_before e p then map_option ((#) e) (protocol_insert p ps)
      else if proto_before p e then Some (p # e # ps) else None)"
  by (cases "pr_id e" "pr_id p" rule: linorder_cases;
      cases "pr_major e" "pr_major p" rule: linorder_cases;
      cases "pr_minor e" "pr_minor p" rule: linorder_cases)
     (simp_all add: proto_before_def)

lemma proto_before_total: "\<not> proto_before p e \<Longrightarrow> \<not> proto_before e p \<Longrightarrow> proto_key p = proto_key e"
  by (auto simp: proto_before_def proto_key_def not_less)

lemma proto_before_asym: "proto_before p e \<Longrightarrow> \<not> proto_before e p"
  by (auto simp: proto_before_def)

declare protocol_insert.simps(2) [simp del]
declare protocol_insert_Cons [simp]

lemma protocol_insert_set: "protocol_insert p ps = Some ps' \<Longrightarrow> set ps' = insert p (set ps)"
  by (induction ps arbitrary: ps') (auto split: if_splits)

lemma protocol_insert_sorted:
  "protocols_sorted ps \<Longrightarrow> protocol_insert p ps = Some ps' \<Longrightarrow> protocols_sorted ps'"
proof (induction ps arbitrary: ps')
  case (Cons e ps)
  then have e: "\<And>q. q \<in> set ps \<Longrightarrow> proto_before e q" and s: "protocols_sorted ps"
    by auto
  from Cons.prems(2) consider
      "proto_before p e" "ps' = p # e # ps"
    | r where "proto_before e p" "protocol_insert p ps = Some r" "ps' = e # r"
    by (auto split: if_splits)
  then show ?case
  proof cases
    case 1
    with Cons.prems(1) show ?thesis by (auto intro: proto_before_trans)
  next
    case 2
    then have "protocols_sorted r" using Cons.IH s by blast
    with 2 e show ?thesis by (auto simp: protocol_insert_set [OF 2(2)])
  qed
qed simp

lemma protocol_insert_None:
  "protocols_sorted ps \<Longrightarrow>
   protocol_insert p ps = None \<longleftrightarrow> proto_key p \<in> proto_key ` set ps"
proof (induction ps)
  case (Cons e ps)
  have "proto_before p e \<Longrightarrow> proto_key p \<notin> proto_key ` set ps"
    using Cons.prems by (metis image_iff proto_before_key proto_before_trans protocols_sorted_simps(2))
  with Cons show ?case
    using proto_before_key [of p e] proto_before_key [of e p] proto_before_total [of p e]
    by (auto dest: proto_before_asym)
qed simp

section \<open>The registry as a map\<close>

text \<open>
  The contract of the registry: a map from keys to use counts. \<open>reg\<close> adds a key with count
  0 or refuses a duplicate, \<open>dereg\<close> removes an unused key, \<open>get\<close> and \<open>put\<close> move the count
  inside its 8 bits.
\<close>

locale protocol_registry =
  fixes inv :: "'r \<Rightarrow> bool"
    and uses_of :: "'r \<Rightarrow> 'k \<Rightarrow> u8 option"
    and reg :: "'k \<Rightarrow> 'r \<Rightarrow> int \<times> 'r"
    and dereg :: "'k \<Rightarrow> 'r \<Rightarrow> bool \<times> 'r"
    and get :: "'k \<Rightarrow> 'r \<Rightarrow> 'r"
    and put :: "'k \<Rightarrow> 'r \<Rightarrow> 'r"
  assumes reg_inv: "inv r \<Longrightarrow> inv (snd (reg k r))"
    and dereg_inv: "inv r \<Longrightarrow> inv (snd (dereg k r))"
    and get_inv: "inv r \<Longrightarrow> inv (get k r)"
    and put_inv: "inv r \<Longrightarrow> inv (put k r)"
    and reg_fresh: "inv r \<Longrightarrow> uses_of r k = None \<Longrightarrow>
          fst (reg k r) = 0 \<and> uses_of (snd (reg k r)) = (uses_of r)(k \<mapsto> 0)"
    and reg_dup: "inv r \<Longrightarrow> uses_of r k \<noteq> None \<Longrightarrow> reg k r = (- EEXIST, r)"
    and dereg_unused: "inv r \<Longrightarrow> uses_of r k = Some 0 \<Longrightarrow>
          fst (dereg k r) \<and> uses_of (snd (dereg k r)) = (uses_of r)(k := None)"
    and dereg_refused: "inv r \<Longrightarrow> uses_of r k \<noteq> Some 0 \<Longrightarrow> dereg k r = (False, r)"
    and get_uses: "inv r \<Longrightarrow>
          uses_of (get k r) = (uses_of r)(k := map_option (\<lambda>c. if c = 255 then c else c + 1) (uses_of r k))"
    and put_uses: "inv r \<Longrightarrow>
          uses_of (put k r) = (uses_of r)(k := map_option (\<lambda>c. if c = 0 then c else c - 1) (uses_of r k))"
begin

lemma funpow_get_inv: "inv r \<Longrightarrow> inv ((get k ^^ n) r)"
  by (induction n) (auto intro: get_inv)

lemma funpow_put_inv: "inv r \<Longrightarrow> inv ((put k ^^ n) r)"
  by (induction n) (auto intro: put_inv)

text \<open>\<open>n\<close> gets raise the count to \<open>n\<close>, but not above 255.\<close>

lemma funpow_get_uses:
  "inv r \<Longrightarrow> uses_of r k = Some 0 \<Longrightarrow>
   uses_of ((get k ^^ n) r) = (uses_of r)(k \<mapsto> of_nat (min n 255))"
proof (induction n)
  case (Suc n)
  have step: "uses_of (get k ((get k ^^ n) r)) k
      = Some (if of_nat (min n 255) = (255 :: u8) then 255 else of_nat (min n 255) + 1)"
    using Suc by (simp add: get_uses funpow_get_inv)
  have cap: "of_nat (min n 255) = (255 :: u8) \<longleftrightarrow> 255 \<le> n"
    by (auto simp: min_def not_le word_unat_eq_iff unat_of_nat)
  show ?case
    using Suc step cap by (auto simp: get_uses funpow_get_inv min_def fun_upd_def)
qed auto

text \<open>\<open>m\<close> puts lower a count of \<open>c\<close> to \<open>c - m\<close>, but not below 0.\<close>

lemma funpow_put_uses:
  "inv r \<Longrightarrow> uses_of r k = Some c \<Longrightarrow>
   uses_of ((put k ^^ m) r) = (uses_of r)(k \<mapsto> of_nat (unat c - m))"
proof (induction m)
  case (Suc m)
  have zero: "(of_nat (unat c - m) :: u8) = 0 \<longleftrightarrow> unat c \<le> m"
    using unsigned_less [of c, where 'a = nat] by (auto simp: word_unat_eq_iff unat_of_nat)
  have pred: "\<not> unat c \<le> m \<Longrightarrow> (of_nat (unat c - m) :: u8) - 1 = of_nat (unat c - Suc m)"
    by (simp add: of_nat_diff)
  show ?case
    using Suc zero pred
    by (auto simp: put_uses funpow_put_inv fun_upd_def)
qed auto

text \<open>
  Balanced use: with \<open>n \<le> 255\<close> gets and \<open>m < n\<close> puts the entry is in use and cannot be
  removed; once every reference is returned it can.
\<close>

lemma in_use_kept:
  assumes "inv r" "uses_of r k = Some 0" "n \<le> 255" "m < n"
  shows "dereg k ((put k ^^ m) ((get k ^^ n) r)) = (False, (put k ^^ m) ((get k ^^ n) r))"
proof -
  let ?g = "(get k ^^ n) r"
  have g: "uses_of ?g k = Some (of_nat n)" "inv ?g"
    using assms funpow_get_uses [of r k n] by (auto intro: funpow_get_inv)
  have "uses_of ((put k ^^ m) ?g) k = Some (of_nat (n - m))"
    using funpow_put_uses [OF g(2,1), of m] assms(3) by (simp add: unat_of_nat)
  moreover have "(of_nat (n - m) :: u8) \<noteq> 0"
    using assms(3,4) by (simp add: word_unat_eq_iff unat_of_nat del: of_nat_diff)
  ultimately show ?thesis
    using dereg_refused funpow_put_inv [OF g(2)] by fastforce
qed

lemma saturated_dropped:
  assumes "inv r" "uses_of r k = Some 0" "255 \<le> n"
  shows "fst (dereg k ((put k ^^ 255) ((get k ^^ n) r)))"
proof -
  let ?g = "(get k ^^ n) r"
  have g: "uses_of ?g k = Some 255" "inv ?g"
    using assms funpow_get_uses [of r k n] by (auto simp: min_def intro: funpow_get_inv)
  have "uses_of ((put k ^^ 255) ?g) k = Some 0"
    using funpow_put_uses [OF g(2,1), of 255] by simp
  then show ?thesis
    using dereg_unused funpow_put_inv [OF g(2)] by blast
qed

end

text \<open>The list implements that contract. A key is turned into the struct that a driver registers.\<close>

definition proto_of :: "proto_key \<Rightarrow> gb_protocol" where
  [gb_defs]: "proto_of k = \<lparr>pr_id = fst k, pr_major = fst (snd k), pr_minor = snd (snd k),
     pr_count = 0, pr_name = []\<rparr>"

definition proto_uses :: "gb_protocol list \<Rightarrow> proto_key \<Rightarrow> u8 option" where
  "proto_uses ps = map_of (map (\<lambda>p. (proto_key p, pr_count p)) ps)"

lemma proto_key_proto_of [simp]: "proto_key (proto_of k) = k"
  by (simp add: proto_key_def proto_of_def)

lemma proto_of_sel [simp]:
  "pr_id (proto_of k) = fst k" "pr_major (proto_of k) = fst (snd k)"
  "pr_minor (proto_of k) = snd (snd k)" "pr_count (proto_of k) = 0"
  by (simp_all add: proto_of_def)

abbreviation find_key :: "gb_protocol list \<Rightarrow> proto_key \<Rightarrow> nat option" where
  "find_key ps k \<equiv> gb_protocol_find ps (fst k) (fst (snd k)) (snd (snd k))"

lemma proto_uses_find:
  assumes "protocols_sorted ps"
  shows "proto_uses ps k = map_option (\<lambda>n. pr_count (ps ! n)) (find_key ps k)"
proof (cases "find_key ps k")
  case None
  then have "k \<notin> proto_key ` set ps"
    using gb_protocol_find_None [OF assms] by simp
  then have "proto_uses ps k = None"
    by (simp add: proto_uses_def map_of_eq_None_iff image_image)
  with None show ?thesis by simp
next
  case (Some n)
  then have n: "n < length ps" "proto_key (ps ! n) = k"
    using gb_protocol_find_sound by fastforce+
  have "distinct (map fst (map (\<lambda>p. (proto_key p, pr_count p)) ps))"
    using protocols_sorted_distinct [OF assms] by (simp add: comp_def)
  then have "proto_uses ps (proto_key (ps ! n)) = Some (pr_count (ps ! n))"
    unfolding proto_uses_def by (rule map_of_is_SomeI) (use n(1) in force)
  with n Some show ?thesis by simp
qed

lemma proto_uses_Some_iff:
  "protocols_sorted ps \<Longrightarrow>
   proto_uses ps k = Some c \<longleftrightarrow> (\<exists>p \<in> set ps. proto_key p = k \<and> pr_count p = c)"
  using protocols_sorted_distinct [of ps]
  by (auto simp: proto_uses_def map_of_eq_Some_iff comp_def)

text \<open>Two sorted lists that hold the same (key, count) pairs are the same map.\<close>

lemma proto_uses_eqI:
  assumes "protocols_sorted ps" "protocols_sorted qs"
    and "(\<lambda>p. (proto_key p, pr_count p)) ` set qs = A"
    and "\<And>k c. f k = Some c \<longleftrightarrow> (k, c) \<in> A"
  shows "proto_uses qs = f"
proof
  fix k
  show "proto_uses qs k = f k"
  proof (cases "f k")
    case None
    then have "\<And>c. (k, c) \<notin> A" using assms(4) by (metis option.distinct(1))
    then show ?thesis
      using None assms(3) proto_uses_Some_iff [OF assms(2), of k]
      by (cases "proto_uses qs k") force+
  next
    case (Some c)
    then have "(k, c) \<in> A" using assms(4) by simp
    then show ?thesis
      using Some assms(3) proto_uses_Some_iff [OF assms(2), of k c] by force
  qed
qed

lemma find_key_mem:
  assumes "find_key ps k = Some n"
  shows "n < length ps" "proto_key (ps ! n) = k"
  using gb_protocol_find_sound [OF assms] by simp_all

text \<open>Overwriting the count of the entry found.\<close>

lemma proto_uses_update:
  assumes "protocols_sorted ps" "find_key ps k = Some n"
  shows "proto_uses (ps[n := (ps ! n)\<lparr>pr_count := c\<rparr>]) = (proto_uses ps)(k \<mapsto> c)"
proof -
  let ?qs = "ps[n := (ps ! n)\<lparr>pr_count := c\<rparr>]"
  note n = find_key_mem [OF assms(2)]
  have sq: "protocols_sorted ?qs" by (rule sorted_update_count [OF assms(1) n(1)])
  have keys: "map proto_key ?qs = map proto_key ps"
    using n by (intro nth_equalityI) (auto simp: nth_list_update)
  have find: "find_key ?qs k' = find_key ps k'" for k'
  proof (cases "find_key ps k'")
    case None
    then have "k' \<notin> set (map proto_key ?qs)"
      using gb_protocol_find_None [OF assms(1)] unfolding keys by (cases k') auto
    then show ?thesis using None gb_protocol_find_None [OF sq] by (cases k') auto
  next
    case (Some m)
    note m = find_key_mem [OF Some]
    have "proto_key (?qs ! m) = map proto_key ?qs ! m" using m by simp
    then have "proto_key (?qs ! m) = k'" using m unfolding keys by simp
    then show ?thesis
      using Some m gb_protocol_find_complete [OF sq, of m] by (cases k') simp
  qed
  show ?thesis
  proof
    fix k'
    show "proto_uses ?qs k' = ((proto_uses ps)(k \<mapsto> c)) k'"
      using n assms(2) find_key_mem [of ps k']
      by (cases "find_key ps k'")
         (auto simp: proto_uses_find [OF sq] proto_uses_find [OF assms(1)] find nth_list_update)
  qed
qed

lemma register_uses:
  assumes "protocols_sorted ps" "protocol_insert p ps = Some ps'"
  shows "proto_uses ps' = (proto_uses ps)(proto_key p \<mapsto> pr_count p)"
proof (rule proto_uses_eqI [OF assms(1) protocol_insert_sorted [OF assms] refl])
  fix k c
  have "proto_key p \<notin> proto_key ` set ps"
    using protocol_insert_None [OF assms(1), of p] assms(2) by simp
  then show "((proto_uses ps)(proto_key p \<mapsto> pr_count p)) k = Some c \<longleftrightarrow>
      (k, c) \<in> (\<lambda>p. (proto_key p, pr_count p)) ` set ps'"
    by (force simp: protocol_insert_set [OF assms(2)] proto_uses_Some_iff [OF assms(1)])
qed

lemma deregister_uses:
  assumes "protocols_sorted ps" "find_key ps k = Some n"
  shows "proto_uses (take n ps @ drop (Suc n) ps) = (proto_uses ps)(k := None)"
proof (rule proto_uses_eqI [OF assms(1) sorted_remove_nth [OF assms(1)] refl])
  fix k' c
  note n = find_key_mem [OF assms(2)]
  have ps: "ps = take n ps @ ps ! n # drop (Suc n) ps"
    by (rule id_take_nth_drop [OF n(1)])
  have "distinct (map proto_key (take n ps @ ps ! n # drop (Suc n) ps))"
    using protocols_sorted_distinct [OF assms(1)] ps by simp
  then have out: "q \<in> set (take n ps @ drop (Suc n) ps) \<Longrightarrow> proto_key q \<noteq> k" for q
    using n(2) by (auto simp: image_iff)
  have mem: "q \<in> set ps \<longleftrightarrow> q = ps ! n \<or> q \<in> set (take n ps @ drop (Suc n) ps)" for q
    by (subst ps) auto
  show "((proto_uses ps)(k := None)) k' = Some c \<longleftrightarrow>
      (k', c) \<in> (\<lambda>p. (proto_key p, pr_count p)) ` set (take n ps @ drop (Suc n) ps)"
  proof (cases "k' = k")
    case True
    then show ?thesis using out by force
  next
    case False
    then show ?thesis
      using n(2) mem by (fastforce simp: proto_uses_Some_iff [OF assms(1)] image_iff)
  qed
qed

interpretation gbp: protocol_registry protocols_sorted proto_uses
  "\<lambda>k. gb_protocol_register (proto_of k)"
  "\<lambda>k. gb_protocol_deregister (Some (proto_of k))"
  "\<lambda>k ps. snd (gb_protocol_get True (fst k) (fst (snd k)) (snd (snd k)) ps)"
  "\<lambda>k. gb_protocol_put (proto_of k)"
proof (unfold_locales, goal_cases)
  case (1 r k)
  then show ?case
    by (auto simp: gb_protocol_register_def split: option.split intro: protocol_insert_sorted)
next
  case (2 r k)
  then show ?case
    by (auto simp: gb_protocol_deregister_def split: option.split intro: sorted_remove_nth)
next
  case (3 r k)
  then show ?case
    by (auto simp: gb_protocol_get_def split: option.split
        intro: sorted_update_count dest: find_key_mem)
next
  case (4 r k)
  then show ?case
    by (auto simp: gb_protocol_put_def split: option.split
        intro: sorted_update_count dest: find_key_mem)
next
  case (5 r k)
  then have "find_key r k = None" by (simp add: proto_uses_find)
  then have "protocol_insert (proto_of k) r \<noteq> None"
    using 5(1) protocol_insert_None [of r "proto_of k"] gb_protocol_find_None [of r]
    by (cases k) simp
  then show ?case
    using register_uses [OF 5(1), of "proto_of k"] by (auto simp: gb_protocol_register_def)
next
  case (6 r k)
  then have "find_key r k \<noteq> None" by (simp add: proto_uses_find)
  then have "protocol_insert (proto_of k) r = None"
    using 6(1) protocol_insert_None [of r "proto_of k"] gb_protocol_find_None [of r]
    by (cases k) simp
  then show ?case by (simp add: gb_protocol_register_def)
next
  case (7 r k)
  then obtain n where "find_key r k = Some n" "pr_count (r ! n) = 0"
    by (auto simp: proto_uses_find)
  then show ?case
    using deregister_uses [OF 7(1)] by (simp add: gb_protocol_deregister_def)
next
  case (8 r k)
  then show ?case
    by (auto simp: gb_protocol_deregister_def proto_uses_find split: option.split)
next
  case (9 r k)
  then show ?case
    by (auto simp: gb_protocol_get_def proto_uses_find [OF 9] proto_uses_update fun_upd_idem
        split: option.split)
next
  case (10 r k)
  then show ?case
    by (auto simp: gb_protocol_put_def proto_uses_find [OF 10] proto_uses_update fun_upd_idem
        split: option.split)
qed

section \<open>Properties\<close>

text \<open>
  C1 Registering keeps the list sorted, refuses exactly the duplicates (with -EEXIST and the
  list unchanged) and otherwise adds exactly the new protocol.
\<close>

theorem gb_protocol_register_correct:
  assumes "protocols_sorted ps"
  shows "protocols_sorted (snd (gb_protocol_register p ps)) \<and>
    gb_protocol_register p ps =
      (if proto_key p \<in> proto_key ` set ps then (- EEXIST, ps)
       else (0, snd (gb_protocol_register p ps))) \<and>
    (proto_key p \<notin> proto_key ` set ps \<longrightarrow>
       set (snd (gb_protocol_register p ps)) = insert p (set ps))"
  using assms protocol_insert_None [OF assms, of p]
  by (auto simp: gb_protocol_register_def dest: protocol_insert_set intro: protocol_insert_sorted
      split: option.split)

theorem gb_protocol_register_correct_witness:
  "protocols_sorted (snd (gb_protocol_register (proto_of (5, 0, 2)) [proto_of (5, 0, 1)])) \<and>
   snd (gb_protocol_register (proto_of (5, 0, 2)) [proto_of (5, 0, 1)])
     = [proto_of (5, 0, 2), proto_of (5, 0, 1)]"
  using gb_protocol_register_correct [of "[proto_of (5, 0, 1)]" "proto_of (5, 0, 2)"]
  by (simp add: gb_protocol_register_def proto_before_def)

text \<open>
  C2 The search with early exits is exact on a sorted list: it returns a position iff the
  protocol with that id and version is there.
\<close>

theorem gb_protocol_find_exact:
  assumes "protocols_sorted ps"
  shows "gb_protocol_find ps i ma mi = Some n \<longleftrightarrow> n < length ps \<and> proto_key (ps ! n) = (i, ma, mi)"
  using gb_protocol_find_sound gb_protocol_find_complete [OF assms] by blast

theorem gb_protocol_find_exact_witness:
  "gb_protocol_find [proto_of (5, 0, 2), proto_of (5, 0, 1), proto_of (7, 0, 1)] 5 0 1 = Some 1"
  using gb_protocol_find_exact [of "[proto_of (5, 0, 2), proto_of (5, 0, 1), proto_of (7, 0, 1)]" 5 0 1 1]
  by (simp add: proto_before_def)

text \<open>
  The comment in __gb_protocol_register: searching the list by protocol id alone meets the
  newest registered version first.
\<close>

theorem protocols_newest_first:
  assumes "protocols_sorted ps" "List.find (\<lambda>q. pr_id q = i) ps = Some p" "q \<in> set ps" "pr_id q = i"
  shows "pr_major q < pr_major p \<or> pr_major q = pr_major p \<and> pr_minor q \<le> pr_minor p"
  using assms by (induction ps) (auto simp: proto_before_def split: if_splits)

theorem protocols_newest_first_witness:
  "pr_major (proto_of (5, 0, 1)) < pr_major (proto_of (5, 1, 0)) \<or>
   pr_major (proto_of (5, 0, 1)) = pr_major (proto_of (5, 1, 0)) \<and>
   pr_minor (proto_of (5, 0, 1)) \<le> pr_minor (proto_of (5, 1, 0))"
  by (rule protocols_newest_first [of "[proto_of (5, 1, 0), proto_of (5, 0, 1)]" 5])
     (simp_all add: proto_before_def)

text \<open>
  A protocol in use stays registered: after \<open>n \<le> 255\<close> successful gets and fewer puts,
  deregistering it fails and changes nothing.
\<close>

theorem gb_protocol_in_use_kept:
  assumes "protocols_sorted ps" "proto_uses ps (i, ma, mi) = Some 0" "n \<le> 255" "m < n"
  shows "let used = (gb_protocol_put (proto_of (i, ma, mi)) ^^ m)
              (((\<lambda>qs. snd (gb_protocol_get True i ma mi qs)) ^^ n) ps)
         in gb_protocol_deregister (Some (proto_of (i, ma, mi))) used = (False, used)"
  using gbp.in_use_kept [OF assms] by simp

theorem gb_protocol_in_use_kept_witness:
  "let used = (gb_protocol_put (proto_of (5, 0, 1)) ^^ 1)
              (((\<lambda>qs. snd (gb_protocol_get True 5 0 1 qs)) ^^ 2) [proto_of (5, 0, 1)])
   in gb_protocol_deregister (Some (proto_of (5, 0, 1))) used = (False, used)"
  by (rule gb_protocol_in_use_kept) (simp_all add: proto_uses_def)

text \<open>
  The 8-bit use count saturates: with 256 users of a protocol, returning 255 references
  makes it look unused, and deregistering it succeeds although one user is left.
\<close>

theorem gb_protocol_count_saturates:
  assumes "protocols_sorted ps" "proto_uses ps (i, ma, mi) = Some 0"
  shows "fst (gb_protocol_deregister (Some (proto_of (i, ma, mi)))
           ((gb_protocol_put (proto_of (i, ma, mi)) ^^ 255)
             (((\<lambda>qs. snd (gb_protocol_get True i ma mi qs)) ^^ 256) ps)))"
  using gbp.saturated_dropped [OF assms, of 256] by simp

theorem gb_protocol_count_saturates_witness:
  "fst (gb_protocol_deregister (Some (proto_of (5, 0, 1)))
     ((gb_protocol_put (proto_of (5, 0, 1)) ^^ 255)
       (((\<lambda>qs. snd (gb_protocol_get True 5 0 1 qs)) ^^ 256) [proto_of (5, 0, 1)])))"
  by (rule gb_protocol_count_saturates) (simp_all add: proto_uses_def)

end
