(* ===== verification/GB_Endo.thy ===== *)
theory GB_Endo
  imports GB_Prelude
begin

text \<open>
  The endoskeleton (endo.c, endo.h): decoding and validation of the 16-bit endo id, the
  interface-to-module numbering, creation of the modules, and the registration of the endo
  device. Bit masks are words of the width the C code uses, so every shift and truncation of
  the source is visible.
\<close>

section \<open>Layout of an endo\<close>

abbreviation (input) ENDO_LARGE_MASK :: u16 where "ENDO_LARGE_MASK \<equiv> 0x1000"
abbreviation (input) ENDO_MEDIUM_MASK :: u16 where "ENDO_MEDIUM_MASK \<equiv> 0x0400"
abbreviation (input) ENDO_MINI_MASK :: u16 where "ENDO_MINI_MASK \<equiv> 0x0100"
abbreviation (input) ENDO_BACK_RIBS_MINI :: u8 where "ENDO_BACK_RIBS_MINI \<equiv> 4"
abbreviation (input) ENDO_BACK_RIBS_MEDIUM :: u8 where "ENDO_BACK_RIBS_MEDIUM \<equiv> 5"
abbreviation (input) ENDO_BACK_RIBS_LARGE :: u8 where "ENDO_BACK_RIBS_LARGE \<equiv> 6"

record endo_layout =
  front_ribs :: u8
  left_ribs :: u8
  right_ribs :: u8
  max_ribs :: u8

record gb_endo =
  layout :: endo_layout
  dev_id :: u16
  endo_id :: u16
  ap_intf_id :: u8

definition endo_front_mask :: "u16 \<Rightarrow> u8" where
  [gb_defs]: "endo_front_mask i = ucast (drop_bit 13 i)"

definition endo_back_side_ribs_mask :: "nat \<Rightarrow> u32" where
  [gb_defs]: "endo_back_side_ribs_mask ribs = push_bit ribs 1 - 1"

definition endo_back_left_ribs :: "u16 \<Rightarrow> nat \<Rightarrow> u8" where
  [gb_defs]: "endo_back_left_ribs i ribs = ucast (drop_bit ribs (ucast i) AND endo_back_side_ribs_mask ribs)"

definition endo_back_right_ribs :: "u16 \<Rightarrow> nat \<Rightarrow> u8" where
  [gb_defs]: "endo_back_right_ribs i ribs = ucast (ucast i AND endo_back_side_ribs_mask ribs)"

text \<open>max_endo_interface_id: 4 interfaces in front and max_ribs + 1 on each side of the back.\<close>

definition max_endo_interface_id :: "endo_layout \<Rightarrow> nat" where
  [gb_defs]: "max_endo_interface_id l = 4 + (unat (max_ribs l) + 1) * 2"

section \<open>Validation of the endo id\<close>

text \<open>A gap of two missing ribs below position \<open>count\<close>; the loop bound count - 1 is unsigned.\<close>

definition modules_oversized :: "u32 \<Rightarrow> u32 \<Rightarrow> bool" where
  "modules_oversized count ribs =
     list_ex (\<lambda>i. ribs AND push_bit i 3 = 0) [0..<unat (count - 1)]"

function reverse_bits_loop :: "u32 \<Rightarrow> u8 \<Rightarrow> u8 \<Rightarrow> u8 \<Rightarrow> u8" where
  "reverse_bits_loop value value_mask result_mask result =
     (if value \<noteq> 0 \<and> result_mask \<noteq> 0 then
        (if value AND ucast value_mask \<noteq> 0
         then reverse_bits_loop (value XOR ucast value_mask) (push_bit 1 value_mask)
                (drop_bit 1 result_mask) (result OR result_mask)
         else reverse_bits_loop value (push_bit 1 value_mask) (drop_bit 1 result_mask) result)
      else result)"
  by pat_completeness auto

lemma drop_bit_one_less: "(w :: 'a::len word) \<noteq> 0 \<Longrightarrow> unat (drop_bit 1 w) < unat w"
  by (simp add: drop_bit_eq_div unat_div word_unat_eq_iff)

termination reverse_bits_loop
  by (relation "measure (\<lambda>(value, value_mask, result_mask, result). unat result_mask)")
     (auto dest: drop_bit_one_less)

definition reverse_bits :: "u32 \<Rightarrow> nat \<Rightarrow> u8" where
  "reverse_bits value bits = reverse_bits_loop value 1 (push_bit (bits - 1) 1) 0"

definition single_cross_rib :: "u8 \<Rightarrow> u8 \<Rightarrow> bool" where
  "single_cross_rib left right =
     (let span_ribs = left AND right in \<not> (span_ribs AND (span_ribs - 1) \<noteq> 0))"

definition validate_front_ribs :: "endo_layout \<Rightarrow> bool \<Rightarrow> u16 \<Rightarrow> endo_layout option" where
  "validate_front_ribs l mini i =
     (let front_mask = endo_front_mask i in
      if front_mask = 1 then Some (l\<lparr>front_ribs := 0x0\<rparr>)
      else if front_mask = 2 then Some (l\<lparr>front_ribs := 0x1\<rparr>)
      else if front_mask = 3 then Some (l\<lparr>front_ribs := 0x4\<rparr>)
      else if front_mask = 4 then Some (l\<lparr>front_ribs := if mini then 0x2 else 0x3\<rparr>)
      else if front_mask = 5 then Some (l\<lparr>front_ribs := if mini then 0x2 else 0x6\<rparr>)
      else if front_mask = 6 then Some (l\<lparr>front_ribs := 0x5\<rparr>)
      else None)"

definition validate_back_ribs :: "endo_layout \<Rightarrow> u16 \<Rightarrow> endo_layout option" where
  "validate_back_ribs l i =
     (let ribs = max_ribs l;
          left = endo_back_left_ribs i (unat ribs);
          right = endo_back_right_ribs i (unat ribs) in
      if \<not> single_cross_rib left right then None
      else if modules_oversized (ucast ribs) (ucast left) then None
      else if modules_oversized (ucast ribs) (ucast right) then None
      else
        let right = reverse_bits (ucast right) (unat ribs) in
        if ribs \<noteq> ENDO_BACK_RIBS_MEDIUM \<and> left < right then None
        else Some (l\<lparr>left_ribs := left, right_ribs := right\<rparr>))"

definition gb_endo_validate_id :: "endo_layout \<Rightarrow> u16 \<Rightarrow> int + endo_layout" where
  "gb_endo_validate_id l i =
     (case (if i AND ENDO_LARGE_MASK \<noteq> 0 then Some (l\<lparr>max_ribs := ENDO_BACK_RIBS_LARGE\<rparr>)
            else if i AND ENDO_MEDIUM_MASK \<noteq> 0 then Some (l\<lparr>max_ribs := ENDO_BACK_RIBS_MEDIUM\<rparr>)
            else if i AND ENDO_MINI_MASK \<noteq> 0 then Some (l\<lparr>max_ribs := ENDO_BACK_RIBS_MINI\<rparr>)
            else None) of
        None \<Rightarrow> Inl (- EINVAL)
      | Some l1 \<Rightarrow>
         (case validate_back_ribs l1 i of
            None \<Rightarrow> Inl (- EINVAL)
          | Some l2 \<Rightarrow>
             (case validate_front_ribs l2 (max_ribs l2 = ENDO_BACK_RIBS_MINI) i of
                None \<Rightarrow> Inl (- EINVAL)
              | Some l3 \<Rightarrow> Inr l3)))"

section \<open>Modules\<close>

text \<open>
  The loop of endo_get_module_id: walk up from the interface until a rib is met or the side
  ends. \<open>rib_mask >>= 1\<close> is evaluated before each test.
\<close>

function module_id_loop :: "u32 \<Rightarrow> u32 \<Rightarrow> u8 \<Rightarrow> u8" where
  "module_id_loop ribs rib_mask interface_id =
     (let rib_mask' = drop_bit 1 rib_mask in
      if rib_mask' \<noteq> 0 \<and> ribs AND rib_mask' = 0
      then module_id_loop ribs rib_mask' (interface_id - 1) else interface_id)"
  by pat_completeness auto

lemma drop_bit_one_nonzero_less: "drop_bit (Suc 0) (w :: 'a::len word) \<noteq> 0 \<Longrightarrow> unat (drop_bit (Suc 0) w) < unat w"
  using drop_bit_one_less [of w] by force

termination module_id_loop
  by (relation "measure (\<lambda>(ribs, rib_mask, interface_id). unat rib_mask)")
     (auto intro: drop_bit_one_nonzero_less)

text \<open>Shifting 1 by 32 or more positions is undefined in C: \<open>None\<close>.\<close>

definition endo_get_module_id :: "endo_layout \<Rightarrow> u8 \<Rightarrow> u8 option" where
  "endo_get_module_id l interface_id =
     (let height = unat (max_ribs l) + 1;
          iid = unat interface_id - 1 in
      if interface_id = 0 then Some 0
      else
        let (side, iid) =
          (if iid < height then (left_ribs l, iid)
           else if iid < 2 * height then (right_ribs l, iid - height)
           else (front_ribs l, iid - 2 * height)) in
        if 32 \<le> iid then None
        else Some (module_id_loop (ucast side) (push_bit iid 1) interface_id))"

text \<open>
  create_modules: one pass over all interface ids. \<open>mk\<close> says for which module ids
  gb_module_create succeeds; \<open>acc\<close> are the modules created so far, newest last.
\<close>

fun create_modules_loop ::
    "endo_layout \<Rightarrow> (u8 \<Rightarrow> bool) \<Rightarrow> nat list \<Rightarrow> u8 \<Rightarrow> u8 list \<Rightarrow> (int \<times> u8 list) option" where
  "create_modules_loop l mk [] prev acc = Some (0, acc)"
| "create_modules_loop l mk (i # is) prev acc =
     (case endo_get_module_id l (of_nat i) of
        None \<Rightarrow> None
      | Some module_id \<Rightarrow>
         (if module_id = 0 then create_modules_loop l mk is prev acc
          else if module_id = prev then create_modules_loop l mk is prev acc
          else if mk module_id then create_modules_loop l mk is module_id (acc @ [module_id])
          else Some (- EINVAL, acc)))"

definition create_modules :: "endo_layout \<Rightarrow> (u8 \<Rightarrow> bool) \<Rightarrow> (int \<times> u8 list) option" where
  "create_modules l mk = create_modules_loop l mk [1..<max_endo_interface_id l + 1] 0 []"

section \<open>Registration and removal\<close>

text \<open>
  gb_endo_register: \<open>ida_ans\<close> and \<open>add_ans\<close> are the answers of ida_simple_get and device_add.
  The id obtained is never stored in dev_id, which keeps its initial 0.
\<close>

definition gb_endo_register :: "int \<Rightarrow> int \<Rightarrow> gb_endo \<Rightarrow> nat set \<Rightarrow> int \<times> nat set" where
  "gb_endo_register ida_ans add_ans e ids =
     (case ida_simple_get ida_ans 0 0 ids of (retval, ids1) \<Rightarrow>
        if retval < 0 then (retval, ids1)
        else if add_ans \<noteq> 0 then (add_ans, ida_simple_remove (unat (dev_id e)) ids1)
        else (0, ids1))"

definition gb_endo_remove :: "gb_endo option \<Rightarrow> nat set \<times> u8 list \<Rightarrow> nat set \<times> u8 list" where
  "gb_endo_remove e st =
     (case e of None \<Rightarrow> st
      | Some e' \<Rightarrow> (ida_simple_remove (unat (dev_id e')) (fst st), []))"

text \<open>
  gb_endo_create returns an error pointer (\<open>Inl\<close>), NULL (\<open>Inr None\<close>) or the endo. The state
  is the id map and the modules of this endo.
\<close>

definition gb_endo_create ::
    "bool \<Rightarrow> int \<Rightarrow> int \<Rightarrow> (u8 \<Rightarrow> bool) \<Rightarrow> u16 \<Rightarrow> u8 \<Rightarrow> nat set \<Rightarrow>
     ((int + gb_endo option) \<times> nat set \<times> u8 list) option" where
  "gb_endo_create alloc ida_ans add_ans mk i ap ids =
     (if \<not> alloc then Some (Inl (- ENOMEM), ids, [])
      else
        case gb_endo_validate_id \<lparr>front_ribs = 0, left_ribs = 0, right_ribs = 0, max_ribs = 0\<rparr> i of
          Inl _ \<Rightarrow> Some (Inl (- EINVAL), ids, [])
        | Inr l \<Rightarrow>
           (if max_endo_interface_id l < unat ap then Some (Inl (- EINVAL), ids, [])
            else
              let e = \<lparr>layout = l, dev_id = 0, endo_id = i, ap_intf_id = ap\<rparr> in
              case gb_endo_register ida_ans add_ans e ids of (retval, ids1) \<Rightarrow>
                if retval \<noteq> 0 then Some (Inl retval, ids1, [])
                else do {
                  (ret, mods) \<leftarrow> create_modules l mk;
                  if ret \<noteq> 0 then Some (Inr None, gb_endo_remove (Some e) (ids1, mods))
                  else Some (Inr (Some e), ids1, mods)
                }))"

section \<open>Masks\<close>

declare reverse_bits_loop.simps [simp del] module_id_loop.simps [simp del]

lemma u8_all: "(\<forall>w :: u8. P w) \<longleftrightarrow> list_all (\<lambda>n. P (of_nat n)) [0..<256]"
proof -
  have "\<exists>n < 256. w = of_nat n" for w :: u8
    using unsigned_less [of w, where 'a = nat] by (intro exI [of _ "unat w"]) simp
  then show ?thesis by (simp add: list_all_iff) (metis atLeastLessThan_iff zero_le)
qed

lemma single_bit_u8:
  "\<forall>w :: u8. (w AND (w - 1) = 0) = (\<forall>i \<in> set [0..<8]. \<forall>j \<in> set [0..<8]. bit w i \<and> bit w j \<longrightarrow> i = j)"
  unfolding u8_all by code_simp

text \<open>single_cross_rib accepts exactly the masks with at most one common rib.\<close>

lemma single_cross_rib_iff:
  "single_cross_rib l r \<longleftrightarrow> (\<forall>i j. bit l i \<and> bit r i \<and> bit l j \<and> bit r j \<longrightarrow> i = j)"
proof -
  have bound: "bit (w :: u8) i \<Longrightarrow> i < 8" for w i
    using bit_imp_le_length by fastforce
  show ?thesis
    using single_bit_u8 bound by (auto simp: single_cross_rib_def Let_def bit_simps)
qed

lemma and_single_bit: "(w :: 'a::len word) AND push_bit i 1 = 0 \<longleftrightarrow> \<not> bit w i"
  using bit_iff_and_push_bit_not_eq_0 [of w i] by simp

lemma and_three_eq_0: "(w :: u32) AND push_bit i 3 = 0 \<longleftrightarrow> \<not> bit w i \<and> \<not> bit w (Suc i)"
proof -
  have "push_bit i (3 :: u32) = push_bit i (1 OR push_bit 1 1)" by simp
  also have "\<dots> = push_bit i 1 OR push_bit (Suc i) 1"
    by (simp only: push_bit_or push_bit_push_bit) simp
  finally show ?thesis
    by (simp only: bit.conj_disj_distrib or_eq_0_iff and_single_bit)
qed

lemma modules_oversized_iff:
  assumes "0 < unat c" "unat c \<le> 32"
  shows "modules_oversized c r \<longleftrightarrow> (\<exists>i. Suc i < unat c \<and> \<not> bit r i \<and> \<not> bit r (Suc i))"
proof -
  have "1 \<le> c" using assms(1) by (simp add: word_le_nat_alt)
  then have "unat (c - 1) = unat c - 1" by (simp add: unat_sub)
  then show ?thesis
    by (simp add: modules_oversized_def list_ex_iff and_three_eq_0 less_diff_conv Bex_def conj_commute)
qed

subsection \<open>Reversing a mask\<close>

lemma reverse_bits_loop_stop:
  "v0 = 0 \<or> rm = 0 \<Longrightarrow> reverse_bits_loop v0 vm rm res = res"
  by (subst reverse_bits_loop.simps) auto

lemma ucast_push_bit_one: "i < 8 \<Longrightarrow> (ucast (push_bit i (1 :: u8)) :: u32) = push_bit i 1"
  by (rule bit_word_eqI) (auto simp: bit_simps)

lemma and_ucast_power: "i < 8 \<Longrightarrow> (v :: u32) AND ucast ((2 :: u8) ^ i) = 0 \<longleftrightarrow> \<not> bit v i"
  using ucast_push_bit_one [of i] and_single_bit [of v i] by simp

lemma drop_push_one: "drop_bit 1 (push_bit (Suc n) (1 :: u8)) = (if Suc n < 8 then push_bit n 1 else 0)"
  by (rule bit_word_eqI) (auto simp: bit_simps)

lemma push_push_one: "push_bit 1 (push_bit n (1 :: u8)) = push_bit (Suc n) 1"
  by simp

text \<open>
  Loop invariant: \<open>d + 1\<close> positions are left, the bits of the value below the current position
  have been cleared, and the result receives the remaining bits in reverse order.
\<close>

lemma bit_reverse_bits_loop:
  assumes "i + d < 8" "\<And>k. k < i \<Longrightarrow> \<not> bit v0 k"
  shows "bit (reverse_bits_loop v0 (push_bit i 1) (push_bit d 1) res) k \<longleftrightarrow>
    bit res k \<or> k \<le> d \<and> bit v0 (i + d - k)"
  using assms
proof (induction d arbitrary: i v0 res)
  case 0
  have "v0 = 0 \<Longrightarrow> ?case" by (simp add: reverse_bits_loop_stop)
  moreover have "v0 \<noteq> 0 \<Longrightarrow> ?case"
    using 0 by (subst reverse_bits_loop.simps)
      (auto simp: reverse_bits_loop_stop and_ucast_power bit_simps)
  ultimately show ?case by blast
next
  case (Suc d)
  show ?case
  proof (cases "v0 = 0")
    case True
    then show ?thesis by (simp add: reverse_bits_loop_stop)
  next
    case False
    define v where "v = (if bit v0 i then v0 XOR push_bit i 1 else v0)"
    define r where "r = (if bit v0 i then res OR push_bit (Suc d) 1 else res)"
    have i: "i < 8" using Suc.prems(1) by simp
    have "bit (push_bit (Suc d) (1 :: u8)) (Suc d)"
      using Suc.prems(1) by (simp only: bit_push_bit_iff) (auto simp: possible_bit_def)
    then have nz: "push_bit (Suc d) (1 :: u8) \<noteq> 0"
      by (metis bit_0_eq bot_apply bot_bool_def)
    have v: "bit v n \<longleftrightarrow> bit v0 n \<and> n \<noteq> i" for n
      using Suc.prems(1) by (auto simp: v_def bit_simps dest: bit_imp_le_length)
    have "reverse_bits_loop v0 (push_bit i 1) (push_bit (Suc d) 1) res =
        reverse_bits_loop v (push_bit (Suc i) 1) (push_bit d 1) r"
      using False nz Suc.prems(1) i
      by (subst reverse_bits_loop.simps)
         (auto simp: v_def r_def ucast_push_bit_one and_single_bit drop_push_one push_push_one
           simp del: push_bit_of_1 One_nat_def push_bit_Suc drop_bit_Suc push_bit_push_bit)
    moreover have "bit (reverse_bits_loop v (push_bit (Suc i) 1) (push_bit d 1) r) k \<longleftrightarrow>
        bit r k \<or> k \<le> d \<and> bit v (Suc i + d - k)"
      using Suc.prems by (intro Suc.IH) (auto simp: v less_Suc_eq)
    ultimately show ?thesis
      using Suc.prems by (auto simp: v r_def bit_simps le_Suc_eq)
  qed
qed

lemma bit_reverse_bits:
  assumes "0 < n" "n \<le> 8"
  shows "bit (reverse_bits v0 n) k \<longleftrightarrow> k < n \<and> bit v0 (n - 1 - k)"
  using bit_reverse_bits_loop [of 0 "n - 1" v0 0 k] assms
  by (auto simp: reverse_bits_def)

section \<open>Which endo ids are accepted\<close>

lemma bit_back_side_mask: "n < 32 \<Longrightarrow> bit (endo_back_side_ribs_mask n) k \<longleftrightarrow> k < n"
  by (auto simp: endo_back_side_ribs_mask_def bit_mask_iff possible_bit_def
      simp flip: mask_eq_exp_minus_1)

lemma bit_back_left_ribs:
  "n \<le> 8 \<Longrightarrow> bit (endo_back_left_ribs i n) k \<longleftrightarrow> k < n \<and> bit i (n + k)"
  by (auto simp: endo_back_left_ribs_def bit_simps bit_back_side_mask)

lemma bit_back_right_ribs:
  "n \<le> 8 \<Longrightarrow> bit (endo_back_right_ribs i n) k \<longleftrightarrow> k < n \<and> bit i k"
  by (auto simp: endo_back_right_ribs_def bit_simps bit_back_side_mask)

text \<open>
  The layout an endo id stands for: size from bits 12, 10 and 8, left ribs from the upper and
  right ribs (counted from the bottom) from the lower half of the back bits, front ribs from
  the table of front configurations.
\<close>

definition endo_layout_of :: "u16 \<Rightarrow> endo_layout \<Rightarrow> bool" where
  "endo_layout_of i l \<longleftrightarrow>
     (bit i 12 \<or> bit i 10 \<or> bit i 8) \<and>
     max_ribs l = (if bit i 12 then 6 else if bit i 10 then 5 else 4) \<and>
     left_ribs l = endo_back_left_ribs i (unat (max_ribs l)) \<and>
     (\<forall>k. bit (right_ribs l) k \<longleftrightarrow>
        k < unat (max_ribs l) \<and> bit i (unat (max_ribs l) - 1 - k)) \<and>
     endo_front_mask i \<in> {1..6} \<and>
     front_ribs l = [0, 1, 4, if max_ribs l = 4 then 2 else 3, if max_ribs l = 4 then 2 else 6, 5]
        ! (unat (endo_front_mask i) - 1)"

text \<open>
  The geometric rules: no two neighbouring ribs missing on either side, at most one rib that
  spans both sides, and the canonical orientation for the symmetric sizes.
\<close>

definition endo_back_ok :: "nat \<Rightarrow> u8 \<Rightarrow> u8 \<Rightarrow> bool" where
  "endo_back_ok n lr rr \<longleftrightarrow>
     (\<forall>k. Suc k < n \<longrightarrow> bit lr k \<or> bit lr (Suc k)) \<and>
     (\<forall>k. Suc k < n \<longrightarrow> bit rr k \<or> bit rr (Suc k)) \<and>
     (\<forall>j k. j < n \<and> k < n \<and> bit lr j \<and> bit rr (n - 1 - j) \<and> bit lr k \<and> bit rr (n - 1 - k)
        \<longrightarrow> j = k) \<and>
     (n \<noteq> 5 \<longrightarrow> rr \<le> lr)"

definition endo_layout_ok :: "endo_layout \<Rightarrow> bool" where
  [simp]: "endo_layout_ok l \<longleftrightarrow> endo_back_ok (unat (max_ribs l)) (left_ribs l) (right_ribs l)"

lemma and_bit_masks:
  "(i :: u16) AND ENDO_LARGE_MASK \<noteq> 0 \<longleftrightarrow> bit i 12"
  "i AND ENDO_MEDIUM_MASK \<noteq> 0 \<longleftrightarrow> bit i 10"
  "i AND ENDO_MINI_MASK \<noteq> 0 \<longleftrightarrow> bit i 8"
  using and_single_bit [of i 12] and_single_bit [of i 10] and_single_bit [of i 8] by simp_all

lemma front_mask_cases:
  "w \<in> {1..6 :: u8} \<longleftrightarrow> w = 1 \<or> w = 2 \<or> w = 3 \<or> w = 4 \<or> w = 5 \<or> w = 6"
proof -
  have "\<forall>w :: u8. (1 \<le> w \<and> w \<le> 6) = (w = 1 \<or> w = 2 \<or> w = 3 \<or> w = 4 \<or> w = 5 \<or> w = 6)"
    unfolding u8_all by code_simp
  then show ?thesis by simp
qed

lemma validate_front_ribs_Some:
  "validate_front_ribs l mini i = Some l' \<longleftrightarrow>
     endo_front_mask i \<in> {1..6} \<and>
     l' = l\<lparr>front_ribs := [0, 1, 4, if mini then 2 else 3, if mini then 2 else 6, 5]
        ! (unat (endo_front_mask i) - 1)\<rparr>"
  unfolding validate_front_ribs_def front_mask_cases Let_def by (auto split: if_splits)

text \<open>Reversing a mask keeps the gap rule.\<close>

lemma gap_reverse:
  "(\<exists>k. Suc k < n \<and> \<not> P k \<and> \<not> P (Suc k)) \<longleftrightarrow>
   (\<exists>k. Suc k < (n :: nat) \<and> \<not> P (n - 1 - k) \<and> \<not> P (n - 1 - Suc k))" (is "?A \<longleftrightarrow> ?B")
proof
  assume ?A
  then obtain k where "Suc k < n" "\<not> P k" "\<not> P (Suc k)" by blast
  then show ?B by (intro exI [of _ "n - 2 - k"]) (auto simp: Suc_diff_Suc)
next
  assume ?B
  then obtain k where "Suc k < n" "\<not> P (n - 1 - k)" "\<not> P (n - 1 - Suc k)" by blast
  then show ?A by (intro exI [of _ "n - 2 - k"]) (auto simp: Suc_diff_Suc numeral_2_eq_2)
qed

lemma validate_back_ribs_Some:
  fixes l i
  defines "n \<equiv> unat (max_ribs l)"
  defines "lr \<equiv> endo_back_left_ribs i n" and "rr \<equiv> reverse_bits (ucast (endo_back_right_ribs i n)) n"
  assumes "0 < n" "n \<le> 8"
  shows "validate_back_ribs l i = Some l' \<longleftrightarrow>
     l' = l\<lparr>left_ribs := lr, right_ribs := rr\<rparr> \<and> endo_layout_ok l'"
proof -
  have rr: "bit rr k \<longleftrightarrow> k < n \<and> bit i (n - 1 - k)" for k
    using assms(4,5) by (auto simp: rr_def bit_reverse_bits bit_back_right_ribs bit_simps)
  have r: "j < n \<Longrightarrow> bit (endo_back_right_ribs i n) j \<longleftrightarrow> bit rr (n - 1 - j)" for j
    using assms(5) by (simp add: rr bit_back_right_ribs)
  have u: "unat (ucast (max_ribs l) :: u32) = n"
    using assms(5) by (simp add: n_def unsigned_ucast_eq take_bit_nat_eq_self)
  have over_l: "\<not> modules_oversized (ucast (max_ribs l)) (ucast lr) \<longleftrightarrow>
      (\<forall>k. Suc k < n \<longrightarrow> bit lr k \<or> bit lr (Suc k))"
    using assms(4,5) by (auto simp: modules_oversized_iff u bit_simps)
  have "modules_oversized (ucast (max_ribs l)) (ucast (endo_back_right_ribs i n)) \<longleftrightarrow>
      (\<exists>k. Suc k < n \<and> \<not> bit (endo_back_right_ribs i n) k \<and> \<not> bit (endo_back_right_ribs i n) (Suc k))"
    using assms(4,5) by (auto simp: modules_oversized_iff u bit_simps)
  also have "\<dots> \<longleftrightarrow> (\<exists>k. Suc k < n \<and> \<not> bit rr k \<and> \<not> bit rr (Suc k))"
    by (subst gap_reverse) (auto simp: r)
  finally have over_r: "\<not> modules_oversized (ucast (max_ribs l)) (ucast (endo_back_right_ribs i n)) \<longleftrightarrow>
      (\<forall>k. Suc k < n \<longrightarrow> bit rr k \<or> bit rr (Suc k))" by blast
  have lr_lt: "bit lr j \<Longrightarrow> j < n" for j
    using assms(5) by (simp add: lr_def bit_back_left_ribs)
  have cross: "single_cross_rib lr (endo_back_right_ribs i n) \<longleftrightarrow>
      (\<forall>j k. j < n \<and> k < n \<and> bit lr j \<and> bit rr (n - 1 - j) \<and> bit lr k \<and> bit rr (n - 1 - k) \<longrightarrow> j = k)"
    unfolding single_cross_rib_iff using lr_lt r by (metis)
  have five: "max_ribs l = 5 \<longleftrightarrow> n = 5"
    by (simp add: n_def word_unat_eq_iff)
  have "validate_back_ribs l i =
     (if \<not> single_cross_rib lr (endo_back_right_ribs i n) then None
      else if modules_oversized (ucast (max_ribs l)) (ucast lr) then None
      else if modules_oversized (ucast (max_ribs l)) (ucast (endo_back_right_ribs i n)) then None
      else if n \<noteq> 5 \<and> lr < rr then None
      else Some (l\<lparr>left_ribs := lr, right_ribs := rr\<rparr>))"
    unfolding validate_back_ribs_def Let_def rr_def lr_def n_def [symmetric] five by simp
  moreover have "endo_back_ok n lr rr \<longleftrightarrow>
      single_cross_rib lr (endo_back_right_ribs i n) \<and>
      \<not> modules_oversized (ucast (max_ribs l)) (ucast lr) \<and>
      \<not> modules_oversized (ucast (max_ribs l)) (ucast (endo_back_right_ribs i n)) \<and>
      (n \<noteq> 5 \<longrightarrow> rr \<le> lr)"
    unfolding over_l over_r cross endo_back_ok_def by (simp only: conj_ac)
  ultimately show ?thesis by (auto simp: n_def [symmetric] not_less)
qed

lemma endo_layout_of_back:
  assumes "0 < n" "n \<le> 8"
  shows "(\<forall>k. bit r k \<longleftrightarrow> k < n \<and> bit i (n - 1 - k)) \<longleftrightarrow>
    r = reverse_bits (ucast (endo_back_right_ribs i n)) n"
proof -
  have "bit (reverse_bits (ucast (endo_back_right_ribs i n)) n) k \<longleftrightarrow> k < n \<and> bit i (n - 1 - k)" for k
    using assms by (auto simp: bit_reverse_bits bit_back_right_ribs bit_simps)
  then show ?thesis by (auto intro!: bit_word_eqI)
qed

lemma endo_layout_of_alt:
  "endo_layout_of i l \<longleftrightarrow>
     (let n = (if bit i 12 then 6 else if bit i 10 then 5 else 4) :: u8 in
      (bit i 12 \<or> bit i 10 \<or> bit i 8) \<and> endo_front_mask i \<in> {1..6} \<and>
      l = \<lparr>front_ribs = [0, 1, 4, if n = 4 then 2 else 3, if n = 4 then 2 else 6, 5]
               ! (unat (endo_front_mask i) - 1),
           left_ribs = endo_back_left_ribs i (unat n),
           right_ribs = reverse_bits (ucast (endo_back_right_ribs i (unat n))) (unat n),
           max_ribs = n\<rparr>)"
proof -
  define n :: u8 where "n = (if bit i 12 then 6 else if bit i 10 then 5 else 4)"
  have n: "0 < unat n" "unat n \<le> 8" by (auto simp: n_def)
  obtain f le ri ma where l: "l = \<lparr>front_ribs = f, left_ribs = le, right_ribs = ri, max_ribs = ma\<rparr>"
    by (cases l)
  show ?thesis
    unfolding endo_layout_of_def Let_def n_def [symmetric] l endo_layout.simps endo_layout.iffs
    using endo_layout_of_back [OF n, of ri i] by metis
qed

text \<open>
  C3 The endo id is accepted exactly when it denotes a layout that satisfies the geometric
  rules, and the layout returned is the one it denotes.
\<close>

theorem gb_endo_validate_id_exact:
  "gb_endo_validate_id l0 i = Inr l \<longleftrightarrow> endo_layout_of i l \<and> endo_layout_ok l"
proof -
  define n :: u8 where "n = (if bit i 12 then 6 else if bit i 10 then 5 else 4)"
  define l1 where "l1 = l0\<lparr>max_ribs := n\<rparr>"
  have n: "0 < unat (max_ribs l1)" "unat (max_ribs l1) \<le> 8"
    by (auto simp: l1_def n_def)
  have of_l1: "endo_layout_of i l \<and> endo_layout_ok l \<longleftrightarrow> (bit i 12 \<or> bit i 10 \<or> bit i 8) \<and>
     (\<exists>l2. l2 = l1\<lparr>left_ribs := endo_back_left_ribs i (unat n),
            right_ribs := reverse_bits (ucast (endo_back_right_ribs i (unat n))) (unat n)\<rparr> \<and>
        endo_layout_ok l2 \<and> validate_front_ribs l2 (n = 4) i = Some l)"
    unfolding endo_layout_of_alt n_def [symmetric] validate_front_ribs_Some
    by (cases l0) (auto simp: l1_def Let_def)
  show ?thesis
  proof (cases "bit i 12 \<or> bit i 10 \<or> bit i 8")
    case True
    then have "gb_endo_validate_id l0 i = (case validate_back_ribs l1 i of None \<Rightarrow> Inl (- EINVAL)
       | Some l2 \<Rightarrow> (case validate_front_ribs l2 (max_ribs l2 = 4) i of None \<Rightarrow> Inl (- EINVAL) | Some l3 \<Rightarrow> Inr l3))"
      by (auto simp: gb_endo_validate_id_def and_bit_masks l1_def n_def)
    then have "gb_endo_validate_id l0 i = Inr l \<longleftrightarrow>
       (\<exists>l2. validate_back_ribs l1 i = Some l2 \<and> validate_front_ribs l2 (max_ribs l2 = 4) i = Some l)"
      by (auto split: option.splits)
    then show ?thesis
      unfolding validate_back_ribs_Some [OF n] of_l1 using True by (auto simp: l1_def)
  next
    case False
    then show ?thesis by (auto simp: gb_endo_validate_id_def and_bit_masks endo_layout_of_def)
  qed
qed

section \<open>Interfaces and modules\<close>

lemma drop_push_one_u32:
  "Suc j < 32 \<Longrightarrow> drop_bit (Suc 0) (push_bit (Suc j) (1 :: u32)) = push_bit j 1"
  by (rule bit_word_eqI) (auto simp: bit_simps)

lemma push_one_nonzero: "j < 32 \<Longrightarrow> push_bit j (1 :: u32) \<noteq> 0"
  using bit_push_bit_iff [of j "1 :: u32" j] by (auto simp: possible_bit_def)

text \<open>
  \<open>module_top ribs j\<close> is how many positions the module of position \<open>j\<close> reaches up: the
  specification of the rib walk, by recursion on the position.
\<close>

fun module_top :: "u32 \<Rightarrow> nat \<Rightarrow> nat" where
  "module_top ribs 0 = 0"
| "module_top ribs (Suc j) = (if bit ribs j then 0 else Suc (module_top ribs j))"

lemma module_id_loop_eq:
  "j < 32 \<Longrightarrow> module_id_loop ribs (push_bit j 1) x = x - of_nat (module_top ribs j)"
proof (induction j arbitrary: x)
  case 0
  show ?case by (subst module_id_loop.simps) (simp add: Let_def)
next
  case (Suc j)
  show ?case
  proof (cases "bit ribs j")
    case True
    then show ?thesis
      using Suc.prems and_single_bit [of ribs j]
      by (subst module_id_loop.simps)
         (simp add: Let_def drop_push_one_u32 del: push_bit_of_1 push_bit_Suc drop_bit_Suc)
  next
    case False
    then have "module_id_loop ribs (push_bit (Suc j) 1) x = module_id_loop ribs (push_bit j 1) (x - 1)"
      using Suc.prems and_single_bit [of ribs j] push_one_nonzero [of j]
      by (subst module_id_loop.simps)
         (simp add: Let_def drop_push_one_u32 del: push_bit_of_1 push_bit_Suc drop_bit_Suc)
    with False Suc show ?thesis by simp
  qed
qed

lemma module_top_le: "module_top ribs j \<le> j"
  by (induction j) auto

lemma module_top_spec:
  "(\<forall>k. j - module_top ribs j \<le> k \<and> k < j \<longrightarrow> \<not> bit ribs k) \<and>
   (module_top ribs j = j \<or> bit ribs (j - module_top ribs j - 1))"
  by (induction j) (auto simp: less_Suc_eq module_top_le Suc_diff_le)

text \<open>
  The side of an interface: its rib mask and the number of its first interface. The back left
  side comes first, then back right, then front.
\<close>

definition endo_side :: "endo_layout \<Rightarrow> nat \<Rightarrow> u32 \<times> nat" where
  "endo_side l x =
     (let h = unat (max_ribs l) + 1 in
      if x \<le> h then (ucast (left_ribs l), 1)
      else if x \<le> 2 * h then (ucast (right_ribs l), 1 + h)
      else (ucast (front_ribs l), 1 + 2 * h))"

definition module_of :: "endo_layout \<Rightarrow> nat \<Rightarrow> nat" where
  "module_of l x = (case endo_side l x of (ribs, first) \<Rightarrow> x - module_top ribs (x - first))"

definition endo_intf :: "endo_layout \<Rightarrow> nat \<Rightarrow> bool" where
  "endo_intf l x \<longleftrightarrow> 1 \<le> x \<and> x \<le> max_endo_interface_id l"

lemma endo_side_first: "1 \<le> x \<Longrightarrow> endo_side l x = (ribs, first) \<Longrightarrow> 1 \<le> first \<and> first \<le> x"
  by (auto simp: endo_side_def Let_def split: if_splits)

lemma endo_get_module_id_eq:
  assumes "unat (max_ribs l) \<le> 30" "endo_intf l x"
  shows "endo_get_module_id l (of_nat x) = Some (of_nat (module_of l x))"
proof -
  obtain ribs first where side: "endo_side l x = (ribs, first)" by fastforce
  have x: "1 \<le> x" "x < 256" using assms by (auto simp: endo_intf_def max_endo_interface_id_def)
  have ux: "unat (of_nat x :: u8) = x" using x by (simp add: unat_of_nat)
  have nz: "of_nat x \<noteq> (0 :: u8)" using x ux by (metis not_one_le_zero unat_0)
  have "endo_get_module_id l (of_nat x) =
      Some (module_id_loop ribs (push_bit (x - first) 1) (of_nat x)) \<and> x - first < 32"
    using assms x side nz ux
    by (auto simp: endo_get_module_id_def endo_side_def Let_def endo_intf_def
        max_endo_interface_id_def not_less split: if_splits)
  moreover have "module_top ribs (x - first) \<le> x"
    using module_top_le [of ribs "x - first"] by simp
  ultimately show ?thesis
    by (simp add: module_id_loop_eq module_of_def side of_nat_diff del: push_bit_of_1)
qed

lemma module_of_bounds: "1 \<le> x \<Longrightarrow> 1 \<le> module_of l x \<and> module_of l x \<le> x"
  using endo_side_first [of x l] module_top_le [of "fst (endo_side l x)" "x - snd (endo_side l x)"]
  by (cases "endo_side l x") (auto simp: module_of_def)

text \<open>Neighbouring interfaces are in the same module or the later one starts a module.\<close>

lemma module_of_Suc:
  assumes "1 \<le> x" shows "module_of l (Suc x) = module_of l x \<or> module_of l (Suc x) = Suc x"
proof -
  obtain ribs first where side: "endo_side l (Suc x) = (ribs, first)" by fastforce
  show ?thesis
  proof (cases "first = Suc x")
    case True
    then show ?thesis by (simp add: module_of_def side)
  next
    case False
    then have same: "endo_side l x = (ribs, first)" and first: "first \<le> x"
      using side assms by (auto simp: endo_side_def Let_def split: if_splits)
    show ?thesis
      by (simp add: module_of_def side same Suc_diff_le [OF first])
  qed
qed

lemma module_of_idem: "1 \<le> x \<Longrightarrow> module_of l (module_of l x) = module_of l x"
proof (induction x rule: dec_induct)
  case base
  show ?case using module_of_bounds [of 1 l] by (metis le_antisym le_refl)
next
  case (step x)
  then show ?case using module_of_Suc [of x l] by metis
qed

lemma create_modules_loop_eq:
  assumes "unat (max_ribs l) \<le> 30" "1 \<le> a" "b \<le> Suc (max_endo_interface_id l)"
    and mk: "\<And>x. x \<in> {a..<b} \<Longrightarrow> module_of l x = x \<Longrightarrow> mk (of_nat x)"
    and prev: "prev = (if a = 1 then 0 else of_nat (module_of l (a - 1)))"
  shows "create_modules_loop l mk [a..<b] prev acc =
    Some (0, acc @ map of_nat (filter (\<lambda>x. module_of l x = x) [a..<b]))"
  using assms(2-)
proof (induction "b - a" arbitrary: a prev acc)
  case 0
  then show ?case by simp
next
  case (Suc d)
  then have ab: "a < b" by simp
  have intf: "endo_intf l a" using Suc.prems ab by (simp add: endo_intf_def)
  have small: "\<And>x y. 1 \<le> x \<Longrightarrow> x \<le> a \<Longrightarrow> y \<le> a \<Longrightarrow> (of_nat x = (of_nat y :: u8)) = (x = y)"
    using intf assms(1)
    by (auto simp: endo_intf_def max_endo_interface_id_def word_of_nat_eq_iff take_bit_nat_eq_self)
  have le: "1 \<le> module_of l a" "module_of l a \<le> a"
    using module_of_bounds Suc.prems(1) by blast+
  have nz: "of_nat (module_of l a) \<noteq> (0 :: u8)"
    using small [OF le, of 0] le by simp
  have new: "of_nat (module_of l a) = prev \<longleftrightarrow> module_of l a \<noteq> a"
  proof (cases "a = 1")
    case True
    then show ?thesis using nz le Suc.prems(4) by auto
  next
    case False
    then have a1: "1 \<le> a - 1" "Suc (a - 1) = a" using Suc.prems(1) by auto
    have "of_nat (module_of l a) = prev \<longleftrightarrow> module_of l a = module_of l (a - 1)"
    proof -
      have "module_of l (a - 1) \<le> a" using module_of_bounds [OF a1(1), of l] by linarith
      from small [OF le this] show ?thesis using Suc.prems(4) False by simp
    qed
    then show ?thesis
      using module_of_Suc [OF a1(1), of l] module_of_bounds [OF a1(1), of l] a1(2) by auto
  qed
  have upt: "[a..<b] = a # [Suc a..<b]" using ab by (simp add: upt_conv_Cons)
  have rec: "create_modules_loop l mk [Suc a..<b] (of_nat (module_of l a)) acc' =
      Some (0, acc' @ map of_nat (filter (\<lambda>x. module_of l x = x) [Suc a..<b]))" for acc'
    using Suc.hyps(2) Suc.prems ab by (intro Suc.hyps(1)) auto
  show ?case
    using nz new rec Suc.prems(3) ab
    by (auto simp: upt endo_get_module_id_eq [OF assms(1) intf])
qed

section \<open>Properties of the numbering\<close>

text \<open>
  Endo_get_module_id maps every interface of the endo to the lowest interface of its
  module: on the interface's side, with no rib between the two, and either at the top of the
  side or directly below a rib.
\<close>

theorem endo_get_module_id_correct:
  assumes "unat (max_ribs l) \<le> 6" "1 \<le> x" "x \<le> max_endo_interface_id l"
    and "endo_side l x = (ribs, first)"
  shows "\<exists>m. endo_get_module_id l (of_nat x) = Some (of_nat m) \<and> first \<le> m \<and> m \<le> x \<and>
     (\<forall>k. m \<le> k \<and> k < x \<longrightarrow> \<not> bit ribs (k - first)) \<and>
     (m = first \<or> bit ribs (m - first - 1))"
proof (intro exI conjI allI impI)
  let ?t = "module_top ribs (x - first)" and ?m = "module_of l x"
  have m: "?m = x - ?t" by (simp add: module_of_def assms(4))
  have first: "first \<le> x" using endo_side_first [OF assms(2,4)] by simp
  have t: "?t \<le> x - first" by (rule module_top_le)
  note spec = module_top_spec [of "x - first" ribs]
  show "endo_get_module_id l (of_nat x) = Some (of_nat ?m)"
    using assms by (intro endo_get_module_id_eq) (auto simp: endo_intf_def)
  show "first \<le> ?m" "?m \<le> x" using m t first by auto
  show "\<not> bit ribs (k - first)" if "?m \<le> k \<and> k < x" for k
  proof -
    have "x - first - ?t \<le> k - first \<and> k - first < x - first"
      using that m t first by auto
    then show ?thesis using spec by blast
  qed
  show "?m = first \<or> bit ribs (?m - first - 1)"
    using spec m t first by (auto simp: add.commute)
qed

theorem endo_get_module_id_correct_witness:
  "\<exists>m. endo_get_module_id \<lparr>front_ribs = 4, left_ribs = 0x16, right_ribs = 0x15, max_ribs = 5\<rparr> (of_nat 2)
      = Some (of_nat m) \<and> 1 \<le> m \<and> m \<le> 2 \<and>
     (\<forall>k. m \<le> k \<and> k < 2 \<longrightarrow> \<not> bit (0x16 :: u32) (k - 1)) \<and>
     (m = 1 \<or> bit (0x16 :: u32) (m - 1 - 1))"
  by (rule endo_get_module_id_correct)
     (simp_all add: max_endo_interface_id_def endo_side_def)

text \<open>
  Create_modules creates every module exactly once, in ascending order: the module ids are
  the interfaces that are the lowest of their module, and every interface finds its module
  among them.
\<close>

theorem create_modules_correct:
  assumes "unat (max_ribs l) \<le> 6" "\<And>m. mk m"
  shows "\<exists>ms. create_modules l mk = Some (0, map of_nat ms) \<and> sorted_wrt (<) ms \<and>
    (\<forall>x. 1 \<le> x \<and> x \<le> max_endo_interface_id l \<longrightarrow>
       (\<exists>m \<in> set ms. endo_get_module_id l (of_nat x) = Some (of_nat m)))"
proof (intro exI conjI allI impI)
  let ?ms = "filter (\<lambda>x. module_of l x = x) [1..<max_endo_interface_id l + 1]"
  show "create_modules l mk = Some (0, map of_nat ?ms)"
    unfolding create_modules_def
    using assms by (subst create_modules_loop_eq) auto
  show "sorted_wrt (<) ?ms" by (rule sorted_wrt_filter) (rule sorted_wrt_upt)
  show "\<exists>m \<in> set ?ms. endo_get_module_id l (of_nat x) = Some (of_nat m)"
    if "1 \<le> x \<and> x \<le> max_endo_interface_id l" for x
  proof (rule bexI [of _ "module_of l x"])
    show "endo_get_module_id l (of_nat x) = Some (of_nat (module_of l x))"
      using assms(1) that by (intro endo_get_module_id_eq) (auto simp: endo_intf_def)
    show "module_of l x \<in> set ?ms"
    proof -
      have "module_of l x \<in> {1..<max_endo_interface_id l + 1}"
        using that module_of_bounds [of x l] by auto
      then show ?thesis using that module_of_idem [of x l] by (simp only: set_filter set_upt) simp
    qed
  qed
qed

theorem create_modules_correct_witness:
  "\<exists>ms. create_modules \<lparr>front_ribs = 4, left_ribs = 0xa, right_ribs = 0x5, max_ribs = 4\<rparr> (\<lambda>_. True)
      = Some (0, map of_nat ms) \<and> sorted_wrt (<) ms \<and>
    (\<forall>x. 1 \<le> x \<and> x \<le> max_endo_interface_id
          \<lparr>front_ribs = 4, left_ribs = 0xa, right_ribs = 0x5, max_ribs = 4\<rparr> \<longrightarrow>
       (\<exists>m \<in> set ms. endo_get_module_id
          \<lparr>front_ribs = 4, left_ribs = 0xa, right_ribs = 0x5, max_ribs = 4\<rparr> (of_nat x) = Some (of_nat m)))"
  by (rule create_modules_correct) simp_all

section \<open>Endo ids\<close>

text \<open>
  Gb_endo_register does not keep the id it was given (dev_id stays 0), so removing an endo
  frees id 0: after two endos have been created, removing the second leaves its own id
  allocated and releases the id of the first one.
\<close>

theorem gb_endo_remove_wrong_id:
  assumes "gb_endo_create True a1 0 mk i1 ap1 {} = Some (Inr (Some e1), ids1, ms1)"
    and "gb_endo_create True a2 0 mk i2 ap2 ids1 = Some (Inr (Some e2), ids2, ms2)"
    and "a1 = 0"
  shows "0 \<in> ids2 \<and> nat a2 \<in> ids2 \<and> nat a2 \<noteq> 0 \<and>
    fst (gb_endo_remove (Some e2) (ids2, ms2)) = {nat a2}"
proof -
  have dev: "gb_endo_create True a 0 mk i ap ids = Some (Inr (Some e), ids', ms) \<Longrightarrow>
      dev_id e = 0 \<and> nat a \<notin> ids \<and> ids' = insert (nat a) ids" for a i ap ids e ids' ms
    by (auto simp: gb_endo_create_def gb_endo_register_def ida_simple_get_def Let_def
        split: sum.splits if_splits bind_splits)
  from dev [OF assms(1)] dev [OF assms(2)] assms(3) show ?thesis
    by (auto simp: gb_endo_remove_def ida_simple_remove_def)
qed

lemma endo_create_example:
  "gb_endo_create True a 0 (\<lambda>_. True) 0x2555 1 ids =
    (case ida_simple_get a 0 0 ids of (r, ids1) \<Rightarrow>
       if r < 0 then Some (Inl r, ids1, [])
       else Some (Inr (Some \<lparr>layout = \<lparr>front_ribs = 0, left_ribs = 0xa, right_ribs = 0x15, max_ribs = 5\<rparr>,
              dev_id = 0, endo_id = 0x2555, ap_intf_id = 1\<rparr>), ids1,
              [1, 3, 5, 7, 8, 10, 12, 13]))"
proof -
  have "gb_endo_validate_id \<lparr>front_ribs = 0, left_ribs = 0, right_ribs = 0, max_ribs = 0\<rparr> 0x2555 =
      Inr \<lparr>front_ribs = 0, left_ribs = 0xa, right_ribs = 0x15, max_ribs = 5\<rparr>"
    by code_simp
  moreover have "create_modules \<lparr>front_ribs = 0, left_ribs = 0xa, right_ribs = 0x15, max_ribs = 5\<rparr> (\<lambda>_. True)
      = Some (0, [1, 3, 5, 7, 8, 10, 12, 13])"
    by code_simp
  ultimately show ?thesis
    by (auto simp: gb_endo_create_def gb_endo_register_def Let_def max_endo_interface_id_def
        split: prod.splits)
qed

theorem gb_endo_remove_wrong_id_witness:
  "0 \<in> {0, 1 :: nat} \<and> nat 1 \<in> {0, 1 :: nat} \<and> nat 1 \<noteq> 0 \<and>
   fst (gb_endo_remove (Some \<lparr>layout = \<lparr>front_ribs = 0, left_ribs = 0xa, right_ribs = 0x15, max_ribs = 5\<rparr>,
              dev_id = 0, endo_id = 0x2555, ap_intf_id = 1\<rparr>) ({0, 1}, [1, 3, 5, 7, 8, 10, 12, 13])) = {nat 1}"
  by (rule gb_endo_remove_wrong_id [where ?a1.0 = 0 and mk = "\<lambda>_. True" and ?i1.0 = "0x2555"
      and ?ap1.0 = 1 and ?ids1.0 = "{0}" and ?a2.0 = 1 and ?i2.0 = "0x2555" and ?ap2.0 = 1])
     (simp_all add: endo_create_example ida_simple_get_def insert_commute)

text \<open>
  Endo_get_module_id is undefined (it shifts by 32 or more) exactly for interface ids far
  beyond the last interface of the endo; no caller on the hotplug path checks the id first.
\<close>

theorem endo_get_module_id_undefined:
  "endo_get_module_id l x = None \<longleftrightarrow> 2 * (unat (max_ribs l) + 1) + 33 \<le> unat x \<or>
     33 \<le> unat x \<and> unat x \<le> unat (max_ribs l) + 1 \<or>
     unat (max_ribs l) + 34 \<le> unat x \<and> unat x \<le> 2 * (unat (max_ribs l) + 1)"
proof (cases "x = 0")
  case False
  then have "1 \<le> unat x" by (metis One_nat_def Suc_leI unat_gt_0)
  with False show ?thesis
    by (auto simp: endo_get_module_id_def Let_def split: if_splits)
qed (simp add: endo_get_module_id_def)

end
