(* ===== verification/GB_Message.thy ===== *)
theory GB_Message
  imports GB_Prelude
begin

text \<open>
  Greybus messages (operation.c, operation.h, greybus_protocols.h): the 8-byte operation header,
  allocation and initialisation of message buffers, and the two mappings between wire status
  codes and errno values. The header codec is an instance of the locale \<open>wire_format\<close>, the
  interface of every packed structure that crosses the wire.
\<close>

section \<open>Packed wire structures\<close>

text \<open>
  A packed structure of \<open>n\<close> bytes: \<open>enc\<close> lays it out, \<open>dec\<close> reads it back from the start of a
  buffer that may hold more data behind it, and fails on a shorter buffer.
\<close>

locale wire_format =
  fixes n :: nat
    and enc :: "'a \<Rightarrow> bytes"
    and dec :: "bytes \<Rightarrow> 'a option"
  assumes enc_length: "length (enc x) = n"
    and dec_enc: "dec (enc x @ rest) = Some x"
    and dec_short: "length bs < n \<Longrightarrow> dec bs = None"
    and dec_long: "n \<le> length bs \<Longrightarrow> dec bs \<noteq> None"
begin

lemma dec_defined_iff: "(\<exists>x. dec bs = Some x) \<longleftrightarrow> n \<le> length bs"
  using dec_short [of bs] dec_long [of bs] by (cases "n \<le> length bs") auto

lemma enc_inj: "enc x = enc y \<Longrightarrow> x = y"
  using dec_enc [of x "[]"] dec_enc [of y "[]"] by simp

text \<open>Two structures written one behind the other are read back one behind the other.\<close>

lemma enc_prefix_free: "enc x @ r = enc y @ s \<Longrightarrow> x = y \<and> r = s"
  using dec_enc [of x r] dec_enc [of y s] enc_length [of x] enc_length [of y]
  by (metis append_eq_append_conv option.inject)

end

section \<open>The operation header\<close>

record gb_operation_msg_hdr =
  h_size :: u16
  h_operation_id :: u16
  h_type :: u8
  h_result :: u8
  h_pad0 :: u8
  h_pad1 :: u8

abbreviation (input) HDR_SIZE :: nat where "HDR_SIZE \<equiv> 8"

definition hdr_bytes :: "gb_operation_msg_hdr \<Rightarrow> bytes" where
  "hdr_bytes h = cpu_to_le16 (h_size h) @ cpu_to_le16 (h_operation_id h) @
     [h_type h, h_result h, h_pad0 h, h_pad1 h]"

text \<open>memcpy of the header out of a received buffer and the le16_to_cpu of its fields.\<close>

definition hdr_of :: "bytes \<Rightarrow> gb_operation_msg_hdr option" where
  "hdr_of data =
     (if length data < HDR_SIZE then None
      else Some \<lparr>h_size = le16_to_cpu (data ! 0) (data ! 1),
                 h_operation_id = le16_to_cpu (data ! 2) (data ! 3),
                 h_type = data ! 4, h_result = data ! 5, h_pad0 = data ! 6, h_pad1 = data ! 7\<rparr>)"

interpretation msg_hdr: wire_format HDR_SIZE hdr_bytes hdr_of
  by unfold_locales (auto simp: hdr_bytes_def hdr_of_def cpu_to_le16_def nth_append)

section \<open>Message buffers\<close>

abbreviation (input) GB_OPERATION_TYPE_INVALID :: u8 where "GB_OPERATION_TYPE_INVALID \<equiv> 0x00"
abbreviation (input) GB_MESSAGE_TYPE_RESPONSE :: u8 where "GB_MESSAGE_TYPE_RESPONSE \<equiv> 0x80"

text \<open>
  struct gb_message: the header is the start of the buffer and the payload the bytes behind it
  (NULL when payload_size is 0).
\<close>

record gb_message =
  buffer :: bytes
  payload_size :: size_t

definition payload :: "gb_message \<Rightarrow> bytes option" where
  "payload m = (if payload_size m = 0 then None else Some (drop HDR_SIZE (buffer m)))"

text \<open>
  gb_operation_message_init. The writes go to the buffer the caller allocated; a buffer smaller
  than the header makes them a fault.
\<close>

definition gb_operation_message_init :: "gb_message \<Rightarrow> size_t \<Rightarrow> u8 \<Rightarrow> gb_message option" where
  "gb_operation_message_init m psize type =
     (let m = m\<lparr>payload_size := psize\<rparr> in
      if type \<noteq> GB_OPERATION_TYPE_INVALID then do {
        let message_size = (ucast (8 + psize) :: u16);
        b1 \<leftarrow> wr_bytes (buffer m) 0 (cpu_to_le16 message_size);
        b2 \<leftarrow> wr_bytes b1 2 (cpu_to_le16 0);
        b3 \<leftarrow> wr_bytes b2 4 [type];
        b4 \<leftarrow> wr_bytes b3 5 [0];
        Some (m\<lparr>buffer := b4\<rparr>)
      } else Some m)"

text \<open>
  gb_operation_message_alloc: \<open>msg_ok\<close> and \<open>buf_ok\<close> tell whether the two allocations succeed.
  The size is computed in size_t and can wrap around. NULL is \<open>Some None\<close>.
\<close>

definition gb_operation_message_alloc ::
    "size_t \<Rightarrow> bool \<Rightarrow> bool \<Rightarrow> u8 \<Rightarrow> size_t \<Rightarrow> gb_message option option" where
  "gb_operation_message_alloc buffer_size_max msg_ok buf_ok type psize =
     (let message_size = psize + 8 in
      if buffer_size_max < message_size then Some None
      else if \<not> msg_ok then Some None
      else if \<not> buf_ok then Some None
      else do {
        m \<leftarrow> gb_operation_message_init
               \<lparr>buffer = replicate (unat message_size) 0, payload_size = 0\<rparr> psize type;
        Some (Some m)
      })"

text \<open>A well-formed message: its buffer is exactly header plus payload.\<close>

definition msg_wf :: "gb_message \<Rightarrow> bool" where
  "msg_wf m \<longleftrightarrow> length (buffer m) = HDR_SIZE + unat (payload_size m)"

lemma gb_operation_message_init_Some:
  assumes "HDR_SIZE \<le> length (buffer m)"
  shows "\<exists>m'. gb_operation_message_init m psize type = Some m' \<and>
     payload_size m' = psize \<and> length (buffer m') = length (buffer m)"
proof (cases "type = 0")
  case True
  then show ?thesis by (simp add: gb_operation_message_init_def Let_def)
next
  case False
  obtain b1 where b1: "wr_bytes (buffer m) 0 (cpu_to_le16 (ucast (8 + psize))) = Some b1"
      "length b1 = length (buffer m)"
    using assms by (auto simp: wr_bytes_def)
  obtain b2 where b2: "wr_bytes b1 2 (cpu_to_le16 0) = Some b2" "length b2 = length (buffer m)"
    using assms b1 by (auto simp: wr_bytes_def)
  obtain b3 where b3: "wr_bytes b2 4 [type] = Some b3" "length b3 = length (buffer m)"
    using assms b2 by (auto simp: wr_bytes_def)
  obtain b4 where b4: "wr_bytes b3 5 [0] = Some b4" "length b4 = length (buffer m)"
    using assms b3 by (auto simp: wr_bytes_def)
  show ?thesis
    using False b1 b2 b3 b4 by (simp add: gb_operation_message_init_def Let_def)
qed

lemma message_size_no_wrap:
  assumes "unat (psize :: size_t) \<le> 2 ^ 63"
  shows "unat (psize + 8) = unat psize + 8"
  using assms by (subst unat_add_lem [THEN iffD1]) auto

text \<open>
  With a payload size that does not wrap, allocation is free of faults: it returns NULL (too big
  or out of memory) or a well-formed message.
\<close>

lemma gb_operation_message_alloc_safe:
  assumes "unat psize \<le> 2 ^ 63"
  shows "gb_operation_message_alloc bmax ok1 ok2 type psize = Some None \<or>
    (\<exists>m. gb_operation_message_alloc bmax ok1 ok2 type psize = Some (Some m) \<and>
       msg_wf m \<and> payload_size m = psize)"
proof -
  have sz: "unat (psize + 8) = unat psize + 8" by (rule message_size_no_wrap [OF assms])
  show ?thesis
    using gb_operation_message_init_Some [of
        "\<lparr>buffer = replicate (unat (psize + 8)) 0, payload_size = 0\<rparr>" psize type]
    by (auto simp: gb_operation_message_alloc_def Let_def msg_wf_def sz)
qed

lemma gb_operation_message_alloc_wf:
  assumes "gb_operation_message_alloc bmax ok1 ok2 type psize = Some (Some m)" "unat psize \<le> 2 ^ 63"
  shows "msg_wf m" "payload_size m = psize"
  using gb_operation_message_alloc_safe [OF assms(2), of bmax ok1 ok2 type] assms(1) by auto

text \<open>
  The header of a fresh message with a non-zero type carries the message size and the type; id and
  result are zero.
\<close>

lemma length_ge_8:
  assumes "8 \<le> length xs"
  shows "\<exists>a b c d e f g h rest. xs = a # b # c # d # e # f # g # h # rest"
proof -
  have "Suc (Suc (Suc (Suc (Suc (Suc (Suc (Suc 0))))))) \<le> length xs" using assms by simp
  then show ?thesis by (auto simp: Suc_le_length_iff)
qed

lemma gb_operation_message_init_hdr:
  assumes "gb_operation_message_init m psize type = Some m'" "type \<noteq> 0"
    and len: "HDR_SIZE \<le> length (buffer m)"
  shows "\<exists>h. hdr_of (buffer m') = Some h \<and> h_size h = ucast (8 + psize) \<and>
    h_operation_id h = 0 \<and> h_type h = type \<and> h_result h = 0"
proof -
  obtain x y b2' b3' b4' b5' b6' b7' rest where buf: "buffer m = [x, y, b2', b3', b4', b5', b6', b7'] @ rest"
    using length_ge_8 [OF len] by auto
  show ?thesis
    using assms unfolding buf gb_operation_message_init_def
    by (auto simp: Let_def buf wr_bytes_def cpu_to_le16_def hdr_of_def)
qed

section \<open>Status codes\<close>

abbreviation (input) GB_OP_SUCCESS :: u8 where "GB_OP_SUCCESS \<equiv> 0x00"
abbreviation (input) GB_OP_INTERRUPTED :: u8 where "GB_OP_INTERRUPTED \<equiv> 0x01"
abbreviation (input) GB_OP_TIMEOUT :: u8 where "GB_OP_TIMEOUT \<equiv> 0x02"
abbreviation (input) GB_OP_NO_MEMORY :: u8 where "GB_OP_NO_MEMORY \<equiv> 0x03"
abbreviation (input) GB_OP_PROTOCOL_BAD :: u8 where "GB_OP_PROTOCOL_BAD \<equiv> 0x04"
abbreviation (input) GB_OP_OVERFLOW :: u8 where "GB_OP_OVERFLOW \<equiv> 0x05"
abbreviation (input) GB_OP_INVALID :: u8 where "GB_OP_INVALID \<equiv> 0x06"
abbreviation (input) GB_OP_RETRY :: u8 where "GB_OP_RETRY \<equiv> 0x07"
abbreviation (input) GB_OP_NONEXISTENT :: u8 where "GB_OP_NONEXISTENT \<equiv> 0x08"
abbreviation (input) GB_OP_UNKNOWN_ERROR :: u8 where "GB_OP_UNKNOWN_ERROR \<equiv> 0xfe"
abbreviation (input) GB_OP_MALFUNCTION :: u8 where "GB_OP_MALFUNCTION \<equiv> 0xff"

definition gb_operation_status_map :: "u8 \<Rightarrow> int" where
  "gb_operation_status_map status =
     (if status = GB_OP_SUCCESS then 0
      else if status = GB_OP_INTERRUPTED then - EINTR
      else if status = GB_OP_TIMEOUT then - ETIMEDOUT
      else if status = GB_OP_NO_MEMORY then - ENOMEM
      else if status = GB_OP_PROTOCOL_BAD then - EPROTONOSUPPORT
      else if status = GB_OP_OVERFLOW then - EMSGSIZE
      else if status = GB_OP_INVALID then - EINVAL
      else if status = GB_OP_RETRY then - EAGAIN
      else if status = GB_OP_NONEXISTENT then - ENODEV
      else if status = GB_OP_MALFUNCTION then - EILSEQ
      else - EIO)"

definition gb_operation_errno_map :: "int \<Rightarrow> u8" where
  "gb_operation_errno_map errno =
     (if errno = 0 then GB_OP_SUCCESS
      else if errno = - EINTR then GB_OP_INTERRUPTED
      else if errno = - ETIMEDOUT then GB_OP_TIMEOUT
      else if errno = - ENOMEM then GB_OP_NO_MEMORY
      else if errno = - EPROTONOSUPPORT then GB_OP_PROTOCOL_BAD
      else if errno = - EMSGSIZE then GB_OP_OVERFLOW
      else if errno = - EINVAL then GB_OP_INVALID
      else if errno = - EAGAIN then GB_OP_RETRY
      else if errno = - EILSEQ then GB_OP_MALFUNCTION
      else if errno = - ENODEV then GB_OP_NONEXISTENT
      else GB_OP_UNKNOWN_ERROR)"

text \<open>A status taken off the wire never looks like a state of the operation machine.\<close>

lemma gb_operation_status_map_range:
  "gb_operation_status_map s \<noteq> - EINPROGRESS" "gb_operation_status_map s \<noteq> - EBADR"
  by (auto simp: gb_operation_status_map_def)

text \<open>
  C8 The two mappings are inverse on everything the wire format can name: a status code other
  than the catch-all survives the trip to an errno and back, and an errno that has a status code
  arrives unchanged at the other end; success and failure are never confused.
\<close>

theorem gb_operation_status_roundtrip:
  "(gb_operation_errno_map (gb_operation_status_map s) =
      (if s \<in> {GB_OP_SUCCESS, GB_OP_INTERRUPTED, GB_OP_TIMEOUT, GB_OP_NO_MEMORY, GB_OP_PROTOCOL_BAD,
               GB_OP_OVERFLOW, GB_OP_INVALID, GB_OP_RETRY, GB_OP_NONEXISTENT, GB_OP_MALFUNCTION}
       then s else GB_OP_UNKNOWN_ERROR)) \<and>
   (gb_operation_status_map (gb_operation_errno_map e) =
      (if e \<in> {0, - EINTR, - ETIMEDOUT, - ENOMEM, - EPROTONOSUPPORT, - EMSGSIZE, - EINVAL, - EAGAIN,
               - EILSEQ, - ENODEV} then e else - EIO)) \<and>
   (gb_operation_status_map s = 0 \<longleftrightarrow> s = GB_OP_SUCCESS) \<and>
   (gb_operation_errno_map e = GB_OP_SUCCESS \<longleftrightarrow> e = 0)"
  by (simp add: gb_operation_status_map_def gb_operation_errno_map_def)

text \<open>
  A freshly allocated message is well formed and its header, read back from the buffer, has
  the message size, the type, and zero id and result.
\<close>

theorem gb_operation_message_alloc_header:
  assumes "gb_operation_message_alloc bmax ok1 ok2 type psize = Some (Some m)"
    and "unat psize \<le> 65527" "type \<noteq> 0"
  shows "msg_wf m \<and> (\<exists>h. hdr_of (buffer m) = Some h \<and> unat (h_size h) = HDR_SIZE + unat psize \<and>
    h_operation_id h = 0 \<and> h_type h = type \<and> h_result h = 0)"
proof -
  have sz: "unat (psize + 8) = unat psize + 8"
    using assms(2) by (intro message_size_no_wrap) simp
  have wf: "msg_wf m"
    using gb_operation_message_alloc_wf [OF assms(1)] assms(2) by simp
  obtain m0 where "gb_operation_message_init m0 psize type = Some m"
    "HDR_SIZE \<le> length (buffer m0)"
    using assms(1) sz
    by (auto simp: gb_operation_message_alloc_def Let_def split: if_splits bind_splits)
  then obtain h where h: "hdr_of (buffer m) = Some h" "h_size h = ucast (8 + psize)"
      "h_operation_id h = 0" "h_type h = type" "h_result h = 0"
    using gb_operation_message_init_hdr assms(3) by blast
  have "unat (ucast (8 + psize) :: u16) = 8 + unat psize"
  proof -
    have "unat (8 + psize) = 8 + unat psize" using sz by (simp only: add.commute)
    moreover have "8 + unat psize < 2 ^ 16" using assms(2) by simp
    ultimately show ?thesis by (simp only: unsigned_ucast_eq) (simp add: take_bit_nat_eq_self)
  qed
  with wf h show ?thesis by auto
qed

theorem gb_operation_message_alloc_header_witness:
  "\<exists>m. gb_operation_message_alloc 2048 True True 5 3 = Some (Some m) \<and> msg_wf m \<and>
     (\<exists>h. hdr_of (buffer m) = Some h \<and> unat (h_size h) = HDR_SIZE + unat (3 :: size_t) \<and>
        h_operation_id h = 0 \<and> h_type h = 5 \<and> h_result h = 0)"
proof -
  obtain m where m: "gb_operation_message_alloc 2048 True True 5 3 = Some (Some m)"
    using gb_operation_message_alloc_safe [of 3 2048 True True 5]
    by (auto simp: gb_operation_message_alloc_def Let_def split: bind_splits)
  show ?thesis
    using m gb_operation_message_alloc_header [OF m] by auto
qed

end
