(* ===== verification/GB_Operation.thy ===== *)
theory GB_Operation
  imports GB_Message
begin

text \<open>
  The operation core (operation.c, operation.h): creation, sending, receiving, completion and
  cancellation of operations on a connection. Operations live in a store addressed by number, so
  that freeing one and using it afterwards is visible: a dereference of a freed operation is
  \<open>None\<close>. The functions below are the critical sections and handlers of the source; what other
  threads, the host driver and the workqueues do between them is the step relation of
  \<open>GB_Operation_Steps\<close>.
\<close>

section \<open>State\<close>

datatype gb_connection_state =
    GB_CONNECTION_STATE_INVALID
  | GB_CONNECTION_STATE_DISABLED
  | GB_CONNECTION_STATE_ENABLED
  | GB_CONNECTION_STATE_ERROR
  | GB_CONNECTION_STATE_DESTROYING

text \<open>
  The part of struct gb_connection that the operation core uses. \<open>operations\<close> is the list of
  active operations, \<open>wq\<close> the work items queued on the connection's own workqueue,
  \<open>has_protocol\<close> whether the protocol pointer is set.
\<close>

record gb_connection =
  state :: gb_connection_state
  operations :: "nat list"
  op_cycle :: u32
  wq :: "nat list"
  has_protocol :: bool

text \<open>The completion callback of an operation: gb_operation_sync_callback or a driver's own.\<close>

datatype gb_callback = Sync_callback | User_callback nat

abbreviation (input) GB_OPERATION_FLAG_INCOMING :: u64 where "GB_OPERATION_FLAG_INCOMING \<equiv> 1"
abbreviation (input) GB_OPERATION_FLAG_UNIDIRECTIONAL :: u64 where "GB_OPERATION_FLAG_UNIDIRECTIONAL \<equiv> 2"

record gb_operation =
  connection :: nat
  request :: gb_message
  response :: "gb_message option"
  flags :: u64
  type :: u8
  op_id :: u16
  errno :: int
  callback :: "gb_callback option"
  completion :: nat
  kref :: nat
  waiters :: int
  active :: int

datatype msg_side = Request | Response

text \<open>
  The state shared by all handlers: the buffer limit of the host device, the connections, the
  operation store with its next free address, the messages the host driver has accepted and not
  yet reported as sent, the cancellations passed to the driver, and the completion workqueue.
\<close>

record opworld =
  buffer_size_max :: size_t
  conns :: "nat \<Rightarrow> gb_connection option"
  ops :: "nat \<Rightarrow> gb_operation option"
  next_op :: nat
  inflight :: "(nat \<times> msg_side) list"
  cancels :: "(nat \<times> msg_side) list"
  completion_wq :: "nat list"

definition gb_operation_is_incoming :: "gb_operation \<Rightarrow> bool" where
  "gb_operation_is_incoming opn = (flags opn AND GB_OPERATION_FLAG_INCOMING \<noteq> 0)"

definition gb_operation_is_unidirectional :: "gb_operation \<Rightarrow> bool" where
  "gb_operation_is_unidirectional opn = (flags opn AND GB_OPERATION_FLAG_UNIDIRECTIONAL \<noteq> 0)"

text \<open>Updating one object of a store.\<close>

definition set_op :: "opworld \<Rightarrow> nat \<Rightarrow> gb_operation \<Rightarrow> opworld" where
  [gb_defs]: "set_op w r opn = w\<lparr>ops := (ops w)(r \<mapsto> opn)\<rparr>"

definition set_conn :: "opworld \<Rightarrow> nat \<Rightarrow> gb_connection \<Rightarrow> opworld" where
  [gb_defs]: "set_conn w c k = w\<lparr>conns := (conns w)(c \<mapsto> k)\<rparr>"

text \<open>queue_work: an item that is already pending is not queued again.\<close>

definition queue_work :: "nat \<Rightarrow> nat list \<Rightarrow> nat list" where
  [gb_defs]: "queue_work r q = (if r \<in> set q then q else q @ [r])"

section \<open>Active operations\<close>

definition gb_operation_get_active :: "opworld \<Rightarrow> nat \<Rightarrow> (int \<times> opworld) option" where
  "gb_operation_get_active w r = do {
     opn \<leftarrow> ops w r;
     c \<leftarrow> conns w (connection opn);
     if state c \<noteq> GB_CONNECTION_STATE_ENABLED then Some (- ENOTCONN, w)
     else
       let w1 = (if active opn = 0
                 then set_conn w (connection opn) (c\<lparr>operations := operations c @ [r]\<rparr>) else w)
       in Some (0, set_op w1 r (opn\<lparr>active := active opn + 1\<rparr>))
   }"

definition gb_operation_put_active :: "opworld \<Rightarrow> nat \<Rightarrow> opworld option" where
  "gb_operation_put_active w r = do {
     opn \<leftarrow> ops w r;
     c \<leftarrow> conns w (connection opn);
     let w1 = set_op w r (opn\<lparr>active := active opn - 1\<rparr>);
     Some (if active opn - 1 = 0
           then set_conn w1 (connection opn) (c\<lparr>operations := remove1 r (operations c)\<rparr>) else w1)
   }"

definition gb_operation_is_active :: "opworld \<Rightarrow> nat \<Rightarrow> bool option" where
  "gb_operation_is_active w r = map_option (\<lambda>opn. active opn \<noteq> 0) (ops w r)"

section \<open>Results\<close>

definition gb_operation_result_set :: "gb_operation \<Rightarrow> int \<Rightarrow> bool \<times> gb_operation" where
  "gb_operation_result_set opn result =
     (if result = - EINPROGRESS
      then (True, opn\<lparr>errno := if errno opn = - EBADR then result else - EILSEQ\<rparr>)
      else
        let result = (if result = - EBADR then - EILSEQ else result) in
        if errno opn = - EINPROGRESS then (True, opn\<lparr>errno := result\<rparr>) else (False, opn))"

definition gb_operation_result :: "gb_operation \<Rightarrow> int" where
  "gb_operation_result opn = errno opn"

section \<open>References\<close>

definition gb_operation_get :: "opworld \<Rightarrow> nat \<Rightarrow> opworld option" where
  "gb_operation_get w r = map_option (\<lambda>opn. set_op w r (opn\<lparr>kref := kref opn + 1\<rparr>)) (ops w r)"

text \<open>_gb_operation_destroy frees both messages and the operation.\<close>

definition gb_operation_free :: "opworld \<Rightarrow> nat \<Rightarrow> opworld" where
  "gb_operation_free w r = w\<lparr>ops := (ops w)(r := None)\<rparr>"

definition gb_operation_put :: "opworld \<Rightarrow> nat \<Rightarrow> opworld option" where
  "gb_operation_put w r = do {
     opn \<leftarrow> ops w r;
     Some (if kref opn \<le> 1 then gb_operation_free w r else set_op w r (opn\<lparr>kref := kref opn - 1\<rparr>))
   }"

section \<open>Lookup and transmission\<close>

fun find_outgoing_loop :: "(nat \<Rightarrow> gb_operation option) \<Rightarrow> nat list \<Rightarrow> u16 \<Rightarrow> nat option option" where
  "find_outgoing_loop st [] oid = Some None"
| "find_outgoing_loop st (r # rs) oid =
     (case st r of None \<Rightarrow> None
      | Some opn \<Rightarrow>
         (if op_id opn = oid \<and> \<not> gb_operation_is_incoming opn then Some (Some r)
          else find_outgoing_loop st rs oid))"

definition gb_operation_find_outgoing :: "opworld \<Rightarrow> nat \<Rightarrow> u16 \<Rightarrow> (nat option \<times> opworld) option" where
  "gb_operation_find_outgoing w c oid = do {
     k \<leftarrow> conns w c;
     found \<leftarrow> find_outgoing_loop (ops w) (operations k) oid;
     (case found of None \<Rightarrow> Some (None, w)
      | Some r \<Rightarrow> do { w1 \<leftarrow> gb_operation_get w r; Some (Some r, w1) })
   }"

text \<open>
  gb_message_send: \<open>ret\<close> is the answer of the host driver's message_send; a message it accepts is
  in flight until greybus_message_sent.
\<close>

definition gb_message_send :: "opworld \<Rightarrow> nat \<Rightarrow> msg_side \<Rightarrow> int \<Rightarrow> int \<times> opworld" where
  "gb_message_send w r side ret =
     (ret, if ret = 0 then w\<lparr>inflight := inflight w @ [(r, side)]\<rparr> else w)"

definition gb_message_cancel :: "opworld \<Rightarrow> nat \<Rightarrow> msg_side \<Rightarrow> opworld" where
  "gb_message_cancel w r side = w\<lparr>cancels := cancels w @ [(r, side)]\<rparr>"

section \<open>Creation\<close>

text \<open>
  gb_operation_response_alloc on the operation it is called for. The operation id is copied from
  the request header.
\<close>

definition gb_operation_response_alloc ::
    "size_t \<Rightarrow> bool \<Rightarrow> bool \<Rightarrow> size_t \<Rightarrow> gb_operation \<Rightarrow> (bool \<times> gb_operation) option" where
  "gb_operation_response_alloc bmax msg_ok buf_ok response_size opn = do {
     let t = type opn OR GB_MESSAGE_TYPE_RESPONSE;
     m \<leftarrow> gb_operation_message_alloc bmax msg_ok buf_ok t response_size;
     (case m of None \<Rightarrow> Some (False, opn)
      | Some resp \<Rightarrow> do {
          oid \<leftarrow> rd_bytes (buffer (request opn)) 2 2;
          buf \<leftarrow> wr_bytes (buffer resp) 2 oid;
          Some (True, opn\<lparr>response := Some (resp\<lparr>buffer := buf\<rparr>)\<rparr>)
        })
   }"

text \<open>
  gb_operation_create_common: \<open>al n\<close> tells whether the n-th allocation succeeds (operation,
  request, request buffer, response, response buffer). A zeroed operation has type 0 until the
  field is set after the response allocation.
\<close>

definition gb_operation_create_common ::
    "opworld \<Rightarrow> nat \<Rightarrow> u8 \<Rightarrow> size_t \<Rightarrow> size_t \<Rightarrow> u64 \<Rightarrow> (nat \<Rightarrow> bool) \<Rightarrow> (nat option \<times> opworld) option" where
  "gb_operation_create_common w c t request_size response_size op_flags al =
     (if \<not> al 0 then Some (None, w)
      else do {
        req \<leftarrow> gb_operation_message_alloc (buffer_size_max w) (al 1) (al 2) t request_size;
        (case req of None \<Rightarrow> Some (None, w)
         | Some req \<Rightarrow> do {
             let opn = \<lparr>connection = c, request = req, response = None, flags = 0, type = 0,
                      op_id = 0, errno = 0, callback = None, completion = 0, kref = 0,
                      waiters = 0, active = 0\<rparr>;
             (ok, opn) \<leftarrow>
               (if op_flags AND GB_OPERATION_FLAG_INCOMING = 0
                then gb_operation_response_alloc (buffer_size_max w) (al 3) (al 4) response_size opn
                else Some (True, opn));
             if \<not> ok then Some (None, w)
             else
               let opn = opn\<lparr>flags := op_flags, type := t, errno := - EBADR, completion := 0,
                         kref := 1, waiters := 0\<rparr>
               in Some (Some (next_op w), set_op (w\<lparr>next_op := next_op w + 1\<rparr>) (next_op w) opn)
           })
      })"

definition gb_operation_create ::
    "opworld \<Rightarrow> nat \<Rightarrow> u8 \<Rightarrow> size_t \<Rightarrow> size_t \<Rightarrow> (nat \<Rightarrow> bool) \<Rightarrow> (nat option \<times> opworld) option" where
  "gb_operation_create w c t request_size response_size al =
     (if t = GB_OPERATION_TYPE_INVALID then Some (None, w)
      else
        let t = (if t AND GB_MESSAGE_TYPE_RESPONSE \<noteq> 0 then t AND NOT GB_MESSAGE_TYPE_RESPONSE else t)
        in gb_operation_create_common w c t request_size response_size 0 al)"

definition gb_operation_get_payload_size_max :: "opworld \<Rightarrow> size_t" where
  "gb_operation_get_payload_size_max w = buffer_size_max w - 8"

definition gb_operation_create_incoming ::
    "opworld \<Rightarrow> nat \<Rightarrow> u16 \<Rightarrow> u8 \<Rightarrow> bytes \<Rightarrow> nat \<Rightarrow> (nat \<Rightarrow> bool) \<Rightarrow> (nat option \<times> opworld) option" where
  "gb_operation_create_incoming w c oid t data sz al = do {
     let request_size = (of_nat sz :: size_t) - 8;
     let fl = (if oid = 0 then GB_OPERATION_FLAG_INCOMING OR GB_OPERATION_FLAG_UNIDIRECTIONAL
               else GB_OPERATION_FLAG_INCOMING);
     (ro, w1) \<leftarrow> gb_operation_create_common w c t request_size 0 fl al;
     (case ro of None \<Rightarrow> Some (None, w1)
      | Some r \<Rightarrow> do {
          opn \<leftarrow> ops w1 r;
          src \<leftarrow> rd_bytes data 0 sz;
          buf \<leftarrow> wr_bytes (buffer (request opn)) 0 src;
          Some (Some r, set_op w1 r (opn\<lparr>op_id := oid, request := (request opn)\<lparr>buffer := buf\<rparr>\<rparr>))
        })
   }"

section \<open>Sending a request\<close>

definition next_operation_id :: "u32 \<Rightarrow> u16" where
  "next_operation_id cycle = ucast (cycle mod 65535 + 1)"

text \<open>
  gb_operation_request_send: \<open>cb\<close> is the callback argument (\<open>None\<close> for NULL), \<open>send_ret\<close> the
  driver's answer.
\<close>

definition gb_operation_request_send ::
    "opworld \<Rightarrow> nat \<Rightarrow> gb_callback option \<Rightarrow> int \<Rightarrow> (int \<times> opworld) option" where
  "gb_operation_request_send w r cb send_ret =
     (if cb = None then Some (- EINVAL, w)
      else do {
        opn \<leftarrow> ops w r;
        k \<leftarrow> conns w (connection opn);
        let cycle = op_cycle k + 1;
        let oid = next_operation_id cycle;
        buf \<leftarrow> wr_bytes (buffer (request opn)) 2 (cpu_to_le16 oid);
        let o1 = opn\<lparr>callback := cb, op_id := oid, request := (request opn)\<lparr>buffer := buf\<rparr>\<rparr>;
        let w1 = set_op (set_conn w (connection opn) (k\<lparr>op_cycle := cycle\<rparr>)) r
                   (snd (gb_operation_result_set o1 (- EINPROGRESS)));
        w2 \<leftarrow> gb_operation_get w1 r;
        (ret, w3) \<leftarrow> gb_operation_get_active w2 r;
        if ret \<noteq> 0 then do { w4 \<leftarrow> gb_operation_put w3 r; Some (ret, w4) }
        else
          case gb_message_send w3 r Request send_ret of (ret, w4) \<Rightarrow>
            if ret \<noteq> 0 then do {
              w5 \<leftarrow> gb_operation_put_active w4 r;
              w6 \<leftarrow> gb_operation_put w5 r;
              Some (ret, w6)
            } else Some (0, w4)
      })"

section \<open>Sending a response\<close>

definition gb_operation_response_send ::
    "opworld \<Rightarrow> nat \<Rightarrow> int \<Rightarrow> bool \<Rightarrow> bool \<Rightarrow> int \<Rightarrow> (int \<times> opworld) option" where
  "gb_operation_response_send w r err msg_ok buf_ok send_ret = do {
     opn \<leftarrow> ops w r;
     (ok, o1) \<leftarrow>
       (if response opn = None \<and> \<not> gb_operation_is_unidirectional opn
        then gb_operation_response_alloc (buffer_size_max w) msg_ok buf_ok 0 opn
        else Some (True, opn));
     if \<not> ok then Some (- ENOMEM, set_op w r o1)
     else
       case gb_operation_result_set o1 err of (recorded, o2) \<Rightarrow>
         if \<not> recorded then Some (- EIO, set_op w r o2)
         else if gb_operation_is_unidirectional o2 then Some (0, set_op w r o2)
         else do {
           w1 \<leftarrow> gb_operation_get (set_op w r o2) r;
           (ret, w2) \<leftarrow> gb_operation_get_active w1 r;
           if ret \<noteq> 0 then do { w3 \<leftarrow> gb_operation_put w2 r; Some (ret, w3) }
           else do {
             o3 \<leftarrow> ops w2 r;
             resp \<leftarrow> response o3;
             buf \<leftarrow> wr_bytes (buffer resp) 5 [gb_operation_errno_map err];
             let w3 = set_op w2 r (o3\<lparr>response := Some (resp\<lparr>buffer := buf\<rparr>)\<rparr>);
             case gb_message_send w3 r Response send_ret of (ret, w4) \<Rightarrow>
               if ret \<noteq> 0 then do {
                 w5 \<leftarrow> gb_operation_put_active w4 r;
                 w6 \<leftarrow> gb_operation_put w5 r;
                 Some (ret, w6)
               } else Some (0, w4)
           }
         }
   }"

section \<open>Work items\<close>

text \<open>
  The environment of a work item: the request handler of the bound protocol (\<open>None\<close> when the
  protocol has none), what driver callbacks do, and the answers of the two allocations and of
  message_send while the response is sent.
\<close>

record work_env =
  request_recv :: "(u8 \<Rightarrow> gb_operation \<Rightarrow> (int \<times> gb_operation) option) option"
  user_callback :: "nat \<Rightarrow> nat \<Rightarrow> opworld \<Rightarrow> opworld option"
  resp_msg_ok :: bool
  resp_buf_ok :: bool
  resp_send_ret :: int

definition gb_operation_request_handle :: "work_env \<Rightarrow> opworld \<Rightarrow> nat \<Rightarrow> opworld option" where
  "gb_operation_request_handle env w r = do {
     opn \<leftarrow> ops w r;
     k \<leftarrow> conns w (connection opn);
     if \<not> has_protocol k then Some w
     else do {
       (status, o1) \<leftarrow>
         (case request_recv env of
            None \<Rightarrow> Some (- EPROTONOSUPPORT, opn)
          | Some handler \<Rightarrow> handler (type opn) opn);
       (ret, w1) \<leftarrow> gb_operation_response_send (set_op w r o1) r status
                      (resp_msg_ok env) (resp_buf_ok env) (resp_send_ret env);
       Some w1
     }
   }"

definition gb_operation_sync_callback :: "opworld \<Rightarrow> nat \<Rightarrow> opworld option" where
  "gb_operation_sync_callback w r =
     map_option (\<lambda>opn. set_op w r (opn\<lparr>completion := completion opn + 1\<rparr>)) (ops w r)"

definition gb_operation_work :: "work_env \<Rightarrow> opworld \<Rightarrow> nat \<Rightarrow> opworld option" where
  "gb_operation_work env w r = do {
     opn \<leftarrow> ops w r;
     w1 \<leftarrow> (if gb_operation_is_incoming opn then gb_operation_request_handle env w r
           else (case callback opn of
                   None \<Rightarrow> None
                 | Some Sync_callback \<Rightarrow> gb_operation_sync_callback w r
                 | Some (User_callback n) \<Rightarrow> user_callback env n r w));
     w2 \<leftarrow> gb_operation_put_active w1 r;
     gb_operation_put w2 r
   }"

section \<open>Events from the host driver\<close>

definition greybus_message_sent :: "opworld \<Rightarrow> nat \<Rightarrow> msg_side \<Rightarrow> int \<Rightarrow> opworld option" where
  "greybus_message_sent w r side status = do {
     opn \<leftarrow> ops w r;
     if side = Response then do {
       w1 \<leftarrow> gb_operation_put_active w r;
       gb_operation_put w1 r
     } else if status \<noteq> 0 then
       case gb_operation_result_set opn status of (recorded, o1) \<Rightarrow>
         let w1 = set_op w r o1 in
         Some (if recorded then w1\<lparr>completion_wq := queue_work r (completion_wq w1)\<rparr> else w1)
     else Some w
   }"

definition gb_connection_recv_request ::
    "opworld \<Rightarrow> nat \<Rightarrow> u16 \<Rightarrow> u8 \<Rightarrow> bytes \<Rightarrow> nat \<Rightarrow> (nat \<Rightarrow> bool) \<Rightarrow> opworld option" where
  "gb_connection_recv_request w c oid t data sz al = do {
     (ro, w1) \<leftarrow> gb_operation_create_incoming w c oid t data sz al;
     (case ro of None \<Rightarrow> Some w1
      | Some r \<Rightarrow> do {
          (ret, w2) \<leftarrow> gb_operation_get_active w1 r;
          if ret \<noteq> 0 then gb_operation_put w2 r
          else do {
            opn \<leftarrow> ops w2 r;
            k \<leftarrow> conns w2 c;
            case gb_operation_result_set opn (- EINPROGRESS) of (recorded, o1) \<Rightarrow>
              let w3 = set_op w2 r o1 in
              Some (if recorded then set_conn w3 c (k\<lparr>wq := queue_work r (wq k)\<rparr>) else w3)
          }
        })
   }"

definition gb_connection_recv_response ::
    "opworld \<Rightarrow> nat \<Rightarrow> u16 \<Rightarrow> u8 \<Rightarrow> bytes \<Rightarrow> nat \<Rightarrow> opworld option" where
  "gb_connection_recv_response w c oid result data sz = do {
     let err = gb_operation_status_map result;
     (ro, w1) \<leftarrow> gb_operation_find_outgoing w c oid;
     (case ro of None \<Rightarrow> Some w1
      | Some r \<Rightarrow> do {
          opn \<leftarrow> ops w1 r;
          message \<leftarrow> response opn;
          let message_size = 8 + payload_size message;
          let err = (if err = 0 \<and> (of_nat sz :: size_t) \<noteq> message_size then - EMSGSIZE else err);
          let sz = (if err \<noteq> 0 then HDR_SIZE else sz);
          case gb_operation_result_set opn err of (recorded, o1) \<Rightarrow>
            if recorded then do {
              src \<leftarrow> rd_bytes data 0 sz;
              buf \<leftarrow> wr_bytes (buffer message) 0 src;
              let w2 = set_op w1 r (o1\<lparr>response := Some (message\<lparr>buffer := buf\<rparr>)\<rparr>);
              gb_operation_put (w2\<lparr>completion_wq := queue_work r (completion_wq w2)\<rparr>) r
            } else gb_operation_put (set_op w1 r o1) r
        })
   }"

definition gb_connection_recv ::
    "opworld \<Rightarrow> nat \<Rightarrow> bytes \<Rightarrow> (nat \<Rightarrow> bool) \<Rightarrow> opworld option" where
  "gb_connection_recv w c data al = do {
     k \<leftarrow> conns w c;
     if state k \<noteq> GB_CONNECTION_STATE_ENABLED then Some w
     else (case hdr_of data of
        None \<Rightarrow> Some w
      | Some header \<Rightarrow>
         (let msg_size = unat (h_size header) in
          if length data < msg_size then Some w
          else if h_type header AND GB_MESSAGE_TYPE_RESPONSE \<noteq> 0
            then gb_connection_recv_response w c (h_operation_id header) (h_result header) data msg_size
          else gb_connection_recv_request w c (h_operation_id header) (h_type header) data msg_size al))
   }"

section \<open>Cancellation\<close>

text \<open>
  gb_operation_cancel sleeps until the operation is inactive. The part before the sleep and the
  part after it are separate: other handlers run in between, and \<open>cancel_finish\<close> is enabled only
  when the wait condition holds.
\<close>

definition gb_operation_cancel :: "opworld \<Rightarrow> nat \<Rightarrow> int \<Rightarrow> opworld option" where
  "gb_operation_cancel w r err = do {
     opn \<leftarrow> ops w r;
     if gb_operation_is_incoming opn then Some w
     else
       case gb_operation_result_set opn err of (recorded, o1) \<Rightarrow>
         let w1 = set_op w r (o1\<lparr>waiters := waiters o1 + 1\<rparr>) in
         Some (if recorded
               then (gb_message_cancel w1 r Request)\<lparr>completion_wq := queue_work r (completion_wq w1)\<rparr>
               else w1)
   }"

text \<open>gb_operation_cancel_incoming after flush_work has seen the work item run.\<close>

definition gb_operation_cancel_incoming :: "opworld \<Rightarrow> nat \<Rightarrow> int \<Rightarrow> opworld option" where
  "gb_operation_cancel_incoming w r err = do {
     opn \<leftarrow> ops w r;
     if \<not> gb_operation_is_incoming opn then Some w
     else if gb_operation_is_unidirectional opn
       then Some (set_op w r (opn\<lparr>waiters := waiters opn + 1\<rparr>))
     else
       case gb_operation_result_set opn err of (recorded, o1) \<Rightarrow>
         let w1 = set_op w r (o1\<lparr>waiters := waiters o1 + 1\<rparr>) in
         if recorded then Some w1
         else do { resp \<leftarrow> response o1; Some (gb_message_cancel w1 r Response) }
   }"

text \<open>The end of both: \<open>None\<close> here also stands for "still waiting".\<close>

definition cancel_finish :: "opworld \<Rightarrow> nat \<Rightarrow> opworld option" where
  "cancel_finish w r = do {
     opn \<leftarrow> ops w r;
     if active opn \<noteq> 0 then None else Some (set_op w r (opn\<lparr>waiters := waiters opn - 1\<rparr>))
   }"

section \<open>Synchronous operations\<close>

text \<open>
  gb_operation_request_send_sync_timeout. \<open>sleep\<close> is what the rest of the system does while the
  caller waits for the completion, with the value wait_for_completion_interruptible_timeout
  returns; \<open>sleep2\<close> what it does while a cancellation waits.
\<close>

definition gb_operation_request_send_sync_timeout ::
    "opworld \<Rightarrow> nat \<Rightarrow> int \<Rightarrow> (opworld \<Rightarrow> int \<times> opworld) \<Rightarrow> (opworld \<Rightarrow> opworld) \<Rightarrow> (int \<times> opworld) option" where
  "gb_operation_request_send_sync_timeout w r send_ret sleep sleep2 = do {
     (ret, w1) \<leftarrow> gb_operation_request_send w r (Some Sync_callback) send_ret;
     if ret \<noteq> 0 then Some (ret, w1)
     else
       case sleep w1 of (ret, w2) \<Rightarrow> do {
         w4 \<leftarrow> (if ret \<le> 0
               then do {
                 w3 \<leftarrow> gb_operation_cancel w2 r (if ret < 0 then - ECANCELED else - ETIMEDOUT);
                 cancel_finish (sleep2 w3) r
               } else Some w2);
         opn \<leftarrow> ops w4 r;
         Some (gb_operation_result opn, w4)
       }
   }"

text \<open>
  gb_operation_sync_timeout. \<open>req\<close> and \<open>resp\<close> are the caller's buffers (\<open>None\<close> for NULL) with
  their sizes; the result has the response buffer as the call leaves it.
\<close>

definition gb_operation_sync_timeout ::
    "opworld \<Rightarrow> nat \<Rightarrow> u8 \<Rightarrow> bytes option \<Rightarrow> nat \<Rightarrow> bytes option \<Rightarrow> nat \<Rightarrow> (nat \<Rightarrow> bool) \<Rightarrow> int \<Rightarrow>
     (opworld \<Rightarrow> int \<times> opworld) \<Rightarrow> (opworld \<Rightarrow> opworld) \<Rightarrow> (int \<times> bytes option \<times> opworld) option" where
  "gb_operation_sync_timeout w c t req request_size resp response_size al send_ret sleep sleep2 =
     (if response_size \<noteq> 0 \<and> resp = None \<or> request_size \<noteq> 0 \<and> req = None
      then Some (- EINVAL, resp, w)
      else do {
        (ro, w1) \<leftarrow> gb_operation_create w c t (of_nat request_size) (of_nat response_size) al;
        (case ro of None \<Rightarrow> Some (- ENOMEM, resp, w1)
         | Some r \<Rightarrow> do {
             w2 \<leftarrow> (if request_size = 0 then Some w1
                   else do {
                     opn \<leftarrow> ops w1 r;
                     src \<leftarrow> Option.bind req (\<lambda>b. rd_bytes b 0 request_size);
                     buf \<leftarrow> wr_bytes (buffer (request opn)) HDR_SIZE src;
                     Some (set_op w1 r (opn\<lparr>request := (request opn)\<lparr>buffer := buf\<rparr>\<rparr>))
                   });
             (ret, w3) \<leftarrow> gb_operation_request_send_sync_timeout w2 r send_ret sleep sleep2;
             resp' \<leftarrow> (if ret \<noteq> 0 \<or> response_size = 0 then Some resp
                      else do {
                        opn \<leftarrow> ops w3 r;
                        message \<leftarrow> response opn;
                        src \<leftarrow> rd_bytes (buffer message) HDR_SIZE response_size;
                        dst \<leftarrow> Option.bind resp (\<lambda>b. wr_bytes b 0 src);
                        Some (Some dst)
                      });
             w4 \<leftarrow> gb_operation_put w3 r;
             Some (ret, resp', w4)
           })
      })"

end
