(* ===== verification/GB_Operation_Inv.thy ===== *)
theory GB_Operation_Inv
  imports GB_Operation
begin

text \<open>
  The invariant of the operation core and its preservation by every handler. For each operation
  the invariant ties together the reference count, the active count, the list of active operations
  of its connection, the workqueues, the messages in flight and the recorded result. Two ghost
  counters that the code does not store make the ownership explicit: \<open>u r\<close> counts the references
  to \<open>r\<close> that callers and running handlers hold, \<open>t r\<close> the active counts held by running handlers.
  Each primitive moves these tokens between a handler, a queue and the host driver; outside of
  handlers \<open>t\<close> is 0.
\<close>

section \<open>Where an operation is\<close>

text \<open>The connections that list an operation as active, and those that have its work queued.\<close>

definition ops_at :: "opworld \<Rightarrow> nat \<Rightarrow> nat set" where
  "ops_at w r = {c. \<exists>k. conns w c = Some k \<and> r \<in> set (operations k)}"

definition wq_at :: "opworld \<Rightarrow> nat \<Rightarrow> nat set" where
  "wq_at w r = {c. \<exists>k. conns w c = Some k \<and> r \<in> set (wq k)}"

abbreviation in_cwq :: "opworld \<Rightarrow> nat \<Rightarrow> bool" where
  "in_cwq w r \<equiv> r \<in> set (completion_wq w)"

abbreviation resp_inflight :: "opworld \<Rightarrow> nat \<Rightarrow> bool" where
  "resp_inflight w r \<equiv> (r, Response) \<in> set (inflight w)"

abbreviation req_inflight :: "opworld \<Rightarrow> nat \<Rightarrow> bool" where
  "req_inflight w r \<equiv> (r, Request) \<in> set (inflight w)"

lemma ops_at_simps [simp]:
  "ops_at (set_op w r opn) = ops_at w"
  "ops_at (w\<lparr>completion_wq := q\<rparr>) = ops_at w"
  "ops_at (w\<lparr>inflight := f\<rparr>) = ops_at w"
  "ops_at (w\<lparr>cancels := f\<rparr>) = ops_at w"
  "ops_at (w\<lparr>next_op := n\<rparr>) = ops_at w"
  "ops_at (w\<lparr>ops := s\<rparr>) = ops_at w"
  by (simp_all add: ops_at_def set_op_def fun_eq_iff)

lemma wq_at_simps [simp]:
  "wq_at (set_op w r opn) = wq_at w"
  "wq_at (w\<lparr>completion_wq := q\<rparr>) = wq_at w"
  "wq_at (w\<lparr>inflight := f\<rparr>) = wq_at w"
  "wq_at (w\<lparr>cancels := f\<rparr>) = wq_at w"
  "wq_at (w\<lparr>next_op := n\<rparr>) = wq_at w"
  "wq_at (w\<lparr>ops := s\<rparr>) = wq_at w"
  by (simp_all add: wq_at_def set_op_def fun_eq_iff)

lemma ops_at_set_conn:
  "ops_at (set_conn w c k) x =
     (if x \<in> set (operations k) then insert c (ops_at w x) else ops_at w x - {c})"
  by (auto simp: ops_at_def set_conn_def)

lemma wq_at_set_conn:
  "wq_at (set_conn w c k) x = (if x \<in> set (wq k) then insert c (wq_at w x) else wq_at w x - {c})"
  by (auto simp: wq_at_def set_conn_def)

lemma ops_at_set_conn_same:
  "conns w c = Some k \<Longrightarrow> (x \<in> set (operations k')) = (x \<in> set (operations k)) \<Longrightarrow>
   ops_at (set_conn w c k') x = ops_at w x"
  by (auto simp: ops_at_def set_conn_def)

lemma wq_at_set_conn_same:
  "conns w c = Some k \<Longrightarrow> (x \<in> set (wq k')) = (x \<in> set (wq k)) \<Longrightarrow>
   wq_at (set_conn w c k') x = wq_at w x"
  by (auto simp: wq_at_def set_conn_def)

lemma ops_at_conn: "conns w c = Some k \<Longrightarrow> c \<in> ops_at w x \<longleftrightarrow> x \<in> set (operations k)"
  by (simp add: ops_at_def)

lemma wq_at_conn: "conns w c = Some k \<Longrightarrow> c \<in> wq_at w x \<longleftrightarrow> x \<in> set (wq k)"
  by (simp add: wq_at_def)

lemma world_sel_simps [simp]:
  "ops (set_op w r opn) = (ops w)(r \<mapsto> opn)" "conns (set_op w r opn) = conns w"
  "ops (set_conn w c k) = ops w" "conns (set_conn w c k) = (conns w)(c \<mapsto> k)"
  "completion_wq (set_op w r opn) = completion_wq w" "completion_wq (set_conn w c k) = completion_wq w"
  "inflight (set_op w r opn) = inflight w" "inflight (set_conn w c k) = inflight w"
  "next_op (set_op w r opn) = next_op w" "next_op (set_conn w c k) = next_op w"
  "buffer_size_max (set_op w r opn) = buffer_size_max w"
  "buffer_size_max (set_conn w c k) = buffer_size_max w"
  by (simp_all add: set_op_def set_conn_def)

lemma set_queue_work [simp]: "set (queue_work r q) = insert r (set q)"
  by (auto simp: queue_work_def)

lemma distinct_queue_work [simp]: "distinct (queue_work r q) = distinct q"
  by (auto simp: queue_work_def)

lemma is_incoming_simps [simp]:
  "gb_operation_is_incoming (opn\<lparr>kref := a\<rparr>) = gb_operation_is_incoming opn"
  "gb_operation_is_incoming (opn\<lparr>active := b\<rparr>) = gb_operation_is_incoming opn"
  "gb_operation_is_incoming (opn\<lparr>errno := d\<rparr>) = gb_operation_is_incoming opn"
  "gb_operation_is_incoming (opn\<lparr>response := e\<rparr>) = gb_operation_is_incoming opn"
  "gb_operation_is_incoming (opn\<lparr>request := f\<rparr>) = gb_operation_is_incoming opn"
  "gb_operation_is_incoming (opn\<lparr>completion := g\<rparr>) = gb_operation_is_incoming opn"
  "gb_operation_is_incoming (opn\<lparr>waiters := h\<rparr>) = gb_operation_is_incoming opn"
  "gb_operation_is_incoming (opn\<lparr>op_id := i\<rparr>) = gb_operation_is_incoming opn"
  "gb_operation_is_incoming (opn\<lparr>callback := j\<rparr>) = gb_operation_is_incoming opn"
  by (simp_all add: gb_operation_is_incoming_def)

lemma is_unidirectional_simps [simp]:
  "gb_operation_is_unidirectional (opn\<lparr>kref := a\<rparr>) = gb_operation_is_unidirectional opn"
  "gb_operation_is_unidirectional (opn\<lparr>active := b\<rparr>) = gb_operation_is_unidirectional opn"
  "gb_operation_is_unidirectional (opn\<lparr>errno := d\<rparr>) = gb_operation_is_unidirectional opn"
  "gb_operation_is_unidirectional (opn\<lparr>response := e\<rparr>) = gb_operation_is_unidirectional opn"
  by (simp_all add: gb_operation_is_unidirectional_def)

section \<open>The invariant\<close>

definition msg_ok :: "gb_message \<Rightarrow> bool" where
  "msg_ok m \<longleftrightarrow> msg_wf m \<and> unat (payload_size m) \<le> 65527"

text \<open>
  The invariant of one operation with \<open>n\<close> references and \<open>t\<close> active counts held by callers and
  handlers, listed at the connections \<open>ls\<close>, its work queued at the connections \<open>qs\<close>; \<open>cq\<close>,
  \<open>ri\<close> and \<open>qi\<close> tell whether it is on the completion queue and whether its response or its
  request is in flight.

  An incoming operation is active for its work item and for its response in flight. An outgoing one
  is active from a successful send until its completion work has run: first with the result
  pending, then queued with the result recorded.
\<close>

definition op_inv :: "nat \<Rightarrow> nat \<Rightarrow> gb_operation \<Rightarrow> nat set \<Rightarrow> nat set \<Rightarrow> bool \<Rightarrow> bool \<Rightarrow> bool \<Rightarrow> bool" where
  "op_inv n t opn ls qs cq ri qi \<longleftrightarrow>
     ls = (if 0 < active opn then {connection opn} else {}) \<and>
     msg_ok (request opn) \<and> (\<forall>m. response opn = Some m \<longrightarrow> msg_ok m) \<and>
     int (kref opn) = int n + active opn \<and> 0 < kref opn \<and>
     (if gb_operation_is_incoming opn
      then \<not> qi \<and> (qs = {} \<or> qs = {connection opn} \<and> errno opn = - EINPROGRESS \<and> \<not> ri) \<and> \<not> cq \<and>
           active opn = int t + (if qs = {} then 0 else 1) + (if ri then 1 else 0)
      else qs = {} \<and> \<not> ri \<and> response opn \<noteq> None \<and>
           (active opn = int t \<or> active opn = int t + 1) \<and>
           (cq \<longrightarrow> active opn = int t + 1 \<and> errno opn \<noteq> - EINPROGRESS) \<and>
           (active opn = int t + 1 \<longrightarrow> errno opn \<noteq> - EBADR \<and> callback opn = Some Sync_callback \<and>
              (cq \<or> errno opn = - EINPROGRESS)) \<and>
           (qi \<longrightarrow> errno opn \<noteq> - EBADR \<and> (errno opn = - EINPROGRESS \<longrightarrow> active opn = int t + 1)))"

definition op_ok :: "opworld \<Rightarrow> nat \<Rightarrow> nat \<Rightarrow> nat \<Rightarrow> gb_operation \<Rightarrow> bool" where
  "op_ok w n t r opn \<longleftrightarrow>
     conns w (connection opn) \<noteq> None \<and>
     op_inv n t opn (ops_at w r) (wq_at w r) (in_cwq w r) (resp_inflight w r) (req_inflight w r)"

definition local_ok :: "opworld \<Rightarrow> (nat \<Rightarrow> nat) \<Rightarrow> (nat \<Rightarrow> nat) \<Rightarrow> nat \<Rightarrow> bool" where
  "local_ok w u t r \<longleftrightarrow>
     (req_inflight w r \<longrightarrow> r < next_op w) \<and>
     (case ops w r of
        None \<Rightarrow> u r = 0 \<and> t r = 0 \<and> ops_at w r = {} \<and> wq_at w r = {} \<and> \<not> in_cwq w r \<and> \<not> resp_inflight w r
      | Some opn \<Rightarrow> r < next_op w \<and> op_ok w (u r) (t r) r opn)"

definition lists_ok :: "opworld \<Rightarrow> bool" where
  "lists_ok w \<longleftrightarrow>
     (\<forall>c k. conns w c = Some k \<longrightarrow> distinct (operations k) \<and> distinct (wq k)) \<and>
     distinct (completion_wq w) \<and> distinct (filter (\<lambda>m. snd m = Response) (inflight w))"

definition world_ok :: "opworld \<Rightarrow> (nat \<Rightarrow> nat) \<Rightarrow> (nat \<Rightarrow> nat) \<Rightarrow> bool" where
  "world_ok w u t \<longleftrightarrow>
     (\<forall>r. local_ok w u t r) \<and> lists_ok w \<and> 8 \<le> unat (buffer_size_max w) \<and> unat (buffer_size_max w) \<le> 65535"

text \<open>The same position in the two worlds.\<close>

definition same_at :: "nat \<Rightarrow> opworld \<Rightarrow> opworld \<Rightarrow> bool" where
  "same_at x w w' \<longleftrightarrow>
     ops w' x = ops w x \<and> ops_at w' x = ops_at w x \<and> wq_at w' x = wq_at w x \<and>
     in_cwq w' x = in_cwq w x \<and> resp_inflight w' x = resp_inflight w x \<and>
     req_inflight w' x = req_inflight w x"

text \<open>
  The rule all preservation proofs use: a primitive that works on operation \<open>r\<close> has to re-establish
  the invariant for \<open>r\<close> and to leave the others where they are.
\<close>

lemma world_okI:
  assumes "world_ok w u t"
    and "\<And>x. x \<noteq> r \<Longrightarrow> same_at x w w'"
    and "\<And>c. conns w' c = None \<longleftrightarrow> conns w c = None"
    and "next_op w \<le> next_op w'" "buffer_size_max w' = buffer_size_max w"
    and "lists_ok w'" "local_ok w' (u(r := n)) (t(r := m)) r"
  shows "world_ok w' (u(r := n)) (t(r := m))"
proof -
  have "local_ok w' (u(r := n)) (t(r := m)) x" for x
  proof (cases "x = r")
    case False
    then have s: "same_at x w w'" using assms(2) by auto
    have ok: "local_ok w u t x" using assms(1) by (simp add: world_ok_def)
    show ?thesis
    proof (cases "ops w x")
      case None
      then show ?thesis using ok s assms(4) False by (auto simp: local_ok_def same_at_def)
    next
      case (Some opn)
      then show ?thesis using ok s assms(3,4) False by (simp add: local_ok_def same_at_def op_ok_def)
    qed
  qed (use assms(7) in simp)
  with assms show ?thesis by (simp add: world_ok_def)
qed

lemma world_ok_local: "world_ok w u t \<Longrightarrow> local_ok w u t r"
  by (simp add: world_ok_def)

lemma world_ok_op:
  assumes "world_ok w u t" "ops w r = Some opn"
  shows "r < next_op w" "conns w (connection opn) \<noteq> None"
    "op_inv (u r) (t r) opn (ops_at w r) (wq_at w r) (in_cwq w r) (resp_inflight w r) (req_inflight w r)"
  using world_ok_local [OF assms(1), of r] assms(2) by (simp_all add: local_ok_def op_ok_def)

lemma world_ok_dead:
  assumes "world_ok w u t" "ops w r = None"
  shows "u r = 0" "t r = 0" "ops_at w r = {}" "wq_at w r = {}" "\<not> in_cwq w r" "\<not> resp_inflight w r"
  using world_ok_local [OF assms(1), of r] assms(2) by (simp_all add: local_ok_def)

lemma world_ok_lists: "world_ok w u t \<Longrightarrow> lists_ok w"
  by (simp add: world_ok_def)

lemma world_ok_user_live: "world_ok w u t \<Longrightarrow> 0 < u r \<Longrightarrow> \<exists>opn. ops w r = Some opn"
  using world_ok_dead(1) [of w u t r] by (cases "ops w r") auto

lemma world_ok_token_live: "world_ok w u t \<Longrightarrow> 0 < t r \<Longrightarrow> \<exists>opn. ops w r = Some opn"
  using world_ok_dead(2) [of w u t r] by (cases "ops w r") auto

lemma world_ok_listed_live:
  "world_ok w u t \<Longrightarrow> c \<in> ops_at w r \<Longrightarrow> \<exists>opn. ops w r = Some opn \<and> connection opn = c \<and> 0 < active opn"
  using world_ok_dead(3) [of w u t r] world_ok_op(3) [of w u t r]
  by (cases "ops w r") (auto simp: op_inv_def split: if_splits)

lemma lists_ok_conn: "lists_ok w \<Longrightarrow> conns w c = Some k \<Longrightarrow> distinct (operations k) \<and> distinct (wq k)"
  by (simp add: lists_ok_def)

lemma lists_ok_simps [simp]:
  "lists_ok (set_op w r opn) = lists_ok w"
  "lists_ok (w\<lparr>cancels := x\<rparr>) = lists_ok w"
  "lists_ok (w\<lparr>next_op := n\<rparr>) = lists_ok w"
  "lists_ok (w\<lparr>ops := s\<rparr>) = lists_ok w"
  by (simp_all add: lists_ok_def)

lemma lists_ok_set_conn:
  "lists_ok w \<Longrightarrow> distinct (operations k) \<Longrightarrow> distinct (wq k) \<Longrightarrow> lists_ok (set_conn w c k)"
  by (simp add: lists_ok_def)

text \<open>Changing one operation in place keeps the lists and all other operations.\<close>

lemma world_ok_set_op:
  assumes "world_ok w u t" "ops w r = Some opn" "connection opn' = connection opn"
    and "op_inv n m opn' (ops_at w r) (wq_at w r) (in_cwq w r) (resp_inflight w r) (req_inflight w r)"
  shows "world_ok (set_op w r opn') (u(r := n)) (t(r := m))"
proof (rule world_okI [OF assms(1)])
  show "lists_ok (set_op w r opn')" using world_ok_lists [OF assms(1)] by simp
  show "local_ok (set_op w r opn') (u(r := n)) (t(r := m)) r"
    using world_ok_op [OF assms(1,2)] assms(3,4) by (simp add: local_ok_def op_ok_def)
qed (simp_all add: same_at_def)

section \<open>References\<close>

lemma op_inv_active: "op_inv n t opn ls qs cq ri qi \<Longrightarrow> int t \<le> active opn"
  by (auto simp: op_inv_def split: if_splits)

lemma op_inv_idle: "op_inv n t opn ls qs cq ri qi \<Longrightarrow> active opn = 0 \<Longrightarrow> t = 0 \<and> ls = {} \<and> qs = {} \<and> \<not> cq \<and> \<not> ri"
  by (auto simp: op_inv_def split: if_splits)

lemma op_inv_qi: "op_inv n t opn ls qs cq ri qi \<Longrightarrow> (qi' \<Longrightarrow> qi) \<Longrightarrow> op_inv n t opn ls qs cq ri qi'"
  by (auto simp: op_inv_def split: if_splits)

lemma gb_operation_get_ok:
  assumes "world_ok w u t" "ops w r = Some opn"
  shows "gb_operation_get w r = Some (set_op w r (opn\<lparr>kref := kref opn + 1\<rparr>)) \<and>
    world_ok (set_op w r (opn\<lparr>kref := kref opn + 1\<rparr>)) (u(r := u r + 1)) t"
proof
  show "gb_operation_get w r = Some (set_op w r (opn\<lparr>kref := kref opn + 1\<rparr>))"
    using assms(2) by (simp add: gb_operation_get_def)
  have "world_ok (set_op w r (opn\<lparr>kref := kref opn + 1\<rparr>)) (u(r := u r + 1)) (t(r := t r))"
    by (rule world_ok_set_op [OF assms]) (use world_ok_op(3) [OF assms] in \<open>simp_all add: op_inv_def\<close>)
  then show "world_ok (set_op w r (opn\<lparr>kref := kref opn + 1\<rparr>)) (u(r := u r + 1)) t" by simp
qed

text \<open>gb_operation_put by a holder: the operation is freed exactly when nothing needs it.\<close>

lemma gb_operation_put_ok:
  assumes "world_ok w u t" "0 < u r"
  shows "\<exists>w'. gb_operation_put w r = Some w' \<and> world_ok w' (u(r := u r - 1)) t"
proof -
  obtain opn where r: "ops w r = Some opn" using world_ok_user_live [OF assms] by blast
  note ok = world_ok_op [OF assms(1) r]
  have k: "int (kref opn) = int (u r) + active opn" using ok(3) by (simp add: op_inv_def)
  show ?thesis
  proof (cases "kref opn \<le> 1")
    case True
    then have z: "active opn = 0" "u r = 1"
      using k op_inv_active [OF ok(3)] assms(2) by auto
    have "world_ok (gb_operation_free w r) (u(r := u r - 1)) (t(r := t r))"
    proof (rule world_okI [OF assms(1)])
      show "lists_ok (gb_operation_free w r)"
        using world_ok_lists [OF assms(1)] by (simp add: gb_operation_free_def)
      show "local_ok (gb_operation_free w r) (u(r := u r - 1)) (t(r := t r)) r"
        using op_inv_idle [OF ok(3) z(1)] z(2) ok(1) by (simp add: local_ok_def gb_operation_free_def)
    qed (simp_all add: same_at_def gb_operation_free_def)
    then show ?thesis using r True by (simp add: gb_operation_put_def)
  next
    case False
    have "world_ok (set_op w r (opn\<lparr>kref := kref opn - 1\<rparr>)) (u(r := u r - 1)) (t(r := t r))"
      by (rule world_ok_set_op [OF assms(1) r])
         (use ok(3) k False assms(2) in \<open>simp_all add: op_inv_def of_nat_diff\<close>)
    then show ?thesis using r False by (simp add: gb_operation_put_def)
  qed
qed

section \<open>Active counts\<close>

text \<open>
  gb_operation_get_active turns a reference into an active count when the connection is enabled;
  otherwise it changes nothing.
\<close>

lemma gb_operation_get_active_ok:
  assumes "world_ok w u t" "0 < u r" "ops w r = Some opn" "conns w (connection opn) = Some k"
  shows "if state k = GB_CONNECTION_STATE_ENABLED
    then \<exists>w'. gb_operation_get_active w r = Some (0, w') \<and> ops w' r = Some (opn\<lparr>active := active opn + 1\<rparr>) \<and>
       inflight w' = inflight w \<and> completion_wq w' = completion_wq w \<and> wq_at w' = wq_at w \<and>
       buffer_size_max w' = buffer_size_max w \<and>
       world_ok w' (u(r := u r - 1)) (t(r := t r + 1))
    else gb_operation_get_active w r = Some (- ENOTCONN, w)"
proof (cases "state k = GB_CONNECTION_STATE_ENABLED")
  case True
  note ok = world_ok_op [OF assms(1,3)]
  define k' where "k' = (if active opn = 0 then k\<lparr>operations := operations k @ [r]\<rparr> else k)"
  define w' where "w' = set_op (set_conn w (connection opn) k') r (opn\<lparr>active := active opn + 1\<rparr>)"
  have same: "set_conn w (connection opn) k = w"
    using assms(4) by (simp add: set_conn_def fun_upd_idem)
  have get: "gb_operation_get_active w r = Some (0, w')"
    using assms(3,4) True same by (simp add: gb_operation_get_active_def w'_def k'_def Let_def)
  have listed: "connection opn \<in> ops_at w r \<longleftrightarrow> 0 < active opn"
    using ok(3) by (simp add: op_inv_def)
  have d: "distinct (operations k)" "distinct (wq k)"
    using lists_ok_conn [OF world_ok_lists [OF assms(1)] assms(4)] by auto
  have pos: "0 \<le> active opn" using op_inv_active [OF ok(3)] by simp
  have dk': "distinct (operations k')" "distinct (wq k')"
    using d listed ops_at_conn [OF assms(4), of r] by (auto simp: k'_def)
  have wq': "wq_at w' = wq_at w"
    by (rule ext) (simp add: w'_def k'_def wq_at_set_conn_same [OF assms(4)])
  have "world_ok w' (u(r := u r - 1)) (t(r := t r + 1))"
  proof (rule world_okI [OF assms(1)])
    show "same_at x w w'" if "x \<noteq> r" for x
      using that assms(4)
      by (simp add: same_at_def wq' w'_def ops_at_set_conn_same [OF assms(4)]
          wq_at_set_conn_same [OF assms(4)] k'_def)
    show "lists_ok w'"
      using dk' world_ok_lists [OF assms(1)] by (simp add: w'_def lists_ok_set_conn)
    have "ops_at w' r = {connection opn}"
      using ok(3) pos ops_at_conn [OF assms(4), of r]
      by (auto simp: w'_def k'_def ops_at_set_conn op_inv_def)
    then show "local_ok w' (u(r := u r - 1)) (t(r := t r + 1)) r"
      using ok pos assms(2) wq'
      by (auto simp: w'_def local_ok_def op_ok_def op_inv_def of_nat_diff)
  qed (auto simp: w'_def assms(4))
  then show ?thesis
    using get wq' True assms(4) by (auto simp: w'_def k'_def)
qed (use assms in \<open>simp add: gb_operation_get_active_def\<close>)

text \<open>gb_operation_put_active gives an active count back as a reference.\<close>

lemma gb_operation_put_active_ok:
  assumes "world_ok w u t" "0 < t r"
  shows "\<exists>w'. gb_operation_put_active w r = Some w' \<and> world_ok w' (u(r := u r + 1)) (t(r := t r - 1))"
proof -
  obtain opn where r: "ops w r = Some opn" using world_ok_token_live [OF assms] by blast
  note ok = world_ok_op [OF assms(1) r]
  then obtain k where k: "conns w (connection opn) = Some k" by auto
  define k' where "k' = (if active opn - 1 = 0 then k\<lparr>operations := remove1 r (operations k)\<rparr> else k)"
  define w' where "w' = set_conn (set_op w r (opn\<lparr>active := active opn - 1\<rparr>)) (connection opn) k'"
  have pos: "0 < active opn" using op_inv_active [OF ok(3)] assms(2) by simp
  have same: "set_conn (set_op w r x) (connection opn) k = set_op w r x" for x
    using k by (simp add: set_conn_def set_op_def fun_upd_idem)
  have put: "gb_operation_put_active w r = Some w'"
    using r k same by (simp add: gb_operation_put_active_def w'_def k'_def Let_def)
  have d: "distinct (operations k)" "distinct (wq k)"
    using lists_ok_conn [OF world_ok_lists [OF assms(1)] k] by auto
  have k2: "conns (set_op w r (opn\<lparr>active := active opn - 1\<rparr>)) (connection opn) = Some k"
    using k by simp
  have wq': "wq_at w' = wq_at w"
    by (rule ext) (simp add: w'_def k'_def wq_at_set_conn_same [OF k2])
  have "world_ok w' (u(r := u r + 1)) (t(r := t r - 1))"
  proof (rule world_okI [OF assms(1)])
    show "same_at x w w'" if "x \<noteq> r" for x
      using that d(1)
      by (simp add: same_at_def wq' w'_def ops_at_set_conn_same [OF k2]
          wq_at_set_conn_same [OF k2] k'_def in_set_remove1)
    show "lists_ok w'"
      using d world_ok_lists [OF assms(1)] by (simp add: w'_def k'_def lists_ok_set_conn distinct_remove1)
    have "ops_at w' r = (if active opn = 1 then {} else {connection opn})"
      using ok(3) pos d ops_at_conn [OF k, of r]
      by (auto simp: w'_def k'_def ops_at_set_conn op_inv_def set_remove1_eq)
    then show "local_ok w' (u(r := u r + 1)) (t(r := t r - 1)) r"
      using ok pos assms(2) wq'
      by (auto simp: w'_def local_ok_def op_ok_def op_inv_def of_nat_diff)
  qed (auto simp: w'_def k)
  with put show ?thesis by blast
qed

section \<open>Queues and the host driver\<close>

text \<open>Taking a work item off the completion queue, or off the queue of its connection.\<close>

definition dequeue_completion :: "opworld \<Rightarrow> nat \<Rightarrow> opworld" where
  "dequeue_completion w r = w\<lparr>completion_wq := remove1 r (completion_wq w)\<rparr>"

definition dequeue_wq :: "opworld \<Rightarrow> nat \<Rightarrow> gb_connection \<Rightarrow> nat \<Rightarrow> opworld" where
  "dequeue_wq w c k r = set_conn w c (k\<lparr>wq := remove1 r (wq k)\<rparr>)"

lemma dequeue_completion_ok:
  assumes "world_ok w u t" "in_cwq w r"
  shows "\<exists>opn. ops w r = Some opn \<and> \<not> gb_operation_is_incoming opn \<and> callback opn = Some Sync_callback \<and>
    world_ok (dequeue_completion w r) u (t(r := t r + 1))"
proof -
  obtain opn where r: "ops w r = Some opn" using world_ok_dead(5) [OF assms(1)] assms(2) by fastforce
  note ok = world_ok_op [OF assms(1) r]
  have out: "\<not> gb_operation_is_incoming opn" "callback opn = Some Sync_callback"
    using ok(3) assms(2) by (auto simp: op_inv_def split: if_splits)
  have d: "distinct (completion_wq w)" using world_ok_lists [OF assms(1)] by (simp add: lists_ok_def)
  have "world_ok (dequeue_completion w r) (u(r := u r)) (t(r := t r + 1))"
  proof (rule world_okI [OF assms(1)])
    show "lists_ok (dequeue_completion w r)"
      using world_ok_lists [OF assms(1)] by (simp add: lists_ok_def dequeue_completion_def distinct_remove1)
    show "local_ok (dequeue_completion w r) (u(r := u r)) (t(r := t r + 1)) r"
      using r ok out assms(2) d
      by (auto simp: local_ok_def op_ok_def op_inv_def dequeue_completion_def set_remove1_eq)
  qed (auto simp: same_at_def dequeue_completion_def)
  with r out show ?thesis by auto
qed

lemma dequeue_wq_ok:
  assumes "world_ok w u t" "conns w c = Some k" "r \<in> set (wq k)"
  shows "\<exists>opn. ops w r = Some opn \<and> gb_operation_is_incoming opn \<and> connection opn = c \<and>
    errno opn = - EINPROGRESS \<and> world_ok (dequeue_wq w c k r) u (t(r := t r + 1)) \<and>
    wq_at (dequeue_wq w c k r) r = {}"
proof -
  have c: "c \<in> wq_at w r" using assms(2,3) by (simp add: wq_at_conn)
  obtain opn where r: "ops w r = Some opn" using world_ok_dead(4) [OF assms(1)] c by fastforce
  note ok = world_ok_op [OF assms(1) r]
  have inc: "gb_operation_is_incoming opn" "connection opn = c" "errno opn = - EINPROGRESS" "wq_at w r = {c}"
    using ok(3) c by (auto simp: op_inv_def split: if_splits)
  have d: "distinct (operations k)" "distinct (wq k)"
    using lists_ok_conn [OF world_ok_lists [OF assms(1)] assms(2)] by auto
  have wqr: "wq_at (dequeue_wq w c k r) r = {}"
    using inc d by (simp add: dequeue_wq_def wq_at_set_conn set_remove1_eq)
  have opsr: "ops_at (dequeue_wq w c k r) = ops_at w"
    by (rule ext) (simp add: dequeue_wq_def ops_at_set_conn_same [OF assms(2)])
  have "world_ok (dequeue_wq w c k r) (u(r := u r)) (t(r := t r + 1))"
  proof (rule world_okI [OF assms(1)])
    show "same_at x w (dequeue_wq w c k r)" if "x \<noteq> r" for x
      using that
      by (simp add: same_at_def opsr)
         (simp add: dequeue_wq_def wq_at_set_conn_same [OF assms(2)] in_set_remove1)
    show "lists_ok (dequeue_wq w c k r)"
      using world_ok_lists [OF assms(1)] d by (simp add: dequeue_wq_def lists_ok_set_conn distinct_remove1)
    have sel: "ops (dequeue_wq w c k r) = ops w" "next_op (dequeue_wq w c k r) = next_op w"
      "conns (dequeue_wq w c k r) c \<noteq> None" "completion_wq (dequeue_wq w c k r) = completion_wq w"
      "inflight (dequeue_wq w c k r) = inflight w"
      by (simp_all add: dequeue_wq_def)
    show "local_ok (dequeue_wq w c k r) (u(r := u r)) (t(r := t r + 1)) r"
      using r ok inc sel(3) by (simp add: local_ok_def op_ok_def op_inv_def wqr opsr sel)
  qed (auto simp: dequeue_wq_def assms(2))
  with r inc wqr show ?thesis by auto
qed

text \<open>
  Recording the result of an outgoing operation and queueing its completion. With the result
  pending this is one primitive; in every other state \<open>gb_operation_result_set\<close> refuses.
\<close>

lemma complete_ok:
  assumes "world_ok w u t" "ops w r = Some opn" "\<not> gb_operation_is_incoming opn"
    and "errno opn = - EINPROGRESS" "active opn = int (t r) + 1"
    and "err \<noteq> - EINPROGRESS" "err \<noteq> - EBADR"
    and "\<And>m. response opn' = Some m \<Longrightarrow> msg_ok m" "response opn' \<noteq> None"
    and "opn' = opn\<lparr>errno := err, response := response opn', waiters := waiters opn'\<rparr>"
  shows "world_ok ((set_op w r opn')\<lparr>completion_wq := queue_work r (completion_wq w)\<rparr>) u t"
proof -
  note ok = world_ok_op [OF assms(1,2)]
  let ?w = "(set_op w r opn')\<lparr>completion_wq := queue_work r (completion_wq w)\<rparr>"
  obtain resp wt where opn': "opn' = opn\<lparr>errno := err, response := resp, waiters := wt\<rparr>"
    using assms(10) by blast
  have "world_ok ?w (u(r := u r)) (t(r := t r))"
  proof (rule world_okI [OF assms(1)])
    show "lists_ok ?w"
      using world_ok_lists [OF assms(1)] by (simp add: lists_ok_def)
    show "local_ok ?w (u(r := u r)) (t(r := t r)) r"
      using ok assms(3-9) by (simp add: opn' local_ok_def op_ok_def op_inv_def)
  qed (simp_all add: same_at_def)
  then show ?thesis by simp
qed

lemma send_request_ok:
  assumes "world_ok w u t" "0 < t r" "ops w r = Some opn" "\<not> gb_operation_is_incoming opn"
    and "errno opn = - EINPROGRESS" "callback opn = Some Sync_callback" "active opn = int (t r)"
  shows "world_ok (w\<lparr>inflight := inflight w @ [(r, Request)]\<rparr>) u (t(r := t r - 1))"
proof -
  let ?w = "w\<lparr>inflight := inflight w @ [(r, Request)]\<rparr>"
  have "world_ok ?w (u(r := u r)) (t(r := t r - 1))"
  proof (rule world_okI [OF assms(1)])
    show "lists_ok ?w" using world_ok_lists [OF assms(1)] by (simp add: lists_ok_def)
    show "local_ok ?w (u(r := u r)) (t(r := t r - 1)) r"
      using world_ok_op [OF assms(1,3)] assms(2-)
      by (simp add: local_ok_def op_ok_def op_inv_def of_nat_diff)
  qed (simp_all add: same_at_def)
  then show ?thesis by simp
qed

lemma send_response_ok:
  assumes "world_ok w u t" "0 < t r" "ops w r = Some opn" "gb_operation_is_incoming opn"
    and "\<not> resp_inflight w r" "wq_at w r = {}"
  shows "world_ok (w\<lparr>inflight := inflight w @ [(r, Response)]\<rparr>) u (t(r := t r - 1))"
proof -
  let ?w = "w\<lparr>inflight := inflight w @ [(r, Response)]\<rparr>"
  have "world_ok ?w (u(r := u r)) (t(r := t r - 1))"
  proof (rule world_okI [OF assms(1)])
    show "lists_ok ?w" using world_ok_lists [OF assms(1)] assms(5) by (auto simp: lists_ok_def)
    show "local_ok ?w (u(r := u r)) (t(r := t r - 1)) r"
      using world_ok_op [OF assms(1,3)] assms(2-)
      by (simp add: local_ok_def op_ok_def op_inv_def of_nat_diff)
  qed (auto simp: same_at_def)
  then show ?thesis by simp
qed

text \<open>The host driver reports a message as sent: a response gives its active count to the handler.\<close>

definition take_inflight :: "opworld \<Rightarrow> nat \<times> msg_side \<Rightarrow> opworld" where
  "take_inflight w m = w\<lparr>inflight := remove1 m (inflight w)\<rparr>"

lemma resp_inflight_remove1:
  "distinct (filter (\<lambda>m. snd m = Response) xs) \<Longrightarrow> (r, Response) \<notin> set (remove1 (r, Response) xs)"
proof (induction xs)
  case (Cons m xs)
  then show ?case by (cases "m = (r, Response)"; cases "snd m = Response") auto
qed simp

lemma filter_remove1_distinct:
  "distinct (filter P xs) \<Longrightarrow> distinct (filter P (remove1 m xs))"
  by (simp add: filter_remove1 distinct_remove1)

lemma take_response_ok:
  assumes "world_ok w u t" "resp_inflight w r"
  shows "world_ok (take_inflight w (r, Response)) u (t(r := t r + 1))"
proof -
  obtain opn where r: "ops w r = Some opn" using world_ok_dead(6) [OF assms(1)] assms(2) by fastforce
  note ok = world_ok_op [OF assms(1) r]
  have d: "distinct (filter (\<lambda>m. snd m = Response) (inflight w))"
    using world_ok_lists [OF assms(1)] by (simp add: lists_ok_def)
  let ?w = "take_inflight w (r, Response)"
  have "world_ok ?w (u(r := u r)) (t(r := t r + 1))"
  proof (rule world_okI [OF assms(1)])
    show "lists_ok ?w"
      using world_ok_lists [OF assms(1)] by (simp add: lists_ok_def take_inflight_def filter_remove1_distinct)
    have "gb_operation_is_incoming opn" using ok(3) assms(2) by (auto simp: op_inv_def split: if_splits)
    then show "local_ok ?w (u(r := u r)) (t(r := t r + 1)) r"
      using r ok assms(2) resp_inflight_remove1 [OF d]
      by (simp add: local_ok_def op_ok_def op_inv_def take_inflight_def)
  qed (auto simp: same_at_def take_inflight_def in_set_remove1)
  then show ?thesis by simp
qed

lemma take_request_ok:
  assumes "world_ok w u t"
  shows "world_ok (take_inflight w (r, Request)) u t"
proof -
  let ?w = "take_inflight w (r, Request)"
  have ri: "resp_inflight ?w x \<longleftrightarrow> resp_inflight w x" for x
    by (simp add: take_inflight_def in_set_remove1)
  have sel: "ops ?w = ops w" "conns ?w = conns w" "next_op ?w = next_op w" "ops_at ?w = ops_at w"
    "wq_at ?w = wq_at w" "completion_wq ?w = completion_wq w"
    by (simp_all add: take_inflight_def)
  have qi: "req_inflight w x" if "req_inflight ?w x" for x
    using that by (metis notin_set_remove1 opworld.select_convs(5) opworld.surjective opworld.update_convs(5) take_inflight_def)
  have "local_ok ?w u t x" for x
    using world_ok_local [OF assms, of x] qi [of x]
    by (cases "ops w x") (auto simp: local_ok_def op_ok_def sel ri intro: op_inv_qi)
  with assms show ?thesis
    by (simp add: world_ok_def lists_ok_def filter_remove1_distinct) (simp add: take_inflight_def filter_remove1_distinct)
qed

end
