(* ===== verification/GB_Operation_Handlers.thy ===== *)
theory GB_Operation_Handlers
  imports GB_Operation_Inv
begin

text \<open>
  Every handler of the operation core, run from a state that satisfies the invariant and with the
  references its callers own, finishes without a fault and re-establishes the invariant. Each
  lemma follows the code: it moves the reference and activity tokens through the primitives of
  \<open>GB_Operation_Inv\<close>.
\<close>

section \<open>Messages\<close>

lemma msg_ok_length: "msg_ok m \<Longrightarrow> length (buffer m) = 8 + unat (payload_size m)"
  by (simp add: msg_ok_def msg_wf_def)

lemma msg_ok_wr:
  assumes "msg_ok m" "off + length bs \<le> 8"
  shows "\<exists>buf. wr_bytes (buffer m) off bs = Some buf \<and> msg_ok (m\<lparr>buffer := buf\<rparr>)"
  using assms by (auto simp: wr_bytes_def msg_ok_def msg_wf_def)

lemma msg_ok_wr_any:
  assumes "msg_ok m" "off + length bs \<le> 8 + unat (payload_size m)"
  shows "\<exists>buf. wr_bytes (buffer m) off bs = Some buf \<and> msg_ok (m\<lparr>buffer := buf\<rparr>)"
  using assms by (auto simp: wr_bytes_def msg_ok_def msg_wf_def)

lemma rd_bytes_ok: "off + n \<le> length b \<Longrightarrow> \<exists>bs. rd_bytes b off n = Some bs \<and> length bs = n"
  by (simp add: rd_bytes_def)

text \<open>Allocation under a buffer limit of at most 65535 bytes, for any size that does not wrap.\<close>

lemma gb_operation_message_alloc_ok:
  assumes "unat bmax \<le> 65535" "unat psize \<le> 2 ^ 63"
  shows "gb_operation_message_alloc bmax ok1 ok2 ty psize = Some None \<or>
    (\<exists>m. gb_operation_message_alloc bmax ok1 ok2 ty psize = Some (Some m) \<and> msg_ok m \<and> payload_size m = psize)"
proof (cases "gb_operation_message_alloc bmax ok1 ok2 ty psize = Some None")
  case False
  then obtain m where m: "gb_operation_message_alloc bmax ok1 ok2 ty psize = Some (Some m)" "msg_wf m"
      "payload_size m = psize"
    using gb_operation_message_alloc_safe [OF assms(2), of bmax ok1 ok2 ty] by auto
  then have "psize + 8 \<le> bmax"
    by (auto simp: gb_operation_message_alloc_def Let_def split: if_splits)
  then have "unat (psize + 8) \<le> unat bmax" by (simp only: word_le_nat_alt)
  then have "unat psize \<le> 65527" using message_size_no_wrap [OF assms(2)] assms(1) by linarith
  with m show ?thesis by (simp add: msg_ok_def)
qed simp

lemma gb_operation_response_alloc_ok:
  assumes "unat bmax \<le> 65535" "unat psize \<le> 2 ^ 63" "msg_ok (request opn)"
  shows "gb_operation_response_alloc bmax ok1 ok2 psize opn = Some (False, opn) \<or>
    (\<exists>m. gb_operation_response_alloc bmax ok1 ok2 psize opn = Some (True, opn\<lparr>response := Some m\<rparr>) \<and>
       msg_ok m \<and> payload_size m = psize)"
proof -
  obtain oid where oid: "rd_bytes (buffer (request opn)) 2 2 = Some oid" "length oid = 2"
    using msg_ok_length [OF assms(3)] rd_bytes_ok [of 2 2 "buffer (request opn)"] by auto
  from gb_operation_message_alloc_ok [OF assms(1,2), of ok1 ok2 "type opn OR 128"] show ?thesis
  proof
    assume "\<exists>m. gb_operation_message_alloc bmax ok1 ok2 (type opn OR 128) psize = Some (Some m) \<and>
      msg_ok m \<and> payload_size m = psize"
    then obtain m where m: "gb_operation_message_alloc bmax ok1 ok2 (type opn OR 128) psize = Some (Some m)"
      "msg_ok m" "payload_size m = psize" by blast
    with msg_ok_wr [OF m(2), of 2 oid] oid show ?thesis
      by (auto simp: gb_operation_response_alloc_def)
  qed (simp add: gb_operation_response_alloc_def)
qed

section \<open>Operations in place\<close>

lemma gb_operation_result_set_fields [simp]:
  "connection (snd (gb_operation_result_set opn e)) = connection opn"
  "request (snd (gb_operation_result_set opn e)) = request opn"
  "response (snd (gb_operation_result_set opn e)) = response opn"
  "flags (snd (gb_operation_result_set opn e)) = flags opn"
  "callback (snd (gb_operation_result_set opn e)) = callback opn"
  "kref (snd (gb_operation_result_set opn e)) = kref opn"
  "active (snd (gb_operation_result_set opn e)) = active opn"
  "op_id (snd (gb_operation_result_set opn e)) = op_id opn"
  "gb_operation_is_incoming (snd (gb_operation_result_set opn e)) = gb_operation_is_incoming opn"
  "gb_operation_is_unidirectional (snd (gb_operation_result_set opn e)) = gb_operation_is_unidirectional opn"
  by (simp_all add: gb_operation_result_set_def Let_def gb_operation_is_incoming_def
      gb_operation_is_unidirectional_def)

text \<open>Changing an operation without touching what the invariant reads.\<close>

lemma op_inv_unread [simp]:
  "op_inv n t (opn\<lparr>completion := x\<rparr>) = op_inv n t opn"
  "op_inv n t (opn\<lparr>waiters := y\<rparr>) = op_inv n t opn"
  by (simp_all add: fun_eq_iff op_inv_def)

lemma world_ok_set_op_same:
  assumes "world_ok w u t" "ops w r = Some opn" "connection opn' = connection opn"
    and "op_inv (u r) (t r) opn' (ops_at w r) (wq_at w r) (in_cwq w r) (resp_inflight w r) (req_inflight w r)"
  shows "world_ok (set_op w r opn') u t"
  using world_ok_set_op [OF assms(1-3), of "u r" "t r"] assms(4) by simp

lemma world_ok_cancels:
  assumes "world_ok w u t"
  shows "world_ok (w\<lparr>cancels := x\<rparr>) u t"
proof -
  have "local_ok (w\<lparr>cancels := x\<rparr>) u t r" for r
    using world_ok_local [OF assms, of r] by (cases "ops w r") (simp_all add: local_ok_def op_ok_def)
  then show ?thesis using assms by (simp add: world_ok_def)
qed

text \<open>Changing the fields of a connection that the invariant does not read.\<close>

lemma world_ok_set_conn_same:
  assumes "world_ok w u t" "conns w c = Some k" "operations k' = operations k" "wq k' = wq k"
  shows "world_ok (set_conn w c k') u t"
proof -
  let ?w = "set_conn w c k'"
  have at: "ops_at ?w x = ops_at w x" "wq_at ?w x = wq_at w x" for x
    using assms(3,4) by (simp_all add: ops_at_set_conn_same [OF assms(2)] wq_at_set_conn_same [OF assms(2)])
  have "local_ok ?w u t x" for x
    using world_ok_local [OF assms(1), of x]
    by (cases "ops w x") (auto simp: local_ok_def op_ok_def at)
  moreover have "lists_ok ?w"
    using lists_ok_set_conn [OF world_ok_lists [OF assms(1)]] assms(3,4)
      lists_ok_conn [OF world_ok_lists [OF assms(1)] assms(2)] by simp
  ultimately show ?thesis using assms(1) by (simp add: world_ok_def)
qed

text \<open>Giving an active count back and dropping the reference it becomes, the end of every handler.\<close>

lemma put_active_put_ok:
  assumes "world_ok w u t" "0 < t r"
  shows "\<exists>w1 w'. gb_operation_put_active w r = Some w1 \<and> gb_operation_put w1 r = Some w' \<and>
    world_ok w' u (t(r := t r - 1))"
proof -
  obtain w1 where w1: "gb_operation_put_active w r = Some w1" "world_ok w1 (u(r := u r + 1)) (t(r := t r - 1))"
    using gb_operation_put_active_ok [OF assms] by blast
  obtain w2 where "gb_operation_put w1 r = Some w2" "world_ok w2 ((u(r := u r + 1))(r := u r)) (t(r := t r - 1))"
    using gb_operation_put_ok [OF w1(2), of r] by auto
  with w1 show ?thesis by auto
qed

section \<open>Sending a request\<close>

text \<open>
  A fresh outgoing operation, sent by a holder of a reference. With the result pending and the
  operation idle the send either hands an active count to the host driver or takes everything
  back.
\<close>

lemma gb_operation_request_send_ok:
  assumes "world_ok w u t" "0 < u r" "ops w r = Some opn" "\<not> gb_operation_is_incoming opn"
    and "errno opn = - EBADR" "t r = 0"
  shows "\<exists>ret w'. gb_operation_request_send w r (Some Sync_callback) sr = Some (ret, w') \<and> world_ok w' u t"
proof -
  note ok = world_ok_op [OF assms(1,3)]
  then obtain k where k: "conns w (connection opn) = Some k" by auto
  have inv: "active opn = 0" "msg_ok (request opn)" "response opn \<noteq> None" "\<not> in_cwq w r"
    using ok(3) assms(4,5,6) by (auto simp: op_inv_def)
  define cycle where "cycle = op_cycle k + 1"
  define oid where "oid = next_operation_id cycle"
  obtain buf where buf: "wr_bytes (buffer (request opn)) 2 (cpu_to_le16 oid) = Some buf"
      "msg_ok ((request opn)\<lparr>buffer := buf\<rparr>)"
    using msg_ok_wr [OF inv(2), of 2 "cpu_to_le16 oid"] by auto
  define o1 where "o1 = opn\<lparr>callback := Some Sync_callback, op_id := oid,
    request := (request opn)\<lparr>buffer := buf\<rparr>, errno := - EINPROGRESS\<rparr>"
  define k1 where "k1 = k\<lparr>op_cycle := cycle\<rparr>"
  define w0 where "w0 = set_conn w (connection opn) k1"
  define w1 where "w1 = set_op w0 r o1"
  have w0: "world_ok w0 u t" "ops w0 r = Some opn" "ops_at w0 r = ops_at w r" "wq_at w0 r = wq_at w r"
    "completion_wq w0 = completion_wq w" "inflight w0 = inflight w"
    using world_ok_set_conn_same [OF assms(1) k, of k1] assms(3)
    by (simp_all add: w0_def k1_def ops_at_set_conn_same [OF k] wq_at_set_conn_same [OF k])
  have w1: "world_ok w1 u t"
    unfolding w1_def
    by (rule world_ok_set_op_same [OF w0(1,2)])
       (use ok(3) assms(4-6) inv buf w0(3-) in \<open>simp_all add: o1_def op_inv_def\<close>)
  have r1: "ops w1 r = Some o1" by (simp add: w1_def)
  define o2 where "o2 = o1\<lparr>kref := kref o1 + 1\<rparr>"
  define w2 where "w2 = set_op w1 r o2"
  have w2: "gb_operation_get w1 r = Some w2" "world_ok w2 (u(r := u r + 1)) t" "ops w2 r = Some o2"
    using gb_operation_get_ok [OF w1 r1] by (simp_all add: w2_def o2_def)
  have k2: "conns w2 (connection o2) = Some k1"
    by (simp add: w2_def w1_def w0_def o2_def o1_def)
  have start: "gb_operation_request_send w r (Some Sync_callback) sr =
    (case gb_operation_get_active w2 r of None \<Rightarrow> None | Some (ret, w3) \<Rightarrow>
       if ret \<noteq> 0 then do { w4 \<leftarrow> gb_operation_put w3 r; Some (ret, w4) }
       else if sr \<noteq> 0 then do {
         w6 \<leftarrow> Option.bind (gb_operation_put_active w3 r) (\<lambda>w. gb_operation_put w r); Some (sr, w6) }
       else Some (0, w3\<lparr>inflight := inflight w3 @ [(r, Request)]\<rparr>))"
    using assms(3,5) k buf(1) w2(1)
    by (simp add: gb_operation_request_send_def gb_message_send_def gb_operation_result_set_def Let_def
        cycle_def oid_def o1_def k1_def w0_def w1_def split: option.split bind_split)
  show ?thesis
  proof (cases "state k1 = GB_CONNECTION_STATE_ENABLED")
    case False
    then have "gb_operation_get_active w2 r = Some (- ENOTCONN, w2)"
      using gb_operation_get_active_ok [OF w2(2) _ w2(3) k2] by simp
    moreover obtain w4 where "gb_operation_put w2 r = Some w4" "world_ok w4 u t"
      using gb_operation_put_ok [OF w2(2), of r] by auto
    ultimately show ?thesis using start by simp
  next
    case True
    then obtain w3 where w3: "gb_operation_get_active w2 r = Some (0, w3)"
      "ops w3 r = Some (o2\<lparr>active := active o2 + 1\<rparr>)" "world_ok w3 u (t(r := 1))"
      using gb_operation_get_active_ok [OF w2(2) _ w2(3) k2] assms(6) by auto
    show ?thesis
    proof (cases "sr = 0")
      case True
      have "world_ok (w3\<lparr>inflight := inflight w3 @ [(r, Request)]\<rparr>) u ((t(r := 1))(r := 0))"
        using send_request_ok [OF w3(3) _ w3(2)] assms(4) inv(1) by (simp add: o2_def o1_def)
      then show ?thesis using start w3(1) True assms(6) by (simp add: fun_upd_idem)
    next
      case False
      then show ?thesis
        using start w3(1) put_active_put_ok [OF w3(3), of r] assms(6) by (auto simp: fun_upd_idem)
    qed
  qed
qed

section \<open>Sending a response\<close>

text \<open>
  An incoming operation under its work item: \<open>response_send\<close> leaves the active count of the work
  item in place and may hand a second one to the host driver.
\<close>

lemma gb_operation_response_send_ok:
  assumes "world_ok w u t" "ops w r = Some opn" "gb_operation_is_incoming opn" "0 < t r"
    and "wq_at w r = {}" "\<not> resp_inflight w r"
  shows "\<exists>ret w'. gb_operation_response_send w r err ok1 ok2 sr = Some (ret, w') \<and> world_ok w' u t"
proof -
  note ok = world_ok_op [OF assms(1,2)]
  then obtain k where k: "conns w (connection opn) = Some k" by auto
  have bm: "unat (buffer_size_max w) \<le> 65535" using assms(1) by (simp add: world_ok_def)
  have req: "msg_ok (request opn)" using ok(3) by (simp add: op_inv_def)
  obtain b resp where alloc: "(if response opn = None \<and> \<not> gb_operation_is_unidirectional opn
        then gb_operation_response_alloc (buffer_size_max w) ok1 ok2 0 opn else Some (True, opn)) =
        Some (b, opn\<lparr>response := resp\<rparr>)"
      and resp: "\<And>m. resp = Some m \<Longrightarrow> msg_ok m" "b \<and> \<not> gb_operation_is_unidirectional opn \<Longrightarrow> resp \<noteq> None"
  proof (cases "response opn = None \<and> \<not> gb_operation_is_unidirectional opn")
    case True
    then show ?thesis
      using gb_operation_response_alloc_ok [OF bm _ req, of 0 ok1 ok2] that [of False None] that [of True "Some _"]
      by (metis (no_types, lifting) gb_operation.surjective gb_operation.update_convs(3) le0 option.distinct(1)
          option.inject unat_0)
  next
    case False
    then show ?thesis
      using that [of True "response opn"] ok(3) by (auto simp: op_inv_def)
  qed
  define o1 where "o1 = opn\<lparr>response := resp\<rparr>"
  define o2 where "o2 = snd (gb_operation_result_set o1 err)"
  obtain recd where rs: "gb_operation_result_set (opn\<lparr>response := resp\<rparr>) err = (recd, o2)"
    by (cases "gb_operation_result_set o1 err") (simp add: o1_def o2_def)
  have uni2: "gb_operation_is_unidirectional o2 = gb_operation_is_unidirectional opn"
    by (simp add: o2_def o1_def)
  have keep: "world_ok (set_op w r x) u t"
    if "x = o1 \<or> x = o2" for x
    by (rule world_ok_set_op_same [OF assms(1,2)])
       (use that ok(3) assms(3-) resp in \<open>auto simp: o1_def o2_def op_inv_def\<close>)
  define w1 where "w1 = set_op w r o2"
  have w1: "world_ok w1 u t" "ops w1 r = Some o2" using keep by (auto simp: w1_def)
  define o3 where "o3 = o2\<lparr>kref := kref o2 + 1\<rparr>"
  define w2 where "w2 = set_op w1 r o3"
  have w2: "gb_operation_get w1 r = Some w2" "world_ok w2 (u(r := u r + 1)) t" "ops w2 r = Some o3"
    using gb_operation_get_ok [OF w1] by (simp_all add: w2_def o3_def)
  have k2: "conns w2 (connection o3) = Some k" using k by (simp add: w2_def w1_def o3_def o2_def o1_def)
  show ?thesis
  proof (cases "b \<and> recd \<and> \<not> gb_operation_is_unidirectional opn")
    case False
    then show ?thesis
      using keep alloc assms(2) rs uni2
      by (cases b; cases recd) (auto simp: gb_operation_response_send_def o1_def)
  next
    case T: True
    then obtain m where m: "resp = Some m" "msg_ok m" using resp by (cases resp) auto
    obtain buf where buf: "wr_bytes (buffer m) 5 [gb_operation_errno_map err] = Some buf"
        "msg_ok (m\<lparr>buffer := buf\<rparr>)"
      using msg_ok_wr [OF m(2), of 5 "[gb_operation_errno_map err]"] by auto
    have start: "gb_operation_response_send w r err ok1 ok2 sr =
      do { (ret, w2) \<leftarrow> gb_operation_get_active w2 r;
           if ret \<noteq> 0 then do { w3 \<leftarrow> gb_operation_put w2 r; Some (ret, w3) }
           else do {
             o3 \<leftarrow> ops w2 r;
             resp \<leftarrow> response o3;
             buf \<leftarrow> wr_bytes (buffer resp) 5 [gb_operation_errno_map err];
             let w3 = set_op w2 r (o3\<lparr>response := Some (resp\<lparr>buffer := buf\<rparr>)\<rparr>);
             case gb_message_send w3 r Response sr of (ret, w4) \<Rightarrow>
               if ret \<noteq> 0 then do {
                 w5 \<leftarrow> gb_operation_put_active w4 r;
                 w6 \<leftarrow> gb_operation_put w5 r;
                 Some (ret, w6)
               } else Some (0, w4)
           }
         }"
      using alloc assms(2) T w2(1) rs uni2 by (simp add: gb_operation_response_send_def w1_def)
    show ?thesis
    proof (cases "state k = GB_CONNECTION_STATE_ENABLED")
      case False
      then have "gb_operation_get_active w2 r = Some (- ENOTCONN, w2)"
        using gb_operation_get_active_ok [OF w2(2) _ w2(3) k2] by simp
      moreover obtain w4 where "gb_operation_put w2 r = Some w4" "world_ok w4 u t"
        using gb_operation_put_ok [OF w2(2), of r] by auto
      ultimately show ?thesis using start by simp
    next
      case True
      define o4 where "o4 = o3\<lparr>active := active o3 + 1\<rparr>"
      obtain w3 where w3: "gb_operation_get_active w2 r = Some (0, w3)" "ops w3 r = Some o4"
        "inflight w3 = inflight w2" "wq_at w3 = wq_at w2" "world_ok w3 u (t(r := t r + 1))"
        using gb_operation_get_active_ok [OF w2(2) _ w2(3) k2] True by (auto simp: o4_def)
      define o5 where "o5 = o4\<lparr>response := Some (m\<lparr>buffer := buf\<rparr>)\<rparr>"
      define w4 where "w4 = set_op w3 r o5"
      have r4: "response o4 = Some m" using m(1) by (simp add: o4_def o3_def o2_def o1_def)
      have w4: "world_ok w4 u (t(r := t r + 1))"
        unfolding w4_def
        by (rule world_ok_set_op_same [OF w3(5,2)])
           (use world_ok_op(3) [OF w3(5,2)] buf(2) in
             \<open>simp_all add: o5_def op_inv_def o4_def o3_def o2_def o1_def assms(3)\<close>)
      have step: "gb_operation_response_send w r err ok1 ok2 sr =
        (if sr \<noteq> 0 then do { w5 \<leftarrow> gb_operation_put_active w4 r; w6 \<leftarrow> gb_operation_put w5 r; Some (sr, w6) }
         else Some (0, w4\<lparr>inflight := inflight w4 @ [(r, Response)]\<rparr>))"
        using start w3(1,2) r4 buf(1) by (simp add: w4_def o5_def gb_message_send_def)
      show ?thesis
      proof (cases "sr = 0")
        case True
        have "world_ok (w4\<lparr>inflight := inflight w4 @ [(r, Response)]\<rparr>) u ((t(r := t r + 1))(r := t r))"
          using send_response_ok [OF w4, of r o5] assms(3,5,6) w3(3,4)
          by (simp add: w4_def o5_def o4_def o3_def o2_def o1_def w2_def w1_def)
        then show ?thesis using step True by simp
      next
        case False
        then show ?thesis using step put_active_put_ok [OF w4, of r] by auto
      qed
    qed
  qed
qed

section \<open>Work items\<close>

text \<open>
  What a protocol's request handler may do: return a status and set the response to a well-formed
  message, with nothing else of the operation changed.
\<close>

definition handler_ok :: "work_env \<Rightarrow> bool" where
  "handler_ok env \<longleftrightarrow> (\<forall>h. request_recv env = Some h \<longrightarrow>
     (\<forall>ty opn. msg_ok (request opn) \<longrightarrow>
        (\<exists>st resp. h ty opn = Some (st, opn\<lparr>response := resp\<rparr>) \<and>
           (resp = response opn \<or> (\<exists>m. resp = Some m \<and> msg_ok m)))))"

lemma gb_operation_request_handle_ok:
  assumes "world_ok w u t" "ops w r = Some opn" "gb_operation_is_incoming opn" "0 < t r"
    and "wq_at w r = {}" "\<not> resp_inflight w r" "handler_ok env"
  shows "\<exists>w'. gb_operation_request_handle env w r = Some w' \<and> world_ok w' u t"
proof -
  note ok = world_ok_op [OF assms(1,2)]
  then obtain k where k: "conns w (connection opn) = Some k" by auto
  have req: "msg_ok (request opn)" using ok(3) by (simp add: op_inv_def)
  obtain st resp where h: "(case request_recv env of None \<Rightarrow> Some (- EPROTONOSUPPORT, opn)
      | Some handler \<Rightarrow> handler (type opn) opn) = Some (st, opn\<lparr>response := resp\<rparr>)"
    and resp: "\<And>m. resp = Some m \<Longrightarrow> msg_ok m"
  proof (cases "request_recv env")
    case None
    then show ?thesis using that [of "- EPROTONOSUPPORT" "response opn"] ok(3) by (auto simp: op_inv_def)
  next
    case (Some f)
    then obtain st resp where "f (type opn) opn = Some (st, opn\<lparr>response := resp\<rparr>)"
      "resp = response opn \<or> (\<exists>m. resp = Some m \<and> msg_ok m)"
      using assms(7) req by (fastforce simp: handler_ok_def)
    then show ?thesis using that [of st resp] Some ok(3) by (auto simp: op_inv_def)
  qed
  define w1 where "w1 = set_op w r (opn\<lparr>response := resp\<rparr>)"
  have w1: "world_ok w1 u t"
    unfolding w1_def
    by (rule world_ok_set_op_same [OF assms(1,2)])
       (use ok(3) assms(3) resp in \<open>simp_all add: op_inv_def\<close>)
  have r1: "ops w1 r = Some (opn\<lparr>response := resp\<rparr>)" "wq_at w1 r = {}" "\<not> resp_inflight w1 r"
    using assms(5,6) by (simp_all add: w1_def)
  obtain ret w' where "gb_operation_response_send w1 r st (resp_msg_ok env) (resp_buf_ok env)
      (resp_send_ret env) = Some (ret, w')" "world_ok w' u t"
    using gb_operation_response_send_ok [OF w1 r1(1) _ assms(4) r1(2,3), of st "resp_msg_ok env"
        "resp_buf_ok env" "resp_send_ret env"] assms(3) by auto
  with h k assms(1,2) show ?thesis by (auto simp: gb_operation_request_handle_def w1_def)
qed

text \<open>The work item of an outgoing operation, taken off the completion queue.\<close>

lemma gb_operation_work_out_ok:
  assumes "world_ok w u t" "in_cwq w r"
  shows "\<exists>w'. gb_operation_work env (dequeue_completion w r) r = Some w' \<and> world_ok w' u t"
proof -
  obtain opn where r: "ops w r = Some opn" "\<not> gb_operation_is_incoming opn" "callback opn = Some Sync_callback"
    "world_ok (dequeue_completion w r) u (t(r := t r + 1))"
    using dequeue_completion_ok [OF assms] by blast
  let ?w = "dequeue_completion w r"
  have r': "ops ?w r = Some opn" using r(1) by (simp add: dequeue_completion_def)
  define w1 where "w1 = set_op ?w r (opn\<lparr>completion := completion opn + 1\<rparr>)"
  have w1: "world_ok w1 u (t(r := t r + 1))"
    unfolding w1_def
    by (rule world_ok_set_op_same [OF r(4) r'])
       (use world_ok_op(3) [OF r(4) r'] in simp_all)
  then show ?thesis
    using r r' put_active_put_ok [OF w1, of r]
    by (auto simp: gb_operation_work_def gb_operation_sync_callback_def w1_def)
qed

text \<open>The work item of an incoming operation, taken off the queue of its connection.\<close>

lemma gb_operation_work_in_ok:
  assumes "world_ok w u t" "conns w c = Some k" "r \<in> set (wq k)" "handler_ok env"
  shows "\<exists>w'. gb_operation_work env (dequeue_wq w c k r) r = Some w' \<and> world_ok w' u t"
proof -
  let ?w = "dequeue_wq w c k r"
  obtain opn where r: "ops w r = Some opn" "gb_operation_is_incoming opn" "connection opn = c"
    "world_ok ?w u (t(r := t r + 1))" "wq_at ?w r = {}"
    using dequeue_wq_ok [OF assms(1-3)] by blast
  have "\<not> resp_inflight w r"
    using world_ok_op(3) [OF assms(1) r(1)] wq_at_conn [OF assms(2), of r] assms(3) r(2)
    by (auto simp: op_inv_def)
  then have r': "ops ?w r = Some opn" "\<not> resp_inflight ?w r"
    using r(1) by (simp_all add: dequeue_wq_def)
  obtain w1 where w1: "gb_operation_request_handle env ?w r = Some w1" "world_ok w1 u (t(r := t r + 1))"
    using gb_operation_request_handle_ok [OF r(4) r'(1) r(2) _ r(5) r'(2) assms(4)] by auto
  then show ?thesis
    using r r' put_active_put_ok [OF w1(2), of r] by (auto simp: gb_operation_work_def)
qed

section \<open>Creation\<close>

lemma world_ok_fresh:
  assumes "world_ok w u t"
  shows "ops w (next_op w) = None" "\<not> req_inflight w (next_op w)"
  using world_ok_local [OF assms, of "next_op w"] by (auto simp: local_ok_def split: option.splits)

text \<open>A new operation belongs to its creator.\<close>

lemma world_ok_new:
  assumes "world_ok w u t" "conns w (connection opn) \<noteq> None"
    and "msg_ok (request opn)" "kref opn = 1" "active opn = 0" "errno opn = - EBADR"
    and "if gb_operation_is_incoming opn then response opn = None
         else \<exists>m. response opn = Some m \<and> msg_ok m"
  shows "world_ok (set_op (w\<lparr>next_op := next_op w + 1\<rparr>) (next_op w) opn) (u(next_op w := 1)) t"
proof -
  let ?r = "next_op w" and ?w = "set_op (w\<lparr>next_op := next_op w + 1\<rparr>) (next_op w) opn"
  note dead = world_ok_dead [OF assms(1) world_ok_fresh(1) [OF assms(1)]]
  have "world_ok ?w (u(?r := 1)) (t(?r := 0))"
  proof (rule world_okI [OF assms(1)])
    show "lists_ok ?w" using world_ok_lists [OF assms(1)] by simp
    show "local_ok ?w (u(?r := 1)) (t(?r := 0)) ?r"
      using dead world_ok_fresh(2) [OF assms(1)] assms(2-)
      by (auto simp: local_ok_def op_ok_def op_inv_def split: if_splits)
  qed (simp_all add: same_at_def)
  then show ?thesis using dead(2) by (simp add: fun_upd_idem)
qed

lemma gb_operation_create_common_ok:
  assumes "world_ok w u t" "conns w c \<noteq> None" "unat rq \<le> 2 ^ 63" "unat rs \<le> 2 ^ 63"
  shows "gb_operation_create_common w c ty rq rs fl al = Some (None, w) \<or>
    (\<exists>opn w'. gb_operation_create_common w c ty rq rs fl al = Some (Some (next_op w), w') \<and>
       w' = set_op (w\<lparr>next_op := next_op w + 1\<rparr>) (next_op w) opn \<and>
       connection opn = c \<and> flags opn = fl \<and> errno opn = - EBADR \<and> active opn = 0 \<and> type opn = ty \<and>
       payload_size (request opn) = rq \<and>
       (\<not> gb_operation_is_incoming opn \<longrightarrow> map_option payload_size (response opn) = Some rs) \<and>
       world_ok w' (u(next_op w := 1)) t)"
proof -
  have bm: "unat (buffer_size_max w) \<le> 65535" using assms(1) by (simp add: world_ok_def)
  show ?thesis
  proof (cases "al 0 \<and> gb_operation_message_alloc (buffer_size_max w) (al 1) (al 2) ty rq \<noteq> Some None")
    case False
    then show ?thesis by (auto simp: gb_operation_create_common_def)
  next
    case True
    then obtain req where req: "gb_operation_message_alloc (buffer_size_max w) (al 1) (al 2) ty rq = Some (Some req)"
      "msg_ok req" "payload_size req = rq"
      using gb_operation_message_alloc_ok [OF bm assms(3)] by metis
    define o0 where "o0 = \<lparr>connection = c, request = req, response = None, flags = 0, type = 0,
                      op_id = 0, errno = 0, callback = None, completion = 0, kref = 0,
                      waiters = 0, active = 0\<rparr>"
    define fin :: "gb_operation \<Rightarrow> gb_operation" where "fin = (\<lambda>opn. opn\<lparr>flags := fl, type := ty, errno := - EBADR, completion := 0,
                         kref := 1, waiters := 0\<rparr>)"
    have start: "gb_operation_create_common w c ty rq rs fl al =
      (case (if fl AND 1 = 0 then gb_operation_response_alloc (buffer_size_max w) (al 3) (al 4) rs o0
             else Some (True, o0)) of None \<Rightarrow> None
       | Some (ok, opn) \<Rightarrow> if \<not> ok then Some (None, w)
           else Some (Some (next_op w), set_op (w\<lparr>next_op := next_op w + 1\<rparr>) (next_op w) (fin opn)))"
      using True req(1)
      by (simp add: gb_operation_create_common_def o0_def fin_def split: option.split bind_split)
    show ?thesis
    proof (cases "fl AND 1 = 0")
      case inc: False
      have "world_ok (set_op (w\<lparr>next_op := next_op w + 1\<rparr>) (next_op w) (fin o0)) (u(next_op w := 1)) t"
        by (rule world_ok_new [OF assms(1)])
           (use assms(2) req(2) inc in \<open>simp_all add: fin_def o0_def gb_operation_is_incoming_def\<close>)
      then show ?thesis
        using start inc req(3)
        by (auto simp: fin_def o0_def gb_operation_is_incoming_def intro!: exI [of _ "fin o0"])
    next
      case out: True
      have "msg_ok (request o0)" using req(2) by (simp add: o0_def)
      from gb_operation_response_alloc_ok [OF bm assms(4) this, of "al 3" "al 4"] show ?thesis
      proof
        assume "\<exists>m. gb_operation_response_alloc (buffer_size_max w) (al 3) (al 4) rs o0 =
            Some (True, o0\<lparr>response := Some m\<rparr>) \<and> msg_ok m \<and> payload_size m = rs"
        then obtain m where m: "gb_operation_response_alloc (buffer_size_max w) (al 3) (al 4) rs o0 =
            Some (True, o0\<lparr>response := Some m\<rparr>)" "msg_ok m" "payload_size m = rs" by blast
        let ?o = "fin (o0\<lparr>response := Some m\<rparr>)"
        have "world_ok (set_op (w\<lparr>next_op := next_op w + 1\<rparr>) (next_op w) ?o) (u(next_op w := 1)) t"
          by (rule world_ok_new [OF assms(1)])
             (use assms(2) req(2) out m(2) in \<open>simp_all add: fin_def o0_def gb_operation_is_incoming_def\<close>)
        then show ?thesis
          using start out req(3) m
          by (auto simp: fin_def o0_def gb_operation_is_incoming_def intro!: exI [of _ ?o])
      qed (use start out in simp)
    qed
  qed
qed

section \<open>Events from the host driver\<close>

text \<open>
  A message reported as sent. The report for a response carries its own active count; the report
  for a request carries nothing, so it is only safe while the operation is alive.
\<close>

lemma greybus_message_sent_response_ok:
  assumes "world_ok w u t" "resp_inflight w r"
  shows "\<exists>w'. greybus_message_sent (take_inflight w (r, Response)) r Response status = Some w' \<and> world_ok w' u t"
proof -
  have ok: "world_ok (take_inflight w (r, Response)) u (t(r := t r + 1))" by (rule take_response_ok [OF assms])
  moreover obtain opn where "ops (take_inflight w (r, Response)) r = Some opn"
    using world_ok_token_live [OF ok, of r] by auto
  ultimately show ?thesis
    using put_active_put_ok [OF ok, of r] by (auto simp: greybus_message_sent_def)
qed

lemma greybus_message_sent_request_ok:
  assumes "world_ok w u t" "req_inflight w r" "ops w r = Some opn" "status \<noteq> - EINPROGRESS"
  shows "\<exists>w'. greybus_message_sent (take_inflight w (r, Request)) r Request status = Some w' \<and> world_ok w' u t"
proof -
  let ?w = "take_inflight w (r, Request)"
  have ok: "world_ok ?w u t" by (rule take_request_ok [OF assms(1)])
  have r: "ops ?w r = Some opn" using assms(3) by (simp add: take_inflight_def)
  note inv = world_ok_op(3) [OF assms(1,3)] and inv' = world_ok_op(3) [OF ok r]
  have out: "\<not> gb_operation_is_incoming opn" using inv assms(2) by (auto simp: op_inv_def)
  show ?thesis
  proof (cases "status \<noteq> 0 \<and> errno opn = - EINPROGRESS")
    case True
    define err where "err = (if status = - EBADR then - EILSEQ else status)"
    have "world_ok ((set_op ?w r (opn\<lparr>errno := err\<rparr>))\<lparr>completion_wq := queue_work r (completion_wq ?w)\<rparr>) u t"
      by (rule complete_ok [OF ok r out, where err = err])
         (use True inv assms(2,4) out in \<open>auto simp: op_inv_def err_def\<close>)
    then show ?thesis
      using True r assms(4) by (auto simp: greybus_message_sent_def gb_operation_result_set_def Let_def err_def)
  next
    case False
    moreover have "set_op ?w r opn = ?w" using r by (simp add: set_op_def fun_upd_idem)
    ultimately show ?thesis
      using r ok assms(4) by (auto simp: greybus_message_sent_def gb_operation_result_set_def Let_def)
  qed
qed

text \<open>An incoming request, with a message size of at least the header.\<close>

lemma gb_operation_create_incoming_ok:
  assumes "world_ok w u t" "conns w c \<noteq> None" "8 \<le> sz" "sz \<le> length data" "sz < 65536"
  shows "gb_operation_create_incoming w c oid ty data sz al = Some (None, w) \<or>
    (\<exists>opn w'. gb_operation_create_incoming w c oid ty data sz al = Some (Some (next_op w), w') \<and>
       ops w' (next_op w) = Some opn \<and> connection opn = c \<and> gb_operation_is_incoming opn \<and>
       conns w' = conns w \<and> gb_operation_is_unidirectional opn = (oid = 0) \<and> type opn = ty \<and>
       errno opn = - EBADR \<and> active opn = 0 \<and> op_id opn = oid \<and> buffer (request opn) = take sz data \<and>
       world_ok w' (u(next_op w := 1)) t)"
proof -
  define rq where "rq = (of_nat sz :: size_t) - 8"
  have szw: "unat (of_nat sz :: size_t) = sz" using assms(5) by (simp add: unat_of_nat take_bit_nat_eq_self)
  have rq: "unat rq = sz - 8"
    using assms(3) by (simp add: rq_def unat_sub_if' word_le_nat_alt szw)
  define fl :: u64 where "fl = (if oid = 0 then 1 OR 2 else 1)"
  have flw: "fl AND 1 \<noteq> 0" "fl AND 2 \<noteq> 0 \<longleftrightarrow> oid = 0" by (simp_all add: fl_def)
  have "unat rq \<le> 2 ^ 63" "unat (0 :: size_t) \<le> 2 ^ 63" using rq assms(5) by simp_all
  from gb_operation_create_common_ok [OF assms(1,2) this, of ty fl al] show ?thesis
  proof
    assume "gb_operation_create_common w c ty rq 0 fl al = Some (None, w)"
    then show ?thesis by (simp add: gb_operation_create_incoming_def rq_def [symmetric] fl_def [symmetric] Let_def)
  next
    assume "\<exists>opn w'. gb_operation_create_common w c ty rq 0 fl al = Some (Some (next_op w), w') \<and>
       w' = set_op (w\<lparr>next_op := next_op w + 1\<rparr>) (next_op w) opn \<and>
       connection opn = c \<and> flags opn = fl \<and> errno opn = - EBADR \<and> active opn = 0 \<and> type opn = ty \<and>
       payload_size (request opn) = rq \<and>
       (\<not> gb_operation_is_incoming opn \<longrightarrow> map_option payload_size (response opn) = Some 0) \<and>
       world_ok w' (u(next_op w := 1)) t"
    then obtain opn w1 where c: "gb_operation_create_common w c ty rq 0 fl al = Some (Some (next_op w), w1)"
      "w1 = set_op (w\<lparr>next_op := next_op w + 1\<rparr>) (next_op w) opn" "connection opn = c" "flags opn = fl"
      "errno opn = - EBADR" "active opn = 0" "type opn = ty" "payload_size (request opn) = rq"
      "world_ok w1 (u(next_op w := 1)) t" by auto
    have r1: "ops w1 (next_op w) = Some opn" by (simp add: c(2))
    note inv = world_ok_op(3) [OF c(9) r1]
    have len: "length (buffer (request opn)) = sz"
      using inv msg_ok_length [of "request opn"] c(8) rq assms(3) by (simp add: op_inv_def)
    define o1 where "o1 = opn\<lparr>op_id := oid, request := (request opn)\<lparr>buffer := take sz data\<rparr>\<rparr>"
    have "world_ok (set_op w1 (next_op w) o1) (u(next_op w := 1)) t"
      by (rule world_ok_set_op_same [OF c(9) r1])
         (use inv len assms(4) in \<open>simp_all add: o1_def op_inv_def msg_ok_def msg_wf_def\<close>)
    moreover have "gb_operation_create_incoming w c oid ty data sz al = Some (Some (next_op w), set_op w1 (next_op w) o1)"
      using c(1) r1 len assms(4)
      by (simp add: gb_operation_create_incoming_def rq_def [symmetric] fl_def [symmetric] Let_def
          rd_bytes_def wr_bytes_def o1_def)
    ultimately show ?thesis
      using c(2-7) flw
      by (simp add: o1_def gb_operation_is_incoming_def gb_operation_is_unidirectional_def)
  qed
qed

text \<open>Queueing the work item of an incoming operation hands the active count to the queue.\<close>

lemma queue_incoming_ok:
  assumes "world_ok w u t" "t r = 1" "ops w r = Some opn" "gb_operation_is_incoming opn"
    and "wq_at w r = {}" "\<not> resp_inflight w r" "conns w (connection opn) = Some k"
  shows "world_ok (set_conn (set_op w r (opn\<lparr>errno := - EINPROGRESS\<rparr>)) (connection opn)
    (k\<lparr>wq := queue_work r (wq k)\<rparr>)) u (t(r := 0))"
proof -
  let ?o = "opn\<lparr>errno := - EINPROGRESS\<rparr>" and ?k = "k\<lparr>wq := queue_work r (wq k)\<rparr>"
  let ?w = "set_conn (set_op w r ?o) (connection opn) ?k"
  note ok = world_ok_op [OF assms(1,3)] and l = world_ok_lists [OF assms(1)]
  have k2: "conns (set_op w r ?o) (connection opn) = Some k" using assms(7) by simp
  have opsr: "ops_at ?w x = ops_at w x" for x by (simp add: ops_at_set_conn_same [OF k2])
  have wqr: "wq_at ?w r = {connection opn}" using assms(5) by (simp add: wq_at_set_conn)
  have "world_ok ?w (u(r := u r)) (t(r := 0))"
  proof (rule world_okI [OF assms(1)])
    show "lists_ok ?w" using l lists_ok_conn [OF l assms(7)] by (simp add: lists_ok_set_conn)
    show "same_at x w ?w" if "x \<noteq> r" for x
      using that by (simp add: same_at_def opsr wq_at_set_conn_same [OF k2])
    show "local_ok ?w (u(r := u r)) (t(r := 0)) r"
      using ok assms(2,4-6) by (simp add: local_ok_def op_ok_def op_inv_def opsr wqr)
  qed (auto simp: assms(7))
  then show ?thesis by simp
qed

lemma gb_connection_recv_request_ok:
  assumes "world_ok w u t" "conns w c \<noteq> None" "8 \<le> sz" "sz \<le> length data" "sz < 65536"
  shows "\<exists>w'. gb_connection_recv_request w c oid ty data sz al = Some w' \<and> world_ok w' u t"
proof (cases "gb_operation_create_incoming w c oid ty data sz al = Some (None, w)")
  case True
  then show ?thesis using assms(1) by (simp add: gb_connection_recv_request_def)
next
  case False
  let ?r = "next_op w"
  obtain opn w1 where cr: "gb_operation_create_incoming w c oid ty data sz al = Some (Some ?r, w1)"
    and r1: "ops w1 ?r = Some opn" and opp: "connection opn = c" "gb_operation_is_incoming opn" "conns w1 = conns w"
      "errno opn = - EBADR" "active opn = 0" and w1: "world_ok w1 (u(?r := 1)) t"
    using False gb_operation_create_incoming_ok [OF assms, of oid ty al] by blast
  have dead: "u ?r = 0" "t ?r = 0"
    using world_ok_dead(1,2) [OF assms(1) world_ok_fresh(1) [OF assms(1)]] by auto
  obtain k where k: "conns w1 (connection opn) = Some k" using assms(2) opp by auto
  have bk: "(u(?r := 1))(?r := 0) = u" "(t(?r := 1))(?r := 0) = t" using dead by (auto simp: fun_upd_idem)
  show ?thesis
  proof (cases "state k = GB_CONNECTION_STATE_ENABLED")
    case False
    then have "gb_operation_get_active w1 ?r = Some (- ENOTCONN, w1)"
      using gb_operation_get_active_ok [OF w1 _ r1 k] by simp
    moreover obtain w2 where "gb_operation_put w1 ?r = Some w2" "world_ok w2 u t"
      using gb_operation_put_ok [OF w1, of ?r] bk by auto
    ultimately show ?thesis using cr by (simp add: gb_connection_recv_request_def)
  next
    case True
    obtain w2 where w2: "gb_operation_get_active w1 ?r = Some (0, w2)"
      "ops w2 ?r = Some (opn\<lparr>active := active opn + 1\<rparr>)" "inflight w2 = inflight w1" "wq_at w2 = wq_at w1"
      "world_ok w2 u (t(?r := 1))"
      using gb_operation_get_active_ok [OF w1 _ r1 k] True bk dead by auto
    let ?o = "opn\<lparr>active := active opn + 1\<rparr>"
    obtain k2 where k2: "conns w2 (connection ?o) = Some k2" using world_ok_op(2) [OF w2(5,2)] by auto
    have idle: "wq_at w2 ?r = {}" "\<not> resp_inflight w2 ?r"
      using op_inv_idle [OF world_ok_op(3) [OF w1 r1] opp(5)] w2(3,4) by auto
    have "world_ok (set_conn (set_op w2 ?r (?o\<lparr>errno := - EINPROGRESS\<rparr>)) (connection ?o)
       (k2\<lparr>wq := queue_work ?r (wq k2)\<rparr>)) u ((t(?r := 1))(?r := 0))"
      using queue_incoming_ok [OF w2(5) _ w2(2) _ idle k2] opp(2) by simp
    then show ?thesis
      using cr w2(1,2) k2 opp(1,4) bk
      by (simp add: gb_connection_recv_request_def gb_operation_result_set_def)
  qed
qed

text \<open>Looking up the operation a response answers.\<close>

lemma find_outgoing_loop_ok:
  assumes "\<And>r. r \<in> set rs \<Longrightarrow> st r \<noteq> None"
  shows "\<exists>f. find_outgoing_loop st rs oid = Some f \<and>
    (case f of None \<Rightarrow> \<forall>r\<in>set rs. \<forall>opn. st r = Some opn \<longrightarrow> op_id opn \<noteq> oid \<or> gb_operation_is_incoming opn
     | Some r \<Rightarrow> r \<in> set rs \<and> (\<exists>opn. st r = Some opn \<and> op_id opn = oid \<and> \<not> gb_operation_is_incoming opn))"
  using assms
proof (induction rs)
  case (Cons r rs)
  obtain opn where r: "st r = Some opn" using Cons.prems [of r] by auto
  obtain f where "find_outgoing_loop st rs oid = Some f" "case f of
     None \<Rightarrow> \<forall>r\<in>set rs. \<forall>opn. st r = Some opn \<longrightarrow> op_id opn \<noteq> oid \<or> gb_operation_is_incoming opn
     | Some r \<Rightarrow> r \<in> set rs \<and> (\<exists>opn. st r = Some opn \<and> op_id opn = oid \<and> \<not> gb_operation_is_incoming opn)"
    using Cons.IH Cons.prems by auto
  with r show ?case by (cases f) auto
qed simp

lemma gb_operation_find_outgoing_ok:
  assumes "world_ok w u t" "conns w c = Some k"
  shows "gb_operation_find_outgoing w c oid = Some (None, w) \<and>
      (\<forall>r\<in>set (operations k). \<forall>opn. ops w r = Some opn \<longrightarrow> op_id opn \<noteq> oid \<or> gb_operation_is_incoming opn) \<or>
    (\<exists>r opn w'. gb_operation_find_outgoing w c oid = Some (Some r, w') \<and> r \<in> set (operations k) \<and>
       ops w r = Some opn \<and> op_id opn = oid \<and> \<not> gb_operation_is_incoming opn \<and> 0 < active opn \<and>
       w' = set_op w r (opn\<lparr>kref := kref opn + 1\<rparr>) \<and> world_ok w' (u(r := u r + 1)) t)"
proof -
  have live: "\<exists>opn. ops w r = Some opn \<and> 0 < active opn" if "r \<in> set (operations k)" for r
    using world_ok_listed_live [OF assms(1), of c r] ops_at_conn [OF assms(2), of r] that by auto
  then have "\<And>r. r \<in> set (operations k) \<Longrightarrow> ops w r \<noteq> None" by fastforce
  from find_outgoing_loop_ok [of "operations k" "ops w" oid, OF this]
  obtain f where f: "find_outgoing_loop (ops w) (operations k) oid = Some f"
    "case f of
       None \<Rightarrow> \<forall>r\<in>set (operations k). \<forall>opn. ops w r = Some opn \<longrightarrow> op_id opn \<noteq> oid \<or> gb_operation_is_incoming opn
     | Some r \<Rightarrow> r \<in> set (operations k) \<and>
         (\<exists>opn. ops w r = Some opn \<and> op_id opn = oid \<and> \<not> gb_operation_is_incoming opn)"
    by blast
  show ?thesis
  proof (cases f)
    case None
    then show ?thesis using f assms(2) by (simp add: gb_operation_find_outgoing_def)
  next
    case (Some r)
    then obtain opn where r: "r \<in> set (operations k)" "ops w r = Some opn" "op_id opn = oid"
      "\<not> gb_operation_is_incoming opn" using f(2) by auto
    then show ?thesis
      using f(1) Some assms(2) live [OF r(1)] gb_operation_get_ok [OF assms(1) r(2)]
      by (auto simp: gb_operation_find_outgoing_def)
  qed
qed

text \<open>A response, with at least a header of data.\<close>

lemma gb_connection_recv_response_ok:
  assumes "world_ok w u t" "\<And>r. t r = 0" "conns w c = Some k" "8 \<le> length data" "sz \<le> length data" "sz < 65536"
  shows "\<exists>w'. gb_connection_recv_response w c oid result data sz = Some w' \<and> world_ok w' u t"
  using gb_operation_find_outgoing_ok [OF assms(1,3), of oid]
proof
  assume "gb_operation_find_outgoing w c oid = Some (None, w) \<and>
      (\<forall>r\<in>set (operations k). \<forall>opn. ops w r = Some opn \<longrightarrow> op_id opn \<noteq> oid \<or> gb_operation_is_incoming opn)"
  then show ?thesis using assms(1) by (simp add: gb_connection_recv_response_def)
next
  assume "\<exists>r opn w'. gb_operation_find_outgoing w c oid = Some (Some r, w') \<and> r \<in> set (operations k) \<and>
       ops w r = Some opn \<and> op_id opn = oid \<and> \<not> gb_operation_is_incoming opn \<and> 0 < active opn \<and>
       w' = set_op w r (opn\<lparr>kref := kref opn + 1\<rparr>) \<and> world_ok w' (u(r := u r + 1)) t"
  then obtain r opn w1 where f: "gb_operation_find_outgoing w c oid = Some (Some r, w1)"
    "\<not> gb_operation_is_incoming opn" "0 < active opn" "w1 = set_op w r (opn\<lparr>kref := kref opn + 1\<rparr>)"
    "world_ok w1 (u(r := u r + 1)) t" by blast
  define o1 where "o1 = opn\<lparr>kref := kref opn + 1\<rparr>"
  have r1: "ops w1 r = Some o1" by (simp add: f(4) o1_def)
  note inv = world_ok_op(3) [OF f(5) r1]
  have out: "\<not> gb_operation_is_incoming o1" using f(2) by (simp add: o1_def)
  then obtain m where m: "response o1 = Some m" "msg_ok m" using inv by (auto simp: op_inv_def)
  have act: "active o1 = int (t r) + 1" using inv out f(3) assms(2) [of r] by (auto simp: op_inv_def o1_def)
  define err where "err = (if gb_operation_status_map result = 0 \<and> (of_nat sz :: size_t) \<noteq> 8 + payload_size m
                           then - EMSGSIZE else gb_operation_status_map result)"
  have err: "err \<noteq> - EINPROGRESS" "err \<noteq> - EBADR"
    using gb_operation_status_map_range by (simp_all add: err_def)
  define sz' where "sz' = (if err \<noteq> 0 then 8 else sz)"
  have "unat (8 + payload_size m) = 8 + unat (payload_size m)"
    using message_size_no_wrap [of "payload_size m"] m(2) by (simp add: msg_ok_def add.commute)
  moreover have "unat (of_nat sz :: size_t) = sz" using assms(6) by (simp add: unat_of_nat take_bit_nat_eq_self)
  ultimately have "err = 0 \<Longrightarrow> sz = 8 + unat (payload_size m)"
    by (auto simp: err_def split: if_splits)
  then have len: "sz' \<le> length data" "sz' \<le> 8 + unat (payload_size m)"
    using assms(4,5) by (auto simp: sz'_def)
  obtain buf where buf: "wr_bytes (buffer m) 0 (take sz' data) = Some buf" "msg_ok (m\<lparr>buffer := buf\<rparr>)"
    using msg_ok_wr_any [OF m(2), of 0 "take sz' data"] len by auto
  have start: "gb_connection_recv_response w c oid result data sz =
    (if errno o1 = - EINPROGRESS
     then gb_operation_put ((set_op w1 r (o1\<lparr>errno := err, response := Some (m\<lparr>buffer := buf\<rparr>)\<rparr>))
            \<lparr>completion_wq := queue_work r (completion_wq w1)\<rparr>) r
     else gb_operation_put (set_op w1 r o1) r)"
    using f(1) r1 m(1) buf(1) err len(1)
    by (simp add: gb_connection_recv_response_def err_def [symmetric] sz'_def [symmetric] Let_def
        gb_operation_result_set_def rd_bytes_def)
  have "set_op w1 r o1 = w1" using r1 by (simp add: set_op_def fun_upd_idem)
  then show ?thesis
  proof (cases "errno o1 = - EINPROGRESS")
    case True
    define o2 where "o2 = o1\<lparr>errno := err, response := Some (m\<lparr>buffer := buf\<rparr>)\<rparr>"
    have "world_ok ((set_op w1 r o2)\<lparr>completion_wq := queue_work r (completion_wq w1)\<rparr>) (u(r := u r + 1)) t"
      by (rule complete_ok [OF f(5) r1 out True act err]) (use buf(2) in \<open>auto simp: o2_def\<close>)
    from gb_operation_put_ok [OF this, of r] show ?thesis using start True by (auto simp: o2_def)
  next
    case False
    with gb_operation_put_ok [OF f(5), of r] \<open>set_op w1 r o1 = w1\<close> show ?thesis using start by auto
  qed
qed

text \<open>
  Any bytes from the host driver, as long as the size field of the header covers the header. This
  hypothesis is not checked by the code; \<open>GB_Operation_Steps\<close> shows what happens without it.
\<close>

definition size_field_ok :: "bytes \<Rightarrow> bool" where
  "size_field_ok data \<longleftrightarrow> (case hdr_of data of None \<Rightarrow> True | Some h \<Rightarrow> HDR_SIZE \<le> unat (h_size h))"

lemma hdr_of_length: "hdr_of data = Some h \<Longrightarrow> 8 \<le> length data"
  using msg_hdr.dec_defined_iff [of data] by auto

lemma gb_connection_recv_ok:
  assumes "world_ok w u t" "\<And>r. t r = 0" "conns w c \<noteq> None" "size_field_ok data"
  shows "\<exists>w'. gb_connection_recv w c data al = Some w' \<and> world_ok w' u t"
proof -
  obtain k where k: "conns w c = Some k" using assms(3) by auto
  show ?thesis
  proof (cases "state k = GB_CONNECTION_STATE_ENABLED \<and> hdr_of data \<noteq> None")
    case False
    then show ?thesis using k assms(1) by (auto simp: gb_connection_recv_def)
  next
    case True
    then obtain h where h: "hdr_of data = Some h" by auto
    have sz: "8 \<le> unat (h_size h)" "unat (h_size h) < 65536"
      using assms(4) h unat_le16_bound [of "h_size h"] by (simp_all add: size_field_ok_def)
    show ?thesis
      using True k h sz assms(1,3) hdr_of_length [OF h]
        gb_connection_recv_response_ok [OF assms(1,2) k hdr_of_length [OF h], of "unat (h_size h)"]
        gb_connection_recv_request_ok [OF assms(1,3) sz(1), of data]
      by (auto simp: gb_connection_recv_def Let_def)
  qed
qed

section \<open>Cancellation\<close>

lemma gb_operation_cancel_ok:
  assumes "world_ok w u t" "ops w r = Some opn" "err \<noteq> - EINPROGRESS"
    and "errno opn = - EINPROGRESS \<and> \<not> gb_operation_is_incoming opn \<longrightarrow> active opn = int (t r) + 1"
  shows "\<exists>w'. gb_operation_cancel w r err = Some w' \<and> world_ok w' u t"
proof (cases "errno opn = - EINPROGRESS \<and> \<not> gb_operation_is_incoming opn")
  case True
  note inv = world_ok_op(3) [OF assms(1,2)]
  define e where "e = (if err = - EBADR then - EILSEQ else err)"
  define o1 where "o1 = opn\<lparr>errno := e, waiters := waiters opn + 1\<rparr>"
  have "world_ok ((set_op w r o1)\<lparr>completion_wq := queue_work r (completion_wq w)\<rparr>) u t"
    by (rule complete_ok [OF assms(1,2), where err = e])
       (use True inv assms(3,4) in \<open>auto simp: op_inv_def o1_def e_def\<close>)
  then have "world_ok ((set_op w r o1)\<lparr>completion_wq := queue_work r (completion_wq w), cancels := x\<rparr>) u t" for x
    by (rule world_ok_cancels)
  moreover have "y\<lparr>completion_wq := q, cancels := x\<rparr> = y\<lparr>cancels := x, completion_wq := q\<rparr>" for y :: opworld and q x
    by simp
  ultimately have "world_ok ((set_op w r o1)\<lparr>cancels := x, completion_wq := queue_work r (completion_wq w)\<rparr>) u t" for x
    by simp
  then show ?thesis
    using True assms(2,3)
    by (auto simp: gb_operation_cancel_def gb_operation_result_set_def gb_message_cancel_def Let_def
        o1_def e_def set_op_def)
next
  case False
  have "world_ok (set_op w r (opn\<lparr>waiters := waiters opn + 1\<rparr>)) u t"
    by (rule world_ok_set_op_same [OF assms(1,2)]) (use world_ok_op(3) [OF assms(1,2)] in simp_all)
  then show ?thesis
    using False assms by (auto simp: gb_operation_cancel_def gb_operation_result_set_def Let_def)
qed

text \<open>Cancelling an incoming operation once its work item has run.\<close>

lemma gb_operation_cancel_incoming_ok:
  assumes "world_ok w u t" "ops w r = Some opn" "err \<noteq> - EINPROGRESS" "wq_at w r = {}"
    and "errno opn = - EINPROGRESS \<or> response opn \<noteq> None"
  shows "\<exists>w'. gb_operation_cancel_incoming w r err = Some w' \<and> world_ok w' u t"
proof -
  note inv = world_ok_op(3) [OF assms(1,2)]
  define e where "e = (if err = - EBADR then - EILSEQ else err)"
  have inc: "world_ok (set_op w r (opn\<lparr>errno := e, waiters := waiters opn + 1\<rparr>)) u t"
    if "gb_operation_is_incoming opn"
    by (rule world_ok_set_op_same [OF assms(1,2)]) (use inv that assms(4) in \<open>simp_all add: op_inv_def\<close>)
  have wt: "world_ok (set_op w r (opn\<lparr>waiters := waiters opn + 1\<rparr>)) u t"
    by (rule world_ok_set_op_same [OF assms(1,2)]) (use inv in simp_all)
  then have wt': "world_ok ((set_op w r (opn\<lparr>waiters := waiters opn + 1\<rparr>))\<lparr>cancels := x\<rparr>) u t" for x
    by (rule world_ok_cancels)
  consider "\<not> gb_operation_is_incoming opn" | "gb_operation_is_incoming opn" "gb_operation_is_unidirectional opn"
    | "gb_operation_is_incoming opn" "\<not> gb_operation_is_unidirectional opn" "errno opn = - EINPROGRESS"
    | "gb_operation_is_incoming opn" "\<not> gb_operation_is_unidirectional opn" "errno opn \<noteq> - EINPROGRESS"
    by blast
  then show ?thesis
    using assms(1,2,3,5) wt wt' inc
    by cases (auto simp: gb_operation_cancel_incoming_def gb_operation_result_set_def gb_message_cancel_def
        Let_def e_def)
qed

lemma cancel_finish_ok:
  assumes "world_ok w u t" "ops w r = Some opn" "active opn = 0"
  shows "\<exists>w'. cancel_finish w r = Some w' \<and> world_ok w' u t"
proof -
  have "world_ok (set_op w r (opn\<lparr>waiters := waiters opn - 1\<rparr>)) u t"
    by (rule world_ok_set_op_same [OF assms(1,2)]) (use world_ok_op(3) [OF assms(1,2)] in simp_all)
  then show ?thesis using assms(2,3) by (simp add: cancel_finish_def)
qed

end
