(* ===== verification/GB_Machine.thy ===== *)
theory GB_Machine
  imports GB_Prelude
begin

text \<open>
  State machines with faults, shared by the components that other threads, drivers or modules drive
  through a set of entry points. A machine is given by its initial states, by when an event may
  happen (the obligations of the callers), and by the partial effect of an event, \<open>None\<close> being a
  fault. The locale is the proof obligation of a safe component: an invariant that the initial
  states satisfy and under which every allowed event has an effect and keeps the invariant.
\<close>

inductive reach :: "('s \<Rightarrow> bool) \<Rightarrow> ('s \<Rightarrow> 'e \<Rightarrow> bool) \<Rightarrow> ('s \<Rightarrow> 'e \<Rightarrow> 's option) \<Rightarrow> 's \<Rightarrow> bool"
  for init :: "'s \<Rightarrow> bool" and enabled :: "'s \<Rightarrow> 'e \<Rightarrow> bool" and exec :: "'s \<Rightarrow> 'e \<Rightarrow> 's option"
where
  reach_init: "init s \<Longrightarrow> reach init enabled exec s"
| reach_step: "reach init enabled exec s \<Longrightarrow> enabled s e \<Longrightarrow> exec s e = Some s' \<Longrightarrow>
    reach init enabled exec s'"

inductive_cases reachE: "reach init enabled exec s"

text \<open>A whole run: every event has to be allowed when it happens.\<close>

fun run :: "('s \<Rightarrow> 'e \<Rightarrow> bool) \<Rightarrow> ('s \<Rightarrow> 'e \<Rightarrow> 's option) \<Rightarrow> 's \<Rightarrow> 'e list \<Rightarrow> 's option" where
  "run enabled exec s [] = Some s"
| "run enabled exec s (e # es) =
     (if enabled s e then (case exec s e of None \<Rightarrow> None | Some s' \<Rightarrow> run enabled exec s' es) else None)"

lemma reach_run:
  assumes "reach init enabled exec s" "run enabled exec s es = Some s'"
  shows "reach init enabled exec s'"
  using assms
proof (induction es arbitrary: s)
  case (Cons e es)
  then obtain s1 where "enabled s e" "exec s e = Some s1" "run enabled exec s1 es = Some s'"
    by (auto split: if_splits option.splits)
  with Cons.IH [of s1] reach_step [OF Cons.prems(1)] show ?case by blast
qed simp

locale safe_machine =
  fixes init :: "'s \<Rightarrow> bool"
    and enabled :: "'s \<Rightarrow> 'e \<Rightarrow> bool"
    and exec :: "'s \<Rightarrow> 'e \<Rightarrow> 's option"
    and inv :: "'s \<Rightarrow> bool"
  assumes init_inv: "init s \<Longrightarrow> inv s"
    and exec_safe: "inv s \<Longrightarrow> enabled s e \<Longrightarrow> \<exists>s'. exec s e = Some s' \<and> inv s'"
begin

lemma reach_inv: "reach init enabled exec s \<Longrightarrow> inv s"
proof (induction rule: reach.induct)
  case (reach_step s e s')
  then show ?case using exec_safe [of s e] by auto
qed (rule init_inv)

lemma reach_no_fault: "reach init enabled exec s \<Longrightarrow> enabled s e \<Longrightarrow> exec s e \<noteq> None"
  using exec_safe [OF reach_inv] by fastforce

lemma reach_next: "reach init enabled exec s \<Longrightarrow> enabled s e \<Longrightarrow>
    \<exists>s'. exec s e = Some s' \<and> reach init enabled exec s'"
  using exec_safe [OF reach_inv] reach_step by metis

text \<open>A run can only get stuck at an event that was not allowed.\<close>

lemma run_stuck:
  assumes "reach init enabled exec s" "run enabled exec s es = None"
  shows "\<exists>pre e post s1. es = pre @ e # post \<and> run enabled exec s pre = Some s1 \<and> \<not> enabled s1 e"
  using assms
proof (induction es arbitrary: s)
  case (Cons e es)
  show ?case
  proof (cases "enabled s e")
    case True
    then obtain s1 where s1: "exec s e = Some s1" "reach init enabled exec s1"
      using reach_next [OF Cons.prems(1)] by blast
    then obtain pre e' post s2 where "es = pre @ e' # post" "run enabled exec s1 pre = Some s2" "\<not> enabled s2 e'"
      using Cons.IH [OF s1(2)] Cons.prems(2) True by auto
    then show ?thesis using True s1(1) by (intro exI [of _ "e # pre"]) auto
  next
    case False
    then show ?thesis by (intro exI [of _ "[]"]) auto
  qed
qed simp

end

end
