(* ===== verification/GB_Operation_Steps.thy ===== *)
theory GB_Operation_Steps
  imports GB_Operation_Handlers GB_Machine
begin

text \<open>
  The operation core as a state machine. An event is one entry into the code: a call by a holder of
  a reference, a work item run by a workqueue, a report or received data from the host driver, a
  change of connection state. \<open>op_enabled\<close> states what the code requires of whoever causes the
  event, \<open>op_exec\<close> runs the handler. The state is the world together with the number of references
  each operation's users hold.
\<close>

section \<open>Events\<close>

datatype op_event =
    Ev_create nat u8 size_t size_t "nat \<Rightarrow> bool"
  | Ev_fill nat nat bytes
  | Ev_get nat
  | Ev_put nat
  | Ev_send nat int
  | Ev_sent nat msg_side int
  | Ev_recv nat bytes "nat \<Rightarrow> bool"
  | Ev_work_out nat
  | Ev_work_in nat nat "(int \<times> gb_message option) option" bool bool int
  | Ev_cancel nat int
  | Ev_cancel_incoming nat int
  | Ev_cancel_finish nat
  | Ev_state nat gb_connection_state

text \<open>
  The environment of a work item, from the answer of the protocol's request handler: \<open>None\<close> when
  the protocol has no handler, otherwise the status it returns and the response it leaves in the
  operation, if any.
\<close>

definition work_env_of :: "(int \<times> gb_message option) option \<Rightarrow> bool \<Rightarrow> bool \<Rightarrow> int \<Rightarrow> work_env" where
  "work_env_of ans ok1 ok2 sr =
     \<lparr>request_recv = map_option (\<lambda>(st, resp) ty opn.
         Some (st, case resp of None \<Rightarrow> opn | Some m \<Rightarrow> opn\<lparr>response := Some m\<rparr>)) ans,
      user_callback = (\<lambda>_ _ _. None), resp_msg_ok = ok1, resp_buf_ok = ok2, resp_send_ret = sr\<rparr>"

definition answer_ok :: "(int \<times> gb_message option) option \<Rightarrow> bool" where
  "answer_ok ans = (case ans of Some (st, Some m) \<Rightarrow> msg_ok m | _ \<Rightarrow> True)"

lemma work_env_of_ok: "answer_ok ans \<Longrightarrow> handler_ok (work_env_of ans ok1 ok2 sr)"
proof -
  assume a: "answer_ok ans"
  have "\<exists>st' resp'. (st, case resp of None \<Rightarrow> opn | Some m \<Rightarrow> opn\<lparr>response := Some m\<rparr>) = (st', opn\<lparr>response := resp'\<rparr>) \<and>
     (resp' = response opn \<or> (\<exists>m. resp' = Some m \<and> msg_ok m))"
    if "ans = Some (st, resp)" for st resp and opn :: gb_operation
    using a that
    by (intro exI [of _ st] exI [of _ "case resp of None \<Rightarrow> response opn | Some m \<Rightarrow> Some m"])
       (auto simp: answer_ok_def split: option.splits)
  then show ?thesis by (cases ans) (auto simp: handler_ok_def work_env_of_def)
qed

type_synonym op_state = "opworld \<times> (nat \<Rightarrow> nat)"

text \<open>Filling in the payload of a request, as every caller does before sending it.\<close>

definition fill_request :: "opworld \<Rightarrow> nat \<Rightarrow> nat \<Rightarrow> bytes \<Rightarrow> opworld option" where
  "fill_request w r off bs = do {
     opn \<leftarrow> ops w r;
     buf \<leftarrow> wr_bytes (buffer (request opn)) (HDR_SIZE + off) bs;
     Some (set_op w r (opn\<lparr>request := (request opn)\<lparr>buffer := buf\<rparr>\<rparr>))
   }"

text \<open>
  The obligations of the environment. A caller uses an operation only while it holds a reference
  (or, for the cancellation of a connection's operations, finds it on the list under the lock);
  an operation is sent once; the driver reports each accepted message once, a request only while
  the operation is alive; cancellation is for operations that were sent successfully; received data
  has a size field that covers the header.
\<close>

fun op_enabled :: "op_state \<Rightarrow> op_event \<Rightarrow> bool" where
  "op_enabled (w, u) (Ev_create c ty rq rs al) =
     (conns w c \<noteq> None \<and> rq \<le> 0x8000000000000000 \<and> rs \<le> 0x8000000000000000)"
| "op_enabled (w, u) (Ev_fill r off bs) =
     (0 < u r \<and> (case ops w r of None \<Rightarrow> True | Some opn \<Rightarrow> off + length bs \<le> unat (payload_size (request opn))))"
| "op_enabled (w, u) (Ev_get r) =
     (0 < u r \<or> (case ops w r of None \<Rightarrow> False
        | Some opn \<Rightarrow> (case conns w (connection opn) of None \<Rightarrow> False | Some k \<Rightarrow> r \<in> set (operations k))))"
| "op_enabled (w, u) (Ev_put r) = (0 < u r)"
| "op_enabled (w, u) (Ev_send r sr) =
     (0 < u r \<and> (case ops w r of None \<Rightarrow> True
        | Some opn \<Rightarrow> \<not> gb_operation_is_incoming opn \<and> errno opn = - EBADR))"
| "op_enabled (w, u) (Ev_sent r side st) =
     ((r, side) \<in> set (inflight w) \<and> (side = Request \<longrightarrow> ops w r \<noteq> None \<and> st \<noteq> - EINPROGRESS))"
| "op_enabled (w, u) (Ev_recv c data al) = (conns w c \<noteq> None \<and> size_field_ok data)"
| "op_enabled (w, u) (Ev_work_out r) = (r \<in> set (completion_wq w))"
| "op_enabled (w, u) (Ev_work_in c r ans ok1 ok2 sr) =
     ((case conns w c of None \<Rightarrow> False | Some k \<Rightarrow> r \<in> set (wq k)) \<and> answer_ok ans)"
| "op_enabled (w, u) (Ev_cancel r err) =
     (0 < u r \<and> err \<noteq> - EINPROGRESS \<and>
      (case ops w r of None \<Rightarrow> True
       | Some opn \<Rightarrow> errno opn = - EINPROGRESS \<and> \<not> gb_operation_is_incoming opn \<longrightarrow> active opn = 1))"
| "op_enabled (w, u) (Ev_cancel_incoming r err) =
     (0 < u r \<and> err \<noteq> - EINPROGRESS \<and>
      (case ops w r of None \<Rightarrow> True
       | Some opn \<Rightarrow> (case conns w (connection opn) of None \<Rightarrow> True | Some k \<Rightarrow> r \<notin> set (wq k)) \<and>
           (errno opn = - EINPROGRESS \<or> response opn \<noteq> None)))"
| "op_enabled (w, u) (Ev_cancel_finish r) =
     (0 < u r \<and> (case ops w r of None \<Rightarrow> True | Some opn \<Rightarrow> active opn = 0))"
| "op_enabled (w, u) (Ev_state c s) = (conns w c \<noteq> None)"

text \<open>The effect. Creation gives the creator a reference, get and put change the holders' count.\<close>

fun op_exec :: "op_state \<Rightarrow> op_event \<Rightarrow> op_state option" where
  "op_exec (w, u) (Ev_create c ty rq rs al) = do {
     (ro, w') \<leftarrow> gb_operation_create w c ty rq rs al;
     Some (w', case ro of None \<Rightarrow> u | Some r \<Rightarrow> u(r := u r + 1))
   }"
| "op_exec (w, u) (Ev_fill r off bs) = do { w' \<leftarrow> fill_request w r off bs; Some (w', u) }"
| "op_exec (w, u) (Ev_get r) = do { w' \<leftarrow> gb_operation_get w r; Some (w', u(r := u r + 1)) }"
| "op_exec (w, u) (Ev_put r) = do { w' \<leftarrow> gb_operation_put w r; Some (w', u(r := u r - 1)) }"
| "op_exec (w, u) (Ev_send r sr) = do {
     (ret, w') \<leftarrow> gb_operation_request_send w r (Some Sync_callback) sr; Some (w', u) }"
| "op_exec (w, u) (Ev_sent r side st) = do {
     w' \<leftarrow> greybus_message_sent (take_inflight w (r, side)) r side st; Some (w', u) }"
| "op_exec (w, u) (Ev_recv c data al) = do { w' \<leftarrow> gb_connection_recv w c data al; Some (w', u) }"
| "op_exec (w, u) (Ev_work_out r) = do {
     w' \<leftarrow> gb_operation_work (work_env_of None True True 0) (dequeue_completion w r) r; Some (w', u) }"
| "op_exec (w, u) (Ev_work_in c r ans ok1 ok2 sr) = do {
     k \<leftarrow> conns w c; w' \<leftarrow> gb_operation_work (work_env_of ans ok1 ok2 sr) (dequeue_wq w c k r) r; Some (w', u) }"
| "op_exec (w, u) (Ev_cancel r err) = do { w' \<leftarrow> gb_operation_cancel w r err; Some (w', u) }"
| "op_exec (w, u) (Ev_cancel_incoming r err) = do { w' \<leftarrow> gb_operation_cancel_incoming w r err; Some (w', u) }"
| "op_exec (w, u) (Ev_cancel_finish r) = do { w' \<leftarrow> cancel_finish w r; Some (w', u) }"
| "op_exec (w, u) (Ev_state c s) = do { k \<leftarrow> conns w c; Some (set_conn w c (k\<lparr>state := s\<rparr>), u) }"

text \<open>A host device that has just been created: connections without operations.\<close>

definition op_init :: "op_state \<Rightarrow> bool" where
  "op_init s \<longleftrightarrow> (case s of (w, u) \<Rightarrow>
     8 \<le> unat (buffer_size_max w) \<and> unat (buffer_size_max w) \<le> 65535 \<and>
     (\<forall>c. case conns w c of None \<Rightarrow> True | Some k \<Rightarrow> operations k = [] \<and> wq k = []) \<and>
     ops w = (\<lambda>_. None) \<and> next_op w = 0 \<and> inflight w = [] \<and> completion_wq w = [] \<and> u = (\<lambda>_. 0))"

definition op_state_ok :: "op_state \<Rightarrow> bool" where
  "op_state_ok s \<longleftrightarrow> world_ok (fst s) (snd s) (\<lambda>_. 0)"

section \<open>The invariant is kept and nothing faults\<close>

lemma op_init_ok: "op_init s \<Longrightarrow> op_state_ok s"
proof -
  assume s: "op_init s"
  obtain w u where wu: "s = (w, u)" by (cases s)
  have k: "operations k = [] \<and> wq k = []" if "conns w c = Some k" for c k
    using s that by (auto simp: op_init_def wu split: option.splits)
  then have "ops_at w r = {}" "wq_at w r = {}" for r by (auto simp: ops_at_def wq_at_def)
  moreover have "lists_ok w" using k s by (auto simp: lists_ok_def op_init_def wu)
  ultimately show ?thesis using s by (simp add: op_state_ok_def world_ok_def local_ok_def op_init_def wu)
qed

lemma gb_operation_create_ok:
  assumes "world_ok w u t" "conns w c \<noteq> None" "unat rq \<le> 2 ^ 63" "unat rs \<le> 2 ^ 63"
  shows "\<exists>ro w'. gb_operation_create w c ty rq rs al = Some (ro, w') \<and>
    world_ok w' (case ro of None \<Rightarrow> u | Some r \<Rightarrow> u(r := u r + 1)) t"
proof (cases "ty = 0")
  case True
  then show ?thesis using assms(1) by (simp add: gb_operation_create_def)
next
  case False
  define ty' where "ty' = (if ty AND 128 \<noteq> 0 then ty AND NOT 128 else ty)"
  have u0: "u (next_op w) = 0" using world_ok_dead(1) [OF assms(1) world_ok_fresh(1) [OF assms(1)]] .
  have "gb_operation_create w c ty rq rs al = gb_operation_create_common w c ty' rq rs 0 al"
    using False by (simp add: gb_operation_create_def ty'_def)
  then show ?thesis
    using gb_operation_create_common_ok [OF assms, of ty' 0 al] assms(1) u0 by (elim disjE) auto
qed

lemma fill_request_ok:
  assumes "world_ok w u t" "ops w r = Some opn" "off + length bs \<le> unat (payload_size (request opn))"
  shows "\<exists>w'. fill_request w r off bs = Some w' \<and> world_ok w' u t"
proof -
  note inv = world_ok_op(3) [OF assms(1,2)]
  obtain buf where buf: "wr_bytes (buffer (request opn)) (8 + off) bs = Some buf"
      "msg_ok ((request opn)\<lparr>buffer := buf\<rparr>)"
    using msg_ok_wr_any [of "request opn" "8 + off" bs] inv assms(3) by (auto simp: op_inv_def)
  have "world_ok (set_op w r (opn\<lparr>request := (request opn)\<lparr>buffer := buf\<rparr>\<rparr>)) u t"
    by (rule world_ok_set_op_same [OF assms(1,2)]) (use inv buf(2) in \<open>simp_all add: op_inv_def\<close>)
  then show ?thesis using buf(1) assms(2) by (simp add: fill_request_def)
qed

text \<open>Every event, by the lemma of its handler.\<close>

lemma op_exec_ok_holder:
  assumes "world_ok w u (\<lambda>_. 0)" "op_enabled (w, u) ev"
    and "ev = Ev_fill r off bs \<or> ev = Ev_get r \<or> ev = Ev_put r \<or> ev = Ev_send r sr \<or> ev = Ev_cancel r err \<or>
      ev = Ev_cancel_incoming r err \<or> ev = Ev_cancel_finish r"
  shows "\<exists>w' u'. op_exec (w, u) ev = Some (w', u') \<and> world_ok w' u' (\<lambda>_. 0)"
proof -
  have "0 < u r \<or> ops w r \<noteq> None" using assms(2,3) by (auto split: option.splits)
  then obtain opn where r: "ops w r = Some opn" using world_ok_user_live [OF assms(1), of r] by auto
  obtain k where k: "conns w (connection opn) = Some k" using world_ok_op(2) [OF assms(1) r] by auto
  have wq: "wq_at w r = {}" if "r \<notin> set (wq k)"
    using world_ok_op(3) [OF assms(1) r] that wq_at_conn [OF k, of r] by (auto simp: op_inv_def split: if_splits)
  show ?thesis
    using assms(3)
  proof (elim disjE)
    assume "ev = Ev_fill r off bs"
    then show ?thesis using assms(2) r fill_request_ok [OF assms(1) r, of off bs] by auto
  next
    assume "ev = Ev_get r"
    then show ?thesis using gb_operation_get_ok [OF assms(1) r] by auto
  next
    assume "ev = Ev_put r"
    then show ?thesis using assms(2) gb_operation_put_ok [OF assms(1), of r] by auto
  next
    assume "ev = Ev_send r sr"
    then show ?thesis using assms(2) r gb_operation_request_send_ok [OF assms(1) _ r, of sr] by auto
  next
    assume "ev = Ev_cancel r err"
    then show ?thesis using assms(2) r gb_operation_cancel_ok [OF assms(1) r, of err] by auto
  next
    assume "ev = Ev_cancel_incoming r err"
    then show ?thesis
      using assms(2) r k wq gb_operation_cancel_incoming_ok [OF assms(1) r, of err] by auto
  next
    assume "ev = Ev_cancel_finish r"
    then show ?thesis using assms(2) r cancel_finish_ok [OF assms(1) r] by auto
  qed
qed

lemma op_exec_ok:
  assumes "op_state_ok s" "op_enabled s ev"
  shows "\<exists>s'. op_exec s ev = Some s' \<and> op_state_ok s'"
proof -
  obtain w u where s: "s = (w, u)" by (cases s)
  have ok: "world_ok w u (\<lambda>_. 0)" using assms(1) by (simp add: op_state_ok_def s)
  have en: "op_enabled (w, u) ev" using assms(2) by (simp add: s)
  have "\<exists>w' u'. op_exec (w, u) ev = Some (w', u') \<and> world_ok w' u' (\<lambda>_. 0)"
  proof (cases ev)
    case (Ev_create c ty rq rs al)
    then have "unat rq \<le> 2 ^ 63" "unat rs \<le> 2 ^ 63" using en by (simp_all add: word_le_nat_alt)
    then show ?thesis using Ev_create en gb_operation_create_ok [OF ok, of c rq rs ty al] by (auto split: option.splits)
  next
    case (Ev_sent r side st)
    then show ?thesis
      using en greybus_message_sent_response_ok [OF ok, of r st] greybus_message_sent_request_ok [OF ok, of r _ st]
      by (cases side) auto
  next
    case (Ev_recv c data al)
    then show ?thesis using en gb_connection_recv_ok [OF ok, of c data al] by auto
  next
    case (Ev_work_out r)
    then show ?thesis using en gb_operation_work_out_ok [OF ok, of r "work_env_of None True True 0"] by auto
  next
    case (Ev_work_in c r ans ok1 ok2 sr)
    then obtain k where k: "conns w c = Some k" "r \<in> set (wq k)" "answer_ok ans"
      using en by (auto split: option.splits)
    then show ?thesis
      using Ev_work_in gb_operation_work_in_ok [OF ok k(1,2) work_env_of_ok [OF k(3)], of ok1 ok2 sr] by auto
  next
    case (Ev_state c st)
    then obtain k where k: "conns w c = Some k" using en by auto
    have "world_ok (set_conn w c (k\<lparr>state := st\<rparr>)) u (\<lambda>_. 0)"
      by (rule world_ok_set_conn_same [OF ok k]) simp_all
    then show ?thesis using Ev_state k by simp
  next
    case (Ev_cancel r err)
    then show ?thesis by (intro op_exec_ok_holder [OF ok en]) simp
  next
    case (Ev_cancel_incoming r err)
    then show ?thesis by (intro op_exec_ok_holder [OF ok en]) simp
  qed (intro op_exec_ok_holder [OF ok en], simp)+
  then show ?thesis by (auto simp: s op_state_ok_def)
qed

interpretation opm: safe_machine op_init op_enabled op_exec op_state_ok
  by unfold_locales (rule op_init_ok, assumption, rule op_exec_ok)

abbreviation op_reach :: "op_state \<Rightarrow> bool" where
  "op_reach \<equiv> reach op_init op_enabled op_exec"

section \<open>What the invariant says\<close>

text \<open>The accounting of one operation, in the terms of the code.\<close>

definition refs_balanced :: "opworld \<Rightarrow> (nat \<Rightarrow> nat) \<Rightarrow> nat \<Rightarrow> bool" where
  "refs_balanced w u r \<longleftrightarrow>
     (case ops w r of
        None \<Rightarrow> u r = 0 \<and> \<not> in_cwq w r \<and> \<not> resp_inflight w r \<and>
                (\<forall>c k. conns w c = Some k \<longrightarrow> r \<notin> set (operations k) \<and> r \<notin> set (wq k))
      | Some opn \<Rightarrow> int (kref opn) = int (u r) + active opn \<and> 0 < kref opn \<and> 0 \<le> active opn \<and>
                (\<forall>c k. conns w c = Some k \<longrightarrow>
                   (r \<in> set (operations k) \<longleftrightarrow> c = connection opn \<and> 0 < active opn)))"

lemma world_ok_refs_balanced:
  assumes "world_ok w u (\<lambda>_. 0)"
  shows "refs_balanced w u r"
proof (cases "ops w r")
  case None
  then show ?thesis
    using world_ok_dead [OF assms None] ops_at_conn wq_at_conn by (fastforce simp: refs_balanced_def)
next
  case (Some opn)
  note inv = world_ok_op(3) [OF assms Some]
  have "r \<in> set (operations k) \<longleftrightarrow> c = connection opn \<and> 0 < active opn" if "conns w c = Some k" for c k
    using inv ops_at_conn [OF that, of r] by (auto simp: op_inv_def split: if_splits)
  then show ?thesis
    using inv op_inv_active [OF inv] Some by (auto simp: refs_balanced_def op_inv_def)
qed

section \<open>An example run\<close>

text \<open>A device with one enabled connection; an operation is created, sent and answered.\<close>

definition demo_conn :: gb_connection where
  "demo_conn = \<lparr>state = GB_CONNECTION_STATE_ENABLED, operations = [], op_cycle = 0, wq = [], has_protocol = True\<rparr>"

definition demo_world :: opworld where
  "demo_world = \<lparr>buffer_size_max = 2048, conns = [0 \<mapsto> demo_conn], ops = (\<lambda>_. None), next_op = 0,
     inflight = [], cancels = [], completion_wq = []\<rparr>"

definition demo_events :: "op_event list" where
  "demo_events = [Ev_create 0 5 1 1 (\<lambda>_. True), Ev_send 0 0, Ev_sent 0 Request 0,
     Ev_recv 0 [9, 0, 2, 0, 0x85, 0, 0, 0, 42] (\<lambda>_. True)]"

lemma demo_init: "op_reach (demo_world, \<lambda>_. 0)"
  by (rule reach_init) (simp add: op_init_def demo_world_def demo_conn_def)

lemma demo_run:
  "case run op_enabled op_exec (demo_world, \<lambda>_. 0) demo_events of None \<Rightarrow> False | Some (w, u) \<Rightarrow>
     (case ops w 0 of None \<Rightarrow> False | Some opn \<Rightarrow> u 0 = 1 \<and> in_cwq w 0 \<and> errno opn = 0)"
  by code_simp

lemma demo_reach:
  obtains w u opn where "run op_enabled op_exec (demo_world, \<lambda>_. 0) demo_events = Some (w, u)"
    "op_reach (w, u)" "ops w 0 = Some opn" "u 0 = 1" "in_cwq w 0" "errno opn = 0"
  using demo_run reach_run [OF demo_init, of demo_events]
  by (auto split: option.splits prod.splits)

section \<open>Properties\<close>

text \<open>
  C4 No handler of the operation core faults: in every state the machine can reach, an event whose
  cause keeps its obligations runs to the end without touching a freed operation or message and
  without reading or writing outside a buffer.
\<close>

theorem op_handlers_safe:
  assumes "op_reach s" "op_enabled s ev"
  shows "op_exec s ev \<noteq> None"
  by (rule opm.reach_no_fault [OF assms])

theorem op_handlers_safe_witness:
  "\<exists>w u. run op_enabled op_exec (demo_world, \<lambda>_. 0) demo_events = Some (w, u) \<and>
     op_enabled (w, u) (Ev_work_out 0) \<and> op_exec (w, u) (Ev_work_out 0) \<noteq> None"
proof -
  obtain w u opn where d: "run op_enabled op_exec (demo_world, \<lambda>_. 0) demo_events = Some (w, u)"
    "op_reach (w, u)" "in_cwq w 0" by (rule demo_reach)
  then show ?thesis using op_handlers_safe [OF d(2), of "Ev_work_out 0"] by auto
qed

text \<open>
  C5 Reference counts are exact in every reachable state: the count of a live operation is the
  number of its users plus its activity, it is on the list of its connection exactly while active,
  and it lives exactly as long as somebody needs it; a freed operation has no user and is on no
  list, no workqueue and in no response in flight.
\<close>

theorem op_refs_balanced:
  assumes "op_reach (w, u)"
  shows "refs_balanced w u r"
  using opm.reach_inv [OF assms] by (simp add: op_state_ok_def world_ok_refs_balanced)

theorem op_refs_balanced_witness:
  "\<exists>w u opn. run op_enabled op_exec (demo_world, \<lambda>_. 0) demo_events = Some (w, u) \<and>
     refs_balanced w u 0 \<and> ops w 0 = Some opn \<and> int (kref opn) = 1 + active opn"
proof -
  obtain w u opn where d: "run op_enabled op_exec (demo_world, \<lambda>_. 0) demo_events = Some (w, u)"
    "op_reach (w, u)" "ops w 0 = Some opn" "u 0 = 1" by (rule demo_reach)
  then show ?thesis using op_refs_balanced [OF d(2), of 0] by (auto simp: refs_balanced_def)
qed

text \<open>The results offered to an operation, in the order of the calls.\<close>

fun result_sets :: "gb_operation \<Rightarrow> int list \<Rightarrow> bool list \<times> gb_operation" where
  "result_sets opn [] = ([], opn)"
| "result_sets opn (e # es) =
     (case gb_operation_result_set opn e of (b, opn1) \<Rightarrow>
      case result_sets opn1 es of (bs, opn2) \<Rightarrow> (b # bs, opn2))"

lemma result_sets_final:
  "errno opn \<noteq> - EINPROGRESS \<Longrightarrow> \<forall>e\<in>set es. e \<noteq> - EINPROGRESS \<Longrightarrow>
   result_sets opn es = (replicate (length es) False, opn)"
  by (induction es) (simp_all add: gb_operation_result_set_def Let_def)

text \<open>
  C7 The first result wins: once a request is in progress, of all later results (a response, a
  failed transmission, a timeout, a cancellation, in any order) exactly the first is recorded and
  reported as recorded, all others are refused, and nothing but the result changes.
\<close>

theorem gb_operation_result_first_wins:
  assumes "\<forall>e\<in>set (e0 # es). e \<noteq> - EINPROGRESS"
    and "gb_operation_result_set opn (- EINPROGRESS) = (b, opn1)" "errno opn = - EBADR"
  shows "result_sets opn1 (e0 # es) =
    (True # replicate (length es) False, opn\<lparr>errno := if e0 = - EBADR then - EILSEQ else e0\<rparr>)"
proof -
  have 1: "opn1 = opn\<lparr>errno := - EINPROGRESS\<rparr>"
    using assms(2,3) by (simp add: gb_operation_result_set_def)
  show ?thesis
    using assms(1)
    by (auto simp: 1 gb_operation_result_set_def Let_def result_sets_final)
qed

definition demo_op :: gb_operation where
  "demo_op = \<lparr>connection = 0, request = \<lparr>buffer = [8, 0, 0, 0, 5, 0, 0, 0], payload_size = 0\<rparr>,
     response = None, flags = 0, type = 5, op_id = 0, errno = - EBADR, callback = None,
     completion = 0, kref = 1, waiters = 0, active = 0\<rparr>"

theorem gb_operation_result_first_wins_witness:
  "result_sets (demo_op\<lparr>errno := - EINPROGRESS\<rparr>) [- ETIMEDOUT, 0, - EIO] =
     ([True, False, False], demo_op\<lparr>errno := - ETIMEDOUT\<rparr>)"
  using gb_operation_result_first_wins [of "- ETIMEDOUT" "[0, - EIO]" demo_op True "demo_op\<lparr>errno := - EINPROGRESS\<rparr>"]
  by (simp add: gb_operation_result_set_def demo_op_def)

section \<open>Operation ids\<close>

lemma unat_next_operation_id: "unat (next_operation_id c) = unat c mod 65535 + 1"
proof -
  have "unat (c mod 65535 + 1) = unat c mod 65535 + 1"
    by (simp add: unat_word_ariths unat_mod)
  moreover have "unat c mod 65535 < 65535" by simp
  ultimately show ?thesis
    by (simp add: next_operation_id_def unsigned_ucast_eq take_bit_nat_eq_self)
qed

text \<open>
  The id of a request is never 0, the id of unidirectional operations, and two requests of a
  connection that are less than 65535 sends apart have different ids, unless the 32-bit cycle
  counter wraps around in between.
\<close>

theorem next_operation_id_unique:
  assumes "0 < d" "d < 65535" "unat c + d < 2 ^ 32"
  shows "next_operation_id c \<noteq> 0 \<and> next_operation_id (c + of_nat d) \<noteq> next_operation_id c"
proof
  show "next_operation_id c \<noteq> 0" using unat_next_operation_id [of c] by (auto simp: unat_eq_zero)
  have c: "unat (c + of_nat d) = unat c + d"
    using assms(3) by (simp add: unat_word_ariths unat_of_nat take_bit_nat_eq_self)
  have "(unat c + d) mod 65535 \<noteq> unat c mod 65535"
  proof
    assume "(unat c + d) mod 65535 = unat c mod 65535"
    then have "65535 dvd d" by (metis add_diff_cancel_left' le_add1 mod_eq_dvd_iff_nat)
    then show False using assms(1,2) by (simp add: dvd_imp_le leD)
  qed
  then show "next_operation_id (c + of_nat d) \<noteq> next_operation_id c"
    using unat_next_operation_id [of c] unat_next_operation_id [of "c + of_nat d"] c by (metis add_right_cancel)
qed

theorem next_operation_id_unique_witness:
  "next_operation_id 7 \<noteq> 0 \<and> next_operation_id (7 + of_nat 65534) \<noteq> next_operation_id 7"
  by (rule next_operation_id_unique) simp_all

text \<open>
  The exception is real: when the cycle counter wraps around, two requests sent one directly
  after the other get the same id.
\<close>

theorem next_operation_id_wrap_collision:
  "next_operation_id (0xffffffff + 1) = next_operation_id 0xffffffff \<and>
   next_operation_id (0xffffffff + 1) = 1"
  by code_simp

end
