(* ===== verification/GB_Operation_Props.thy ===== *)
theory GB_Operation_Props
  imports GB_Operation_Steps
begin

text \<open>
  What the operation core does, beyond being safe: which operation a response reaches and what it
  leaves there, what an incoming request becomes, what a synchronous call returns to its caller,
  and the two places where the code relies on something it does not check.
\<close>

section \<open>Responses\<close>

text \<open>
  The contract of response matching: the response goes to the first active outgoing operation of the
  connection with its id. If that operation still waits for its result, the result is the mapped
  status, or -EMSGSIZE for a response of the wrong size; the message is copied in full on success
  and only its header on failure; the completion is queued. In all other cases nothing changes.
\<close>

definition awaits :: "opworld \<Rightarrow> u16 \<Rightarrow> nat \<Rightarrow> bool" where
  "awaits w oid r = (case ops w r of None \<Rightarrow> False | Some opn \<Rightarrow> op_id opn = oid \<and> \<not> gb_operation_is_incoming opn)"

definition response_error :: "gb_message \<Rightarrow> u8 \<Rightarrow> nat \<Rightarrow> int" where
  "response_error m result sz =
     (if gb_operation_status_map result = 0 \<and> sz \<noteq> length (buffer m) then - EMSGSIZE
      else gb_operation_status_map result)"

definition deliver :: "opworld \<Rightarrow> nat \<Rightarrow> u8 \<Rightarrow> bytes \<Rightarrow> nat \<Rightarrow> opworld" where
  "deliver w r result data sz =
     (case ops w r of None \<Rightarrow> w
      | Some opn \<Rightarrow> (case response opn of None \<Rightarrow> w
         | Some m \<Rightarrow>
            let err = response_error m result sz;
                n = (if err = 0 then sz else HDR_SIZE)
            in if errno opn = - EINPROGRESS
               then (set_op w r (opn\<lparr>errno := err,
                       response := Some (m\<lparr>buffer := take n data @ drop n (buffer m)\<rparr>)\<rparr>))
                    \<lparr>completion_wq := queue_work r (completion_wq w)\<rparr>
               else w))"

definition recv_response_spec :: "opworld \<Rightarrow> gb_connection \<Rightarrow> u16 \<Rightarrow> u8 \<Rightarrow> bytes \<Rightarrow> nat \<Rightarrow> opworld" where
  "recv_response_spec w k oid result data sz =
     (case List.find (awaits w oid) (operations k) of None \<Rightarrow> w | Some r \<Rightarrow> deliver w r result data sz)"

lemma find_outgoing_loop_find:
  assumes "\<And>r. r \<in> set rs \<Longrightarrow> ops w r \<noteq> None"
  shows "find_outgoing_loop (ops w) rs oid = Some (List.find (awaits w oid) rs)"
  using assms
proof (induction rs)
  case (Cons r rs)
  then obtain opn where "ops w r = Some opn" by fastforce
  then show ?case using Cons by (simp add: awaits_def)
qed simp

lemma world_ok_listed:
  "world_ok w u t \<Longrightarrow> conns w c = Some k \<Longrightarrow> r \<in> set (operations k) \<Longrightarrow> \<exists>opn. ops w r = Some opn"
  using world_ok_listed_live [of w u t c r] ops_at_conn [of w c k r] by auto

lemma get_put_same:
  assumes "0 < kref opn"
  shows "gb_operation_put ((set_op w r (opn\<lparr>kref := Suc (kref opn), errno := e, response := m\<rparr>))\<lparr>completion_wq := q\<rparr>) r =
    Some ((set_op w r (opn\<lparr>errno := e, response := m\<rparr>))\<lparr>completion_wq := q\<rparr>)"
  using assms by (cases opn) (simp add: gb_operation_put_def set_op_def)

lemma response_error_size:
  assumes "msg_ok m" "sz < 65536"
  shows "(if gb_operation_status_map result = 0 \<and> (of_nat sz :: size_t) \<noteq> 8 + payload_size m
          then - EMSGSIZE else gb_operation_status_map result) = response_error m result sz"
proof -
  have 1: "unat (8 + payload_size m) = length (buffer m)"
    using message_size_no_wrap [of "payload_size m"] assms(1)
    by (simp add: msg_ok_def msg_wf_def add.commute)
  have 2: "unat (of_nat sz :: size_t) = sz" using assms(2) by (simp add: unat_of_nat take_bit_nat_eq_self)
  have "(of_nat sz :: size_t) = 8 + payload_size m \<longleftrightarrow> sz = length (buffer m)"
    by (simp add: word_unat_eq_iff 1 2)
  then show ?thesis by (simp add: response_error_def)
qed

lemma gb_connection_recv_response_spec:
  assumes "world_ok w u t" "conns w c = Some k" "8 \<le> length data" "sz \<le> length data" "sz < 65536"
  shows "gb_connection_recv_response w c oid result data sz = Some (recv_response_spec w k oid result data sz)"
proof -
  have live: "\<And>r. r \<in> set (operations k) \<Longrightarrow> ops w r \<noteq> None"
    using world_ok_listed [OF assms(1,2)] by fastforce
  note loop = find_outgoing_loop_find [OF live, where oid = oid, simplified]
  show ?thesis
  proof (cases "List.find (awaits w oid) (operations k)")
    case None
    then show ?thesis
      using assms(2) loop by (simp add: gb_connection_recv_response_def gb_operation_find_outgoing_def recv_response_spec_def)
  next
    case (Some r)
    then obtain opn where r: "ops w r = Some opn" "\<not> gb_operation_is_incoming opn"
      by (auto simp: find_Some_iff awaits_def split: option.splits)
    note inv = world_ok_op(3) [OF assms(1) r(1)]
    obtain m where m: "response opn = Some m" "msg_ok m" "0 < kref opn"
      using inv r(2) by (auto simp: op_inv_def)
    define err where "err = response_error m result sz"
    define n where "n = (if err \<noteq> 0 then 8 else sz)"
    have err: "err \<noteq> - EINPROGRESS" "err \<noteq> - EBADR"
      using gb_operation_status_map_range by (simp_all add: err_def response_error_def)
    have len: "n \<le> length data" "n \<le> length (buffer m)"
      using assms(3,4) msg_ok_length [OF m(2)] by (auto simp: n_def err_def response_error_def)
    define m1 where "m1 = Some (m\<lparr>buffer := take n data @ drop n (buffer m)\<rparr>)"
    have find: "gb_operation_find_outgoing w c oid = Some (Some r, set_op w r (opn\<lparr>kref := Suc (kref opn)\<rparr>))"
      using assms(2) loop Some r(1) by (simp add: gb_operation_find_outgoing_def gb_operation_get_def)
    have "gb_connection_recv_response w c oid result data sz =
      (if errno opn = - EINPROGRESS
       then gb_operation_put ((set_op w r (opn\<lparr>kref := Suc (kref opn), errno := err, response := m1\<rparr>))\<lparr>completion_wq := queue_work r (completion_wq w)\<rparr>) r
       else gb_operation_put (set_op w r (opn\<lparr>kref := Suc (kref opn)\<rparr>)) r)"
      using find r m(1) len err
      by (simp add: gb_connection_recv_response_def Let_def response_error_size [OF m(2) assms(5)]
          err_def [symmetric] n_def [symmetric] gb_operation_result_set_def rd_bytes_def wr_bytes_def
          m1_def set_op_def)
    moreover have "gb_operation_put (set_op w r (opn\<lparr>kref := Suc (kref opn)\<rparr>)) r = Some w"
      using r(1) m(3) by (simp add: gb_operation_put_def set_op_def fun_upd_idem)
    ultimately show ?thesis
      using get_put_same [OF m(3)] Some r(1) m(1)
      by (auto simp: recv_response_spec_def deliver_def Let_def err_def n_def m1_def)
  qed
qed

text \<open>
  C6 Response matching refines its contract: on every reachable state gb_connection_recv_response
  leaves exactly the state the contract describes, whatever the id, status, size and data are.
\<close>

theorem recv_response_refines:
  assumes "op_reach (w, u)" "conns w c = Some k" "8 \<le> length data" "sz \<le> length data" "sz < 65536"
  shows "gb_connection_recv_response w c oid result data sz =
    Some (recv_response_spec w k oid result data sz)"
  using gb_connection_recv_response_spec [OF _ assms(2-), of u "\<lambda>_. 0"] opm.reach_inv [OF assms(1)]
  by (simp add: op_state_ok_def)

theorem recv_response_refines_witness:
  "gb_connection_recv_response demo_world 0 2 0 [8, 0, 2, 0, 0x85, 0, 0, 0] 8 =
     Some (recv_response_spec demo_world demo_conn 2 0 [8, 0, 2, 0, 0x85, 0, 0, 0] 8)"
  by (rule recv_response_refines [OF demo_init]) (simp_all add: demo_world_def)

section \<open>Incoming requests\<close>

lemma gb_operation_create_incoming_succeeds:
  assumes "8 \<le> sz" "sz \<le> unat (buffer_size_max w)" "sz < 65536"
  shows "gb_operation_create_incoming w c oid ty data sz (\<lambda>_. True) \<noteq> Some (None, w')"
proof -
  define rq where "rq = (of_nat sz :: size_t) - 8"
  have "unat (rq + 8) = sz"
    using assms(3) by (simp add: rq_def unat_of_nat take_bit_nat_eq_self)
  then have "\<not> buffer_size_max w < rq + 8" using assms(2) by (simp add: word_less_nat_alt)
  then have "gb_operation_message_alloc (buffer_size_max w) True True ty rq \<noteq> Some None"
    by (simp add: gb_operation_message_alloc_def Let_def split: bind_split)
  then show ?thesis
    by (simp add: gb_operation_create_incoming_def gb_operation_create_common_def rq_def [symmetric] Let_def
        split: bind_split option.split)
qed

text \<open>
  An incoming request on an enabled connection, with memory available, becomes one active
  operation that holds the message as received, is queued on the connection's own workqueue behind
  earlier requests, and is owned by that queue alone (one reference); it is unidirectional exactly
  when its id is 0.
\<close>

theorem recv_request_queues:
  assumes "op_reach (w, u)" "conns w c = Some k" "state k = GB_CONNECTION_STATE_ENABLED"
    and "8 \<le> sz" "sz \<le> length data" "sz \<le> unat (buffer_size_max w)"
  shows "\<exists>w' k' opn. gb_connection_recv_request w c oid ty data sz (\<lambda>_. True) = Some w' \<and>
    conns w' c = Some k' \<and> wq k' = wq k @ [next_op w] \<and> operations k' = operations k @ [next_op w] \<and>
    ops w' (next_op w) = Some opn \<and> buffer (request opn) = take sz data \<and> op_id opn = oid \<and> type opn = ty \<and>
    gb_operation_is_incoming opn \<and> gb_operation_is_unidirectional opn = (oid = 0) \<and>
    errno opn = - EINPROGRESS \<and> kref opn = 1 \<and> active opn = 1"
proof -
  have ok: "world_ok w u (\<lambda>_. 0)" using opm.reach_inv [OF assms(1)] by (simp add: op_state_ok_def)
  then have sz: "sz < 65536" using assms(6) by (simp add: world_ok_def)
  let ?r = "next_op w"
  obtain opn w1 where cr: "gb_operation_create_incoming w c oid ty data sz (\<lambda>_. True) = Some (Some ?r, w1)"
      "ops w1 ?r = Some opn" "conns w1 = conns w" "world_ok w1 (u(?r := 1)) (\<lambda>_. 0)"
    and opp: "connection opn = c" "gb_operation_is_incoming opn" "gb_operation_is_unidirectional opn = (oid = 0)"
      "type opn = ty" "errno opn = - EBADR" "active opn = 0" "op_id opn = oid" "buffer (request opn) = take sz data"
    using gb_operation_create_incoming_ok [OF ok _ assms(4,5) sz, of c oid ty "\<lambda>_. True"] assms(2)
      gb_operation_create_incoming_succeeds [OF assms(4,6) sz] by (metis option.distinct(1))
  have kr: "kref opn = 1"
    using world_ok_op(3) [OF cr(4,2)] opp(6) by (simp add: op_inv_def)
  have fresh: "?r \<notin> set (wq k)"
    using world_ok_dead(4) [OF ok world_ok_fresh(1) [OF ok]] wq_at_conn [OF assms(2), of ?r] by auto
  show ?thesis
    using cr(1-3) opp kr fresh assms(2,3)
    by (simp add: gb_connection_recv_request_def gb_operation_get_active_def gb_operation_result_set_def
        queue_work_def)
qed

theorem recv_request_queues_witness:
  "\<exists>w' k' opn. gb_connection_recv_request demo_world 0 7 3 [9, 0, 7, 0, 3, 0, 0, 0, 42] 9 (\<lambda>_. True) = Some w' \<and>
    conns w' 0 = Some k' \<and> wq k' = [0] \<and> ops w' 0 = Some opn \<and>
    buffer (request opn) = [9, 0, 7, 0, 3, 0, 0, 0, 42] \<and> errno opn = - EINPROGRESS"
  using recv_request_queues [OF demo_init, of 0 demo_conn 9 "[9, 0, 7, 0, 3, 0, 0, 0, 42]" 7 3]
  by (auto simp: demo_world_def demo_conn_def)

section \<open>Where the code relies on its environment\<close>

text \<open>
  Gb_connection_recv checks that the received data covers the size field but not that the size
  field covers the header: a request of at most five bytes with a valid type makes the code write
  the header of the copy outside its buffer, on every reachable state with an enabled connection.
\<close>

theorem recv_short_size_faults:
  assumes "conns w c = Some k" "state k = GB_CONNECTION_STATE_ENABLED"
    and "hdr_of data = Some h" "unat (h_size h) < 6" "unat (h_size h) \<le> unat (buffer_size_max w)"
    and "h_type h AND GB_MESSAGE_TYPE_RESPONSE = 0" "h_type h \<noteq> GB_OPERATION_TYPE_INVALID"
  shows "gb_connection_recv w c data (\<lambda>_. True) = None"
proof -
  have len: "unat (h_size h) \<le> length data" using hdr_of_length [OF assms(3)] assms(4) by linarith
  define sz where "sz = unat (h_size h)"
  define rq where "rq = (of_nat sz :: size_t) - 8"
  have "(rq + 8 :: size_t) = of_nat sz" by (simp add: rq_def)
  moreover have "unat (of_nat sz :: size_t) = sz"
    using assms(4) by (simp add: sz_def unat_of_nat take_bit_nat_eq_self)
  ultimately have n: "unat (rq + 8) = sz" "\<not> buffer_size_max w < rq + 8"
    using assms(5) by (simp_all add: word_less_nat_alt sz_def)
  have "gb_operation_message_init \<lparr>buffer = replicate sz 0, payload_size = 0\<rparr> rq (h_type h) = None"
    using assms(4,7) by (auto simp: gb_operation_message_init_def Let_def wr_bytes_def sz_def split: bind_split)
  then have "gb_operation_message_alloc (buffer_size_max w) True True (h_type h) rq = None"
    using n by (simp add: gb_operation_message_alloc_def Let_def)
  then have "gb_connection_recv_request w c (h_operation_id h) (h_type h) data sz (\<lambda>_. True) = None"
    by (simp add: gb_connection_recv_request_def gb_operation_create_incoming_def rq_def [symmetric]
        gb_operation_create_common_def)
  then show ?thesis using assms len by (simp add: gb_connection_recv_def Let_def sz_def)
qed

theorem recv_short_size_faults_witness:
  "gb_connection_recv demo_world 0 [0, 0, 1, 0, 5, 0, 0, 0] (\<lambda>_. True) = None"
  by (rule recv_short_size_faults [of _ _ demo_conn _ "\<lparr>h_size = 0, h_operation_id = 1, h_type = 5, h_result = 0, h_pad0 = 0, h_pad1 = 0\<rparr>"])
    (simp_all add: demo_world_def demo_conn_def hdr_of_def le16_to_cpu_def)

text \<open>
  A request in flight does not keep its operation alive: if the operation is answered, completed
  and released before the host driver reports the request as sent, the report accesses the freed
  operation.
\<close>

theorem message_sent_after_free_faults:
  "(case run op_enabled op_exec (demo_world, \<lambda>_. 0)
      [Ev_create 0 5 1 1 (\<lambda>_. True), Ev_send 0 0, Ev_recv 0 [9, 0, 2, 0, 0x85, 0, 0, 0, 42] (\<lambda>_. True),
       Ev_work_out 0, Ev_put 0] of
      None \<Rightarrow> False
    | Some (w, u) \<Rightarrow> (0, Request) \<in> set (inflight w) \<and> op_exec (w, u) (Ev_sent 0 Request 0) = None)"
  by code_simp

end
