(* ===== verification/GB_Device.thy ===== *)
theory GB_Device
  imports GB_Protocol GB_Endo GB_Operation
begin

text \<open>
  The host device and the objects below it (greybus.h, interface.h, bundle.h, connection.h,
  control.h, svc.c): interfaces, bundles and connections in stores addressed by number, so that a
  freed object is visible as \<open>None\<close>, together with the environment. Everything the kernel, the host
  driver or the other end of a connection decides is read from a list of answers, one answer per call, and
  every such call is recorded in a trace. A function of the source is a function from a state to its
  result and the next state; \<open>None\<close> is a fault (NULL or freed pointer, double free).
\<close>

section \<open>Objects\<close>

text \<open>
  struct gb_connection as the device layer uses it; the operations of a connection are the subject
  of \<open>GB_Operation\<close>. \<open>conn_protocol\<close> is the bound protocol, \<open>conn_private\<close> the address of the
  protocol's own object.
\<close>

record conn =
  conn_bundle :: "nat option"
  hd_cport_id :: u16
  intf_cport_id :: u16
  conn_protocol :: "gb_protocol option"
  protocol_id :: u8
  conn_major :: u8
  conn_minor :: u8
  module_major :: u8
  module_minor :: u8
  conn_state :: gb_connection_state
  conn_private :: "nat option"

record gb_bundle =
  bun_intf :: nat
  bun_id :: u8
  bun_class :: u8
  bun_connections :: "nat list"

text \<open>A located descriptor of a manifest: its size, the offset of its data and its type.\<close>

record manifest_desc =
  desc_addr :: nat
  desc_size :: nat
  desc_data :: nat
  desc_type :: u8

text \<open>
  struct gb_interface. A string pointer is an error pointer (\<open>Inl\<close>), NULL (\<open>Inr None\<close>) or a string.
\<close>

record gb_interface =
  intf_control :: "nat option"
  intf_bundles :: "nat list"
  manifest_descs :: "manifest_desc list"
  interface_id :: u8
  device_id :: u8
  vendor :: u16
  product :: u16
  vendor_string :: "int + bytes option"
  product_string :: "int + bytes option"
  unique_id :: u64
  unipro_mfg_id :: u32
  unipro_prod_id :: u32
  ara_vend_id :: u32
  ara_prod_id :: u32
  intf_module :: u8

datatype gb_svc_state =
    GB_SVC_STATE_RESET
  | GB_SVC_STATE_PROTOCOL_VERSION
  | GB_SVC_STATE_SVC_HELLO

record gb_svc =
  svc_connection :: nat
  svc_state :: gb_svc_state

section \<open>Environment\<close>

text \<open>What the code asks of its environment, in the order of the calls.\<close>

datatype env_call =
    Alloc
  | Ida_get
  | Device_add
  | Try_module_get
  | Sync nat u8 bytes nat
  | Driver_connection_create nat
  | Driver_connection_destroy nat
  | Protocol_connection_init nat
  | Protocol_connection_exit nat
  | Cancel_operations nat int
  | Module_create u8

record hdw =
  interfaces :: "nat list"
  connections :: "nat list"
  cport_id_map :: "nat set"
  num_cports :: nat
  hd_buffer_size_max :: size_t
  driver_connection_create :: bool
  driver_connection_destroy :: bool
  hd_endo :: "gb_endo option"
  initial_svc_connection :: "nat option"
  hd_svc :: "nat option"
  endo_id_map :: "nat set"
  endo_modules :: "u8 list"
  svc_device_id_map :: "nat set"
  protocols :: "gb_protocol list"
  conn_store :: "nat \<Rightarrow> conn option"
  bundle_store :: "nat \<Rightarrow> gb_bundle option"
  intf_store :: "nat \<Rightarrow> gb_interface option"
  control_store :: "nat \<Rightarrow> nat option"
  svc_store :: "nat \<Rightarrow> gb_svc option"
  hotplug_work :: "(nat \<times> bytes) list"
  next_addr :: nat
  native16 :: "u16 \<Rightarrow> bytes"
  answers :: "nat \<Rightarrow> int \<times> bytes"
  tick :: nat
  trace :: "env_call list"

definition ask :: "env_call \<Rightarrow> hdw \<Rightarrow> (int \<times> bytes) \<times> hdw" where
  "ask q w = (answers w (tick w), w\<lparr>tick := tick w + 1, trace := trace w @ [q]\<rparr>)"

text \<open>kzalloc, kmalloc and the like: a negative answer is NULL.\<close>

definition kalloc :: "hdw \<Rightarrow> bool \<times> hdw" where
  "kalloc w = (case ask Alloc w of (a, w') \<Rightarrow> (0 \<le> fst a, w'))"

definition device_add :: "hdw \<Rightarrow> int \<times> hdw" where
  "device_add w = (case ask Device_add w of (a, w') \<Rightarrow> (fst a, w'))"

text \<open>
  gb_operation_sync on a connection: on success the caller's response buffer holds exactly the
  \<open>n\<close> bytes that arrived. The connection is dereferenced.
\<close>

definition gb_operation_sync :: "hdw \<Rightarrow> nat \<Rightarrow> u8 \<Rightarrow> bytes \<Rightarrow> nat \<Rightarrow> ((int \<times> bytes) \<times> hdw) option" where
  "gb_operation_sync w c ty req n = do {
     _ \<leftarrow> conn_store w c;
     (case ask (Sync c ty req n) w of (a, w') \<Rightarrow>
        Some ((fst a, take n (snd a @ replicate n 0)), w'))
   }"

definition set_conn_d :: "hdw \<Rightarrow> nat \<Rightarrow> conn \<Rightarrow> hdw" where
  [gb_defs]: "set_conn_d w c k = w\<lparr>conn_store := (conn_store w)(c \<mapsto> k)\<rparr>"

definition set_bundle :: "hdw \<Rightarrow> nat \<Rightarrow> gb_bundle \<Rightarrow> hdw" where
  [gb_defs]: "set_bundle w b x = w\<lparr>bundle_store := (bundle_store w)(b \<mapsto> x)\<rparr>"

definition set_intf :: "hdw \<Rightarrow> nat \<Rightarrow> gb_interface \<Rightarrow> hdw" where
  [gb_defs]: "set_intf w i x = w\<lparr>intf_store := (intf_store w)(i \<mapsto> x)\<rparr>"

abbreviation (input) GB_SVC_BUNDLE_ID :: u8 where "GB_SVC_BUNDLE_ID \<equiv> 0"
abbreviation (input) GB_SVC_CPORT_ID :: u16 where "GB_SVC_CPORT_ID \<equiv> 0"
abbreviation (input) GB_CONTROL_BUNDLE_ID :: u8 where "GB_CONTROL_BUNDLE_ID \<equiv> 0"
abbreviation (input) GB_CONTROL_CPORT_ID :: u16 where "GB_CONTROL_CPORT_ID \<equiv> 0"
abbreviation (input) GB_DEVICE_ID_AP :: u8 where "GB_DEVICE_ID_AP \<equiv> 1"
abbreviation (input) GB_DEVICE_ID_BAD :: u8 where "GB_DEVICE_ID_BAD \<equiv> 0xff"
abbreviation (input) CPORT_ID_MAX :: u16 where "CPORT_ID_MAX \<equiv> 4095"
abbreviation (input) CPORT_ID_BAD :: u16 where "CPORT_ID_BAD \<equiv> 0xffff"
abbreviation (input) GREYBUS_PROTOCOL_CONTROL :: u8 where "GREYBUS_PROTOCOL_CONTROL \<equiv> 0x00"
abbreviation (input) GREYBUS_PROTOCOL_SVC :: u8 where "GREYBUS_PROTOCOL_SVC \<equiv> 0x14"
abbreviation (input) GREYBUS_CLASS_CONTROL :: u8 where "GREYBUS_CLASS_CONTROL \<equiv> 0x00"
abbreviation (input) GREYBUS_CLASS_SVC :: u8 where "GREYBUS_CLASS_SVC \<equiv> 0x14"

section \<open>Control protocol\<close>

definition gb_control_get_manifest_size_operation :: "hdw \<Rightarrow> nat \<Rightarrow> (int \<times> hdw) option" where
  "gb_control_get_manifest_size_operation w i = do {
     intf \<leftarrow> intf_store w i;
     control \<leftarrow> intf_control intf;
     connection \<leftarrow> control_store w control;
     ((ret, response), w1) \<leftarrow> gb_operation_sync w connection 0x03 [] 2;
     if ret \<noteq> 0 then Some (ret, w1)
     else Some (int (unat (le16_to_cpu (response ! 0) (response ! 1))), w1)
   }"

definition gb_control_get_manifest_operation :: "hdw \<Rightarrow> nat \<Rightarrow> nat \<Rightarrow> ((int \<times> bytes) \<times> hdw) option" where
  "gb_control_get_manifest_operation w i sz = do {
     intf \<leftarrow> intf_store w i;
     control \<leftarrow> intf_control intf;
     connection \<leftarrow> control_store w control;
     gb_operation_sync w connection 0x04 [] sz
   }"

definition gb_control_connected_operation :: "hdw \<Rightarrow> nat \<Rightarrow> u16 \<Rightarrow> (int \<times> hdw) option" where
  "gb_control_connected_operation w control cport = do {
     connection \<leftarrow> control_store w control;
     ((ret, _), w1) \<leftarrow> gb_operation_sync w connection 0x05 (cpu_to_le16 cport) 0;
     Some (ret, w1)
   }"

definition gb_control_disconnected_operation :: "hdw \<Rightarrow> nat \<Rightarrow> u16 \<Rightarrow> (int \<times> hdw) option" where
  "gb_control_disconnected_operation w control cport = do {
     connection \<leftarrow> control_store w control;
     ((ret, _), w1) \<leftarrow> gb_operation_sync w connection 0x06 (cpu_to_le16 cport) 0;
     Some (ret, w1)
   }"

definition gb_control_connection_init :: "hdw \<Rightarrow> nat \<Rightarrow> (int \<times> hdw) option" where
  "gb_control_connection_init w c =
     (case kalloc w of (ok, w1) \<Rightarrow>
        if \<not> ok then Some (- ENOMEM, w1)
        else do {
          k \<leftarrow> conn_store w1 c;
          let a = next_addr w1;
          let w2 = set_conn_d (w1\<lparr>control_store := (control_store w1)(a \<mapsto> c), next_addr := a + 1\<rparr>) c
                     (k\<lparr>conn_private := Some a\<rparr>);
          b \<leftarrow> conn_bundle k;
          bun \<leftarrow> bundle_store w2 b;
          intf \<leftarrow> intf_store w2 (bun_intf bun);
          Some (0, set_intf w2 (bun_intf bun) (intf\<lparr>intf_control := Some a\<rparr>))
        })"

definition gb_control_connection_exit :: "hdw \<Rightarrow> nat \<Rightarrow> hdw option" where
  "gb_control_connection_exit w c = do {
     k \<leftarrow> conn_store w c;
     b \<leftarrow> conn_bundle k;
     bun \<leftarrow> bundle_store w b;
     intf \<leftarrow> intf_store w (bun_intf bun);
     if intf_control intf \<noteq> conn_private k then Some w
     else
       let w1 = set_intf w (bun_intf bun) (intf\<lparr>intf_control := None\<rparr>) in
       Some (case conn_private k of None \<Rightarrow> w1
             | Some a \<Rightarrow> w1\<lparr>control_store := (control_store w1)(a := None)\<rparr>)
   }"

text \<open>
  gb_control_request_recv: the answer to requests of a module. The payload of the version response
  is written into the response of the operation.
\<close>

definition gb_control_request_recv ::
    "size_t \<Rightarrow> bool \<Rightarrow> bool \<Rightarrow> u8 \<Rightarrow> gb_operation \<Rightarrow> (int \<times> gb_operation) option" where
  "gb_control_request_recv bmax msg_ok buf_ok ty opn =
     (if ty = 0x01 then do {
        (ok, o1) \<leftarrow> gb_operation_response_alloc bmax msg_ok buf_ok 2 opn;
        if \<not> ok then Some (- ENOMEM, o1)
        else do {
          resp \<leftarrow> response o1;
          buf \<leftarrow> wr_bytes (buffer resp) HDR_SIZE [0x00, 0x01];
          Some (0, o1\<lparr>response := Some (resp\<lparr>buffer := buf\<rparr>)\<rparr>)
        }
      } else Some (0, opn))"

section \<open>SVC requests\<close>

definition svc_sync :: "hdw \<Rightarrow> nat option \<Rightarrow> u8 \<Rightarrow> bytes \<Rightarrow> (int \<times> hdw) option" where
  [gb_defs]: "svc_sync w svc ty req = do {
     a \<leftarrow> svc;
     s \<leftarrow> svc_store w a;
     ((ret, _), w1) \<leftarrow> gb_operation_sync w (svc_connection s) ty req 0;
     Some (ret, w1)
   }"

definition gb_svc_intf_device_id :: "hdw \<Rightarrow> nat option \<Rightarrow> u8 \<Rightarrow> u8 \<Rightarrow> (int \<times> hdw) option" where
  "gb_svc_intf_device_id w svc intf_id did = svc_sync w svc 0x03 [intf_id, did]"

definition gb_svc_intf_reset :: "hdw \<Rightarrow> nat option \<Rightarrow> u8 \<Rightarrow> (int \<times> hdw) option" where
  "gb_svc_intf_reset w svc intf_id = svc_sync w svc 0x06 [intf_id]"

text \<open>
  The cport ids of a connection request are stored without conversion; \<open>native16\<close> is how the
  machine lays out a 16-bit integer in memory.
\<close>

definition gb_svc_connection_create ::
    "hdw \<Rightarrow> nat option \<Rightarrow> u8 \<Rightarrow> u16 \<Rightarrow> u8 \<Rightarrow> u16 \<Rightarrow> (int \<times> hdw) option" where
  "gb_svc_connection_create w svc intf1_id cport1_id intf2_id cport2_id =
     svc_sync w svc 0x07 ([intf1_id] @ native16 w cport1_id @ [intf2_id] @ native16 w cport2_id @ [0, 4 OR 1])"

definition gb_svc_connection_destroy ::
    "hdw \<Rightarrow> nat option \<Rightarrow> u8 \<Rightarrow> u16 \<Rightarrow> u8 \<Rightarrow> u16 \<Rightarrow> hdw option" where
  "gb_svc_connection_destroy w svc intf1_id cport1_id intf2_id cport2_id =
     map_option snd (svc_sync w svc 0x08 ([intf1_id] @ native16 w cport1_id @ [intf2_id] @ native16 w cport2_id))"

definition gb_svc_route_create :: "hdw \<Rightarrow> nat option \<Rightarrow> u8 \<Rightarrow> u8 \<Rightarrow> u8 \<Rightarrow> u8 \<Rightarrow> (int \<times> hdw) option" where
  "gb_svc_route_create w svc intf1_id dev1_id intf2_id dev2_id =
     svc_sync w svc 0x0b [intf1_id, dev1_id, intf2_id, dev2_id]"

definition gb_svc_connection_init :: "hdw \<Rightarrow> nat \<Rightarrow> (int \<times> hdw) option" where
  "gb_svc_connection_init w c =
     (case kalloc w of (ok, w1) \<Rightarrow>
        if \<not> ok then Some (- ENOMEM, w1)
        else do {
          k \<leftarrow> conn_store w1 c;
          let a = next_addr w1;
          Some (0, (set_conn_d w1 c (k\<lparr>conn_private := Some a\<rparr>))
            \<lparr>svc_store := (svc_store w1)(a \<mapsto> \<lparr>svc_connection = c, svc_state = GB_SVC_STATE_RESET\<rparr>),
             hd_svc := Some a, initial_svc_connection := Some c, svc_device_id_map := {},
             next_addr := a + 1\<rparr>)
        })"

definition gb_svc_connection_exit :: "hdw \<Rightarrow> nat \<Rightarrow> hdw option" where
  "gb_svc_connection_exit w c = do {
     k \<leftarrow> conn_store w c;
     let w1 = (set_conn_d w c (k\<lparr>conn_private := None\<rparr>))\<lparr>hd_svc := None\<rparr>;
     Some (case conn_private k of None \<Rightarrow> w1
           | Some a \<Rightarrow> w1\<lparr>svc_store := (svc_store w1)(a := None)\<rparr>)
   }"

end
