(* ===== verification/GB_Connection.thy ===== *)
theory GB_Connection
  imports GB_Device
begin

text \<open>
  Connections and bundles (connection.c, bundle.c): creation, binding to a protocol, initialisation,
  teardown, lookup. The invariant of the host device ties the list of connections, the map of cport
  ids and the objects together.
\<close>

section \<open>Lookup\<close>

text \<open>gb_connection_intf_find dereferences the bundle of every connection it passes.\<close>

fun intf_find_loop :: "hdw \<Rightarrow> nat list \<Rightarrow> nat \<Rightarrow> u16 \<Rightarrow> nat option option" where
  "intf_find_loop w [] i cport = Some None"
| "intf_find_loop w (c # cs) i cport = do {
     k \<leftarrow> conn_store w c;
     b \<leftarrow> conn_bundle k;
     bun \<leftarrow> bundle_store w b;
     if bun_intf bun = i \<and> intf_cport_id k = cport then Some (Some c)
     else intf_find_loop w cs i cport
   }"

definition gb_connection_intf_find :: "hdw \<Rightarrow> nat \<Rightarrow> u16 \<Rightarrow> nat option option" where
  "gb_connection_intf_find w i cport = intf_find_loop w (connections w) i cport"

fun hd_find_loop :: "hdw \<Rightarrow> nat list \<Rightarrow> u16 \<Rightarrow> nat option option" where
  "hd_find_loop w [] cport = Some None"
| "hd_find_loop w (c # cs) cport = do {
     k \<leftarrow> conn_store w c;
     if hd_cport_id k = cport then Some (Some c) else hd_find_loop w cs cport
   }"

definition gb_connection_hd_find :: "hdw \<Rightarrow> u16 \<Rightarrow> nat option option" where
  "gb_connection_hd_find w cport = hd_find_loop w (connections w) cport"

text \<open>
  greybus_data_rcvd hands the data to the operation core of the connection it finds; the operation
  core keeps its connections under the same addresses.
\<close>

definition greybus_data_rcvd ::
    "hdw \<Rightarrow> opworld \<Rightarrow> u16 \<Rightarrow> bytes \<Rightarrow> (nat \<Rightarrow> bool) \<Rightarrow> opworld option" where
  "greybus_data_rcvd w ow cport data al = do {
     found \<leftarrow> gb_connection_hd_find w cport;
     (case found of None \<Rightarrow> Some ow | Some c \<Rightarrow> gb_connection_recv ow c data al)
   }"

section \<open>Timestamps\<close>

text \<open>
  The timestamp fifo of a connection holds at most \<open>cap\<close> timestamps; kfifo_in stores what fits and
  drops the rest. A pop returns the size of a timestamp (16 bytes), or -ENOMEM on an empty fifo.
\<close>

definition gb_connection_push_timestamp :: "nat \<Rightarrow> 'a \<Rightarrow> 'a list \<Rightarrow> 'a list" where
  "gb_connection_push_timestamp cap tv fifo = (if length fifo < cap then fifo @ [tv] else fifo)"

definition gb_connection_pop_timestamp :: "'a list \<Rightarrow> int \<times> 'a option \<times> 'a list" where
  "gb_connection_pop_timestamp fifo =
     (case fifo of [] \<Rightarrow> (- ENOMEM, None, []) | tv # rest \<Rightarrow> (16, Some tv, rest))"

section \<open>Initialisation and exit\<close>

text \<open>The connection_init and connection_exit handlers of the bound protocol.\<close>

definition protocol_connection_init :: "hdw \<Rightarrow> nat \<Rightarrow> (int \<times> hdw) option" where
  "protocol_connection_init w c = do {
     k \<leftarrow> conn_store w c;
     p \<leftarrow> conn_protocol k;
     if pr_id p = GREYBUS_PROTOCOL_SVC then gb_svc_connection_init w c
     else if pr_id p = GREYBUS_PROTOCOL_CONTROL then gb_control_connection_init w c
     else (case ask (Protocol_connection_init c) w of (a, w1) \<Rightarrow> Some (fst a, w1))
   }"

definition protocol_connection_exit :: "hdw \<Rightarrow> nat \<Rightarrow> hdw option" where
  "protocol_connection_exit w c = do {
     k \<leftarrow> conn_store w c;
     p \<leftarrow> conn_protocol k;
     if pr_id p = GREYBUS_PROTOCOL_SVC then gb_svc_connection_exit w c
     else if pr_id p = GREYBUS_PROTOCOL_CONTROL then gb_control_connection_exit w c
     else Some (snd (ask (Protocol_connection_exit c) w))
   }"

text \<open>The control object of a connection's interface.\<close>

definition conn_control :: "hdw \<Rightarrow> conn \<Rightarrow> nat option option" where
  [gb_defs]: "conn_control w k = do {
     b \<leftarrow> conn_bundle k;
     bun \<leftarrow> bundle_store w b;
     intf \<leftarrow> intf_store w (bun_intf bun);
     Some (intf_control intf)
   }"

definition gb_connection_disconnected :: "hdw \<Rightarrow> nat \<Rightarrow> hdw option" where
  "gb_connection_disconnected w c = do {
     k \<leftarrow> conn_store w c;
     if intf_cport_id k = GB_CONTROL_CPORT_ID \<or> hd_cport_id k = GB_SVC_CPORT_ID then Some w
     else do {
       ctl \<leftarrow> conn_control w k;
       control \<leftarrow> ctl;
       (ret, w1) \<leftarrow> gb_control_disconnected_operation w control (intf_cport_id k);
       Some w1
     }
   }"

definition gb_connection_get_version :: "hdw \<Rightarrow> nat \<Rightarrow> (int \<times> hdw) option" where
  "gb_connection_get_version w c = do {
     k \<leftarrow> conn_store w c;
     p \<leftarrow> conn_protocol k;
     ((ret, resp), w1) \<leftarrow> gb_operation_sync w c 0x01 [] 2;
     (case gb_protocol_get_version p ret (resp ! 0, resp ! 1) of
        (ret, None) \<Rightarrow> Some (ret, w1)
      | (ret, Some (ma, mi)) \<Rightarrow>
          do { k1 \<leftarrow> conn_store w1 c; Some (ret, set_conn_d w1 c (k1\<lparr>module_major := ma, module_minor := mi\<rparr>)) })
   }"

definition connection_init_error :: "hdw \<Rightarrow> nat \<Rightarrow> int \<Rightarrow> (int \<times> hdw) option" where
  "connection_init_error w c ret = do {
     k \<leftarrow> conn_store w c;
     w1 \<leftarrow> gb_connection_disconnected (set_conn_d w c (k\<lparr>conn_state := GB_CONNECTION_STATE_ERROR\<rparr>)) c;
     Some (ret, w1)
   }"

definition gb_connection_init :: "hdw \<Rightarrow> nat \<Rightarrow> (int \<times> hdw) option" where
  "gb_connection_init w c = do {
     k \<leftarrow> conn_store w c;
     (ret, w1) \<leftarrow>
       (if intf_cport_id k \<noteq> GB_CONTROL_CPORT_ID \<and> hd_cport_id k \<noteq> GB_SVC_CPORT_ID
        then do {
          ctl \<leftarrow> conn_control w k;
          control \<leftarrow> ctl;
          gb_control_connected_operation w control (intf_cport_id k)
        } else Some (0, w));
     if ret \<noteq> 0 then Some (ret, w1)
     else do {
       k1 \<leftarrow> conn_store w1 c;
       let w2 = set_conn_d w1 c (k1\<lparr>conn_state := GB_CONNECTION_STATE_ENABLED\<rparr>);
       (ret, w3) \<leftarrow> (if hd_cport_id k \<noteq> GB_SVC_CPORT_ID then gb_connection_get_version w2 c
                      else Some (0, w2));
       if ret \<noteq> 0 then connection_init_error w3 c ret
       else do {
         (ret, w4) \<leftarrow> protocol_connection_init w3 c;
         if ret = 0 then Some (0, w4) else connection_init_error w4 c ret
       }
     }
   }"

text \<open>Whether the device behind a connection is up, the condition of gb_connection_bind_protocol.\<close>

definition device_ready :: "hdw \<Rightarrow> conn \<Rightarrow> bool option" where
  [gb_defs]: "device_ready w k =
     (if conn_bundle k = None \<and> hd_cport_id k = GB_SVC_CPORT_ID then Some True
      else do {
        b \<leftarrow> conn_bundle k;
        bun \<leftarrow> bundle_store w b;
        intf \<leftarrow> intf_store w (bun_intf bun);
        Some (device_id intf \<noteq> GB_DEVICE_ID_BAD)
      })"

definition gb_connection_bind_protocol :: "hdw \<Rightarrow> nat \<Rightarrow> (int \<times> hdw) option" where
  "gb_connection_bind_protocol w c = do {
     k \<leftarrow> conn_store w c;
     if conn_protocol k \<noteq> None then Some (0, w)
     else if gb_protocol_find (protocols w) (protocol_id k) (conn_major k) (conn_minor k) = None
       then Some (0, w)
     else
       case ask Try_module_get w of (a, w1) \<Rightarrow>
       case gb_protocol_get (0 \<le> fst a) (protocol_id k) (conn_major k) (conn_minor k) (protocols w1) of
         (None, ps) \<Rightarrow> Some (0, w1)
       | (Some n, ps) \<Rightarrow> do {
           let p = ps ! n;
           let w2 = set_conn_d (w1\<lparr>protocols := ps\<rparr>) c (k\<lparr>conn_protocol := Some p\<rparr>);
           ready \<leftarrow> device_ready w2 k;
           if \<not> ready then Some (0, w2)
           else do {
             (ret, w3) \<leftarrow> gb_connection_init w2 c;
             if ret = 0 then Some (0, w3)
             else do {
               k3 \<leftarrow> conn_store w3 c;
               Some (ret, set_conn_d (w3\<lparr>protocols := gb_protocol_put p (protocols w3)\<rparr>) c
                            (k3\<lparr>conn_protocol := None\<rparr>))
             }
           }
         }
   }"

definition gb_connection_exit :: "hdw \<Rightarrow> nat \<Rightarrow> hdw option" where
  "gb_connection_exit w c = do {
     k \<leftarrow> conn_store w c;
     if conn_protocol k = None then Some w
     else if conn_state k \<noteq> GB_CONNECTION_STATE_ENABLED then Some w
     else do {
       let w1 = set_conn_d w c (k\<lparr>conn_state := GB_CONNECTION_STATE_DESTROYING\<rparr>);
       let w2 = snd (ask (Cancel_operations c (- ESHUTDOWN)) w1);
       w3 \<leftarrow> protocol_connection_exit w2 c;
       gb_connection_disconnected w3 c
     }
   }"

section \<open>Creation and destruction\<close>

text \<open>
  gb_connection_create_range. \<open>b\<close> is the bundle (\<open>None\<close> for NULL). A failing device_add frees the
  connection through put_device before the id is given back.
\<close>

definition new_conn :: "nat option \<Rightarrow> u16 \<Rightarrow> u16 \<Rightarrow> u8 \<Rightarrow> conn" where
  [gb_defs]: "new_conn b hdc cport proto =
     \<lparr>conn_bundle = b, hd_cport_id = hdc, intf_cport_id = cport, conn_protocol = None,
      protocol_id = proto, conn_major = 0, conn_minor = 1, module_major = 0, module_minor = 0,
      conn_state = GB_CONNECTION_STATE_DISABLED, conn_private = None\<rparr>"

text \<open>The announcement to the SVC and the host driver of a connection that is not the SVC's own.\<close>

definition announce_connection :: "hdw \<Rightarrow> nat \<Rightarrow> nat option \<Rightarrow> u16 \<Rightarrow> u16 \<Rightarrow> hdw option" where
  "announce_connection w c b hdc cport =
     (if hdc = GB_SVC_CPORT_ID then Some w
      else do {
        endo \<leftarrow> hd_endo w;
        b' \<leftarrow> b;
        bun \<leftarrow> bundle_store w b';
        intf \<leftarrow> intf_store w (bun_intf bun);
        (ret, w1) \<leftarrow> gb_svc_connection_create w (hd_svc w) (ap_intf_id endo) hdc (interface_id intf) cport;
        Some (if driver_connection_create w1 then snd (ask (Driver_connection_create c) w1) else w1)
      })"

definition gb_connection_create_range ::
    "hdw \<Rightarrow> nat option \<Rightarrow> u16 \<Rightarrow> u8 \<Rightarrow> nat \<Rightarrow> nat \<Rightarrow> (nat option \<times> hdw) option" where
  "gb_connection_create_range w b cport proto ida_start ida_end = do {
     dup \<leftarrow> (case b of None \<Rightarrow> Some None
             | Some b' \<Rightarrow> do { bun \<leftarrow> bundle_store w b'; gb_connection_intf_find w (bun_intf bun) cport });
     if dup \<noteq> None then Some (None, w)
     else
       case ask Ida_get w of (a, w1) \<Rightarrow>
       case ida_simple_get (fst a) ida_start ida_end (cport_id_map w1) of (hdc, ids) \<Rightarrow>
         if hdc < 0 then Some (None, w1)
         else
           let w2 = w1\<lparr>cport_id_map := ids\<rparr>;
               remove_ida = (\<lambda>w. w\<lparr>cport_id_map := ida_simple_remove (nat hdc) (cport_id_map w)\<rparr>)
           in case kalloc w2 of (ok1, w3) \<Rightarrow>
              if \<not> ok1 then Some (None, remove_ida w3)
              else case kalloc w3 of (ok2, w4) \<Rightarrow>
                if \<not> ok2 then Some (None, remove_ida w4)
                else case kalloc w4 of (ok3, w5) \<Rightarrow>
                  if \<not> ok3 then Some (None, remove_ida w5)
                  else case device_add w5 of (retval, w6) \<Rightarrow>
                    if retval \<noteq> 0 then Some (None, remove_ida w6)
                    else do {
                      let c = next_addr w6;
                      let hdc16 = (word_of_int hdc :: u16);
                      let w7 = (set_conn_d w6 c (new_conn b hdc16 cport proto))
                                 \<lparr>next_addr := c + 1, connections := c # connections w6\<rparr>;
                      w8 \<leftarrow> (case b of None \<Rightarrow> Some w7
                             | Some b' \<Rightarrow> do { bun \<leftarrow> bundle_store w7 b';
                                 Some (set_bundle w7 b' (bun\<lparr>bun_connections := c # bun_connections bun\<rparr>)) });
                      w9 \<leftarrow> announce_connection w8 c b hdc16 cport;
                      (ret, w10) \<leftarrow> gb_connection_bind_protocol w9 c;
                      Some (Some c, w10)
                    }
   }"

definition gb_connection_create :: "hdw \<Rightarrow> nat \<Rightarrow> u16 \<Rightarrow> u8 \<Rightarrow> (nat option \<times> hdw) option" where
  "gb_connection_create w b cport proto =
     gb_connection_create_range w (Some b) cport proto 0 (num_cports w - 1)"

definition gb_connection_destroy :: "hdw \<Rightarrow> nat \<Rightarrow> hdw option" where
  "gb_connection_destroy w c = do {
     w1 \<leftarrow> gb_connection_exit w c;
     k \<leftarrow> conn_store w1 c;
     w2 \<leftarrow> (case conn_bundle k of None \<Rightarrow> Some w1
           | Some b \<Rightarrow> do { bun \<leftarrow> bundle_store w1 b;
               Some (set_bundle w1 b (bun\<lparr>bun_connections := remove1 c (bun_connections bun)\<rparr>)) });
     let w3 = w2\<lparr>connections := remove1 c (connections w2)\<rparr>;
     let w4 = (if driver_connection_destroy w3 then snd (ask (Driver_connection_destroy c) w3) else w3);
     let w5 = (case conn_protocol k of None \<Rightarrow> w4
               | Some p \<Rightarrow> w4\<lparr>protocols := gb_protocol_put p (protocols w4)\<rparr>);
     Some (w5\<lparr>cport_id_map := ida_simple_remove (unat (hd_cport_id k)) (cport_id_map w5),
              conn_store := (conn_store w5)(c := None)\<rparr>)
   }"

text \<open>
  gb_hd_connections_exit walks the list without a safe cursor: the link to the next connection is
  read from the connection that has just been destroyed and freed.
\<close>

fun hd_exit_loop :: "nat list \<Rightarrow> hdw \<Rightarrow> hdw option" where
  "hd_exit_loop [] w = Some w"
| "hd_exit_loop (c # cs) w = do {
     w1 \<leftarrow> gb_connection_destroy w c;
     _ \<leftarrow> conn_store w1 c;
     hd_exit_loop cs w1
   }"

definition gb_hd_connections_exit :: "hdw \<Rightarrow> hdw option" where
  "gb_hd_connections_exit w = hd_exit_loop (connections w) w"

section \<open>Bundles\<close>

fun bundle_find_loop :: "hdw \<Rightarrow> nat list \<Rightarrow> u8 \<Rightarrow> nat option option" where
  "bundle_find_loop w [] i = Some None"
| "bundle_find_loop w (b # bs) i = do {
     bun \<leftarrow> bundle_store w b;
     if bun_id bun = i then Some (Some b) else bundle_find_loop w bs i
   }"

definition gb_bundle_find :: "hdw \<Rightarrow> nat \<Rightarrow> u8 \<Rightarrow> nat option option" where
  "gb_bundle_find w i bid = do { intf \<leftarrow> intf_store w i; bundle_find_loop w (intf_bundles intf) bid }"

text \<open>
  gb_bundle_create: when device_add fails, put_device already frees the bundle through its release
  function and the kfree that follows frees it a second time.
\<close>

definition gb_bundle_create :: "hdw \<Rightarrow> nat \<Rightarrow> u8 \<Rightarrow> u8 \<Rightarrow> (nat option \<times> hdw) option" where
  "gb_bundle_create w i bid cls = do {
     dup \<leftarrow> gb_bundle_find w i bid;
     if dup \<noteq> None then Some (None, w)
     else
       case kalloc w of (ok, w1) \<Rightarrow>
         if \<not> ok then Some (None, w1)
         else
           case device_add w1 of (retval, w2) \<Rightarrow>
             if retval \<noteq> 0 then None
             else do {
               intf \<leftarrow> intf_store w2 i;
               let b = next_addr w2;
               Some (Some b, (set_intf (set_bundle w2 b
                        \<lparr>bun_intf = i, bun_id = bid, bun_class = cls, bun_connections = []\<rparr>) i
                        (intf\<lparr>intf_bundles := b # intf_bundles intf\<rparr>))\<lparr>next_addr := b + 1\<rparr>)
             }
   }"

fun destroy_connections :: "nat list \<Rightarrow> hdw \<Rightarrow> hdw option" where
  "destroy_connections [] w = Some w"
| "destroy_connections (c # cs) w = do { w1 \<leftarrow> gb_connection_destroy w c; destroy_connections cs w1 }"

definition gb_bundle_connections_exit :: "hdw \<Rightarrow> nat \<Rightarrow> hdw option" where
  "gb_bundle_connections_exit w b = do {
     bun \<leftarrow> bundle_store w b;
     destroy_connections (bun_connections bun) w
   }"

definition gb_bundle_destroy :: "hdw \<Rightarrow> nat \<Rightarrow> hdw option" where
  "gb_bundle_destroy w b = do {
     bun \<leftarrow> bundle_store w b;
     intf \<leftarrow> intf_store w (bun_intf bun);
     let w1 = set_intf w (bun_intf bun) (intf\<lparr>intf_bundles := remove1 b (intf_bundles intf)\<rparr>);
     w2 \<leftarrow> gb_bundle_connections_exit w1 b;
     Some (w2\<lparr>bundle_store := (bundle_store w2)(b := None)\<rparr>)
   }"

text \<open>svc_update_connection moves the SVC connection below a real bundle.\<close>

definition svc_update_connection :: "hdw \<Rightarrow> nat \<Rightarrow> nat \<Rightarrow> (int \<times> hdw) option" where
  "svc_update_connection w i c = do {
     (bo, w1) \<leftarrow> gb_bundle_create w i GB_SVC_BUNDLE_ID GREYBUS_CLASS_SVC;
     (case bo of None \<Rightarrow> Some (- EINVAL, w1)
      | Some b \<Rightarrow> do {
          k \<leftarrow> conn_store w1 c;
          let w2 = set_conn_d w1 c (k\<lparr>conn_bundle := Some b\<rparr>);
          case device_add w2 of (_, w3) \<Rightarrow> do {
            bun \<leftarrow> bundle_store w3 b;
            Some (0, set_bundle w3 b (bun\<lparr>bun_connections := c # bun_connections bun\<rparr>))
          }
        })
   }"

text \<open>Binding all connections that wait for a protocol, after a protocol was registered.\<close>

fun bind_connections :: "nat list \<Rightarrow> hdw \<Rightarrow> hdw option" where
  "bind_connections [] w = Some w"
| "bind_connections (c # cs) w = do { (ret, w1) \<leftarrow> gb_connection_bind_protocol w c; bind_connections cs w1 }"

fun gb_bundle_bind_protocols :: "nat list \<Rightarrow> hdw \<Rightarrow> hdw option" where
  "gb_bundle_bind_protocols [] w = Some w"
| "gb_bundle_bind_protocols (b # bs) w = do {
     bun \<leftarrow> bundle_store w b;
     w1 \<leftarrow> bind_connections (bun_connections bun) w;
     gb_bundle_bind_protocols bs w1
   }"

end
