(* ===== verification/GB_Connection_Inv.thy ===== *)
theory GB_Connection_Inv
  imports GB_Connection
begin

text \<open>
  The invariant of the host device: the list of connections, the connection objects, the bundles
  they belong to and the map of host cport ids agree. Functions that work on one connection keep the
  structure (\<open>same_shape\<close>); creation and destruction change it by exactly one connection.
\<close>

section \<open>Structure-preserving functions\<close>

text \<open>The fields of a connection and of an interface that never change after creation.\<close>

definition conn_static :: "conn \<Rightarrow> nat option \<times> u16 \<times> u16 \<times> u8" where
  "conn_static k = (conn_bundle k, hd_cport_id k, intf_cport_id k, protocol_id k)"

definition intf_shape :: "gb_interface \<Rightarrow> gb_interface" where
  "intf_shape i = i\<lparr>intf_control := None\<rparr>"

definition same_shape :: "hdw \<Rightarrow> hdw \<Rightarrow> bool" where
  "same_shape w w' \<longleftrightarrow>
     connections w' = connections w \<and> cport_id_map w' = cport_id_map w \<and> interfaces w' = interfaces w \<and>
     bundle_store w' = bundle_store w \<and> num_cports w' = num_cports w \<and> hd_endo w' = hd_endo w \<and>
     hd_buffer_size_max w' = hd_buffer_size_max w \<and> next_addr w \<le> next_addr w' \<and>
     (\<forall>c. map_option conn_static (conn_store w' c) = map_option conn_static (conn_store w c)) \<and>
     (\<forall>i. map_option intf_shape (intf_store w' i) = map_option intf_shape (intf_store w i))"

lemma same_shape_refl [simp]: "same_shape w w"
  by (simp add: same_shape_def)

lemma same_shape_trans: "same_shape w1 w2 \<Longrightarrow> same_shape w2 w3 \<Longrightarrow> same_shape w1 w3"
  by (simp add: same_shape_def)

lemma same_shape_set_conn:
  "conn_store w c = Some k \<Longrightarrow> conn_static k' = conn_static k \<Longrightarrow> same_shape w (set_conn_d w c k')"
  by (simp add: same_shape_def set_conn_d_def)

lemma same_shape_set_intf:
  "intf_store w i = Some x \<Longrightarrow> intf_shape x' = intf_shape x \<Longrightarrow> same_shape w (set_intf w i x')"
  by (simp add: same_shape_def set_intf_def)

lemma same_shape_conn_upd [simp]:
  assumes "conn_store w c = Some k"
  shows "same_shape w (set_conn_d w c (k\<lparr>conn_private := a\<rparr>))"
    "same_shape w (set_conn_d w c (k\<lparr>conn_state := s\<rparr>))"
    "same_shape w (set_conn_d w c (k\<lparr>conn_protocol := p\<rparr>))"
    "same_shape w (set_conn_d w c (k\<lparr>module_major := ma, module_minor := mi\<rparr>))"
  by (rule same_shape_set_conn [OF assms], simp add: conn_static_def)+

lemma same_shape_intf_upd [simp]:
  assumes "intf_store w i = Some x"
  shows "same_shape w (set_intf w i (x\<lparr>intf_control := a\<rparr>))"
  by (rule same_shape_set_intf [OF assms]) (simp add: intf_shape_def)

text \<open>Fields that no structural fact mentions.\<close>

lemma same_shape_upd [simp]:
  "same_shape w (w'\<lparr>tick := a, trace := b\<rparr>) = same_shape w w'"
  "same_shape w (w'\<lparr>protocols := d\<rparr>) = same_shape w w'"
  "same_shape w (w'\<lparr>svc_store := e\<rparr>) = same_shape w w'"
  "same_shape w (w'\<lparr>hd_svc := f\<rparr>) = same_shape w w'"
  "same_shape w (w'\<lparr>initial_svc_connection := g\<rparr>) = same_shape w w'"
  "same_shape w (w'\<lparr>svc_device_id_map := h\<rparr>) = same_shape w w'"
  "same_shape w (w'\<lparr>control_store := i\<rparr>) = same_shape w w'"
  by (simp_all add: same_shape_def)

lemma same_shape_ask: "ask q w = (a, w') \<Longrightarrow> same_shape w w'"
  by (auto simp: ask_def)

lemma same_shape_ask_snd [simp]: "same_shape w (snd (ask q w))"
  by (simp add: ask_def)

lemma same_shape_kalloc: "kalloc w = (ok, w') \<Longrightarrow> same_shape w w'"
  by (auto simp: kalloc_def ask_def)

lemma same_shape_device_add: "device_add w = (r, w') \<Longrightarrow> same_shape w w'"
  by (auto simp: device_add_def ask_def)

lemma same_shape_sync: "gb_operation_sync w c ty req n = Some (r, w') \<Longrightarrow> same_shape w w'"
  by (auto simp: gb_operation_sync_def ask_def split: bind_splits)

lemma same_shape_next: "next_addr w' \<le> a \<Longrightarrow> same_shape w w' \<Longrightarrow> same_shape w (w'\<lparr>next_addr := a\<rparr>)"
  by (simp add: same_shape_def)

lemma same_shape_svc_sync: "svc_sync w svc ty req = Some (r, w') \<Longrightarrow> same_shape w w'"
  by (auto simp: svc_sync_def dest: same_shape_sync split: bind_splits)

lemma same_shape_connected: "gb_control_connected_operation w ctl cp = Some (r, w') \<Longrightarrow> same_shape w w'"
  by (auto simp: gb_control_connected_operation_def dest: same_shape_sync split: bind_splits)

lemma same_shape_disconnected_op:
  "gb_control_disconnected_operation w ctl cp = Some (r, w') \<Longrightarrow> same_shape w w'"
  by (auto simp: gb_control_disconnected_operation_def dest: same_shape_sync split: bind_splits)

lemma same_shape_disconnected: "gb_connection_disconnected w c = Some w' \<Longrightarrow> same_shape w w'"
  by (auto simp: gb_connection_disconnected_def dest: same_shape_disconnected_op
      split: bind_splits if_splits)

lemma same_shape_svc_init: "gb_svc_connection_init w c = Some (r, w') \<Longrightarrow> same_shape w w'"
proof -
  assume a: "gb_svc_connection_init w c = Some (r, w')"
  obtain ok w1 where k: "kalloc w = (ok, w1)" by fastforce
  note s1 = same_shape_kalloc [OF k]
  show ?thesis
  proof (cases ok)
    case True
    then obtain k' where k': "conn_store w1 c = Some k'"
      and w': "w' = (set_conn_d w1 c (k'\<lparr>conn_private := Some (next_addr w1)\<rparr>))
            \<lparr>svc_store := (svc_store w1)(next_addr w1 \<mapsto> \<lparr>svc_connection = c, svc_state = GB_SVC_STATE_RESET\<rparr>),
             hd_svc := Some (next_addr w1), initial_svc_connection := Some c, svc_device_id_map := {},
             next_addr := next_addr w1 + 1\<rparr>"
      using a k by (auto simp: gb_svc_connection_init_def Let_def split: bind_splits)
    have "same_shape w1 (set_conn_d w1 c (k'\<lparr>conn_private := Some (next_addr w1)\<rparr>))"
      by (rule same_shape_set_conn [OF k']) (simp add: conn_static_def)
    then have "same_shape w1 w'" unfolding w' by (intro same_shape_next) (simp_all add: set_conn_d_def)
    then show ?thesis using s1 same_shape_trans by blast
  qed (use a k s1 in \<open>simp add: gb_svc_connection_init_def\<close>)
qed

lemma same_shape_control_init: "gb_control_connection_init w c = Some (r, w') \<Longrightarrow> same_shape w w'"
proof -
  assume a: "gb_control_connection_init w c = Some (r, w')"
  obtain ok w1 where k: "kalloc w = (ok, w1)" by fastforce
  note s1 = same_shape_kalloc [OF k]
  show ?thesis
  proof (cases ok)
    case True
    let ?w0 = "w1\<lparr>control_store := (control_store w1)(next_addr w1 \<mapsto> c), next_addr := next_addr w1 + 1\<rparr>"
    from True a k obtain k' i x where k': "conn_store w1 c = Some k'"
      and i: "intf_store (set_conn_d ?w0 c (k'\<lparr>conn_private := Some (next_addr w1)\<rparr>)) i = Some x"
      and w': "w' = set_intf (set_conn_d ?w0 c (k'\<lparr>conn_private := Some (next_addr w1)\<rparr>)) i
                 (x\<lparr>intf_control := Some (next_addr w1)\<rparr>)"
      by (auto simp: gb_control_connection_init_def Let_def split: bind_splits)
    have "same_shape w1 ?w0" by (intro same_shape_next) simp_all
    moreover have "same_shape ?w0 (set_conn_d ?w0 c (k'\<lparr>conn_private := Some (next_addr w1)\<rparr>))"
      by (rule same_shape_set_conn [of _ _ k']) (simp_all add: k' conn_static_def)
    moreover have "same_shape (set_conn_d ?w0 c (k'\<lparr>conn_private := Some (next_addr w1)\<rparr>)) w'"
      unfolding w' by (rule same_shape_set_intf [OF i]) (simp add: intf_shape_def)
    ultimately show ?thesis using s1 same_shape_trans by blast
  qed (use a k s1 in \<open>simp add: gb_control_connection_init_def\<close>)
qed

lemma same_shape_protocol_init: "protocol_connection_init w c = Some (r, w') \<Longrightarrow> same_shape w w'"
  by (auto simp: protocol_connection_init_def
      dest: same_shape_svc_init same_shape_control_init same_shape_ask split: bind_splits if_splits prod.splits)

lemma same_shape_svc_exit: "gb_svc_connection_exit w c = Some w' \<Longrightarrow> same_shape w w'"
  by (auto simp: gb_svc_connection_exit_def Let_def split: bind_splits option.splits)

lemma same_shape_control_exit: "gb_control_connection_exit w c = Some w' \<Longrightarrow> same_shape w w'"
  by (auto simp: gb_control_connection_exit_def Let_def split: bind_splits option.splits if_splits)

lemma same_shape_protocol_exit: "protocol_connection_exit w c = Some w' \<Longrightarrow> same_shape w w'"
  by (auto simp: protocol_connection_exit_def dest: same_shape_svc_exit same_shape_control_exit
      split: bind_splits if_splits)

lemma same_shape_get_version: "gb_connection_get_version w c = Some (r, w') \<Longrightarrow> same_shape w w'"
proof -
  assume a: "gb_connection_get_version w c = Some (r, w')"
  then obtain p ret resp w1 where s: "gb_operation_sync w c 0x01 [] 2 = Some ((ret, resp), w1)"
    and r: "(case gb_protocol_get_version p ret (resp ! 0, resp ! 1) of (ret, None) \<Rightarrow> Some (ret, w1)
      | (ret, Some (ma, mi)) \<Rightarrow>
          do { k1 \<leftarrow> conn_store w1 c; Some (ret, set_conn_d w1 c (k1\<lparr>module_major := ma, module_minor := mi\<rparr>)) }) =
      Some (r, w')"
    by (auto simp: gb_connection_get_version_def split: bind_splits)
  have "same_shape w1 w'"
    using r by (auto split: prod.splits option.splits bind_splits)
  then show ?thesis using same_shape_sync [OF s] same_shape_trans by blast
qed

lemma same_shape_init_error: "connection_init_error w c ret = Some (r, w') \<Longrightarrow> same_shape w w'"
proof -
  assume "connection_init_error w c ret = Some (r, w')"
  then obtain k where k: "conn_store w c = Some k"
    and d: "gb_connection_disconnected (set_conn_d w c (k\<lparr>conn_state := GB_CONNECTION_STATE_ERROR\<rparr>)) c = Some w'"
    by (auto simp: connection_init_error_def split: bind_splits)
  have "same_shape w (set_conn_d w c (k\<lparr>conn_state := GB_CONNECTION_STATE_ERROR\<rparr>))"
    using k by simp
  then show ?thesis using same_shape_disconnected [OF d] same_shape_trans by blast
qed

text \<open>The second half of gb_connection_init, after the interface was informed.\<close>

lemma same_shape_enable:
  assumes "conn_store w c = Some k"
    and "do { (ret, w3) \<leftarrow> (if b then gb_connection_get_version (set_conn_d w c (k\<lparr>conn_state := s\<rparr>)) c
                      else Some (0, set_conn_d w c (k\<lparr>conn_state := s\<rparr>)));
       if ret \<noteq> 0 then connection_init_error w3 c ret
       else do {
         (ret, w4) \<leftarrow> protocol_connection_init w3 c;
         if ret = 0 then Some (0, w4) else connection_init_error w4 c ret
       } } = Some (r, w')"
  shows "same_shape w w'"
proof -
  let ?w2 = "set_conn_d w c (k\<lparr>conn_state := s\<rparr>)"
  have s2: "same_shape w ?w2" using assms(1) by simp
  obtain ret w3 where w3: "(if b then gb_connection_get_version ?w2 c else Some (0, ?w2)) = Some (ret, w3)"
    and rest: "(if ret \<noteq> 0 then connection_init_error w3 c ret
       else do { (ret, w4) \<leftarrow> protocol_connection_init w3 c;
         if ret = 0 then Some (0, w4) else connection_init_error w4 c ret }) = Some (r, w')"
    using assms(2) by (auto split: bind_splits)
  have s3: "same_shape ?w2 w3" using w3 same_shape_get_version by (auto split: if_splits)
  have "same_shape w3 w'"
  proof (cases "ret = 0")
    case True
    then obtain ret4 w4 where 4: "protocol_connection_init w3 c = Some (ret4, w4)"
      "(if ret4 = 0 then Some (0, w4) else connection_init_error w4 c ret4) = Some (r, w')"
      using rest by (auto split: bind_splits)
    have "same_shape w4 w'" using 4(2) same_shape_init_error by (auto split: if_splits)
    then show ?thesis using same_shape_protocol_init [OF 4(1)] same_shape_trans by blast
  qed (use rest same_shape_init_error in auto)
  then show ?thesis using s2 s3 same_shape_trans by blast
qed

lemma same_shape_connection_init: "gb_connection_init w c = Some (r, w') \<Longrightarrow> same_shape w w'"
proof -
  assume a: "gb_connection_init w c = Some (r, w')"
  then obtain k where k: "conn_store w c = Some k" by (cases "conn_store w c") (simp_all add: gb_connection_init_def)
  define X where "X = (if intf_cport_id k \<noteq> 0 \<and> hd_cport_id k \<noteq> 0
        then do { ctl \<leftarrow> conn_control w k; control \<leftarrow> ctl; gb_control_connected_operation w control (intf_cport_id k) }
        else Some (0, w))"
  obtain ret w1 where 1: "X = Some (ret, w1)"
    using a k by (cases X) (auto simp: gb_connection_init_def X_def [symmetric])
  have a1: "(if ret \<noteq> 0 then Some (ret, w1)
     else do {
       k1 \<leftarrow> conn_store w1 c;
       let w2 = set_conn_d w1 c (k1\<lparr>conn_state := GB_CONNECTION_STATE_ENABLED\<rparr>);
       (ret, w3) \<leftarrow> (if hd_cport_id k \<noteq> 0 then gb_connection_get_version w2 c else Some (0, w2));
       if ret \<noteq> 0 then connection_init_error w3 c ret
       else do {
         (ret, w4) \<leftarrow> protocol_connection_init w3 c;
         if ret = 0 then Some (0, w4) else connection_init_error w4 c ret
       } }) = Some (r, w')"
    using a k 1 by (simp add: gb_connection_init_def X_def [symmetric])
  have s1: "same_shape w w1" using 1 same_shape_connected by (auto simp: X_def split: if_splits bind_splits)
  show ?thesis
  proof (cases "ret = 0")
    case True
    then obtain k1 where k1: "conn_store w1 c = Some k1" and r: "do { (ret, w3) \<leftarrow>
        (if hd_cport_id k \<noteq> 0 then gb_connection_get_version (set_conn_d w1 c (k1\<lparr>conn_state := GB_CONNECTION_STATE_ENABLED\<rparr>)) c
         else Some (0, set_conn_d w1 c (k1\<lparr>conn_state := GB_CONNECTION_STATE_ENABLED\<rparr>)));
       if ret \<noteq> 0 then connection_init_error w3 c ret
       else do { (ret, w4) \<leftarrow> protocol_connection_init w3 c;
         if ret = 0 then Some (0, w4) else connection_init_error w4 c ret } } = Some (r, w')"
      using a1 by (cases "conn_store w1 c") (simp_all add: Let_def)
    from same_shape_enable [OF k1 r] s1 same_shape_trans show ?thesis by blast
  qed (use a1 s1 in simp)
qed

lemma same_shape_bind: "gb_connection_bind_protocol w c = Some (r, w') \<Longrightarrow> same_shape w w'"
proof -
  assume a: "gb_connection_bind_protocol w c = Some (r, w')"
  then obtain k where k: "conn_store w c = Some k"
    by (cases "conn_store w c") (simp_all add: gb_connection_bind_protocol_def)
  show ?thesis
  proof (cases "conn_protocol k \<noteq> None \<or>
      gb_protocol_find (protocols w) (protocol_id k) (conn_major k) (conn_minor k) = None")
    case True
    then show ?thesis using a k by (auto simp: gb_connection_bind_protocol_def split: if_splits)
  next
    case False
    obtain an w1 where q: "ask Try_module_get w = (an, w1)" by fastforce
    have k1: "conn_store w1 c = Some k" using q k by (auto simp: ask_def)
    obtain pn ps where g: "gb_protocol_get (0 \<le> fst an) (protocol_id k) (conn_major k) (conn_minor k) (protocols w1) = (pn, ps)"
      by fastforce
    note s1 = same_shape_ask [OF q]
    show ?thesis
    proof (cases pn)
      case None
      then show ?thesis using a k False q g s1 by (auto simp: gb_connection_bind_protocol_def)
    next
      case (Some n)
      let ?w2 = "set_conn_d (w1\<lparr>protocols := ps\<rparr>) c (k\<lparr>conn_protocol := Some (ps ! n)\<rparr>)"
      have "same_shape (w1\<lparr>protocols := ps\<rparr>) ?w2" using k1 by simp
      moreover have "same_shape w1 (w1\<lparr>protocols := ps\<rparr>)" by simp
      ultimately have s2: "same_shape w ?w2" using s1 same_shape_trans by blast
      have r: "do { ready \<leftarrow> device_ready ?w2 k;
           if \<not> ready then Some (0, ?w2)
           else do {
             (ret, w3) \<leftarrow> gb_connection_init ?w2 c;
             if ret = 0 then Some (0, w3)
             else do {
               k3 \<leftarrow> conn_store w3 c;
               Some (ret, set_conn_d (w3\<lparr>protocols := gb_protocol_put (ps ! n) (protocols w3)\<rparr>) c
                            (k3\<lparr>conn_protocol := None\<rparr>)) } } } = Some (r, w')"
        using a k False q g Some by (auto simp: gb_connection_bind_protocol_def Let_def)
      then obtain ready where ready: "device_ready ?w2 k = Some ready"
        by (cases "device_ready ?w2 k") simp_all
      show ?thesis
      proof (cases ready)
        case True
        with r ready obtain ret w3 where i: "gb_connection_init ?w2 c = Some (ret, w3)"
          by (cases "gb_connection_init ?w2 c") auto
        have s3: "same_shape w w3" using same_shape_connection_init [OF i] s2 same_shape_trans by blast
        have "same_shape w3 w'"
        proof (cases "ret = 0")
          case False
          with r ready True i obtain k3 where k3: "conn_store w3 c = Some k3"
            "w' = set_conn_d (w3\<lparr>protocols := gb_protocol_put (ps ! n) (protocols w3)\<rparr>) c (k3\<lparr>conn_protocol := None\<rparr>)"
            by (cases "conn_store w3 c") auto
          have "same_shape (w3\<lparr>protocols := gb_protocol_put (ps ! n) (protocols w3)\<rparr>) w'"
            unfolding k3(2) using k3(1) by simp
          moreover have "same_shape w3 (w3\<lparr>protocols := gb_protocol_put (ps ! n) (protocols w3)\<rparr>)" by simp
          ultimately show ?thesis using same_shape_trans by blast
        qed (use r ready True i in auto)
        then show ?thesis using s3 same_shape_trans by blast
      qed (use r ready s2 in simp)
    qed
  qed
qed

lemma same_shape_exit: "gb_connection_exit w c = Some w' \<Longrightarrow> same_shape w w'"
proof -
  assume a: "gb_connection_exit w c = Some w'"
  then obtain k where k: "conn_store w c = Some k"
    by (cases "conn_store w c") (simp_all add: gb_connection_exit_def)
  show ?thesis
  proof (cases "conn_protocol k = None \<or> conn_state k \<noteq> GB_CONNECTION_STATE_ENABLED")
    case True
    then show ?thesis using a k by (auto simp: gb_connection_exit_def split: if_splits)
  next
    case False
    let ?w1 = "set_conn_d w c (k\<lparr>conn_state := GB_CONNECTION_STATE_DESTROYING\<rparr>)"
    let ?w2 = "snd (ask (Cancel_operations c (- ESHUTDOWN)) ?w1)"
    from a k False obtain w3 where w3: "protocol_connection_exit ?w2 c = Some w3" "gb_connection_disconnected w3 c = Some w'"
      by (cases "protocol_connection_exit ?w2 c") (auto simp: gb_connection_exit_def Let_def)
    have "same_shape w ?w1" using k by simp
    then show ?thesis
      using same_shape_protocol_exit [OF w3(1)] same_shape_disconnected [OF w3(2)] same_shape_ask_snd same_shape_trans
      by blast
  qed
qed

lemma same_shape_announce: "announce_connection w c b hdc cp = Some w' \<Longrightarrow> same_shape w w'"
  by (auto simp: announce_connection_def gb_svc_connection_create_def
      dest!: same_shape_svc_sync split: bind_splits if_splits intro: same_shape_trans [OF _ same_shape_ask_snd])

section \<open>The invariant\<close>

definition cport_of :: "hdw \<Rightarrow> nat \<Rightarrow> nat" where
  "cport_of w c = (case conn_store w c of None \<Rightarrow> 0 | Some k \<Rightarrow> unat (hd_cport_id k))"

definition bundle_of :: "hdw \<Rightarrow> nat \<Rightarrow> nat option" where
  "bundle_of w c = (case conn_store w c of None \<Rightarrow> None | Some k \<Rightarrow> conn_bundle k)"

definition conns_of :: "hdw \<Rightarrow> nat \<Rightarrow> nat list" where
  "conns_of w b = (case bundle_store w b of None \<Rightarrow> [] | Some bun \<Rightarrow> bun_connections bun)"

text \<open>
  The listed connections are the existing ones; no two share a host cport id, and the id map holds
  exactly the ids in use; a connection is on the list of a bundle exactly if it belongs to it.
\<close>

definition hd_ok :: "hdw \<Rightarrow> bool" where
  "hd_ok w \<longleftrightarrow>
     distinct (connections w) \<and> set (connections w) = {c. conn_store w c \<noteq> None} \<and>
     (\<forall>c \<in> set (connections w). c < next_addr w) \<and>
     inj_on (cport_of w) (set (connections w)) \<and>
     cport_id_map w = cport_of w ` set (connections w) \<and>
     (\<forall>b c. c \<in> set (conns_of w b) \<longleftrightarrow> bundle_of w c = Some b) \<and> (\<forall>b. distinct (conns_of w b))"

lemma same_shape_views:
  assumes "same_shape w w'"
  shows "cport_of w' = cport_of w" "bundle_of w' = bundle_of w" "conns_of w' = conns_of w"
    "conn_store w' c = None \<longleftrightarrow> conn_store w c = None"
proof -
  have s: "map_option conn_static (conn_store w' c) = map_option conn_static (conn_store w c)" for c
    using assms by (simp add: same_shape_def)
  have "cport_of w' x = cport_of w x" "bundle_of w' x = bundle_of w x" for x
    using s [of x] by (cases "conn_store w x"; cases "conn_store w' x";
        auto simp: cport_of_def bundle_of_def conn_static_def)+
  then show "cport_of w' = cport_of w" "bundle_of w' = bundle_of w" by auto
  show "conns_of w' = conns_of w" using assms by (simp add: fun_eq_iff conns_of_def same_shape_def)
  show "conn_store w' c = None \<longleftrightarrow> conn_store w c = None" using s [of c] by (cases "conn_store w c"; cases "conn_store w' c") auto
qed

lemma hd_ok_same_shape:
  assumes "same_shape w w'" "hd_ok w"
  shows "hd_ok w'"
proof -
  have "connections w' = connections w" "cport_id_map w' = cport_id_map w" "next_addr w \<le> next_addr w'"
    using assms(1) by (simp_all add: same_shape_def)
  moreover have "{c. conn_store w' c \<noteq> None} = {c. conn_store w c \<noteq> None}"
    using same_shape_views(4) [OF assms(1)] by simp
  ultimately show ?thesis
    using assms(2) same_shape_views(1-3) [OF assms(1)] unfolding hd_ok_def
    by (metis order_less_le_trans)
qed

section \<open>Adding and removing a connection\<close>

lemma hd_ok_add:
  assumes "hd_ok w" "c = next_addr w" "unat (hd_cport_id k) \<notin> cport_id_map w" "conn_bundle k = b"
    and "case b of None \<Rightarrow> w' = w0 | Some b' \<Rightarrow> \<exists>bun. bundle_store w b' = Some bun \<and>
           w' = set_bundle w0 b' (bun\<lparr>bun_connections := c # bun_connections bun\<rparr>)"
    and "w0 = (set_conn_d w c k)\<lparr>next_addr := c + 1, connections := c # connections w,
                 cport_id_map := insert (unat (hd_cport_id k)) (cport_id_map w)\<rparr>"
  shows "hd_ok w'"
proof -
  have fresh: "conn_store w c = None" "c \<notin> set (connections w)"
    using assms(1,2) unfolding hd_ok_def by auto
  have sel: "connections w' = c # connections w" "conn_store w' = (conn_store w)(c \<mapsto> k)"
    "next_addr w' = c + 1" "cport_id_map w' = insert (unat (hd_cport_id k)) (cport_id_map w)"
    using assms(5,6) by (auto simp: set_conn_d_def set_bundle_def split: option.splits)
  have cp: "cport_of w' = (cport_of w)(c := unat (hd_cport_id k))" "bundle_of w' = (bundle_of w)(c := b)"
    using assms(4) by (auto simp: fun_eq_iff cport_of_def bundle_of_def sel)
  have cs: "conns_of w' x = (if b = Some x then c # conns_of w x else conns_of w x)" for x
    using assms(5,6) by (auto simp: conns_of_def set_bundle_def set_conn_d_def split: option.splits)
  have nb: "c \<notin> set (conns_of w x)" for x
    using assms(1) fresh(1) by (simp add: hd_ok_def bundle_of_def)
  have im: "cport_of w' ` set (connections w) = cport_of w ` set (connections w)"
    using fresh(2) by (auto simp: cp)
  have old: "inj_on (cport_of w) (set (connections w))" "cport_id_map w = cport_of w ` set (connections w)"
    using assms(1) unfolding hd_ok_def by blast+
  have c: "cport_of w' c = unat (hd_cport_id k)" by (simp add: cp)
  from old have "inj_on (cport_of w') (set (connections w'))"
    using assms(3) fresh(2) im unfolding sel cp by (simp add: inj_on_fun_updI inj_on_insert)
  moreover have "set (connections w') = {x. conn_store w' x \<noteq> None}"
    using assms(1) by (auto simp: hd_ok_def sel)
  moreover have "cport_id_map w' = cport_of w' ` set (connections w')"
    using old(2) im c by (simp add: sel)
  moreover have "\<forall>x y. y \<in> set (conns_of w' x) \<longleftrightarrow> bundle_of w' y = Some x"
    using assms(1) nb by (auto simp: hd_ok_def cs cp)
  moreover have "\<forall>x. distinct (conns_of w' x)" using assms(1) nb by (auto simp: hd_ok_def cs)
  moreover have "\<forall>x \<in> set (connections w'). x < next_addr w'"
    using assms(1,2) unfolding hd_ok_def sel by (simp add: less_Suc_eq)
  moreover have "distinct (connections w')" using assms(1) fresh(2) by (simp add: hd_ok_def sel)
  ultimately show ?thesis by (simp add: hd_ok_def)
qed

lemma hd_ok_remove:
  assumes "hd_ok w" "conn_store w c = Some k"
    and "case conn_bundle k of None \<Rightarrow> w2 = w | Some b \<Rightarrow> \<exists>bun. bundle_store w b = Some bun \<and>
           w2 = set_bundle w b (bun\<lparr>bun_connections := remove1 c (bun_connections bun)\<rparr>)"
    and "connections w' = remove1 c (connections w)" "conn_store w' = (conn_store w)(c := None)"
      "cport_id_map w' = cport_id_map w - {unat (hd_cport_id k)}" "bundle_store w' = bundle_store w2"
      "next_addr w' = next_addr w"
  shows "hd_ok w'"
proof -
  have d: "distinct (connections w)" "set (connections w) = {x. conn_store w x \<noteq> None}"
    "inj_on (cport_of w) (set (connections w))" "cport_id_map w = cport_of w ` set (connections w)"
    "\<And>b y. y \<in> set (conns_of w b) \<longleftrightarrow> bundle_of w y = Some b" "\<And>b. distinct (conns_of w b)"
    "\<And>y. y \<in> set (connections w) \<Longrightarrow> y < next_addr w"
    using assms(1) unfolding hd_ok_def by blast+
  have rest: "set (connections w') = set (connections w) - {c}" using d(1) by (simp add: assms(4) set_remove1_eq)
  have cp: "cport_of w' = (cport_of w)(c := 0)" "bundle_of w' = (bundle_of w)(c := None)"
    by (auto simp: fun_eq_iff cport_of_def bundle_of_def assms(5))
  have ck: "cport_of w c = unat (hd_cport_id k)" "bundle_of w c = conn_bundle k"
    using assms(2) by (simp_all add: cport_of_def bundle_of_def)
  have cs: "conns_of w' x = (if conn_bundle k = Some x then remove1 c (conns_of w x) else conns_of w x)" for x
    using assms(3,7) by (cases "conn_bundle k") (auto simp: conns_of_def set_bundle_def split: option.splits if_splits)
  have "cport_of w' ` set (connections w') = cport_of w ` (set (connections w) - {c})"
    by (auto simp: rest cp)
  also have "\<dots> = cport_of w ` set (connections w) - {cport_of w c}"
    using d(2,3) assms(2) by (auto simp: inj_on_def)
  finally have "cport_id_map w' = cport_of w' ` set (connections w')" by (simp add: assms(6) d(4) ck)
  moreover have "inj_on (cport_of w') (set (connections w'))"
    using d(3) by (auto simp: rest cp inj_on_def)
  moreover have "set (connections w') = {x. conn_store w' x \<noteq> None}"
    unfolding rest d(2) by (auto simp: assms(5))
  moreover have "\<forall>x y. y \<in> set (conns_of w' x) \<longleftrightarrow> bundle_of w' y = Some x"
    using d(5,6) ck(2) by (auto simp: cs cp set_remove1_eq)
  moreover have "\<forall>x. distinct (conns_of w' x)" using d(6) by (simp add: cs)
  moreover have "\<forall>x \<in> set (connections w'). x < next_addr w'" using d(7) by (simp add: rest assms(8))
  moreover have "distinct (connections w')" using d(1) by (simp add: assms(4))
  ultimately show ?thesis by (simp add: hd_ok_def)
qed

lemma same_shape_ids:
  "same_shape (w\<lparr>cport_id_map := ids\<rparr>) v \<Longrightarrow> same_shape w (v\<lparr>cport_id_map := cport_id_map w\<rparr>)"
  by (simp add: same_shape_def)

text \<open>
  What gb_connection_create_range does: nothing to the structure when it fails, one new connection
  at the head of the list with a free id from the range when it succeeds.
\<close>

lemma create_range_cases:
  assumes "gb_connection_create_range w b cport proto lo hi = Some (r, w')"
  shows "(r = None \<and> same_shape w w') \<or>
    (\<exists>c hdc w6 w8. r = Some c \<and> same_shape w w6 \<and> c = next_addr w6 \<and> 0 \<le> hdc \<and>
       nat hdc \<notin> cport_id_map w \<and> lo \<le> nat hdc \<and> (hi = 0 \<or> nat hdc < hi) \<and>
       (let k = new_conn b (word_of_int hdc) cport proto;
            w7 = (set_conn_d w6 c k)\<lparr>next_addr := c + 1, connections := c # connections w6,
                    cport_id_map := insert (nat hdc) (cport_id_map w6)\<rparr>
        in case b of None \<Rightarrow> w8 = w7 | Some b' \<Rightarrow> \<exists>bun. bundle_store w6 b' = Some bun \<and>
             w8 = set_bundle w7 b' (bun\<lparr>bun_connections := c # bun_connections bun\<rparr>)) \<and>
       same_shape w8 w')"
proof -
  obtain an w1 where q: "ask Ida_get w = (an, w1)" by fastforce
  obtain hdc ids where i: "ida_simple_get (fst an) lo hi (cport_id_map w1) = (hdc, ids)" by fastforce
  define w2 where "w2 = w1\<lparr>cport_id_map := ids\<rparr>"
  obtain ok1 w3 where 3: "kalloc w2 = (ok1, w3)" by fastforce
  obtain ok2 w4 where 4: "kalloc w3 = (ok2, w4)" by fastforce
  obtain ok3 w5 where 5: "kalloc w4 = (ok3, w5)" by fastforce
  obtain retval w6 where 6: "device_add w5 = (retval, w6)" by fastforce
  have s1: "same_shape w w1" by (rule same_shape_ask [OF q])
  then have m1: "cport_id_map w1 = cport_id_map w" by (simp add: same_shape_def)
  have s3: "same_shape w2 w3" by (rule same_shape_kalloc [OF 3])
  have s4: "same_shape w2 w4" using s3 same_shape_kalloc [OF 4] same_shape_trans by blast
  have s5: "same_shape w2 w5" using s4 same_shape_kalloc [OF 5] same_shape_trans by blast
  have s6: "same_shape w2 w6" using s5 same_shape_device_add [OF 6] same_shape_trans by blast
  have undo: "same_shape w (v\<lparr>cport_id_map := ida_simple_remove (nat hdc) (cport_id_map v)\<rparr>)"
    if "same_shape w2 v" "0 \<le> hdc" for v
  proof -
    have "cport_id_map v = ids" using that(1) by (simp add: same_shape_def w2_def)
    then have "ida_simple_remove (nat hdc) (cport_id_map v) = cport_id_map w1"
      using ida_get_remove [OF i that(2)] by simp
    then show ?thesis using same_shape_ids [OF that(1) [unfolded w2_def]] s1 same_shape_trans by metis
  qed
  obtain dup where dup: "(case b of None \<Rightarrow> Some None
      | Some b' \<Rightarrow> do { bun \<leftarrow> bundle_store w b'; gb_connection_intf_find w (bun_intf bun) cport }) = Some dup"
    using assms by (cases "case b of None \<Rightarrow> Some None
      | Some b' \<Rightarrow> do { bun \<leftarrow> bundle_store w b'; gb_connection_intf_find w (bun_intf bun) cport }")
      (simp_all add: gb_connection_create_range_def)
  define c where "c = next_addr w6"
  define k where "k = new_conn b (word_of_int hdc) cport proto"
  define w7 where "w7 = (set_conn_d w6 c k)\<lparr>next_addr := c + 1, connections := c # connections w6\<rparr>"
  define body where "body = do {
        w8 \<leftarrow> (case b of None \<Rightarrow> Some w7
               | Some b' \<Rightarrow> do { bun \<leftarrow> bundle_store w7 b';
                   Some (set_bundle w7 b' (bun\<lparr>bun_connections := c # bun_connections bun\<rparr>)) });
        w9 \<leftarrow> announce_connection w8 c b (word_of_int hdc) cport;
        (ret, w10) \<leftarrow> gb_connection_bind_protocol w9 c;
        Some (Some c, w10) }"
  define rm where "rm = (\<lambda>w. w\<lparr>cport_id_map := ida_simple_remove (nat hdc) (cport_id_map w)\<rparr> :: hdw)"
  have start: "(if dup \<noteq> None then Some (None, w) else if hdc < 0 then Some (None, w1)
      else if \<not> ok1 then Some (None, rm w3) else if \<not> ok2 then Some (None, rm w4)
      else if \<not> ok3 then Some (None, rm w5) else if retval \<noteq> 0 then Some (None, rm w6) else body) = Some (r, w')"
    using assms unfolding gb_connection_create_range_def dup q i body_def rm_def w7_def k_def c_def
    by (simp add: Let_def i w2_def [symmetric] 3 4 5 6 del: One_nat_def split: if_splits)
  show ?thesis
  proof (cases "dup = None \<and> 0 \<le> hdc \<and> ok1 \<and> ok2 \<and> ok3 \<and> retval = 0")
    case False
    then have "r = None \<and> same_shape w w'"
      using start s1 undo [OF s3] undo [OF s4] undo [OF s5] undo [OF s6]
      by (auto simp: rm_def not_less split: if_splits)
    then show ?thesis by blast
  next
    case True
    then have body: "body = Some (r, w')" using start by simp
    obtain w8 where w8: "(case b of None \<Rightarrow> Some w7
               | Some b' \<Rightarrow> do { bun \<leftarrow> bundle_store w7 b';
                   Some (set_bundle w7 b' (bun\<lparr>bun_connections := c # bun_connections bun\<rparr>)) }) = Some w8"
      using body unfolding body_def by (cases "case b of None \<Rightarrow> Some w7
               | Some b' \<Rightarrow> do { bun \<leftarrow> bundle_store w7 b';
                   Some (set_bundle w7 b' (bun\<lparr>bun_connections := c # bun_connections bun\<rparr>)) }") simp_all
    obtain w9 where w9: "announce_connection w8 c b (word_of_int hdc) cport = Some w9"
      using body w8 unfolding body_def by (cases "announce_connection w8 c b (word_of_int hdc) cport") simp_all
    obtain ret where w10: "gb_connection_bind_protocol w9 c = Some (ret, w')" "r = Some c"
      using body w8 w9 unfolding body_def by (cases "gb_connection_bind_protocol w9 c") auto
    define v where "v = w6\<lparr>cport_id_map := cport_id_map w\<rparr>"
    have ids: "cport_id_map w6 = insert (nat hdc) (cport_id_map w)" "nat hdc \<notin> cport_id_map w"
      "lo \<le> nat hdc" "hi = 0 \<or> nat hdc < hi"
      using s6 ida_simple_get_ok [OF i] True m1 by (auto simp: same_shape_def w2_def)
    have sv: "same_shape w v"
      using same_shape_ids [OF s6 [unfolded w2_def]] s1 same_shape_trans unfolding v_def m1 by blast
    have w7': "w7 = (set_conn_d v c k)\<lparr>next_addr := c + 1, connections := c # connections v,
                    cport_id_map := insert (nat hdc) (cport_id_map v)\<rparr>"
      unfolding w7_def v_def set_conn_d_def using ids(1) by (intro hdw.equality) simp_all
    have "bundle_store w7 = bundle_store v" by (simp add: w7_def v_def set_conn_d_def)
    then have b8: "case b of None \<Rightarrow> w8 = w7 | Some b' \<Rightarrow> \<exists>bun. bundle_store v b' = Some bun \<and>
             w8 = set_bundle w7 b' (bun\<lparr>bun_connections := c # bun_connections bun\<rparr>)"
      using w8 by (auto split: option.splits bind_splits)
    have "same_shape w8 w'" using same_shape_announce [OF w9] same_shape_bind [OF w10(1)] same_shape_trans by blast
    moreover have "c = next_addr v" by (simp add: c_def v_def)
    ultimately show ?thesis
      using sv w10(2) ids True b8 unfolding w7' k_def Let_def by blast
  qed
qed

lemma unat_cport:
  assumes "0 \<le> hdc" "nat hdc < 65536"
  shows "unat (word_of_int hdc :: u16) = nat hdc"
  using assms by (simp add: unsigned_of_int take_bit_int_eq_self)

text \<open>Creation keeps the invariant; a failed creation leaves the structure as it was.\<close>

lemma create_range_ok:
  assumes "gb_connection_create_range w b cport proto lo hi = Some (r, w')" "hd_ok w" "0 < hi" "hi \<le> 65536"
  shows "hd_ok w' \<and> (case r of
      None \<Rightarrow> same_shape w w'
    | Some c \<Rightarrow> connections w' = c # connections w \<and> c \<notin> set (connections w) \<and>
        lo \<le> cport_of w' c \<and> cport_of w' c < hi \<and> cport_id_map w' = insert (cport_of w' c) (cport_id_map w) \<and>
        cport_of w' c \<notin> cport_id_map w \<and> bundle_of w' c = b)"
  using create_range_cases [OF assms(1)]
proof
  assume "r = None \<and> same_shape w w'"
  then show ?thesis using hd_ok_same_shape assms(2) by auto
next
  assume "\<exists>c hdc w6 w8. r = Some c \<and> same_shape w w6 \<and> c = next_addr w6 \<and> 0 \<le> hdc \<and>
       nat hdc \<notin> cport_id_map w \<and> lo \<le> nat hdc \<and> (hi = 0 \<or> nat hdc < hi) \<and>
       (let k = new_conn b (word_of_int hdc) cport proto;
            w7 = (set_conn_d w6 c k)\<lparr>next_addr := c + 1, connections := c # connections w6,
                    cport_id_map := insert (nat hdc) (cport_id_map w6)\<rparr>
        in case b of None \<Rightarrow> w8 = w7 | Some b' \<Rightarrow> \<exists>bun. bundle_store w6 b' = Some bun \<and>
             w8 = set_bundle w7 b' (bun\<lparr>bun_connections := c # bun_connections bun\<rparr>)) \<and>
       same_shape w8 w'"
  then obtain c hdc w6 w8 where r: "r = Some c" "same_shape w w6" "c = next_addr w6" "0 \<le> hdc"
      "nat hdc \<notin> cport_id_map w" "lo \<le> nat hdc" "hi = 0 \<or> nat hdc < hi" "same_shape w8 w'"
    and w8: "let k = new_conn b (word_of_int hdc) cport proto;
            w7 = (set_conn_d w6 c k)\<lparr>next_addr := c + 1, connections := c # connections w6,
                    cport_id_map := insert (nat hdc) (cport_id_map w6)\<rparr>
        in case b of None \<Rightarrow> w8 = w7 | Some b' \<Rightarrow> \<exists>bun. bundle_store w6 b' = Some bun \<and>
             w8 = set_bundle w7 b' (bun\<lparr>bun_connections := c # bun_connections bun\<rparr>)" by blast
  define k where "k = new_conn b (word_of_int hdc) cport proto"
  define w7 where "w7 = (set_conn_d w6 c k)\<lparr>next_addr := c + 1, connections := c # connections w6,
                    cport_id_map := insert (nat hdc) (cport_id_map w6)\<rparr>"
  have id: "unat (hd_cport_id k) = nat hdc" "conn_bundle k = b"
    using unat_cport r(4,7) assms(3,4) by (auto simp: k_def new_conn_def)
  have b8: "case b of None \<Rightarrow> w8 = w7 | Some b' \<Rightarrow> \<exists>bun. bundle_store w6 b' = Some bun \<and>
             w8 = set_bundle w7 b' (bun\<lparr>bun_connections := c # bun_connections bun\<rparr>)"
    using w8 by (simp only: Let_def k_def w7_def)
  have m6: "cport_id_map w6 = cport_id_map w" "connections w6 = connections w"
    using r(2) by (simp_all add: same_shape_def)
  have ok6: "hd_ok w6" using hd_ok_same_shape [OF r(2) assms(2)] .
  have "hd_ok w8"
    by (rule hd_ok_add [OF ok6 r(3) _ id(2) b8]) (use r(5) in \<open>simp_all add: m6 id w7_def\<close>)
  then have ok': "hd_ok w'" by (rule hd_ok_same_shape [OF r(8)])
  have sel8: "connections w8 = c # connections w6" "conn_store w8 c = Some k"
    "cport_id_map w8 = insert (nat hdc) (cport_id_map w6)"
    using b8 by (auto simp: w7_def set_bundle_def set_conn_d_def split: option.splits)
  have "cport_of w' c = nat hdc" "bundle_of w' c = b"
    using same_shape_views(1,2) [OF r(8)] sel8(2) id by (simp_all add: cport_of_def bundle_of_def)
  moreover have "connections w' = c # connections w" "cport_id_map w' = insert (nat hdc) (cport_id_map w)"
    using r(8) sel8 m6 by (simp_all add: same_shape_def)
  moreover have "c \<notin> set (connections w)"
    using ok6 r(3) m6(2) unfolding hd_ok_def by auto
  ultimately show ?thesis using r ok' assms(3) by auto
qed

lemma create_range_limits:
  assumes "gb_connection_create_range w b cport proto lo hi = Some (r, w')"
  shows "num_cports w' = num_cports w \<and> hd_buffer_size_max w' = hd_buffer_size_max w"
  using create_range_cases [OF assms]
  by (auto simp: same_shape_def Let_def set_bundle_def set_conn_d_def split: option.splits)

text \<open>Destruction removes exactly one connection and gives its id back.\<close>

lemma destroy_ok:
  assumes "gb_connection_destroy w c = Some w'" "hd_ok w" "c \<in> set (connections w)"
  shows "hd_ok w' \<and> connections w' = remove1 c (connections w) \<and> conn_store w' c = None \<and>
    cport_id_map w' = cport_id_map w - {cport_of w c}"
proof -
  obtain w1 where e: "gb_connection_exit w c = Some w1"
    using assms(1) by (cases "gb_connection_exit w c") (simp_all add: gb_connection_destroy_def)
  note s1 = same_shape_exit [OF e]
  obtain k where k: "conn_store w1 c = Some k"
    using assms(1) e by (cases "conn_store w1 c") (simp_all add: gb_connection_destroy_def)
  define X where "X = (case conn_bundle k of None \<Rightarrow> Some w1
           | Some b \<Rightarrow> do { bun \<leftarrow> bundle_store w1 b;
               Some (set_bundle w1 b (bun\<lparr>bun_connections := remove1 c (bun_connections bun)\<rparr>)) })"
  obtain w2 where w2: "X = Some w2"
    using assms(1) e k by (cases X) (simp_all add: gb_connection_destroy_def X_def [symmetric])
  have b2: "case conn_bundle k of None \<Rightarrow> w2 = w1 | Some b \<Rightarrow> \<exists>bun. bundle_store w1 b = Some bun \<and>
           w2 = set_bundle w1 b (bun\<lparr>bun_connections := remove1 c (bun_connections bun)\<rparr>)"
    using w2 by (auto simp: X_def split: option.splits bind_splits)
  have sel2: "connections w2 = connections w1" "conn_store w2 = conn_store w1" "cport_id_map w2 = cport_id_map w1"
    "next_addr w2 = next_addr w1"
    using b2 by (auto simp: set_bundle_def split: option.splits)
  have w': "connections w' = remove1 c (connections w1)" "conn_store w' = (conn_store w1)(c := None)"
    "cport_id_map w' = cport_id_map w1 - {unat (hd_cport_id k)}" "bundle_store w' = bundle_store w2"
    "next_addr w' = next_addr w1"
  proof -
    define w4 where "w4 = (if driver_connection_destroy (w2\<lparr>connections := remove1 c (connections w2)\<rparr>)
      then snd (ask (Driver_connection_destroy c) (w2\<lparr>connections := remove1 c (connections w2)\<rparr>))
      else w2\<lparr>connections := remove1 c (connections w2)\<rparr>)"
    define w5 where "w5 = (case conn_protocol k of None \<Rightarrow> w4
               | Some p \<Rightarrow> w4\<lparr>protocols := gb_protocol_put p (protocols w4)\<rparr>)"
    have w'_eq: "w' = w5\<lparr>cport_id_map := ida_simple_remove (unat (hd_cport_id k)) (cport_id_map w5),
              conn_store := (conn_store w5)(c := None)\<rparr>"
      using assms(1) e k w2 unfolding w5_def w4_def
      by (simp add: gb_connection_destroy_def X_def [symmetric] Let_def)
    have w5: "connections w5 = remove1 c (connections w1)" "conn_store w5 = conn_store w1"
      "cport_id_map w5 = cport_id_map w1" "bundle_store w5 = bundle_store w2" "next_addr w5 = next_addr w1"
      by (cases "conn_protocol k"; simp add: w5_def w4_def ask_def sel2)+
    show "connections w' = remove1 c (connections w1)" "conn_store w' = (conn_store w1)(c := None)"
      "cport_id_map w' = cport_id_map w1 - {unat (hd_cport_id k)}" "bundle_store w' = bundle_store w2"
      "next_addr w' = next_addr w1"
      by (simp_all add: w'_eq w5 ida_simple_remove_def)
  qed
  have "hd_ok w'"
    by (rule hd_ok_remove [OF hd_ok_same_shape [OF s1 assms(2)] k b2 w'])
  moreover have "cport_of w c = unat (hd_cport_id k)"
    using same_shape_views(1) [OF s1] k by (metis cport_of_def option.simps(5))
  ultimately show ?thesis using s1 w' by (auto simp: same_shape_def)
qed

section \<open>Properties\<close>

text \<open>A host device with nothing on it, whose environment answers every call with 0.\<close>

definition demo_hd :: hdw where
  "demo_hd = \<lparr>interfaces = [], connections = [], cport_id_map = {}, num_cports = 44,
     hd_buffer_size_max = 2048, driver_connection_create = True, driver_connection_destroy = True,
     hd_endo = None, initial_svc_connection = None, hd_svc = None, endo_id_map = {}, endo_modules = [],
     svc_device_id_map = {}, protocols = [], conn_store = (\<lambda>_. None), bundle_store = (\<lambda>_. None),
     intf_store = (\<lambda>_. None), control_store = (\<lambda>_. None), svc_store = (\<lambda>_. None), hotplug_work = [],
     next_addr = 0, native16 = cpu_to_le16, answers = (\<lambda>_. (0, [])), tick = 0, trace = []\<rparr>"

lemma demo_hd_ok: "hd_ok demo_hd"
  by (simp add: hd_ok_def demo_hd_def conns_of_def bundle_of_def)

lemma demo_create:
  obtains w' where "gb_connection_create_range demo_hd None 0 0x14 0 1 = Some (Some 0, w')"
proof -
  have "gb_connection_create_range demo_hd None 0 0x14 0 1 \<noteq> None \<and>
    map_option fst (gb_connection_create_range demo_hd None 0 0x14 0 1) = Some (Some 0)"
    by (simp add: gb_connection_create_range_def demo_hd_def ask_def ida_simple_get_def kalloc_def
        device_add_def announce_connection_def gb_connection_bind_protocol_def set_conn_d_def new_conn_def)
  then show ?thesis using that by (auto simp: map_option_case split: option.splits)
qed

text \<open>
  C9 Creating a connection keeps the bookkeeping of the host device exact: with a range inside 16
  bits the new connection gets an id of the range that nobody uses, is listed once at the head and
  in its bundle; when creation fails, for whatever reason, ids, lists and objects are as before.
\<close>

theorem gb_connection_create_correct:
  assumes "gb_connection_create_range w b cport proto lo hi = Some (r, w')" "hd_ok w" "0 < hi" "hi \<le> 65536"
  shows "hd_ok w' \<and> (case r of
      None \<Rightarrow> same_shape w w'
    | Some c \<Rightarrow> connections w' = c # connections w \<and> c \<notin> set (connections w) \<and>
        lo \<le> cport_of w' c \<and> cport_of w' c < hi \<and> cport_id_map w' = insert (cport_of w' c) (cport_id_map w) \<and>
        cport_of w' c \<notin> cport_id_map w \<and> bundle_of w' c = b)"
  by (rule create_range_ok [OF assms])

theorem gb_connection_create_correct_witness:
  "\<exists>w'. gb_connection_create_range demo_hd None 0 0x14 0 1 = Some (Some 0, w') \<and>
     hd_ok w' \<and> connections w' = [0] \<and> cport_of w' 0 = 0"
proof -
  obtain w' where w': "gb_connection_create_range demo_hd None 0 0x14 0 1 = Some (Some 0, w')"
    by (rule demo_create)
  then show ?thesis
    using gb_connection_create_correct [OF w' demo_hd_ok] by (auto simp: demo_hd_def)
qed

text \<open>
  C10 Destroying a connection removes exactly that connection from the lists, gives exactly its id
  back and frees it; the bookkeeping stays exact.
\<close>

theorem gb_connection_destroy_correct:
  assumes "gb_connection_destroy w c = Some w'" "hd_ok w" "c \<in> set (connections w)"
  shows "hd_ok w' \<and> connections w' = remove1 c (connections w) \<and> conn_store w' c = None \<and>
    cport_id_map w' = cport_id_map w - {cport_of w c}"
  by (rule destroy_ok [OF assms])

text \<open>A device with one unbound connection.\<close>

definition demo_hd1 :: hdw where
  "demo_hd1 = demo_hd\<lparr>connections := [0], cport_id_map := {5}, next_addr := 1,
     conn_store := [0 \<mapsto> new_conn None 5 0 0x14]\<rparr>"

lemma demo_hd1_ok: "hd_ok demo_hd1"
  by (simp add: hd_ok_def demo_hd1_def demo_hd_def conns_of_def bundle_of_def cport_of_def new_conn_def)

lemma demo_hd1_destroy: "\<exists>w'. gb_connection_destroy demo_hd1 0 = Some w'"
  by (simp add: gb_connection_destroy_def gb_connection_exit_def demo_hd1_def demo_hd_def new_conn_def Let_def)

theorem gb_connection_destroy_correct_witness:
  "\<exists>w'. gb_connection_destroy demo_hd1 0 = Some w' \<and> connections w' = [] \<and> cport_id_map w' = {}"
proof -
  obtain w' where w': "gb_connection_destroy demo_hd1 0 = Some w'" using demo_hd1_destroy by blast
  have "0 \<in> set (connections demo_hd1)" by (simp add: demo_hd1_def)
  from gb_connection_destroy_correct [OF w' demo_hd1_ok this] w' show ?thesis
    by (auto simp: demo_hd1_def demo_hd_def cport_of_def new_conn_def)
qed

text \<open>
  Gb_hd_connections_exit cannot finish: with at least one connection left, the loop reads the
  link to the next connection out of the connection it has just destroyed and freed.
\<close>

theorem gb_hd_connections_exit_use_after_free:
  assumes "hd_ok w" "connections w \<noteq> []"
  shows "gb_hd_connections_exit w = None"
proof -
  obtain c cs where c: "connections w = c # cs" using assms(2) by (cases "connections w") auto
  show ?thesis
  proof (cases "gb_connection_destroy w c")
    case (Some w')
    then have "conn_store w' c = None" using destroy_ok [OF Some assms(1)] c by simp
    then show ?thesis using Some c by (simp add: gb_hd_connections_exit_def)
  qed (simp add: gb_hd_connections_exit_def c)
qed

theorem gb_hd_connections_exit_use_after_free_witness: "gb_hd_connections_exit demo_hd1 = None"
  by (rule gb_hd_connections_exit_use_after_free [OF demo_hd1_ok]) (simp add: demo_hd1_def)

text \<open>
  The id range of gb_connection_create leaves out one cport: on a device with at least two cports
  the last one, number num_cports - 1, is valid but never given to a connection.
\<close>

theorem gb_connection_create_last_cport_unused:
  assumes "gb_connection_create w b cport proto = Some (Some c, w')" "hd_ok w"
    and "2 \<le> num_cports w" "num_cports w \<le> 4095"
  shows "cport_of w' c < num_cports w - 1"
  using create_range_ok [OF assms(1) [unfolded gb_connection_create_def] assms(2)] assms(3,4) by simp

text \<open>A device after the SVC handshake, with a module interface (5) and a bundle (4) on it.\<close>

definition demo_intf :: "u8 \<Rightarrow> nat list \<Rightarrow> u8 \<Rightarrow> gb_interface" where
  "demo_intf i bs did = \<lparr>intf_control = None, intf_bundles = bs, manifest_descs = [], interface_id = i,
     device_id = did, vendor = 0, product = 0, vendor_string = Inr None, product_string = Inr None, unique_id = 0,
     unipro_mfg_id = 0, unipro_prod_id = 0, ara_vend_id = 0, ara_prod_id = 0, intf_module = 1\<rparr>"

definition demo_hd2 :: hdw where
  "demo_hd2 = demo_hd\<lparr>connections := [0], cport_id_map := {0}, next_addr := 6, interfaces := [5, 2],
     hd_endo := Some \<lparr>layout = \<lparr>front_ribs = 0, left_ribs = 0, right_ribs = 0, max_ribs = 4\<rparr>,
        dev_id = 0, endo_id = 0x4755, ap_intf_id = 1\<rparr>,
     hd_svc := Some 3, svc_store := [3 \<mapsto> \<lparr>svc_connection = 0, svc_state = GB_SVC_STATE_SVC_HELLO\<rparr>],
     conn_store := [0 \<mapsto> new_conn (Some 1) 0 0 0x14],
     bundle_store := [1 \<mapsto> \<lparr>bun_intf = 2, bun_id = 0, bun_class = 0x14, bun_connections = [0]\<rparr>,
                      4 \<mapsto> \<lparr>bun_intf = 5, bun_id = 1, bun_class = 3, bun_connections = []\<rparr>],
     intf_store := [2 \<mapsto> demo_intf 1 [1] 1, 5 \<mapsto> demo_intf 4 [4] 2],
     answers := (\<lambda>n. if n = 0 then (7, []) else (0, []))\<rparr>"

lemma demo_hd2_ok: "hd_ok demo_hd2"
  by (auto simp: hd_ok_def demo_hd2_def demo_hd_def conns_of_def bundle_of_def cport_of_def new_conn_def
      split: if_splits)

lemma demo_hd2_create: "\<exists>w'. gb_connection_create demo_hd2 4 9 3 = Some (Some 6, w')"
  by (simp add: gb_connection_create_def gb_connection_create_range_def gb_connection_intf_find_def
      demo_hd2_def demo_hd_def demo_intf_def new_conn_def ask_def ida_simple_get_def kalloc_def device_add_def
      announce_connection_def gb_connection_bind_protocol_def set_conn_d_def set_bundle_def
      gb_svc_connection_create_def svc_sync_def gb_operation_sync_def)

theorem gb_connection_create_last_cport_unused_witness:
  "\<exists>w'. gb_connection_create demo_hd2 4 9 3 = Some (Some 6, w') \<and> cport_of w' 6 < 43"
proof -
  obtain w' where w': "gb_connection_create demo_hd2 4 9 3 = Some (Some 6, w')" using demo_hd2_create by blast
  from gb_connection_create_last_cport_unused [OF w' demo_hd2_ok] w' show ?thesis
    by (auto simp: demo_hd2_def demo_hd_def)
qed

end
