(* ===== verification/GB_Manifest.thy ===== *)
theory GB_Manifest
  imports GB_Connection_Inv
begin

text \<open>
  Manifest parsing (manifest.c, greybus_manifest.h): the scan that locates the descriptors of a
  manifest byte by byte, and the passes over the list of located descriptors that create strings,
  bundles and connections. Reading outside the manifest buffer is a fault, and so is following a
  cursor to a descriptor that has been freed.
\<close>

abbreviation (input) GREYBUS_TYPE_INTERFACE :: u8 where "GREYBUS_TYPE_INTERFACE \<equiv> 0x01"
abbreviation (input) GREYBUS_TYPE_STRING :: u8 where "GREYBUS_TYPE_STRING \<equiv> 0x02"
abbreviation (input) GREYBUS_TYPE_BUNDLE :: u8 where "GREYBUS_TYPE_BUNDLE \<equiv> 0x03"
abbreviation (input) GREYBUS_TYPE_CPORT :: u8 where "GREYBUS_TYPE_CPORT \<equiv> 0x04"
abbreviation (input) GREYBUS_VERSION_MAJOR :: u8 where "GREYBUS_VERSION_MAJOR \<equiv> 0x00"

section \<open>The list of descriptors\<close>

definition release_manifest_descriptor :: "hdw \<Rightarrow> nat \<Rightarrow> nat \<Rightarrow> hdw option" where
  "release_manifest_descriptor w i a = do {
     intf \<leftarrow> intf_store w i;
     Some (set_intf w i (intf\<lparr>manifest_descs := filter (\<lambda>d. desc_addr d \<noteq> a) (manifest_descs intf)\<rparr>))
   }"

definition release_manifest_descriptors :: "hdw \<Rightarrow> nat \<Rightarrow> hdw option" where
  "release_manifest_descriptors w i = do {
     intf \<leftarrow> intf_store w i;
     Some (set_intf w i (intf\<lparr>manifest_descs := []\<rparr>))
   }"

section \<open>Locating descriptors\<close>

text \<open>
  The size a descriptor must at least have; \<open>Some None\<close> for an unknown type. The length byte of a
  string descriptor is read before its presence is checked.
\<close>

definition ALIGN4 :: "nat \<Rightarrow> nat" where
  "ALIGN4 n = (n + 3) div 4 * 4"

definition expected_size :: "bytes \<Rightarrow> nat \<Rightarrow> u8 \<Rightarrow> nat option option" where
  "expected_size data off ty =
     (if ty = GREYBUS_TYPE_STRING then do { len \<leftarrow> rd8 data (off + 4); Some (Some (ALIGN4 (4 + 2 + unat len))) }
      else if ty = GREYBUS_TYPE_INTERFACE \<or> ty = GREYBUS_TYPE_BUNDLE \<or> ty = GREYBUS_TYPE_CPORT
        then Some (Some (4 + 4))
      else Some None)"

definition identify_descriptor :: "hdw \<Rightarrow> nat \<Rightarrow> bytes \<Rightarrow> nat \<Rightarrow> nat \<Rightarrow> (int \<times> hdw) option" where
  "identify_descriptor w i data off sz =
     (if sz < 4 then Some (- EINVAL, w)
      else do {
        b0 \<leftarrow> rd8 data off;
        b1 \<leftarrow> rd8 data (off + 1);
        ty \<leftarrow> rd8 data (off + 2);
        let dsize = unat (le16_to_cpu b0 b1);
        if sz < dsize then Some (- EINVAL, w)
        else do {
          expected \<leftarrow> expected_size data off ty;
          (case expected of None \<Rightarrow> Some (- EINVAL, w)
           | Some e \<Rightarrow>
              if dsize < e then Some (- EINVAL, w)
              else
                case kalloc w of (ok, w1) \<Rightarrow>
                  if \<not> ok then Some (- ENOMEM, w1)
                  else do {
                    intf \<leftarrow> intf_store w1 i;
                    let d = \<lparr>desc_addr = next_addr w1, desc_size = dsize, desc_data = off + 4, desc_type = ty\<rparr>;
                    Some (int dsize, (set_intf w1 i (intf\<lparr>manifest_descs := manifest_descs intf @ [d]\<rparr>))
                                       \<lparr>next_addr := next_addr w1 + 1\<rparr>)
                  })
        }
      })"

lemma expected_size_ge: "expected_size data off ty = Some (Some e) \<Longrightarrow> 8 \<le> e"
  by (auto simp: expected_size_def ALIGN4_def split: if_splits bind_splits)

text \<open>A descriptor that is accepted consumes at least eight bytes, and no more than there are.\<close>

lemma identify_descriptor_size:
  assumes "identify_descriptor w i data off sz = Some (r, w')" "0 \<le> r"
  shows "8 \<le> nat r" "nat r \<le> sz"
proof -
  have "8 \<le> nat r \<and> nat r \<le> sz"
    using assms
    by (auto simp: identify_descriptor_def Let_def not_less split: if_splits bind_splits option.splits prod.splits
        dest!: expected_size_ge)
  then show "8 \<le> nat r" "nat r \<le> sz" by auto
qed

text \<open>The loop of gb_manifest_parse over the bytes that remain.\<close>

function find_descriptors :: "hdw \<Rightarrow> nat \<Rightarrow> bytes \<Rightarrow> nat \<Rightarrow> nat \<Rightarrow> (bool \<times> hdw) option" where
  "find_descriptors w i data off sz =
     (if sz = 0 then Some (True, w)
      else (case identify_descriptor w i data off sz of
         None \<Rightarrow> None
       | Some (r, w1) \<Rightarrow>
          if r < 0 then Some (False, w1)
          else find_descriptors w1 i data (off + nat r) (sz - nat r)))"
  by pat_completeness auto
termination
  by (relation "measure (\<lambda>(w, i, data, off, sz). sz)") (auto dest: identify_descriptor_size)

declare find_descriptors.simps [simp del]

section \<open>Strings\<close>

fun string_find :: "bytes \<Rightarrow> manifest_desc list \<Rightarrow> u8 \<Rightarrow> manifest_desc option option" where
  "string_find data [] sid = Some None"
| "string_find data (d # ds) sid =
     (if desc_type d \<noteq> GREYBUS_TYPE_STRING then string_find data ds sid
      else do {
        x \<leftarrow> rd8 data (desc_data d + 1);
        if x = sid then Some (Some d) else string_find data ds sid
      })"

text \<open>The result is an error pointer (\<open>Inl\<close>), NULL (\<open>Inr None\<close>) or a NUL-terminated copy.\<close>

definition gb_string_get :: "hdw \<Rightarrow> nat \<Rightarrow> bytes \<Rightarrow> u8 \<Rightarrow> ((int + bytes option) \<times> hdw) option" where
  "gb_string_get w i data sid =
     (if sid = 0 then Some (Inr None, w)
      else do {
        intf \<leftarrow> intf_store w i;
        found \<leftarrow> string_find data (manifest_descs intf) sid;
        (case found of None \<Rightarrow> Some (Inl (- ENOENT), w)
         | Some d \<Rightarrow> do {
             len \<leftarrow> rd8 data (desc_data d);
             (case kalloc w of (ok, w1) \<Rightarrow>
                if \<not> ok then Some (Inl (- ENOMEM), w1)
                else do {
                  s \<leftarrow> rd_bytes data (desc_data d + 2) (unat len + 1);
                  s' \<leftarrow> wr_bytes s (unat len) [0];
                  w2 \<leftarrow> release_manifest_descriptor w1 i (desc_addr d);
                  Some (Inr (Some s'), w2)
                })
           })
      })"

section \<open>Connections and bundles\<close>

text \<open>
  gb_manifest_parse_cports: the number of cports set up for the bundle, 0 on an error. Only the
  descriptor at the cursor is released, so the saved successor stays valid.
\<close>

fun parse_cports_loop :: "manifest_desc list \<Rightarrow> hdw \<Rightarrow> nat \<Rightarrow> bytes \<Rightarrow> nat \<Rightarrow> u8 \<Rightarrow> nat \<Rightarrow> (nat \<times> hdw) option" where
  "parse_cports_loop [] w i data b bid count = Some (count, w)"
| "parse_cports_loop (d # ds) w i data b bid count =
     (if desc_type d \<noteq> GREYBUS_TYPE_CPORT then parse_cports_loop ds w i data b bid count
      else do {
        bundle \<leftarrow> rd8 data (desc_data d + 2);
        if bundle \<noteq> bid then parse_cports_loop ds w i data b bid count
        else do {
          x \<leftarrow> rd8 data (desc_data d);
          y \<leftarrow> rd8 data (desc_data d + 1);
          proto \<leftarrow> rd8 data (desc_data d + 3);
          let cport = le16_to_cpu x y;
          if CPORT_ID_MAX < cport then Some (0, w)
          else if cport = GB_CONTROL_CPORT_ID then
            (if proto \<noteq> GREYBUS_PROTOCOL_CONTROL then Some (0, w)
             else do {
               w1 \<leftarrow> release_manifest_descriptor w i (desc_addr d);
               parse_cports_loop ds w1 i data b bid (count + 1)
             })
          else if proto = GREYBUS_PROTOCOL_CONTROL then Some (0, w)
          else do {
            (co, w1) \<leftarrow> gb_connection_create w b cport proto;
            (case co of None \<Rightarrow> Some (0, w1)
             | Some c \<Rightarrow> do {
                 w2 \<leftarrow> release_manifest_descriptor w1 i (desc_addr d);
                 parse_cports_loop ds w2 i data b bid (count + 1)
               })
          }
        }
      })"

definition gb_manifest_parse_cports :: "hdw \<Rightarrow> bytes \<Rightarrow> nat \<Rightarrow> (nat \<times> hdw) option" where
  "gb_manifest_parse_cports w data b = do {
     bun \<leftarrow> bundle_store w b;
     intf \<leftarrow> intf_store w (bun_intf bun);
     parse_cports_loop (manifest_descs intf) w (bun_intf bun) data b (bun_id bun) 0
   }"

fun destroy_bundles :: "nat list \<Rightarrow> hdw \<Rightarrow> hdw option" where
  "destroy_bundles [] w = Some w"
| "destroy_bundles (b # bs) w = do { w1 \<leftarrow> gb_bundle_destroy w b; destroy_bundles bs w1 }"

text \<open>The bundle of one bundle descriptor: \<open>Some None\<close> on an error.\<close>

definition parse_bundle :: "hdw \<Rightarrow> nat \<Rightarrow> bytes \<Rightarrow> manifest_desc \<Rightarrow> (nat option \<times> hdw) option" where
  "parse_bundle w i data d = do {
     bid \<leftarrow> rd8 data (desc_data d);
     cls \<leftarrow> rd8 data (desc_data d + 1);
     if bid = GB_CONTROL_BUNDLE_ID then
       (if cls \<noteq> GREYBUS_CLASS_CONTROL then Some (None, w)
        else do {
          intf \<leftarrow> intf_store w i;
          control \<leftarrow> intf_control intf;
          connection \<leftarrow> control_store w control;
          k \<leftarrow> conn_store w connection;
          b \<leftarrow> conn_bundle k;
          Some (Some b, w)
        })
     else if cls = GREYBUS_CLASS_CONTROL then Some (None, w)
     else gb_bundle_create w i bid cls
   }"

definition linked :: "hdw \<Rightarrow> nat \<Rightarrow> manifest_desc \<Rightarrow> bool" where
  "linked w i d = (case intf_store w i of None \<Rightarrow> False
     | Some intf \<Rightarrow> desc_addr d \<in> desc_addr ` set (manifest_descs intf))"

text \<open>
  The loop of gb_manifest_parse_bundles, list_for_each_entry_safe with its two cursors. The argument
  holds the descriptor at the cursor and those that followed it when the loop started; descriptors
  only leave the list, so the successor of the cursor is the first of them that is still linked. The
  loop determines it before the body runs; when the body has freed it, advancing is a fault. The
  first component of the result tells whether the loop left to \<open>cleanup\<close>.
\<close>

function parse_bundles_loop ::
    "manifest_desc list \<Rightarrow> hdw \<Rightarrow> nat \<Rightarrow> bytes \<Rightarrow> nat \<Rightarrow> ((bool \<times> nat) \<times> hdw) option" where
  "parse_bundles_loop [] w i data count = Some ((False, count), w)"
| "parse_bundles_loop (d # ds) w i data count =
     (let rest = dropWhile (\<lambda>x. \<not> linked w i x) ds;
          advance = (\<lambda>w' count'. case rest of [] \<Rightarrow> Some ((False, count'), w')
                     | n # _ \<Rightarrow> if \<not> linked w' i n then None else parse_bundles_loop rest w' i data count')
      in if desc_type d \<noteq> GREYBUS_TYPE_BUNDLE then advance w count
         else (case parse_bundle w i data d of
             None \<Rightarrow> None
           | Some (None, w1) \<Rightarrow> Some ((True, count), w1)
           | Some (Some b, w1) \<Rightarrow>
              (case gb_manifest_parse_cports w1 data b of
                 None \<Rightarrow> None
               | Some (n, w2) \<Rightarrow>
                  if n = 0 then Some ((True, count), w2)
                  else (case release_manifest_descriptor w2 i (desc_addr d) of
                     None \<Rightarrow> None
                   | Some w3 \<Rightarrow> advance w3 (count + 1)))))"
  by pat_completeness auto
termination
  by (relation "measure (\<lambda>(ds, w, i, data, count). length ds)")
     (auto simp: le_imp_less_Suc length_dropWhile_le)

definition gb_manifest_parse_bundles :: "hdw \<Rightarrow> nat \<Rightarrow> bytes \<Rightarrow> (nat \<times> hdw) option" where
  "gb_manifest_parse_bundles w i data = do {
     intf \<leftarrow> intf_store w i;
     ((cleanup, count), w1) \<leftarrow> parse_bundles_loop (manifest_descs intf) w i data 0;
     if \<not> cleanup then Some (count, w1)
     else do {
       intf1 \<leftarrow> intf_store w1 i;
       w2 \<leftarrow> destroy_bundles (intf_bundles intf1) w1;
       Some (0, w2)
     }
   }"

section \<open>The whole manifest\<close>

definition set_strings :: "hdw \<Rightarrow> nat \<Rightarrow> (gb_interface \<Rightarrow> gb_interface) \<Rightarrow> hdw option" where
  [gb_defs]: "set_strings w i f = do { intf \<leftarrow> intf_store w i; Some (set_intf w i (f intf)) }"

definition gb_manifest_parse_interface :: "hdw \<Rightarrow> nat \<Rightarrow> bytes \<Rightarrow> manifest_desc \<Rightarrow> (bool \<times> hdw) option" where
  "gb_manifest_parse_interface w i data d = do {
     vid \<leftarrow> rd8 data (desc_data d);
     (vs, w1) \<leftarrow> gb_string_get w i data vid;
     w2 \<leftarrow> set_strings w1 i (\<lambda>x. x\<lparr>vendor_string := vs\<rparr>);
     if isl vs then Some (False, w2)
     else do {
       pid \<leftarrow> rd8 data (desc_data d + 1);
       (ps, w3) \<leftarrow> gb_string_get w2 i data pid;
       w4 \<leftarrow> set_strings w3 i (\<lambda>x. x\<lparr>product_string := ps\<rparr>);
       if isl ps then do {
         w5 \<leftarrow> set_strings w4 i (\<lambda>x. x\<lparr>vendor_string := Inr None\<rparr>);
         Some (False, w5)
       } else do {
         w5 \<leftarrow> set_strings w4 i (\<lambda>x. x\<lparr>vendor := 0xffff, product := 1, unique_id := 0\<rparr>);
         w6 \<leftarrow> release_manifest_descriptor w5 i (desc_addr d);
         (n, w7) \<leftarrow> gb_manifest_parse_bundles w6 i data;
         if n \<noteq> 0 then Some (True, w7)
         else do {
           w8 \<leftarrow> set_strings w7 i (\<lambda>x. x\<lparr>product_string := Inr None, vendor_string := Inr None\<rparr>);
           Some (False, w8)
         }
       }
     }
   }"

definition gb_manifest_parse :: "hdw \<Rightarrow> nat \<Rightarrow> bytes \<Rightarrow> nat \<Rightarrow> (bool \<times> hdw) option" where
  "gb_manifest_parse w i data sz = do {
     intf \<leftarrow> intf_store w i;
     if manifest_descs intf \<noteq> [] then Some (False, w)
     else if sz < 4 then Some (False, w)
     else do {
       b0 \<leftarrow> rd8 data 0;
       b1 \<leftarrow> rd8 data 1;
       version_major \<leftarrow> rd8 data 2;
       if unat (le16_to_cpu b0 b1) \<noteq> sz then Some (False, w)
       else if GREYBUS_VERSION_MAJOR < version_major then Some (False, w)
       else do {
         (ok, w1) \<leftarrow> find_descriptors w i data 4 (sz - 4);
         (result, w2) \<leftarrow>
           (if \<not> ok then Some (False, w1)
            else do {
              intf1 \<leftarrow> intf_store w1 i;
              (case filter (\<lambda>d. desc_type d = GREYBUS_TYPE_INTERFACE) (manifest_descs intf1) of
                 [d] \<Rightarrow> gb_manifest_parse_interface w1 i data d
               | _ \<Rightarrow> Some (False, w1))
            });
         w3 \<leftarrow> release_manifest_descriptors w2 i;
         Some (result, w3)
       }
     }
   }"

end
