(* ===== verification/GB_Interface.thy ===== *)
theory GB_Interface
  imports GB_Manifest
begin

text \<open>
  Modules and interfaces (module.c, interface.c): the modules of an endo, creation of an interface,
  its initialisation over the control connection, and its removal.
\<close>

section \<open>Modules\<close>

text \<open>
  gb_module_find looks for a module of the endo; the modules are the children of the endo's device
  on the bus. The reference it takes on the module is the one gb_interface_create keeps.
\<close>

definition gb_module_find :: "hdw \<Rightarrow> u8 \<Rightarrow> u8 option" where
  "gb_module_find w module_id =
     (if module_id = 0 then None
      else if module_id \<in> set (endo_modules w) then Some module_id else None)"

definition gb_module_remove_all :: "hdw \<Rightarrow> hdw" where
  "gb_module_remove_all w = w\<lparr>endo_modules := []\<rparr>"

section \<open>Creation\<close>

fun interface_find_loop :: "hdw \<Rightarrow> nat list \<Rightarrow> u8 \<Rightarrow> nat option option" where
  "interface_find_loop w [] iid = Some None"
| "interface_find_loop w (i # is) iid = do {
     intf \<leftarrow> intf_store w i;
     if interface_id intf = iid then Some (Some i) else interface_find_loop w is iid
   }"

definition gb_interface_find :: "hdw \<Rightarrow> u8 \<Rightarrow> nat option option" where
  "gb_interface_find w iid = interface_find_loop w (interfaces w) iid"

definition new_intf :: "u8 \<Rightarrow> u8 \<Rightarrow> gb_interface" where
  [gb_defs]: "new_intf iid m =
     \<lparr>intf_control = None, intf_bundles = [], manifest_descs = [], interface_id = iid,
      device_id = GB_DEVICE_ID_BAD, vendor = 0, product = 0, vendor_string = Inr None,
      product_string = Inr None, unique_id = 0, unipro_mfg_id = 0, unipro_prod_id = 0,
      ara_vend_id = 0, ara_prod_id = 0, intf_module = m\<rparr>"

text \<open>
  gb_interface_create: NULL for a duplicate id, a missing module or missing memory. When device_add
  fails, put_device frees the interface and the kfree that follows frees it a second time.
\<close>

definition gb_interface_create :: "hdw \<Rightarrow> u8 \<Rightarrow> (nat option \<times> hdw) option" where
  "gb_interface_create w iid = do {
     dup \<leftarrow> gb_interface_find w iid;
     if dup \<noteq> None then Some (None, w)
     else do {
       endo \<leftarrow> hd_endo w;
       mid \<leftarrow> endo_get_module_id (layout endo) iid;
       (case gb_module_find w mid of None \<Rightarrow> Some (None, w)
        | Some m \<Rightarrow>
           (case kalloc w of (ok, w1) \<Rightarrow>
              if \<not> ok then Some (None, w1)
              else
                case device_add w1 of (retval, w2) \<Rightarrow>
                  if retval \<noteq> 0 then None
                  else
                    let i = next_addr w2 in
                    Some (Some i, (set_intf w2 i (new_intf iid m))
                      \<lparr>next_addr := i + 1, interfaces := i # interfaces w2\<rparr>)))
     }
   }"

text \<open>The bundle and the connection of the control or SVC cport.\<close>

definition gb_create_bundle_connection :: "hdw \<Rightarrow> nat \<Rightarrow> u8 \<Rightarrow> (int \<times> hdw) option" where
  "gb_create_bundle_connection w i cls =
     (if cls \<noteq> GREYBUS_CLASS_CONTROL \<and> cls \<noteq> GREYBUS_CLASS_SVC then Some (- EINVAL, w)
      else do {
        let proto = (if cls = GREYBUS_CLASS_CONTROL then GREYBUS_PROTOCOL_CONTROL else GREYBUS_PROTOCOL_SVC);
        let ida_end = (if cls = GREYBUS_CLASS_CONTROL then num_cports w - 1 else 1);
        (bo, w1) \<leftarrow> gb_bundle_create w i 0 cls;
        (case bo of None \<Rightarrow> Some (- EINVAL, w1)
         | Some b \<Rightarrow> do {
             (co, w2) \<leftarrow> gb_connection_create_range w1 (Some b) 0 proto 0 ida_end;
             Some (if co = None then - EINVAL else 0, w2)
           })
      })"

section \<open>Removal\<close>

text \<open>kfree of a string pointer: NULL is allowed, an error pointer is not memory.\<close>

definition kfree_string :: "int + bytes option \<Rightarrow> unit option" where
  "kfree_string s = (case s of Inl _ \<Rightarrow> None | Inr _ \<Rightarrow> Some ())"

definition interface_destroy :: "hdw \<Rightarrow> nat \<Rightarrow> hdw option" where
  "interface_destroy w i = do {
     let w1 = w\<lparr>interfaces := remove1 i (interfaces w)\<rparr>;
     intf \<leftarrow> intf_store w1 i;
     w2 \<leftarrow> destroy_bundles (intf_bundles intf) w1;
     intf2 \<leftarrow> intf_store w2 i;
     _ \<leftarrow> kfree_string (product_string intf2);
     _ \<leftarrow> kfree_string (vendor_string intf2);
     Some (w2\<lparr>intf_store := (intf_store w2)(i := None)\<rparr>)
   }"

definition gb_interface_remove :: "hdw \<Rightarrow> u8 \<Rightarrow> hdw option" where
  "gb_interface_remove w iid = do {
     found \<leftarrow> gb_interface_find w iid;
     (case found of None \<Rightarrow> Some w | Some i \<Rightarrow> interface_destroy w i)
   }"

fun destroy_interfaces :: "nat list \<Rightarrow> hdw \<Rightarrow> hdw option" where
  "destroy_interfaces [] w = Some w"
| "destroy_interfaces (i # is) w = do { w1 \<leftarrow> interface_destroy w i; destroy_interfaces is w1 }"

definition gb_interfaces_remove :: "hdw \<Rightarrow> hdw option" where
  "gb_interfaces_remove w = destroy_interfaces (interfaces w) w"

section \<open>Initialisation\<close>

definition gb_interface_init :: "hdw \<Rightarrow> nat \<Rightarrow> u8 \<Rightarrow> (int \<times> hdw) option" where
  "gb_interface_init w i did = do {
     intf \<leftarrow> intf_store w i;
     (ret, w1) \<leftarrow> gb_create_bundle_connection (set_intf w i (intf\<lparr>device_id := did\<rparr>)) i GREYBUS_CLASS_CONTROL;
     if ret \<noteq> 0 then Some (ret, w1)
     else do {
       (sz, w2) \<leftarrow> gb_control_get_manifest_size_operation w1 i;
       if sz \<le> 0 then Some (if sz \<noteq> 0 then sz else - EINVAL, w2)
       else
         case kalloc w2 of (ok, w3) \<Rightarrow>
           if \<not> ok then Some (- ENOMEM, w3)
           else do {
             ((ret, manifest), w4) \<leftarrow> gb_control_get_manifest_operation w3 i (nat sz);
             if ret \<noteq> 0 then Some (ret, w4)
             else do {
               (parsed, w5) \<leftarrow> gb_manifest_parse w4 i manifest (nat sz);
               Some (if parsed then 0 else - EINVAL, w5)
             }
           }
     }
   }"

end
