(* ===== verification/GB_SVC.thy ===== *)
theory GB_SVC
  imports GB_Interface
begin

text \<open>
  The SVC protocol on the AP side (svc.c) and the host device life cycle (core.c): the handshake, the
  order of requests it enforces, hotplug and unplug of interfaces, creation and removal of a host
  device.
\<close>

section \<open>Endo and AP interface\<close>

text \<open>
  greybus_endo_setup: the answers of the environment are one for the allocation, one for the id, one
  for device_add and one for every module id. gb_endo_create may return NULL, which IS_ERR does not
  catch.
\<close>

definition greybus_endo_setup :: "hdw \<Rightarrow> u16 \<Rightarrow> u8 \<Rightarrow> (int \<times> hdw) option" where
  "greybus_endo_setup w eid ap =
     (case kalloc w of (ok, w1) \<Rightarrow>
      case ask Ida_get w1 of (ida, w2) \<Rightarrow>
      case ask Device_add w2 of (add, w3) \<Rightarrow> do {
        let mk = (\<lambda>m. 0 \<le> fst (answers w3 (tick w3 + unat m)));
        (e, ids, mods) \<leftarrow> gb_endo_create ok (fst ida) (fst add) mk eid ap (endo_id_map w3);
        let w4 = w3\<lparr>tick := tick w3 + 256, endo_id_map := ids\<rparr>;
        (case e of Inl err \<Rightarrow> Some (err, w4)
         | Inr p \<Rightarrow> Some (0, w4\<lparr>hd_endo := p, endo_modules := mods\<rparr>))
      })"

definition gb_ap_svc_connection_create :: "hdw \<Rightarrow> (nat option \<times> hdw) option" where
  "gb_ap_svc_connection_create w = gb_connection_create_range w None GB_SVC_CPORT_ID GREYBUS_PROTOCOL_SVC 0 1"

definition gb_ap_interface_create :: "hdw \<Rightarrow> nat \<Rightarrow> u8 \<Rightarrow> (nat option \<times> hdw) option" where
  "gb_ap_interface_create w c iid = do {
     (io, w1) \<leftarrow> gb_interface_create w iid;
     (case io of None \<Rightarrow> Some (None, w1)
      | Some i \<Rightarrow> do {
          intf \<leftarrow> intf_store w1 i;
          (_, w2) \<leftarrow> svc_update_connection (set_intf w1 i (intf\<lparr>device_id := GB_DEVICE_ID_AP\<rparr>)) i c;
          Some (Some i, w2\<lparr>initial_svc_connection := None\<rparr>)
        })
   }"

section \<open>Requests from the SVC\<close>

text \<open>The response buffer of a handler: message structure and buffer are allocated in turn.\<close>

definition response_alloc :: "hdw \<Rightarrow> size_t \<Rightarrow> gb_operation \<Rightarrow> ((bool \<times> gb_operation) \<times> hdw) option" where
  "response_alloc w n opn =
     (case kalloc w of (ok1, w1) \<Rightarrow>
      case kalloc w1 of (ok2, w2) \<Rightarrow> do {
        r \<leftarrow> gb_operation_response_alloc (hd_buffer_size_max w2) ok1 ok2 n opn;
        Some (r, w2)
      })"

definition gb_svc_version_request :: "hdw \<Rightarrow> nat \<Rightarrow> gb_operation \<Rightarrow> ((int \<times> gb_operation) \<times> hdw) option" where
  "gb_svc_version_request w c opn = do {
     major \<leftarrow> rd8 (buffer (request opn)) 8;
     if 0 < major then Some ((- ENOTSUPP, opn), w)
     else do {
       minor \<leftarrow> rd8 (buffer (request opn)) 9;
       k \<leftarrow> conn_store w c;
       let w1 = set_conn_d w c (k\<lparr>module_major := major, module_minor := minor\<rparr>);
       ((ok, o1), w2) \<leftarrow> response_alloc w1 2 opn;
       if \<not> ok then Some ((- ENOMEM, o1), w2)
       else do {
         resp \<leftarrow> response o1;
         buf \<leftarrow> wr_bytes (buffer resp) 8 [0, 1];
         Some ((0, o1\<lparr>response := Some (resp\<lparr>buffer := buf\<rparr>)\<rparr>), w2)
       }
     }
   }"

text \<open>
  gb_svc_hello returns the status of greybus_endo_setup, 0 by then, when the AP's interface cannot
  be created.
\<close>

definition gb_svc_hello :: "hdw \<Rightarrow> nat \<Rightarrow> gb_operation \<Rightarrow> (int \<times> hdw) option" where
  "gb_svc_hello w c opn =
     (if payload_size (request opn) < 3 then Some (- EINVAL, w)
      else do {
        x \<leftarrow> rd8 (buffer (request opn)) 8;
        y \<leftarrow> rd8 (buffer (request opn)) 9;
        iid \<leftarrow> rd8 (buffer (request opn)) 10;
        (ret, w1) \<leftarrow> greybus_endo_setup w (le16_to_cpu x y) iid;
        if ret \<noteq> 0 then Some (ret, w1)
        else do {
          (io, w2) \<leftarrow> gb_ap_interface_create w1 c iid;
          if io = None then
            (case gb_endo_remove (hd_endo w2) (endo_id_map w2, endo_modules w2) of (ids, mods) \<Rightarrow>
               Some (ret, w2\<lparr>endo_id_map := ids, endo_modules := mods\<rparr>))
          else Some (0, w2)
        }
      })"

definition gb_svc_intf_hotplug_recv :: "hdw \<Rightarrow> nat \<Rightarrow> gb_operation \<Rightarrow> (int \<times> hdw) option" where
  "gb_svc_intf_hotplug_recv w c opn =
     (if payload_size (request opn) < 17 then Some (- EINVAL, w)
      else
        case kalloc w of (ok, w1) \<Rightarrow>
          if \<not> ok then Some (- ENOMEM, w1)
          else do {
            d \<leftarrow> rd_bytes (buffer (request opn)) 8 17;
            Some (0, w1\<lparr>hotplug_work := hotplug_work w1 @ [(c, d)]\<rparr>)
          })"

definition gb_svc_intf_hot_unplug_recv :: "hdw \<Rightarrow> gb_operation \<Rightarrow> (int \<times> hdw) option" where
  "gb_svc_intf_hot_unplug_recv w opn =
     (if payload_size (request opn) < 1 then Some (- EINVAL, w)
      else do {
        iid \<leftarrow> rd8 (buffer (request opn)) 8;
        found \<leftarrow> gb_interface_find w iid;
        (case found of None \<Rightarrow> Some (- EINVAL, w)
         | Some i \<Rightarrow> do {
             intf \<leftarrow> intf_store w i;
             w1 \<leftarrow> gb_interface_remove w iid;
             Some (0, w1\<lparr>svc_device_id_map := ida_simple_remove (unat (device_id intf)) (svc_device_id_map w1)\<rparr>)
           })
      })"

definition gb_svc_intf_reset_recv :: "hdw \<Rightarrow> gb_operation \<Rightarrow> (int \<times> hdw) option" where
  "gb_svc_intf_reset_recv w opn =
     (if payload_size (request opn) < 1 then Some (- EINVAL, w)
      else do { iid \<leftarrow> rd8 (buffer (request opn)) 8; Some (0, w) })"

definition set_svc_state :: "hdw \<Rightarrow> nat \<Rightarrow> gb_svc_state \<Rightarrow> hdw option" where
  [gb_defs]: "set_svc_state w a s = do {
     x \<leftarrow> svc_store w a;
     Some (w\<lparr>svc_store := (svc_store w)(a \<mapsto> x\<lparr>svc_state := s\<rparr>)\<rparr>)
   }"

definition gb_svc_request_recv :: "hdw \<Rightarrow> nat \<Rightarrow> u8 \<Rightarrow> gb_operation \<Rightarrow> ((int \<times> gb_operation) \<times> hdw) option" where
  "gb_svc_request_recv w c ty opn = do {
     k \<leftarrow> conn_store w c;
     a \<leftarrow> conn_private k;
     svc \<leftarrow> svc_store w a;
     let bad = (if ty = 0x01 then svc_state svc \<noteq> GB_SVC_STATE_RESET
                else if ty = 0x02 then svc_state svc \<noteq> GB_SVC_STATE_PROTOCOL_VERSION
                else svc_state svc \<noteq> GB_SVC_STATE_SVC_HELLO);
     if bad then Some ((- EINVAL, opn), w)
     else if ty = 0x01 then do {
       ((ret, o1), w1) \<leftarrow> gb_svc_version_request w c opn;
       w2 \<leftarrow> (if ret = 0 then set_svc_state w1 a GB_SVC_STATE_PROTOCOL_VERSION else Some w1);
       Some ((ret, o1), w2)
     } else if ty = 0x02 then do {
       (ret, w1) \<leftarrow> gb_svc_hello w c opn;
       w2 \<leftarrow> (if ret = 0 then set_svc_state w1 a GB_SVC_STATE_SVC_HELLO else Some w1);
       Some ((ret, opn), w2)
     } else if ty = 0x04 then do { (ret, w1) \<leftarrow> gb_svc_intf_hotplug_recv w c opn; Some ((ret, opn), w1) }
     else if ty = 0x05 then do { (ret, w1) \<leftarrow> gb_svc_intf_hot_unplug_recv w opn; Some ((ret, opn), w1) }
     else if ty = 0x06 then do { (ret, w1) \<leftarrow> gb_svc_intf_reset_recv w opn; Some ((ret, opn), w1) }
     else Some ((- EINVAL, opn), w)
   }"

section \<open>Hotplug work\<close>

text \<open>
  The part of svc_process_hotplug after the interface exists. The id is stored in a u8 before it is
  tested for being negative, so a failing ida_simple_get is not noticed.
\<close>

definition hotplug_bring_up :: "hdw \<Rightarrow> nat option \<Rightarrow> nat \<Rightarrow> u8 \<Rightarrow> u8 \<Rightarrow> (int \<times> hdw) option" where
  "hotplug_bring_up w svc i iid did = do {
     (ret, w1) \<leftarrow> gb_svc_intf_device_id w svc iid did;
     if ret \<noteq> 0 then Some (ret, w1)
     else do {
       endo \<leftarrow> hd_endo w1;
       (ret, w2) \<leftarrow> gb_svc_route_create w1 svc (ap_intf_id endo) GB_DEVICE_ID_AP iid did;
       if ret \<noteq> 0 then Some (ret, w2)
       else do {
         endo2 \<leftarrow> hd_endo w2;
         (ret, w3) \<leftarrow> gb_svc_route_create w2 svc iid did (ap_intf_id endo2) GB_DEVICE_ID_AP;
         if ret \<noteq> 0 then Some (ret, w3) else gb_interface_init w3 i did
       }
     }
   }"

definition svc_process_hotplug :: "hdw \<Rightarrow> nat \<Rightarrow> bytes \<Rightarrow> hdw option" where
  "svc_process_hotplug w c d = do {
     k \<leftarrow> conn_store w c;
     let svc = conn_private k;
     iid \<leftarrow> rd8 d 0;
     (io, w1) \<leftarrow> gb_interface_create w iid;
     (case io of None \<Rightarrow> Some w1
      | Some i \<Rightarrow> do {
          intf \<leftarrow> intf_store w1 i;
          let w2 = set_intf w1 i (intf\<lparr>
                     unipro_mfg_id := le32_to_cpu (d ! 1) (d ! 2) (d ! 3) (d ! 4),
                     unipro_prod_id := le32_to_cpu (d ! 5) (d ! 6) (d ! 7) (d ! 8),
                     ara_vend_id := le32_to_cpu (d ! 9) (d ! 10) (d ! 11) (d ! 12),
                     ara_prod_id := le32_to_cpu (d ! 13) (d ! 14) (d ! 15) (d ! 16)\<rparr>);
          (case ask Ida_get w2 of (a, w3) \<Rightarrow>
           case ida_simple_get (fst a) 2 0 (svc_device_id_map w3) of (r, ids) \<Rightarrow> do {
             let did = (word_of_int r :: u8);
             let w4 = w3\<lparr>svc_device_id_map := ids\<rparr>;
             (ret, w5) \<leftarrow> hotplug_bring_up w4 svc i iid did;
             if ret = 0 then Some w5
             else gb_interface_remove
                    (w5\<lparr>svc_device_id_map := ida_simple_remove (unat did) (svc_device_id_map w5)\<rparr>) iid
           })
        })
   }"

section \<open>Host devices\<close>

definition greybus_create_hd ::
    "bool \<Rightarrow> bool \<Rightarrow> size_t \<Rightarrow> size_t \<Rightarrow> hdw \<Rightarrow> ((int + unit) \<times> hdw) option" where
  "greybus_create_hd has_send has_cancel bmax ncports w =
     (if \<not> has_send \<or> \<not> has_cancel then Some (Inl (- EINVAL), w)
      else if bmax < 8 then Some (Inl (- EINVAL), w)
      else if ncports = 0 \<or> 4095 < ncports then Some (Inl (- EINVAL), w)
      else
        let bmax = (if 65535 < bmax then 65535 else bmax) in
        case kalloc w of (ok, w1) \<Rightarrow>
          if \<not> ok then Some (Inl (- ENOMEM), w1)
          else do {
            let w2 = w1\<lparr>interfaces := [], connections := [], cport_id_map := {},
                        hd_buffer_size_max := bmax, num_cports := unat ncports, hd_endo := None,
                        initial_svc_connection := None, hd_svc := None\<rparr>;
            (co, w3) \<leftarrow> gb_ap_svc_connection_create w2;
            Some (if co = None then Inl (- ENOMEM) else Inr (), w3)
          })"

definition greybus_remove_hd :: "hdw \<Rightarrow> hdw option" where
  "greybus_remove_hd w = do {
     w1 \<leftarrow> gb_interfaces_remove w;
     (case gb_endo_remove (hd_endo w1) (endo_id_map w1, endo_modules w1) of (ids, mods) \<Rightarrow> do {
        let w2 = w1\<lparr>endo_id_map := ids, endo_modules := mods\<rparr>;
        w3 \<leftarrow> (case initial_svc_connection w2 of None \<Rightarrow> Some w2 | Some c \<Rightarrow> gb_connection_destroy w2 c);
        if connections w3 \<noteq> [] then gb_hd_connections_exit w3 else Some w3
      })
   }"

end
