(* ===== verification/GB_Core.thy ===== *)
theory GB_Core
  imports GB_SVC
begin

text \<open>
  Bus core (core.c, bundle.c, greybus_id.h, firmware.c): matching bundles against the id tables of
  drivers, registering drivers, initialisation of the subsystem with its error unwinding, and the
  firmware protocol that is built into the core.
\<close>

section \<open>Matching\<close>

record greybus_bundle_id =
  match_flags :: u16
  id_vendor :: u16
  id_product :: u16
  id_class :: u8
  id_unique :: u64
  driver_info :: u64

definition gb_bundle_match_one_id :: "gb_interface \<Rightarrow> gb_bundle \<Rightarrow> greybus_bundle_id \<Rightarrow> bool" where
  "gb_bundle_match_one_id intf b e =
     (if match_flags e AND 1 \<noteq> 0 \<and> id_vendor e \<noteq> vendor intf then False
      else if match_flags e AND 2 \<noteq> 0 \<and> id_product e \<noteq> product intf then False
      else if match_flags e AND 4 \<noteq> 0 \<and> id_unique e \<noteq> unique_id intf then False
      else if match_flags e AND 8 \<noteq> 0 \<and> id_class e \<noteq> bun_class b then False
      else True)"

definition is_last :: "greybus_bundle_id \<Rightarrow> bool" where
  [gb_defs]: "is_last e \<longleftrightarrow> id_vendor e = 0 \<and> id_product e = 0 \<and> id_unique e = 0 \<and> id_class e = 0 \<and> driver_info e = 0"

text \<open>The table ends with an entry of zeroes; reading past the end of the array is a fault.\<close>

fun match_id_loop :: "gb_interface \<Rightarrow> gb_bundle \<Rightarrow> greybus_bundle_id list \<Rightarrow> greybus_bundle_id option option" where
  "match_id_loop intf b [] = None"
| "match_id_loop intf b (e # es) =
     (if is_last e then Some None
      else if gb_bundle_match_one_id intf b e then Some (Some e)
      else match_id_loop intf b es)"

definition gb_bundle_match_id ::
    "gb_interface \<Rightarrow> gb_bundle \<Rightarrow> greybus_bundle_id list option \<Rightarrow> greybus_bundle_id option option" where
  "gb_bundle_match_id intf b tab = (case tab of None \<Rightarrow> Some None | Some es \<Rightarrow> match_id_loop intf b es)"

definition greybus_module_match :: "gb_interface \<Rightarrow> gb_bundle \<Rightarrow> greybus_bundle_id list option \<Rightarrow> int option" where
  "greybus_module_match intf b tab = do {
     e \<leftarrow> gb_bundle_match_id intf b tab;
     Some (if e \<noteq> None then 1 else 0)
   }"

definition greybus_probe ::
    "(greybus_bundle_id \<Rightarrow> int) \<Rightarrow> gb_interface \<Rightarrow> gb_bundle \<Rightarrow> greybus_bundle_id list option \<Rightarrow> int option" where
  "greybus_probe driver_probe intf b tab = do {
     e \<leftarrow> gb_bundle_match_id intf b tab;
     Some (case e of None \<Rightarrow> - ENODEV | Some x \<Rightarrow> driver_probe x)
   }"

definition greybus_register_driver :: "bool \<Rightarrow> int \<Rightarrow> int" where
  "greybus_register_driver disabled driver_register_ret =
     (if disabled then - ENODEV else if driver_register_ret \<noteq> 0 then driver_register_ret else 0)"

definition cport_id_valid :: "hdw \<Rightarrow> u16 \<Rightarrow> bool" where
  "cport_id_valid w cport \<longleftrightarrow> cport \<noteq> CPORT_ID_BAD \<and> unat cport < num_cports w"

section \<open>Initialisation of the subsystem\<close>

datatype init_step = Debugfs | Bus | Operation | Endo | Control | SVC | Firmware

text \<open>
  gb_init: \<open>ret s\<close> is what the initialisation of step \<open>s\<close> returns. The result has the steps that are
  still initialised on return; the error labels undo them in reverse order.
\<close>

definition undo :: "init_step list \<Rightarrow> init_step list \<Rightarrow> init_step list" where
  "undo labels up = filter (\<lambda>s. s \<notin> set labels) up"

definition gb_init :: "bool \<Rightarrow> (init_step \<Rightarrow> int) \<Rightarrow> int \<times> init_step list" where
  "gb_init disabled ret =
     (if disabled then (- ENODEV, [])
      else
        let up = [Debugfs] in
        if ret Bus \<noteq> 0 then (ret Bus, undo [Debugfs] up)
        else let up = Bus # up in
        if ret Operation \<noteq> 0 then (ret Operation, undo [Bus, Debugfs] up)
        else let up = Operation # up in
        if ret Endo \<noteq> 0 then (ret Endo, undo [Operation, Bus, Debugfs] up)
        else let up = Endo # up in
        if ret Control \<noteq> 0 then (ret Control, undo [Endo, Operation, Bus, Debugfs] up)
        else let up = Control # up in
        if ret SVC \<noteq> 0 then (ret SVC, undo [Control, Endo, Operation, Bus, Debugfs] up)
        else let up = SVC # up in
        if ret Firmware \<noteq> 0 then (ret Firmware, undo [SVC, Control, Endo, Operation, Bus, Debugfs] up)
        else (0, Firmware # up))"

definition gb_exit :: "init_step list \<Rightarrow> init_step list" where
  "gb_exit up = undo [Firmware, SVC, Control, Endo, Operation, Bus, Debugfs] up"

section \<open>Firmware protocol\<close>

text \<open>
  The state of a firmware connection is the loaded blob. \<open>fetch\<close> is the answer of request_firmware
  for the name built from the interface's ids and the stage.
\<close>

definition download_firmware :: "int \<times> bytes \<Rightarrow> bytes option \<Rightarrow> int \<times> bytes option" where
  "download_firmware fetch fw = (if fst fetch = 0 then (0, Some (snd fetch)) else (fst fetch, None))"

definition gb_firmware_size_request ::
    "size_t \<Rightarrow> bool \<Rightarrow> bool \<Rightarrow> (u8 \<Rightarrow> int \<times> bytes) \<Rightarrow> gb_operation \<Rightarrow> bytes option \<Rightarrow>
     ((int \<times> gb_operation) \<times> bytes option) option" where
  "gb_firmware_size_request bmax ok1 ok2 fetch opn fw =
     (if payload_size (request opn) \<noteq> 1 then Some ((- EINVAL, opn), fw)
      else do {
        stage \<leftarrow> rd8 (buffer (request opn)) 8;
        (case download_firmware (fetch stage) fw of (ret, fw1) \<Rightarrow>
           if ret \<noteq> 0 then Some ((ret, opn), fw1)
           else do {
             (ok, o1) \<leftarrow> gb_operation_response_alloc bmax ok1 ok2 4 opn;
             if \<not> ok then Some ((- ENOMEM, o1), None)
             else do {
               blob \<leftarrow> fw1;
               resp \<leftarrow> response o1;
               buf \<leftarrow> wr_bytes (buffer resp) 8 (cpu_to_le32 (of_nat (length blob)));
               Some ((0, o1\<lparr>response := Some (resp\<lparr>buffer := buf\<rparr>)\<rparr>), fw1)
             }
           })
      })"

text \<open>gb_firmware_get_firmware copies from the blob at the offset and with the size requested.\<close>

definition gb_firmware_get_firmware ::
    "size_t \<Rightarrow> bool \<Rightarrow> bool \<Rightarrow> gb_operation \<Rightarrow> bytes option \<Rightarrow> (int \<times> gb_operation) option" where
  "gb_firmware_get_firmware bmax ok1 ok2 opn fw =
     (if payload_size (request opn) \<noteq> 8 then Some (- EINVAL, opn)
      else (case fw of None \<Rightarrow> Some (- EINVAL, opn)
       | Some blob \<Rightarrow> do {
           q \<leftarrow> rd_bytes (buffer (request opn)) 8 8;
           let offset = le32_to_cpu (q ! 0) (q ! 1) (q ! 2) (q ! 3);
           let sz = le32_to_cpu (q ! 4) (q ! 5) (q ! 6) (q ! 7);
           (ok, o1) \<leftarrow> gb_operation_response_alloc bmax ok1 ok2 (ucast sz) opn;
           if \<not> ok then Some (- ENOMEM, o1)
           else do {
             resp \<leftarrow> response o1;
             src \<leftarrow> rd_bytes blob (unat offset) (unat sz);
             buf \<leftarrow> wr_bytes (buffer resp) 8 src;
             Some (0, o1\<lparr>response := Some (resp\<lparr>buffer := buf\<rparr>)\<rparr>)
           }
         }))"

definition gb_firmware_ready_to_boot :: "gb_operation \<Rightarrow> int option" where
  "gb_firmware_ready_to_boot opn =
     (if payload_size (request opn) \<noteq> 2 then Some (- EINVAL)
      else do {
        stage \<leftarrow> rd8 (buffer (request opn)) 8;
        status \<leftarrow> rd8 (buffer (request opn)) 9;
        Some (if status = 0 then - EINVAL else 0)
      })"

definition gb_firmware_request_recv ::
    "size_t \<Rightarrow> bool \<Rightarrow> bool \<Rightarrow> (u8 \<Rightarrow> int \<times> bytes) \<Rightarrow> u8 \<Rightarrow> gb_operation \<Rightarrow> bytes option \<Rightarrow>
     ((int \<times> gb_operation) \<times> bytes option) option" where
  "gb_firmware_request_recv bmax ok1 ok2 fetch ty opn fw =
     (if ty = 0x02 then gb_firmware_size_request bmax ok1 ok2 fetch opn fw
      else if ty = 0x03 then do { r \<leftarrow> gb_firmware_get_firmware bmax ok1 ok2 opn fw; Some (r, fw) }
      else if ty = 0x04 then do { ret \<leftarrow> gb_firmware_ready_to_boot opn; Some ((ret, opn), fw) }
      else Some ((- EINVAL, opn), fw))"

text \<open>
  connection->private of a firmware connection: NULL (\<open>None\<close>) or the object with its blob, if any. The
  exit function dereferences it.
\<close>

definition gb_firmware_connection_init :: "bool \<Rightarrow> bytes option option \<Rightarrow> int \<times> bytes option option" where
  "gb_firmware_connection_init ok private = (if \<not> ok then (- ENOMEM, private) else (0, Some None))"

definition gb_firmware_connection_exit :: "bytes option option \<Rightarrow> bytes option option option" where
  "gb_firmware_connection_exit private = do { fw \<leftarrow> private; Some None }"

end
