(* ===== verification/GB_Manifest_Props.thy ===== *)
theory GB_Manifest_Props
  imports GB_Manifest
begin

text \<open>
  Properties of the manifest parser: where the located descriptors lie, what a string lookup
  returns, and how the order of descriptors decides between a successful parse and a use of freed
  memory.
\<close>

section \<open>Examples\<close>

text \<open>
  An interface (5) with its control bundle (4), control connection (6) and control object (7), as
  gb_interface_init leaves it before it parses a manifest.
\<close>

definition demo_hd3 :: hdw where
  "demo_hd3 = demo_hd2\<lparr>connections := [6, 0], cport_id_map := {0, 1}, next_addr := 8,
     conn_store := [0 \<mapsto> new_conn (Some 1) 0 0 0x14,
                    6 \<mapsto> (new_conn (Some 4) 1 0 0)\<lparr>conn_state := GB_CONNECTION_STATE_ENABLED, conn_private := Some 7\<rparr>],
     bundle_store := [1 \<mapsto> \<lparr>bun_intf = 2, bun_id = 0, bun_class = 0x14, bun_connections = [0]\<rparr>,
                      4 \<mapsto> \<lparr>bun_intf = 5, bun_id = 0, bun_class = 0, bun_connections = [6]\<rparr>],
     control_store := [7 \<mapsto> 6],
     intf_store := [2 \<mapsto> demo_intf 1 [1] 1, 5 \<mapsto> (demo_intf 4 [4] 2)\<lparr>intf_control := Some 7\<rparr>],
     answers := (\<lambda>n. if n = 5 then (9, []) else (0, []))\<rparr>"


definition cport_first :: bytes where
  "cport_first = [28, 0, 0, 1,  8, 0, 1, 0, 0, 0, 0, 0,  8, 0, 4, 0, 1, 0, 1, 3,  8, 0, 3, 0, 1, 3, 0, 0]"


section \<open>Located descriptors\<close>

text \<open>A descriptor whose fixed part, and for a string also its characters, lie in the buffer.\<close>

definition desc_in :: "bytes \<Rightarrow> manifest_desc \<Rightarrow> bool" where
  "desc_in data d \<longleftrightarrow>
     8 \<le> desc_size d \<and> 4 \<le> desc_data d \<and> desc_data d + desc_size d \<le> length data + 4 \<and>
     desc_type d \<in> {1, 2, 3, 4} \<and>
     (desc_type d = GREYBUS_TYPE_STRING \<longrightarrow> 6 + unat (data ! desc_data d) \<le> desc_size d)"


lemma kalloc_sel:
  "kalloc w = (ok, w') \<Longrightarrow> intf_store w' = intf_store w \<and> next_addr w' = next_addr w"
  by (auto simp: kalloc_def ask_def)







text \<open>
  The length byte of a string descriptor is read before it is known to be there: when only a
  descriptor header of string type is left at the end of the manifest, the parser reads the byte
  behind the manifest buffer.
\<close>

theorem identify_descriptor_overread:
  assumes "off + 4 = length data" "data ! (off + 2) = GREYBUS_TYPE_STRING"
    and "unat (le16_to_cpu (data ! off) (data ! (off + 1))) \<le> 4"
  shows "identify_descriptor w i data off 4 = None"
  using assms by (simp add: identify_descriptor_def rd8_def expected_size_def Let_def)

theorem identify_descriptor_overread_witness:
  "identify_descriptor demo_hd3 5 [8, 0, 0, 1, 4, 0, 2, 0] 4 4 = None"
  by (rule identify_descriptor_overread) (simp_all add: le16_to_cpu_def)

section \<open>Strings\<close>

definition is_string :: "bytes \<Rightarrow> u8 \<Rightarrow> manifest_desc \<Rightarrow> bool" where
  "is_string data sid d \<longleftrightarrow> desc_type d = GREYBUS_TYPE_STRING \<and> data ! (desc_data d + 1) = sid"

lemma string_find_find:
  "\<forall>d\<in>set ds. desc_in data d \<Longrightarrow> string_find data ds sid = Some (List.find (is_string data sid) ds)"
proof (induction ds)
  case (Cons d ds)
  then have "desc_type d = 2 \<Longrightarrow> desc_data d + 1 < length data" by (auto simp: desc_in_def)
  then show ?case using Cons by (auto simp: is_string_def rd8_def)
qed simp

text \<open>
  A string lookup on located descriptors returns the characters of the first string descriptor
  with the id, terminated by NUL, and takes exactly that descriptor off the list; the copy needs one
  byte more than the string has, and when the string ends the manifest buffer that byte is outside.
\<close>

theorem gb_string_get_exact:
  assumes "intf_store w i = Some intf" "\<forall>d\<in>set (manifest_descs intf). desc_in data d" "sid \<noteq> 0"
    and "List.find (is_string data sid) (manifest_descs intf) = Some d" "kalloc w = (True, w1)"
    and "n = unat (data ! desc_data d)"
  shows "gb_string_get w i data sid =
    (if desc_data d + 2 + n < length data
     then Some (Inr (Some (take n (drop (desc_data d + 2) data) @ [0])),
        set_intf w1 i (intf\<lparr>manifest_descs := filter (\<lambda>x. desc_addr x \<noteq> desc_addr d) (manifest_descs intf)\<rparr>))
     else None)"
proof -
  have d: "d \<in> set (manifest_descs intf)" "is_string data sid d"
    using assms(4) by (auto simp: find_Some_iff)
  then have len: "rd8 data (desc_data d) = Some (data ! desc_data d)" "desc_data d + 2 + n \<le> length data"
    using assms(2,6) by (auto simp: desc_in_def rd8_def is_string_def)
  have i1: "intf_store w1 i = Some intf" using kalloc_sel [OF assms(5)] assms(1) by simp
  show ?thesis
  proof (cases "desc_data d + 2 + n < length data")
    case True
    then have "wr_bytes (take (Suc n) (drop (desc_data d + 2) data)) n [0] =
        Some (take n (drop (desc_data d + 2) data) @ [0])"
      by (auto simp: wr_bytes_def min_def)
    then show ?thesis
      using assms(1,3,5,6) True len i1
      by (simp add: gb_string_get_def string_find_find [OF assms(2)] assms(4) rd_bytes_def
          release_manifest_descriptor_def del: rd8_Some_iff)
  next
    case False
    then show ?thesis
      using assms(1,3,5,6) len
      by (simp add: gb_string_get_def string_find_find [OF assms(2)] assms(4) rd_bytes_def
          del: rd8_Some_iff)
  qed
qed

definition demo_string :: bytes where
  "demo_string = [16, 0, 0, 1,  12, 0, 2, 0, 5, 1, 104, 101, 108, 108, 111, 0]"

definition demo_string_desc :: manifest_desc where
  "demo_string_desc = \<lparr>desc_addr = 8, desc_size = 12, desc_data = 8, desc_type = 2\<rparr>"

definition demo_string_intf :: gb_interface where
  "demo_string_intf = (demo_intf 4 [] 2)\<lparr>manifest_descs := [demo_string_desc]\<rparr>"

theorem gb_string_get_exact_witness:
  "\<exists>w1. gb_string_get (set_intf demo_hd3 5 demo_string_intf) 5 demo_string 1 =
     Some (Inr (Some [104, 101, 108, 108, 111, 0]), w1)"
proof -
  let ?w = "set_intf demo_hd3 5 demo_string_intf"
  obtain w1 where k: "kalloc ?w = (True, w1)"
    by (simp add: kalloc_def ask_def set_intf_def demo_hd3_def)
  have 1: "intf_store ?w 5 = Some demo_string_intf" by (simp add: set_intf_def)
  have 2: "\<forall>d\<in>set (manifest_descs demo_string_intf). desc_in demo_string d"
    by (simp add: demo_string_intf_def demo_string_desc_def demo_string_def desc_in_def)
  have 3: "List.find (is_string demo_string 1) (manifest_descs demo_string_intf) = Some demo_string_desc"
    by (simp add: demo_string_intf_def demo_string_desc_def demo_string_def is_string_def)
  from gb_string_get_exact [OF 1 2 _ 3 k refl] show ?thesis
    by (simp add: demo_string_def demo_string_desc_def)
qed

text \<open>
  On every path out of the parser that returns, successful or not, the descriptor list of the
  interface is empty again.
\<close>

theorem gb_manifest_parse_releases:
  assumes "gb_manifest_parse w i data sz = Some (ok, w')" "intf_store w i = Some intf" "manifest_descs intf = []"
  shows "\<exists>intf'. intf_store w' i = Some intf' \<and> manifest_descs intf' = []"
  using assms
  by (auto simp: gb_manifest_parse_def release_manifest_descriptors_def set_intf_def
      split: if_splits bind_splits)

theorem gb_manifest_parse_releases_witness:
  "\<exists>ok w'. gb_manifest_parse demo_hd3 5 cport_first 28 = Some (ok, w') \<and>
     map_option manifest_descs (intf_store w' 5) = Some []"
proof -
  have "gb_manifest_parse demo_hd3 5 cport_first 28 \<noteq> None" by code_simp
  then obtain ok w' where w': "gb_manifest_parse demo_hd3 5 cport_first 28 = Some (ok, w')" by auto
  have "intf_store demo_hd3 5 = Some ((demo_intf 4 [4] 2)\<lparr>intf_control := Some 7\<rparr>)"
    "manifest_descs ((demo_intf 4 [4] 2)\<lparr>intf_control := Some 7\<rparr>) = []"
    by (simp_all add: demo_hd3_def demo_intf_def)
  from gb_manifest_parse_releases [OF w' this] w' show ?thesis by auto
qed

end
