(* ===== verification/GB_SVC_Props.thy ===== *)
theory GB_SVC_Props
  imports GB_Core GB_Manifest_Props GB_Operation_Handlers
begin

text \<open>
  Properties of the SVC protocol, of interfaces and of the bus core: the order of requests, what a
  failing handshake or a failing bring-up of an interface leads to, the limits of a host device,
  matching, initialisation and the firmware protocol.
\<close>

section \<open>SVC objects survive or are freed\<close>

text \<open>No function but the request handler itself changes the state of an SVC object.\<close>

definition svc_keeps :: "hdw \<Rightarrow> hdw \<Rightarrow> bool" where
  "svc_keeps w w' \<longleftrightarrow> (\<forall>a s. svc_store w' a = Some s \<longrightarrow> svc_store w a = Some s)"

lemma svc_keeps_refl [simp]: "svc_keeps w w"
  by (simp add: svc_keeps_def)

lemma svc_keeps_same: "svc_store w' = svc_store w \<Longrightarrow> svc_keeps w w'"
  by (simp add: svc_keeps_def)

lemma svc_keeps_trans: "svc_keeps w1 w2 \<Longrightarrow> svc_keeps w2 w3 \<Longrightarrow> svc_keeps w1 w3"
  by (simp add: svc_keeps_def)

lemma svc_store_ask [simp]: "svc_store (snd (ask q w)) = svc_store w"
  by (simp add: ask_def)

lemma svc_store_kalloc: "kalloc w = (ok, w') \<Longrightarrow> svc_store w' = svc_store w"
  by (auto simp: kalloc_def ask_def)

lemma svc_store_device_add: "device_add w = (r, w') \<Longrightarrow> svc_store w' = svc_store w"
  by (auto simp: device_add_def ask_def)

lemma svc_store_sync: "gb_operation_sync w c ty req n = Some (r, w') \<Longrightarrow> svc_store w' = svc_store w"
  by (auto simp: gb_operation_sync_def ask_def split: bind_splits)

lemma svc_store_disconnected: "gb_connection_disconnected w c = Some w' \<Longrightarrow> svc_store w' = svc_store w"
  by (auto simp: gb_connection_disconnected_def gb_control_disconnected_operation_def
      dest: svc_store_sync split: bind_splits if_splits)

lemma svc_keeps_protocol_exit: "protocol_connection_exit w c = Some w' \<Longrightarrow> svc_keeps w w'"
  by (auto simp: protocol_connection_exit_def gb_svc_connection_exit_def gb_control_connection_exit_def
      svc_keeps_def set_conn_d_def set_intf_def Let_def split: bind_splits if_splits option.splits)

lemma svc_keeps_exit: "gb_connection_exit w c = Some w' \<Longrightarrow> svc_keeps w w'"
proof -
  assume a: "gb_connection_exit w c = Some w'"
  then obtain k where k: "conn_store w c = Some k"
    by (cases "conn_store w c") (simp_all add: gb_connection_exit_def)
  show ?thesis
  proof (cases "conn_protocol k = None \<or> conn_state k \<noteq> GB_CONNECTION_STATE_ENABLED")
    case True
    then show ?thesis using a k by (auto simp: gb_connection_exit_def split: if_splits)
  next
    case False
    let ?w2 = "snd (ask (Cancel_operations c (- ESHUTDOWN)) (set_conn_d w c (k\<lparr>conn_state := GB_CONNECTION_STATE_DESTROYING\<rparr>)))"
    from a k False obtain w3 where w3: "protocol_connection_exit ?w2 c = Some w3" "gb_connection_disconnected w3 c = Some w'"
      by (cases "protocol_connection_exit ?w2 c") (auto simp: gb_connection_exit_def Let_def)
    have "svc_keeps w ?w2" by (rule svc_keeps_same) (simp add: set_conn_d_def)
    moreover have "svc_keeps w3 w'" by (rule svc_keeps_same [OF svc_store_disconnected [OF w3(2)]])
    ultimately show ?thesis using svc_keeps_protocol_exit [OF w3(1)] svc_keeps_trans by blast
  qed
qed

lemma svc_keeps_destroy: "gb_connection_destroy w c = Some w' \<Longrightarrow> svc_keeps w w'"
proof -
  assume a: "gb_connection_destroy w c = Some w'"
  then obtain w1 where w1: "gb_connection_exit w c = Some w1"
    by (cases "gb_connection_exit w c") (simp_all add: gb_connection_destroy_def)
  have "svc_store w' = svc_store w1"
    using a w1 by (auto simp: gb_connection_destroy_def Let_def set_bundle_def ask_def
        split: bind_splits option.splits)
  then show ?thesis using svc_keeps_exit [OF w1] svc_keeps_same svc_keeps_trans by blast
qed

lemma svc_keeps_destroy_connections: "destroy_connections cs w = Some w' \<Longrightarrow> svc_keeps w w'"
proof (induction cs arbitrary: w)
  case (Cons c cs)
  then obtain w1 where "gb_connection_destroy w c = Some w1" "destroy_connections cs w1 = Some w'"
    by (auto split: bind_splits)
  then show ?case using Cons.IH svc_keeps_destroy svc_keeps_trans by blast
qed simp

lemma svc_keeps_bundle_destroy: "gb_bundle_destroy w b = Some w' \<Longrightarrow> svc_keeps w w'"
  by (auto simp: gb_bundle_destroy_def gb_bundle_connections_exit_def Let_def set_intf_def svc_keeps_def
      split: bind_splits dest!: svc_keeps_destroy_connections)

lemma svc_keeps_destroy_bundles: "destroy_bundles bs w = Some w' \<Longrightarrow> svc_keeps w w'"
proof (induction bs arbitrary: w)
  case (Cons b bs)
  then obtain w1 where "gb_bundle_destroy w b = Some w1" "destroy_bundles bs w1 = Some w'"
    by (auto split: bind_splits)
  then show ?case using Cons.IH svc_keeps_bundle_destroy svc_keeps_trans by blast
qed simp

lemma svc_keeps_interface_remove: "gb_interface_remove w iid = Some w' \<Longrightarrow> svc_keeps w w'"
  by (auto simp: gb_interface_remove_def interface_destroy_def Let_def svc_keeps_def
      split: bind_splits option.splits dest!: svc_keeps_destroy_bundles)

lemma svc_store_interface_create: "gb_interface_create w iid = Some (r, w') \<Longrightarrow> svc_store w' = svc_store w"
  by (auto simp: gb_interface_create_def Let_def set_intf_def split: bind_splits option.splits prod.splits if_splits
      dest!: svc_store_kalloc svc_store_device_add)

lemma svc_store_bundle_create: "gb_bundle_create w i bid cls = Some (r, w') \<Longrightarrow> svc_store w' = svc_store w"
  by (auto simp: gb_bundle_create_def Let_def set_intf_def set_bundle_def
      split: bind_splits option.splits prod.splits if_splits dest!: svc_store_kalloc svc_store_device_add)

lemma svc_store_update: "svc_update_connection w i c = Some (r, w') \<Longrightarrow> svc_store w' = svc_store w"
  by (auto simp: svc_update_connection_def Let_def set_conn_d_def set_bundle_def
      split: bind_splits option.splits prod.splits if_splits dest!: svc_store_bundle_create svc_store_device_add)

lemma svc_store_ap_interface: "gb_ap_interface_create w c iid = Some (r, w') \<Longrightarrow> svc_store w' = svc_store w"
  by (auto simp: gb_ap_interface_create_def set_intf_def split: bind_splits option.splits
      dest!: svc_store_interface_create svc_store_update)

lemma svc_store_endo_setup: "greybus_endo_setup w e ap = Some (r, w') \<Longrightarrow> svc_store w' = svc_store w"
  by (auto simp: greybus_endo_setup_def ask_def Let_def split: bind_splits prod.splits sum.splits
      dest!: svc_store_kalloc)

lemma svc_store_hello: "gb_svc_hello w c opn = Some (r, w') \<Longrightarrow> svc_store w' = svc_store w"
  by (auto simp: gb_svc_hello_def split: bind_splits if_splits prod.splits
      dest!: svc_store_endo_setup svc_store_ap_interface)

lemma svc_store_version: "gb_svc_version_request w c opn = Some (r, w') \<Longrightarrow> svc_store w' = svc_store w"
  by (auto simp: gb_svc_version_request_def response_alloc_def Let_def set_conn_d_def
      split: bind_splits if_splits prod.splits dest!: svc_store_kalloc)

lemma svc_store_hotplug_recv: "gb_svc_intf_hotplug_recv w c opn = Some (r, w') \<Longrightarrow> svc_store w' = svc_store w"
  by (auto simp: gb_svc_intf_hotplug_recv_def split: bind_splits if_splits prod.splits dest!: svc_store_kalloc)

lemma svc_keeps_unplug: "gb_svc_intf_hot_unplug_recv w opn = Some (r, w') \<Longrightarrow> svc_keeps w w'"
  by (auto simp: gb_svc_intf_hot_unplug_recv_def svc_keeps_def split: bind_splits if_splits option.splits
      dest!: svc_keeps_interface_remove)

lemma svc_store_reset: "gb_svc_intf_reset_recv w opn = Some (r, w') \<Longrightarrow> svc_store w' = svc_store w"
  by (auto simp: gb_svc_intf_reset_recv_def split: bind_splits if_splits)

section \<open>The order of SVC requests\<close>

definition svc_allows :: "gb_svc_state \<Rightarrow> u8 \<Rightarrow> bool" where
  "svc_allows st ty =
     (if ty = 0x01 then st = GB_SVC_STATE_RESET
      else if ty = 0x02 then st = GB_SVC_STATE_PROTOCOL_VERSION
      else st = GB_SVC_STATE_SVC_HELLO)"

definition svc_next :: "u8 \<Rightarrow> gb_svc_state \<Rightarrow> gb_svc_state" where
  "svc_next ty st =
     (if ty = 0x01 then GB_SVC_STATE_PROTOCOL_VERSION else if ty = 0x02 then GB_SVC_STATE_SVC_HELLO else st)"

lemma set_svc_state_state:
  "set_svc_state w a st = Some w' \<Longrightarrow> svc_store w' a = Some x \<Longrightarrow> svc_state x = st"
  by (auto simp: set_svc_state_def split: bind_splits)

text \<open>
  C13 The SVC handshake is enforced: a version request is handled only in the reset state, a hello
  only after it, everything else only after the hello; a request out of order is answered with
  -EINVAL and changes nothing; the state advances exactly when the request of the current stage
  succeeds.
\<close>

theorem gb_svc_request_order:
  assumes "gb_svc_request_recv w c ty opn = Some ((ret, o'), w')" "conn_store w c = Some k"
    and "conn_private k = Some a" "svc_store w a = Some s"
  shows "(\<not> svc_allows (svc_state s) ty \<longrightarrow> ret = - EINVAL \<and> o' = opn \<and> w' = w) \<and>
    (\<forall>s'. svc_store w' a = Some s' \<longrightarrow>
       svc_state s' = (if svc_allows (svc_state s) ty \<and> ret = 0 then svc_next ty (svc_state s) else svc_state s))"
proof (cases "svc_allows (svc_state s) ty")
  case False
  then have "gb_svc_request_recv w c ty opn = Some ((- EINVAL, opn), w)"
    using assms(2-4) by (auto simp: gb_svc_request_recv_def svc_allows_def split: if_splits)
  then show ?thesis using False assms(1,4) by auto
next
  case True
  consider "ty = 1" | "ty = 2" | "ty \<noteq> 1" "ty \<noteq> 2" by blast
  then show ?thesis
  proof cases
    case 1
    then obtain w1 where v: "gb_svc_version_request w c opn = Some ((ret, o'), w1)"
      and s1: "(if ret = 0 then set_svc_state w1 a GB_SVC_STATE_PROTOCOL_VERSION else Some w1) = Some w'"
      using assms True by (auto simp: gb_svc_request_recv_def svc_allows_def split: bind_splits if_splits)
    then show ?thesis
      using True 1 svc_store_version [OF v] assms(4) set_svc_state_state [of w1 a _ w']
      by (cases "ret = 0") (auto simp: svc_next_def)
  next
    case 2
    then obtain w1 where v: "gb_svc_hello w c opn = Some (ret, w1)"
      and s1: "(if ret = 0 then set_svc_state w1 a GB_SVC_STATE_SVC_HELLO else Some w1) = Some w'"
      using assms True by (auto simp: gb_svc_request_recv_def svc_allows_def split: bind_splits if_splits)
    then show ?thesis
      using True 2 svc_store_hello [OF v] assms(4) set_svc_state_state [of w1 a _ w']
      by (cases "ret = 0") (auto simp: svc_next_def)
  next
    case 3
    then have "svc_keeps w w'"
      using assms True
      by (auto simp: gb_svc_request_recv_def svc_allows_def split: bind_splits if_splits
          intro: svc_keeps_same dest!: svc_store_hotplug_recv svc_keeps_unplug svc_store_reset)
    then show ?thesis using True 3 assms(4) by (auto simp: svc_keeps_def svc_next_def)
  qed
qed

text \<open>The device before the handshake: only the initial SVC connection (0) with its SVC object (1).\<close>

definition demo_boot :: "gb_svc_state \<Rightarrow> hdw" where
  "demo_boot st = demo_hd\<lparr>connections := [0], cport_id_map := {0}, next_addr := 2,
     initial_svc_connection := Some 0, hd_svc := Some 1,
     svc_store := [1 \<mapsto> \<lparr>svc_connection = 0, svc_state = st\<rparr>],
     conn_store := [0 \<mapsto> (new_conn None 0 0 0x14)\<lparr>conn_private := Some 1, conn_state := GB_CONNECTION_STATE_ENABLED\<rparr>]\<rparr>"

definition demo_request :: "u8 \<Rightarrow> bytes \<Rightarrow> gb_operation" where
  "demo_request ty p = \<lparr>connection = 0,
     request = \<lparr>buffer = [of_nat (8 + length p), 0, 1, 0, ty, 0, 0, 0] @ p, payload_size = of_nat (length p)\<rparr>,
     response = None, flags = 1, type = ty, op_id = 1, errno = - EINPROGRESS, callback = None,
     completion = 0, kref = 1, waiters = 0, active = 1\<rparr>"

theorem gb_svc_request_order_witness:
  "gb_svc_request_recv (demo_boot GB_SVC_STATE_RESET) 0 4 (demo_request 4 []) =
     Some ((- EINVAL, demo_request 4 []), demo_boot GB_SVC_STATE_RESET) \<and>
   \<not> svc_allows GB_SVC_STATE_RESET 4"
proof -
  let ?w = "demo_boot GB_SVC_STATE_RESET" and ?o = "demo_request 4 []"
  obtain ret o' w' where r: "gb_svc_request_recv ?w 0 4 ?o = Some ((ret, o'), w')"
    by (simp add: gb_svc_request_recv_def demo_boot_def demo_hd_def new_conn_def)
  have a: "\<not> svc_allows GB_SVC_STATE_RESET 4" by (simp add: svc_allows_def)
  have "ret = - EINVAL \<and> o' = ?o \<and> w' = ?w"
    using gb_svc_request_order [OF r, of "(new_conn None 0 0 0x14)\<lparr>conn_private := Some 1, conn_state := GB_CONNECTION_STATE_ENABLED\<rparr>"
        1 "\<lparr>svc_connection = 0, svc_state = GB_SVC_STATE_RESET\<rparr>"] a
    by (simp add: demo_boot_def)
  with r a show ?thesis by simp
qed

section \<open>Failures during the handshake\<close>

text \<open>
  A hello that fails half way is reported as a success: when the endo is set up but the interface
  of the AP cannot be created, gb_svc_hello returns 0, and the SVC state machine advances although
  the endo has been removed again.
\<close>

theorem gb_svc_hello_failure_reported_as_success:
  assumes "3 \<le> payload_size (request opn)" "length (buffer (request opn)) \<ge> 11"
    and "greybus_endo_setup w (le16_to_cpu (buffer (request opn) ! 8) (buffer (request opn) ! 9))
           (buffer (request opn) ! 10) = Some (0, w1)"
    and "gb_ap_interface_create w1 c (buffer (request opn) ! 10) = Some (None, w2)"
  shows "\<exists>w'. gb_svc_hello w c opn = Some (0, w') \<and> endo_modules w' = (if hd_endo w2 = None then endo_modules w2 else [])"
  using assms
  by (auto simp: gb_svc_hello_def rd8_def not_less gb_endo_remove_def word_less_nat_alt word_le_nat_alt
      split: option.splits)

definition demo_boot_nomem :: hdw where
  "demo_boot_nomem = (demo_boot GB_SVC_STATE_PROTOCOL_VERSION)\<lparr>answers := (\<lambda>n. if n = 259 then (- ENOMEM, []) else (0, []))\<rparr>"

lemma demo_hello_run:
  "case greybus_endo_setup demo_boot_nomem 0x4755 1 of None \<Rightarrow> False
   | Some (r, w1) \<Rightarrow> r = 0 \<and> (case gb_ap_interface_create w1 0 1 of None \<Rightarrow> False
      | Some (io, w2) \<Rightarrow> io = None \<and> hd_endo w2 \<noteq> None)"
  by code_simp

theorem gb_svc_hello_failure_reported_as_success_witness:
  "\<exists>w'. gb_svc_hello demo_boot_nomem 0 (demo_request 2 [0x55, 0x47, 1]) = Some (0, w') \<and> endo_modules w' = []"
proof -
  obtain w1 w2 where 1: "greybus_endo_setup demo_boot_nomem 0x4755 1 = Some (0, w1)"
    "gb_ap_interface_create w1 0 1 = Some (None, w2)" "hd_endo w2 \<noteq> None"
    using demo_hello_run by (auto split: option.splits prod.splits)
  have "le16_to_cpu 0x55 0x47 = 0x4755" by (simp add: le16_to_cpu_def)
  then show ?thesis
    using gb_svc_hello_failure_reported_as_success [where opn = "demo_request 2 [0x55, 0x47, 1]" and w = demo_boot_nomem
        and ?w1.0 = w1 and c = 0 and ?w2.0 = w2] 1
    by (auto simp: demo_request_def)
qed

text \<open>
  A version request without payload, which the SVC connection accepts in its first state, makes
  the handler read a version that is not there.
\<close>

theorem gb_svc_version_request_faults:
  assumes "length (buffer (request opn)) = 8"
  shows "gb_svc_version_request w c opn = None"
  using assms by (simp add: gb_svc_version_request_def rd8_def)

theorem gb_svc_version_request_faults_witness:
  "gb_svc_version_request (demo_boot GB_SVC_STATE_RESET) 0 (demo_request 1 []) = None"
  by (rule gb_svc_version_request_faults) (simp add: demo_request_def)

section \<open>Failures while an interface is brought up\<close>

definition demo_control_protocol :: gb_protocol where
  "demo_control_protocol = \<lparr>pr_id = 0, pr_major = 0, pr_minor = 1, pr_count = 0, pr_name = ''control''\<rparr>"

definition demo_plugged :: "(nat \<Rightarrow> int \<times> bytes) \<Rightarrow> hdw" where
  "demo_plugged an = demo_hd2\<lparr>protocols := [demo_control_protocol], next_addr := 6,
     bundle_store := [1 \<mapsto> \<lparr>bun_intf = 2, bun_id = 0, bun_class = 0x14, bun_connections = [0]\<rparr>],
     intf_store := [2 \<mapsto> demo_intf 1 [1] 1, 5 \<mapsto> demo_intf 4 [] 0xff], answers := an\<rparr>"

text \<open>
  A module that does not answer the version request of its control connection crashes the AP:
  the failed initialisation is ignored, the interface has no control object, and asking for the size
  of the manifest dereferences NULL. With an answer, the same bring-up goes on to the manifest.
\<close>

theorem gb_interface_init_unanswered_version:
  "gb_interface_init (demo_plugged (\<lambda>n. if n = 2 then (7, []) else if n = 10 then (- ETIMEDOUT, []) else (0, []))) 5 2 = None \<and>
   (case gb_interface_init (demo_plugged (\<lambda>n. if n = 2 then (7, []) else (0, []))) 5 2 of None \<Rightarrow> False
    | Some (ret, w) \<Rightarrow> ret = - EINVAL \<and> Sync 7 0x03 [] 2 \<in> set (trace w))"
  by code_simp

text \<open>A manifest whose interface descriptor names a vendor string that does not exist.\<close>

definition missing_string :: bytes where
  "missing_string = [20, 0, 0, 1,  8, 0, 1, 0, 1, 0, 0, 0,  8, 0, 3, 0, 1, 3, 0, 0]"

text \<open>
  A manifest that refers to a missing string crashes the AP: parsing fails as it should, but the
  error pointer stays in the interface, and removing the interface hands it to kfree.
\<close>

theorem gb_manifest_missing_string_faults:
  "case gb_manifest_parse demo_hd3 5 missing_string 20 of None \<Rightarrow> False
   | Some (ok, w) \<Rightarrow> \<not> ok \<and> map_option vendor_string (intf_store w 5) = Some (Inl (- ENOENT)) \<and>
       gb_interface_remove w 4 = None"
  by code_simp

definition demo_hotplug :: hdw where
  "demo_hotplug = demo_hd2\<lparr>endo_modules := map of_nat [1..<20], svc_device_id_map := {2},
     conn_store := [0 \<mapsto> (new_conn (Some 1) 0 0 0x14)\<lparr>conn_private := Some 3\<rparr>],
     answers := (\<lambda>n. if n = 2 then (258, []) else if n = 3 then (- EIO, []) else (0, []))\<rparr>"

text \<open>
  Device ids are cut to eight bits: with id 258 from the allocator the SVC is told to give the new
  interface device id 2, which another interface already has; and an allocator that fails with an
  error goes unnoticed, its error code becomes a device id.
\<close>

theorem svc_process_hotplug_truncates_device_id:
  "(case svc_process_hotplug demo_hotplug 0 (7 # replicate 16 0) of None \<Rightarrow> False
    | Some w \<Rightarrow> Sync 0 0x03 [7, 2] 0 \<in> set (trace w) \<and> map_option device_id (intf_store w 5) = Some 2) \<and>
   (case svc_process_hotplug (demo_hotplug\<lparr>answers := (\<lambda>n. if n = 2 then (- ENOSPC, []) else if n = 3 then (- EIO, []) else (0, []))\<rparr>)
      0 (7 # replicate 16 0) of None \<Rightarrow> False
    | Some w \<Rightarrow> Sync 0 0x03 [7, 228] 0 \<in> set (trace w))"
  by code_simp

section \<open>Host devices\<close>

text \<open>
  A host device that is created obeys the limits the rest of the code relies on, whatever the
  driver asked for: messages of at least a header and at most 65535 bytes, 1 to 4095 cports, and
  exactly one connection, the SVC's on cport 0, with the bookkeeping exact.
\<close>

theorem greybus_create_hd_limits:
  assumes "greybus_create_hd has_send has_cancel bmax ncports w = Some (Inr (), w')"
    and "conn_store w = (\<lambda>_. None)" "bundle_store w = (\<lambda>_. None)"
  shows "has_send \<and> has_cancel \<and> hd_ok w' \<and> (\<exists>c. connections w' = [c] \<and> cport_of w' c = 0) \<and>
    cport_id_map w' = {0} \<and> 8 \<le> unat (hd_buffer_size_max w') \<and> unat (hd_buffer_size_max w') \<le> 65535 \<and>
    unat (hd_buffer_size_max w') \<le> unat bmax \<and> 1 \<le> num_cports w' \<and> num_cports w' \<le> 4095"
proof -
  define b where "b = (if 65535 < bmax then 65535 else bmax)"
  obtain ok w1 where k: "kalloc w = (ok, w1)" by fastforce
  define w2 where "w2 = w1\<lparr>interfaces := [], connections := [], cport_id_map := {},
                        hd_buffer_size_max := b, num_cports := unat ncports, hd_endo := None,
                        initial_svc_connection := None, hd_svc := None\<rparr>"
  have lim: "has_send" "has_cancel" "8 \<le> bmax" "ncports \<noteq> 0" "ncports \<le> 4095" "ok"
    and c: "\<exists>c. gb_connection_create_range w2 None 0 0x14 0 1 = Some (Some c, w')"
    using assms(1) k
    by (auto simp: greybus_create_hd_def gb_ap_svc_connection_create_def Let_def not_less b_def [symmetric]
        w2_def [symmetric] split: if_splits bind_splits)
  then obtain c where c: "gb_connection_create_range w2 None 0 0x14 0 1 = Some (Some c, w')" by blast
  have st: "conn_store w1 = conn_store w" "bundle_store w1 = bundle_store w"
    using k by (auto simp: kalloc_def ask_def)
  have ok2: "hd_ok w2" using assms(2,3) st by (simp add: hd_ok_def w2_def conns_of_def bundle_of_def)
  note r = create_range_ok [OF c ok2] create_range_limits [OF c]
  have "unat b \<le> 65535" "8 \<le> unat b" "unat b \<le> unat bmax"
    using lim(3) by (auto simp: b_def word_less_nat_alt word_le_nat_alt)
  moreover have "1 \<le> unat ncports" "unat ncports \<le> 4095"
    using lim(4,5) by (auto simp: word_le_nat_alt Suc_le_eq unat_gt_0)
  ultimately show ?thesis using r lim(1,2) by (auto simp: w2_def)
qed

lemma demo_create_hd:
  "case greybus_create_hd True True 70000 44 demo_hd of Some (Inr u, _) \<Rightarrow> True | _ \<Rightarrow> False"
  by code_simp

theorem greybus_create_hd_limits_witness:
  "\<exists>w'. greybus_create_hd True True 70000 44 demo_hd = Some (Inr (), w') \<and> hd_ok w' \<and>
     cport_id_map w' = {0} \<and> unat (hd_buffer_size_max w') \<le> 65535"
proof -
  obtain w' where w': "greybus_create_hd True True 70000 44 demo_hd = Some (Inr (), w')"
    using demo_create_hd by (auto split: option.splits prod.splits sum.splits)
  then show ?thesis using greybus_create_hd_limits [OF w'] by (simp add: demo_hd_def)
qed

section \<open>Matching and initialisation\<close>

text \<open>
  The id of a bundle is the first entry of the driver's table, before the terminating entry, whose
  flagged fields all agree with the bundle; a table without a terminating entry is overrun unless an
  entry matches.
\<close>

theorem gb_bundle_match_id_exact:
  "gb_bundle_match_id intf b (Some es) =
     (case List.find (\<lambda>e. is_last e \<or> gb_bundle_match_one_id intf b e) es of
        None \<Rightarrow> None
      | Some e \<Rightarrow> Some (if is_last e then None else Some e))"
proof -
  have "match_id_loop intf b es = (case List.find (\<lambda>e. is_last e \<or> gb_bundle_match_one_id intf b e) es of
        None \<Rightarrow> None | Some e \<Rightarrow> Some (if is_last e then None else Some e))"
    by (induction es) auto
  then show ?thesis by (simp add: gb_bundle_match_id_def)
qed

text \<open>
  Initialisation is all or nothing: gb_init returns 0 with every part initialised, or the error of
  the first part that failed with nothing left initialised; gb_exit undoes everything.
\<close>

theorem gb_init_all_or_nothing:
  "case gb_init disabled ret of (r, up) \<Rightarrow>
     (if disabled then r = - ENODEV \<and> up = []
      else case List.find (\<lambda>s. ret s \<noteq> 0) [Bus, Operation, Endo, Control, SVC, Firmware] of
             None \<Rightarrow> r = 0 \<and> up = [Firmware, SVC, Control, Endo, Operation, Bus, Debugfs] \<and> gb_exit up = []
           | Some s \<Rightarrow> r = ret s \<and> up = [])"
  by (simp add: gb_init_def gb_exit_def undo_def Let_def)

section \<open>Firmware\<close>

text \<open>The part of the firmware blob that a request names.\<close>

definition fw_offset :: "gb_operation \<Rightarrow> nat" where
  "fw_offset opn = (let q = drop 8 (buffer (request opn)) in unat (le32_to_cpu (q ! 0) (q ! 1) (q ! 2) (q ! 3)))"

definition fw_size :: "gb_operation \<Rightarrow> nat" where
  "fw_size opn = (let q = drop 8 (buffer (request opn)) in unat (le32_to_cpu (q ! 4) (q ! 5) (q ! 6) (q ! 7)))"

text \<open>
  A firmware fetch with memory available answers with exactly the requested part of the blob if
  the part lies inside it; a part that reaches beyond the end of the blob is not refused, the handler
  copies memory behind the blob into the response.
\<close>

theorem gb_firmware_get_firmware_exact:
  assumes "msg_ok (request opn)" "payload_size (request opn) = 8" "unat bmax \<le> 65535"
    and "8 + fw_size opn \<le> unat bmax"
  shows "if fw_offset opn + fw_size opn \<le> length blob
    then \<exists>o' m. gb_firmware_get_firmware bmax True True opn (Some blob) = Some (0, o') \<and>
      response o' = Some m \<and> drop 8 (buffer m) = take (fw_size opn) (drop (fw_offset opn) blob)
    else gb_firmware_get_firmware bmax True True opn (Some blob) = None"
proof -
  have len: "length (buffer (request opn)) = 16"
    using assms(1,2) by (simp add: msg_ok_def msg_wf_def)
  define q where "q = drop 8 (buffer (request opn))"
  define sz where "sz = le32_to_cpu (q ! 4) (q ! 5) (q ! 6) (q ! 7)"
  define off where "off = le32_to_cpu (q ! 0) (q ! 1) (q ! 2) (q ! 3)"
  have off_def': "off = le32_to_cpu (q ! 0) (q ! Suc 0) (q ! 2) (q ! 3)" by (simp add: off_def)
  have q: "rd_bytes (buffer (request opn)) 8 8 = Some q" using len by (simp add: rd_bytes_def q_def)
  have f: "fw_size opn = unat sz" "fw_offset opn = unat off"
    by (simp_all add: fw_size_def fw_offset_def q_def sz_def off_def Let_def)
  have u: "unat (ucast sz :: size_t) = unat sz" by simp
  have le: "unat (ucast sz :: size_t) \<le> 2 ^ 63" using assms(3,4) f(1) u by simp
  have nn: "\<not> bmax < ucast sz + 8"
    using message_size_no_wrap [OF le] assms(4) f(1) u by (simp add: word_less_nat_alt)
  have "gb_operation_response_alloc bmax True True (ucast sz) opn \<noteq> Some (False, opn)"
    using nn by (auto simp: gb_operation_response_alloc_def gb_operation_message_alloc_def Let_def split: bind_splits)
  then obtain m where m: "gb_operation_response_alloc bmax True True (ucast sz) opn = Some (True, opn\<lparr>response := Some m\<rparr>)"
    "msg_ok m" "payload_size m = ucast sz"
    using gb_operation_response_alloc_ok [OF assms(3) le assms(1), of True True] by blast
  have lm: "length (buffer m) = 8 + unat sz" using msg_ok_length [OF m(2)] m(3) by simp
  show ?thesis
    using assms(2) q m(1) lm
    by (auto simp: gb_firmware_get_firmware_def f rd_bytes_def wr_bytes_def Let_def sz_def [symmetric] off_def' [symmetric])
qed

theorem gb_firmware_get_firmware_exact_witness:
  "\<exists>o' m. gb_firmware_get_firmware 2048 True True (demo_request 3 [1, 0, 0, 0, 2, 0, 0, 0]) (Some [9, 8, 7, 6]) =
     Some (0, o') \<and> response o' = Some m \<and> drop 8 (buffer m) = [8, 7]"
proof -
  let ?o = "demo_request 3 [1, 0, 0, 0, 2, 0, 0, 0]"
  have sz: "fw_size ?o = 2" "fw_offset ?o = 1" by code_simp+
  have "msg_ok (request ?o)" by (simp add: msg_ok_def msg_wf_def demo_request_def)
  moreover have "payload_size (request ?o) = 8" by (simp add: demo_request_def)
  ultimately show ?thesis
    using gb_firmware_get_firmware_exact [of ?o 2048 "[9, 8, 7, 6]"] sz by simp
qed

end
