(* ===== verification/GB_ES2.thy ===== *)
theory GB_ES2
  imports GB_Connection
begin

text \<open>
  The USB host drivers es2.c and es1.c: the pool of urbs that carry outgoing messages, the cport id in
  the padding of a message header, the mapping of cports to bulk endpoints, probing and disconnecting,
  and the log of the bridge. Messages are named by their operation and side, as in the operation
  core; \<open>messages\<close> holds the buffer of every message that exists, so that a freed message is \<open>None\<close>.
  Urbs live in a store with their reference count. The USB core holds a reference on an urb from a
  successful submission until its completion handler has run.
\<close>

section \<open>State\<close>

type_synonym msg = "nat \<times> msg_side"

text \<open>An urb: references, endpoint and length it was filled with, and the message it carries, if submitted.\<close>

record urb =
  urb_refs :: nat
  urb_endpoint :: u8
  urb_length :: nat
  urb_message :: "msg option"

text \<open>
  The driver's private data. The tables of in urbs and their buffers are indexed by endpoint and
  number (\<open>4 * bulk_in + i\<close>); in urbs have a store of their own, with whether they are submitted.
  The private data is part of the host device, whose references are \<open>hd_kref\<close>.
\<close>

record es1_ap_dev =
  es_num_cports :: nat
  cport_in_endpoints :: "u8 list"
  cport_out_endpoints :: "u8 list"
  cport_in_urb :: "nat option list"
  cport_in_buffer :: "bool list"
  cport_out_urb :: "nat option list"
  cport_out_urb_busy :: "bool list"
  cport_out_urb_cancelled :: "bool list"
  cport_to_ep_table :: "nat list"
  urb_store :: "nat \<Rightarrow> urb option"
  next_urb :: nat
  in_urb_store :: "nat \<Rightarrow> bool option"
  next_in_urb :: nat
  hd_kref :: nat
  hcpriv :: "msg \<Rightarrow> nat option"
  messages :: "msg \<Rightarrow> bytes option"
  timestamps_pushed :: "msg list"

abbreviation (input) NUM_BULKS :: nat where "NUM_BULKS \<equiv> 7"
abbreviation (input) NUM_CPORT_IN_URB :: nat where "NUM_CPORT_IN_URB \<equiv> 4"
abbreviation (input) NUM_CPORT_OUT_URB :: nat where "NUM_CPORT_OUT_URB \<equiv> 56"
abbreviation (input) EPROTO :: int where "EPROTO \<equiv> 71"
abbreviation (input) EOVERFLOW :: int where "EOVERFLOW \<equiv> 75"
abbreviation (input) ECONNRESET :: int where "ECONNRESET \<equiv> 104"

section \<open>The USB core\<close>

definition set_urb :: "es1_ap_dev \<Rightarrow> nat \<Rightarrow> urb \<Rightarrow> es1_ap_dev" where
  [gb_defs]: "set_urb e u x = e\<lparr>urb_store := (urb_store e)(u \<mapsto> x)\<rparr>"

definition usb_alloc_urb :: "bool \<Rightarrow> es1_ap_dev \<Rightarrow> nat option \<times> es1_ap_dev" where
  "usb_alloc_urb ok e =
     (if ok then (Some (next_urb e),
        (set_urb e (next_urb e) \<lparr>urb_refs = 1, urb_endpoint = 0, urb_length = 0, urb_message = None\<rparr>)
          \<lparr>next_urb := next_urb e + 1\<rparr>)
      else (None, e))"

text \<open>usb_get_urb and usb_free_urb accept NULL; the last reference frees the urb.\<close>

definition usb_get_urb :: "nat option \<Rightarrow> es1_ap_dev \<Rightarrow> es1_ap_dev option" where
  "usb_get_urb uo e = (case uo of None \<Rightarrow> Some e
     | Some u \<Rightarrow> do { x \<leftarrow> urb_store e u; Some (set_urb e u (x\<lparr>urb_refs := urb_refs x + 1\<rparr>)) })"

definition usb_free_urb :: "nat option \<Rightarrow> es1_ap_dev \<Rightarrow> es1_ap_dev option" where
  "usb_free_urb uo e = (case uo of None \<Rightarrow> Some e
     | Some u \<Rightarrow> do {
         x \<leftarrow> urb_store e u;
         Some (if urb_refs x \<le> 1 then e\<lparr>urb_store := (urb_store e)(u := None)\<rparr>
               else set_urb e u (x\<lparr>urb_refs := urb_refs x - 1\<rparr>)) })"

text \<open>usb_fill_bulk_urb and usb_submit_urb; \<open>ret\<close> is the answer of the host controller.\<close>

definition usb_submit_urb :: "es1_ap_dev \<Rightarrow> nat \<Rightarrow> u8 \<Rightarrow> nat \<Rightarrow> msg \<Rightarrow> int \<Rightarrow> (int \<times> es1_ap_dev) option" where
  "usb_submit_urb e u ep len m ret = do {
     x \<leftarrow> urb_store e u;
     let x = x\<lparr>urb_endpoint := ep, urb_length := len\<rparr>;
     Some (ret, set_urb e u (if ret \<noteq> 0 then x else x\<lparr>urb_refs := urb_refs x + 1, urb_message := Some m\<rparr>))
   }"

section \<open>Endpoints\<close>

definition cport_to_ep :: "es1_ap_dev \<Rightarrow> u16 \<Rightarrow> nat option" where
  "cport_to_ep e cport =
     (if es_num_cports e \<le> unat cport then Some 0
      else if unat cport < length (cport_to_ep_table e) then Some (cport_to_ep_table e ! unat cport)
      else None)"

definition ep_in_use :: "es1_ap_dev \<Rightarrow> nat \<Rightarrow> bool option" where
  "ep_in_use e ep =
     (if length (cport_to_ep_table e) < es_num_cports e then None
      else Some (ep \<in> set (take (es_num_cports e) (cport_to_ep_table e))))"

text \<open>
  map_cport_to_ep: \<open>ok\<close> is whether kmalloc succeeds, \<open>ret\<close> the result of usb_control_msg. The result
  has the four bytes of the vendor request that was sent, if any.
\<close>

definition map_cport_to_ep ::
    "es1_ap_dev \<Rightarrow> u16 \<Rightarrow> int \<Rightarrow> bool \<Rightarrow> int \<Rightarrow> (int \<times> bytes option \<times> es1_ap_dev) option" where
  "map_cport_to_ep e cport bulk_ep_set ok ret =
     (if bulk_ep_set < 0 \<or> int NUM_BULKS \<le> bulk_ep_set then Some (- EINVAL, None, e)
      else if es_num_cports e \<le> unat cport then Some (- EINVAL, None, e)
      else do {
        let ep = nat bulk_ep_set;
        used \<leftarrow> (if ep \<noteq> 0 then ep_in_use e ep else Some False);
        if used then Some (- EINVAL, None, e)
        else if \<not> ok then Some (- ENOMEM, None, e)
        else if unat cport < length (cport_to_ep_table e) then do {
          let e1 = e\<lparr>cport_to_ep_table := (cport_to_ep_table e)[unat cport := ep]\<rparr>;
          epin \<leftarrow> rd8 (cport_in_endpoints e1) ep;
          epout \<leftarrow> rd8 (cport_out_endpoints e1) ep;
          Some (if ret = 4 then 0 else ret, Some (cpu_to_le16 cport @ [epin, epout]), e1)
        } else None
      })"

definition unmap_cport :: "es1_ap_dev \<Rightarrow> u16 \<Rightarrow> bool \<Rightarrow> int \<Rightarrow> (int \<times> bytes option \<times> es1_ap_dev) option" where
  "unmap_cport e cport ok ret = map_cport_to_ep e cport 0 ok ret"

section \<open>The pool of urbs\<close>

definition free_index :: "es1_ap_dev \<Rightarrow> nat option" where
  "free_index e = List.find (\<lambda>i. \<not> cport_out_urb_busy e ! i \<and> \<not> cport_out_urb_cancelled e ! i)
     [0..<length (cport_out_urb e)]"

definition next_free_urb :: "es1_ap_dev \<Rightarrow> bool \<Rightarrow> nat option \<times> es1_ap_dev" where
  "next_free_urb e alloc_ok =
     (case free_index e of
        None \<Rightarrow> usb_alloc_urb alloc_ok e
      | Some i \<Rightarrow>
          (let e1 = e\<lparr>cport_out_urb_busy := (cport_out_urb_busy e)[i := True]\<rparr> in
           case cport_out_urb e ! i of
             Some u \<Rightarrow> (Some u, e1)
           | None \<Rightarrow> usb_alloc_urb alloc_ok e1))"

definition pool_index :: "es1_ap_dev \<Rightarrow> nat option \<Rightarrow> nat option" where
  "pool_index e uo = List.find (\<lambda>i. cport_out_urb e ! i = uo) [0..<length (cport_out_urb e)]"

definition free_urb :: "es1_ap_dev \<Rightarrow> nat \<Rightarrow> es1_ap_dev option" where
  "free_urb e u =
     (case pool_index e (Some u) of
        Some i \<Rightarrow> usb_free_urb None (e\<lparr>cport_out_urb_busy := (cport_out_urb_busy e)[i := False]\<rparr>)
      | None \<Rightarrow> usb_free_urb (Some u) e)"

section \<open>Messages\<close>

text \<open>The cport id travels in the first padding byte of the header, at offset 6.\<close>

definition gb_message_cport_pack :: "bytes \<Rightarrow> u16 \<Rightarrow> bytes option" where
  "gb_message_cport_pack buf cport = wr_bytes buf 6 [ucast cport]"

definition gb_message_cport_clear :: "bytes \<Rightarrow> bytes option" where
  "gb_message_cport_clear buf = wr_bytes buf 6 [0]"

definition gb_message_cport_unpack :: "bytes \<Rightarrow> (u16 \<times> bytes) option" where
  "gb_message_cport_unpack buf = do {
     b \<leftarrow> rd8 buf 6;
     buf' \<leftarrow> gb_message_cport_clear buf;
     Some (ucast b, buf')
   }"

definition es_cport_id_valid :: "es1_ap_dev \<Rightarrow> u16 \<Rightarrow> bool" where
  "es_cport_id_valid e cport \<longleftrightarrow> cport \<noteq> CPORT_ID_BAD \<and> unat cport < es_num_cports e"

text \<open>Writing to message->hcpriv and message->header is an access to the message.\<close>

definition set_hcpriv :: "es1_ap_dev \<Rightarrow> msg \<Rightarrow> nat option \<Rightarrow> es1_ap_dev option" where
  [gb_defs]: "set_hcpriv e m uo = do { _ \<leftarrow> messages e m; Some (e\<lparr>hcpriv := (hcpriv e)(m := uo)\<rparr>) }"

definition set_buffer :: "es1_ap_dev \<Rightarrow> msg \<Rightarrow> bytes \<Rightarrow> es1_ap_dev" where
  [gb_defs]: "set_buffer e m buf = e\<lparr>messages := (messages e)(m \<mapsto> buf)\<rparr>"

text \<open>message_send once an urb has been found.\<close>

definition send_on_urb :: "es1_ap_dev \<Rightarrow> u8 \<Rightarrow> u16 \<Rightarrow> msg \<Rightarrow> nat \<Rightarrow> int \<Rightarrow> (int \<times> es1_ap_dev) option" where
  "send_on_urb e ep cport m u submit_ret = do {
     e1 \<leftarrow> set_hcpriv e m (Some u);
     buf \<leftarrow> messages e1 m;
     buf1 \<leftarrow> gb_message_cport_pack buf cport;
     let e2 = (set_buffer e1 m buf1)\<lparr>timestamps_pushed := timestamps_pushed e1 @ [m]\<rparr>;
     (retval, e3) \<leftarrow> usb_submit_urb e2 u ep (length buf1) m submit_ret;
     if retval \<noteq> 0 then do {
       e4 \<leftarrow> set_hcpriv e3 m None;
       e5 \<leftarrow> free_urb e4 u;
       buf2 \<leftarrow> gb_message_cport_clear buf1;
       Some (retval, set_buffer e5 m buf2)
     } else Some (0, e3)
   }"

definition message_send :: "es1_ap_dev \<Rightarrow> u16 \<Rightarrow> msg \<Rightarrow> bool \<Rightarrow> int \<Rightarrow> (int \<times> es1_ap_dev) option" where
  "message_send e cport m alloc_ok submit_ret =
     (if \<not> es_cport_id_valid e cport then Some (- EINVAL, e)
      else case next_free_urb e alloc_ok of
        (None, e1) \<Rightarrow> Some (- ENOMEM, e1)
      | (Some u, e1) \<Rightarrow> do {
          bulk_ep_set \<leftarrow> cport_to_ep e1 cport;
          ep \<leftarrow> rd8 (cport_out_endpoints e1) bulk_ep_set;
          send_on_urb e1 ep cport m u submit_ret
        })"

text \<open>
  message_cancel up to usb_kill_urb, and after it. usb_kill_urb returns when the urb is not
  submitted and its completion handler has finished; between the two parts other handlers run.
\<close>

definition message_cancel_begin :: "es1_ap_dev \<Rightarrow> msg \<Rightarrow> ((nat option \<times> nat option) \<times> es1_ap_dev) option" where
  "message_cancel_begin e m = do {
     _ \<leftarrow> messages e m;
     let u = hcpriv e m;
     e1 \<leftarrow> usb_get_urb u e;
     let i = pool_index e1 u;
     Some ((u, i), case i of None \<Rightarrow> e1
       | Some j \<Rightarrow> e1\<lparr>cport_out_urb_cancelled := (cport_out_urb_cancelled e1)[j := True]\<rparr>)
   }"

definition message_cancel_end :: "es1_ap_dev \<Rightarrow> nat option \<Rightarrow> nat option \<Rightarrow> es1_ap_dev option" where
  "message_cancel_end e u i =
     usb_free_urb u (case i of None \<Rightarrow> e
       | Some j \<Rightarrow> e\<lparr>cport_out_urb_cancelled := (cport_out_urb_cancelled e)[j := False]\<rparr>)"

definition check_urb_status :: "int \<Rightarrow> int" where
  "check_urb_status status =
     (if status = 0 then 0
      else if status \<in> {- EOVERFLOW, - ECONNRESET, - ENOENT, - ESHUTDOWN, - EILSEQ, - EPROTO} then status
      else - EAGAIN)"

text \<open>
  cport_out_callback. \<open>sent\<close> is what greybus_message_sent does with the message: it gets the
  checked status and tells whether the message still exists afterwards.
\<close>

definition cport_out_callback :: "es1_ap_dev \<Rightarrow> nat \<Rightarrow> int \<Rightarrow> (msg \<Rightarrow> int \<Rightarrow> bool) \<Rightarrow> es1_ap_dev option" where
  "cport_out_callback e u status sent = do {
     x \<leftarrow> urb_store e u;
     m \<leftarrow> urb_message x;
     buf \<leftarrow> messages e m;
     buf1 \<leftarrow> gb_message_cport_clear buf;
     let e1 = set_buffer e m buf1;
     let e2 = (if sent m (check_urb_status status) then e1 else e1\<lparr>messages := (messages e1)(m := None)\<rparr>);
     e3 \<leftarrow> set_hcpriv e2 m None;
     free_urb e3 u
   }"

text \<open>Completion of an urb: the USB core runs the handler and drops its reference.\<close>

definition usb_giveback :: "es1_ap_dev \<Rightarrow> nat \<Rightarrow> int \<Rightarrow> (msg \<Rightarrow> int \<Rightarrow> bool) \<Rightarrow> es1_ap_dev option" where
  "usb_giveback e u status sent = do {
     e1 \<leftarrow> cport_out_callback e u status sent;
     x \<leftarrow> urb_store e1 u;
     usb_free_urb (Some u) (set_urb e1 u (x\<lparr>urb_message := None\<rparr>))
   }"

text \<open>
  cport_in_callback: the data handed to greybus_data_rcvd, if any, whether the urb is submitted
  again, and the transfer buffer afterwards.
\<close>

definition cport_in_callback ::
    "es1_ap_dev \<Rightarrow> int \<Rightarrow> bytes \<Rightarrow> nat \<Rightarrow> ((u16 \<times> bytes) option \<times> bool \<times> bytes) option" where
  "cport_in_callback e urb_status buf actual_length =
     (let status = check_urb_status urb_status in
      if status \<noteq> 0 then Some (None, status = - EAGAIN \<or> status = - EPROTO, buf)
      else if actual_length < HDR_SIZE then Some (None, True, buf)
      else do {
        (cport, buf1) \<leftarrow> gb_message_cport_unpack buf;
        if es_cport_id_valid e cport then do {
          data \<leftarrow> rd_bytes buf1 0 actual_length;
          Some (Some (cport, data), True, buf1)
        } else Some (None, True, buf1)
      })"

section \<open>Probing and disconnecting\<close>

text \<open>apb1_get_cport_count: \<open>ret\<close> and \<open>data\<close> are the answer to the vendor request.\<close>

definition apb1_get_cport_count :: "bool \<Rightarrow> int \<Rightarrow> u8 \<times> u8 \<Rightarrow> int" where
  "apb1_get_cport_count ok ret data =
     (if \<not> ok then - ENOMEM
      else if ret < 0 then ret
      else let n = int (unat (le16_to_cpu (fst data) (snd data))) in if 255 < n then 255 else n)"

datatype endpoint_kind = Bulk_in | Bulk_out | Other_endpoint

text \<open>The scan of the endpoints; the tables have one entry per pair of bulk endpoints.\<close>

fun find_endpoints :: "(endpoint_kind \<times> u8) list \<Rightarrow> nat \<Rightarrow> nat \<Rightarrow> es1_ap_dev \<Rightarrow> (nat \<times> nat \<times> es1_ap_dev) option" where
  "find_endpoints [] bulk_in bulk_out e = Some (bulk_in, bulk_out, e)"
| "find_endpoints ((k, a) # es) bulk_in bulk_out e =
     (case k of
        Bulk_in \<Rightarrow> (if bulk_in < length (cport_in_endpoints e)
          then find_endpoints es (bulk_in + 1) bulk_out (e\<lparr>cport_in_endpoints := (cport_in_endpoints e)[bulk_in := a]\<rparr>)
          else None)
      | Bulk_out \<Rightarrow> (if bulk_out < length (cport_out_endpoints e)
          then find_endpoints es bulk_in (bulk_out + 1) (e\<lparr>cport_out_endpoints := (cport_out_endpoints e)[bulk_out := a]\<rparr>)
          else None)
      | Other_endpoint \<Rightarrow> find_endpoints es bulk_in bulk_out e)"

text \<open>
  The loop that starts the in urbs. For each of them the environment tells whether usb_alloc_urb and
  kmalloc succeed and what usb_submit_urb returns. The result is whether the loop came to its end, and the
  variable retval, which keeps the result of the last submission.
\<close>

fun start_in_urbs ::
    "nat list \<Rightarrow> (nat \<Rightarrow> bool \<times> bool \<times> int) \<Rightarrow> int \<Rightarrow> es1_ap_dev \<Rightarrow> bool \<times> int \<times> es1_ap_dev" where
  "start_in_urbs [] ans retval e = (True, retval, e)"
| "start_in_urbs (k # ks) ans retval e =
     (case ans k of (urb_ok, buf_ok, ret) \<Rightarrow>
        if \<not> urb_ok then (False, retval, e)
        else
          let u = next_in_urb e;
              e1 = e\<lparr>in_urb_store := (in_urb_store e)(u \<mapsto> False), next_in_urb := u + 1\<rparr>
          in if \<not> buf_ok then (False, retval, e1)
             else
               let e2 = e1\<lparr>cport_in_urb := (cport_in_urb e1)[k := Some u],
                           cport_in_buffer := (cport_in_buffer e1)[k := True]\<rparr>
               in if ret \<noteq> 0 then (False, ret, e2)
                  else start_in_urbs ks ans ret (e2\<lparr>in_urb_store := (in_urb_store e2)(u \<mapsto> True)\<rparr>))"

fun alloc_out_urbs :: "nat list \<Rightarrow> (nat \<Rightarrow> bool) \<Rightarrow> es1_ap_dev \<Rightarrow> bool \<times> es1_ap_dev" where
  "alloc_out_urbs [] ans e = (True, e)"
| "alloc_out_urbs (i # is) ans e =
     (case usb_alloc_urb (ans i) e of
        (None, e1) \<Rightarrow> (False, e1)
      | (Some u, e1) \<Rightarrow> alloc_out_urbs is ans
          (e1\<lparr>cport_out_urb := (cport_out_urb e1)[i := Some u],
              cport_out_urb_busy := (cport_out_urb_busy e1)[i := False]\<rparr>))"

text \<open>
  The teardown loops stop at the first NULL. Killing an urb makes it idle: an out urb completes
  (its handler reports the message with an error), an in urb is dropped. The in urbs are not
  cleared from the table.
\<close>

fun drop_out_urbs :: "nat list \<Rightarrow> es1_ap_dev \<Rightarrow> es1_ap_dev option" where
  "drop_out_urbs [] e = Some e"
| "drop_out_urbs (i # is) e =
     (case cport_out_urb e ! i of
        None \<Rightarrow> Some e
      | Some u \<Rightarrow> do {
          x \<leftarrow> urb_store e u;
          e1 \<leftarrow> (if urb_message x = None then Some e else usb_giveback e u (- ENOENT) (\<lambda>_ _. True));
          e2 \<leftarrow> usb_free_urb (Some u) e1;
          drop_out_urbs is (e2\<lparr>cport_out_urb := (cport_out_urb e2)[i := None],
                                cport_out_urb_busy := (cport_out_urb_busy e2)[i := False]\<rparr>)
        })"

fun drop_in_urbs :: "nat list \<Rightarrow> es1_ap_dev \<Rightarrow> es1_ap_dev option" where
  "drop_in_urbs [] e = Some e"
| "drop_in_urbs (k # ks) e =
     (case cport_in_urb e ! k of
        None \<Rightarrow> Some e
      | Some u \<Rightarrow> do {
          _ \<leftarrow> in_urb_store e u;
          drop_in_urbs ks (e\<lparr>in_urb_store := (in_urb_store e)(u := None),
                             cport_in_buffer := (cport_in_buffer e)[k := False]\<rparr>)
        })"

fun drop_all_in_urbs :: "nat list \<Rightarrow> es1_ap_dev \<Rightarrow> es1_ap_dev option" where
  "drop_all_in_urbs [] e = Some e"
| "drop_all_in_urbs (b # bs) e = do {
     e1 \<leftarrow> drop_in_urbs [NUM_CPORT_IN_URB * b ..< NUM_CPORT_IN_URB * (b + 1)] e;
     drop_all_in_urbs bs e1
   }"

text \<open>
  ap_disconnect of es2.c. greybus_remove_hd drops the reference of the driver on the host device; the last
  one frees it together with the private data, which the next statement of ap_disconnect reads.
\<close>

definition ap_disconnect :: "es1_ap_dev \<Rightarrow> es1_ap_dev option" where
  "ap_disconnect e = do {
     e1 \<leftarrow> drop_out_urbs [0..<length (cport_out_urb e)] e;
     e2 \<leftarrow> drop_all_in_urbs [0..<NUM_BULKS] e1;
     let e3 = e2\<lparr>hd_kref := hd_kref e2 - 1\<rparr>;
     if hd_kref e3 = 0 then None else Some (e3\<lparr>cport_to_ep_table := []\<rparr>)
   }"

definition fresh_es :: "nat \<Rightarrow> nat \<Rightarrow> nat \<Rightarrow> nat \<Rightarrow> es1_ap_dev" where
  "fresh_es ncports eps ins outs =
     \<lparr>es_num_cports = ncports, cport_in_endpoints = replicate eps 0, cport_out_endpoints = replicate eps 0,
      cport_in_urb = replicate ins None, cport_in_buffer = replicate ins False,
      cport_out_urb = replicate outs None, cport_out_urb_busy = replicate outs False,
      cport_out_urb_cancelled = replicate outs False, cport_to_ep_table = replicate ncports 0,
      urb_store = (\<lambda>_. None), next_urb = 0, in_urb_store = (\<lambda>_. None), next_in_urb = 0, hd_kref = 1,
      hcpriv = (\<lambda>_. None), messages = (\<lambda>_. None), timestamps_pushed = []\<rparr>"

text \<open>
  ap_probe of es2.c after greybus_create_hd has returned a host device with \<open>n\<close> cports. \<open>Inl\<close> is the
  failure: the value returned after ap_disconnect.
\<close>

definition ap_probe ::
    "nat \<Rightarrow> bool \<Rightarrow> (endpoint_kind \<times> u8) list \<Rightarrow> (nat \<Rightarrow> bool \<times> bool \<times> int) \<Rightarrow> (nat \<Rightarrow> bool) \<Rightarrow>
     ((int + unit) \<times> es1_ap_dev) option" where
  "ap_probe n table_ok eps in_ans out_ans =
     (let e = fresh_es n NUM_BULKS (NUM_BULKS * NUM_CPORT_IN_URB) NUM_CPORT_OUT_URB;
          fail = (\<lambda>ret e. do { e' \<leftarrow> ap_disconnect e; Some (Inl ret, e') })
      in if \<not> table_ok then fail (- ENOMEM) (e\<lparr>cport_to_ep_table := []\<rparr>)
         else do {
           (bulk_in, bulk_out, e1) \<leftarrow> find_endpoints eps 0 0 e;
           if bulk_in = 0 \<or> bulk_out = 0 then fail (- ENOMEM) e1
           else case start_in_urbs [0..<NUM_BULKS * NUM_CPORT_IN_URB] in_ans (- ENOMEM) e1 of
             (done, retval, e2) \<Rightarrow>
               if \<not> done then fail retval e2
               else case alloc_out_urbs [0..<NUM_CPORT_OUT_URB] out_ans e2 of
                 (done, e3) \<Rightarrow> if \<not> done then fail retval e3 else Some (Inr (), e3)
         })"

section \<open>The log of the bridge\<close>

text \<open>
  apb1_log_get reads messages of at most 64 bytes until the bridge has no more; kfifo_in stores what
  fits. The argument is what the bridge answers, one entry per request.
\<close>

abbreviation (input) APB1_LOG_SIZE :: nat where "APB1_LOG_SIZE \<equiv> 16384"

definition kfifo_in_bytes :: "nat \<Rightarrow> bytes \<Rightarrow> bytes \<Rightarrow> bytes" where
  "kfifo_in_bytes cap fifo b = fifo @ take (cap - length fifo) b"

fun apb1_log_get :: "(int \<times> bytes) list \<Rightarrow> bytes \<Rightarrow> bytes" where
  "apb1_log_get [] fifo = fifo"
| "apb1_log_get ((retval, buf) # rest) fifo =
     (if 0 < retval then apb1_log_get rest (kfifo_in_bytes APB1_LOG_SIZE fifo (take (nat retval) buf)) else fifo)"

text \<open>simple_read_from_buffer copies from position \<open>pos\<close> of the \<open>avail\<close> bytes.\<close>

definition simple_read_from_buffer :: "nat \<Rightarrow> nat \<Rightarrow> bytes \<Rightarrow> bytes \<times> nat" where
  "simple_read_from_buffer count pos from = (let d = take count (drop pos from) in (d, pos + length d))"

definition apb1_log_read :: "bool \<Rightarrow> nat \<Rightarrow> nat \<Rightarrow> bytes \<Rightarrow> (int + bytes) \<times> nat \<times> bytes" where
  "apb1_log_read ok count pos fifo =
     (let count = min count APB1_LOG_SIZE in
      if \<not> ok then (Inl (- ENOMEM), pos, fifo)
      else case simple_read_from_buffer count pos (take count fifo) of
        (d, pos') \<Rightarrow> (Inr d, pos', drop count fifo))"

section \<open>ES1\<close>

text \<open>
  es1.c has the same pool, callbacks and cancellation with eight out urbs, and a single pair of
  endpoints instead of a table; these are the functions in which it differs.
\<close>

definition es1_message_send :: "es1_ap_dev \<Rightarrow> u16 \<Rightarrow> msg \<Rightarrow> bool \<Rightarrow> int \<Rightarrow> (int \<times> es1_ap_dev) option" where
  "es1_message_send e cport m alloc_ok submit_ret =
     (if \<not> es_cport_id_valid e cport then Some (- EINVAL, e)
      else case next_free_urb e alloc_ok of
        (None, e1) \<Rightarrow> Some (- ENOMEM, e1)
      | (Some u, e1) \<Rightarrow> do {
          ep \<leftarrow> rd8 (cport_out_endpoints e1) 0;
          send_on_urb e1 ep cport m u submit_ret
        })"

definition es1_ap_disconnect :: "es1_ap_dev \<Rightarrow> es1_ap_dev option" where
  "es1_ap_disconnect e = do {
     e1 \<leftarrow> drop_out_urbs [0..<length (cport_out_urb e)] e;
     e2 \<leftarrow> drop_in_urbs [0..<NUM_CPORT_IN_URB] e1;
     Some (e2\<lparr>hd_kref := hd_kref e2 - 1\<rparr>)
   }"

fun es1_find_endpoints :: "(endpoint_kind \<times> u8) list \<Rightarrow> bool \<Rightarrow> bool \<Rightarrow> es1_ap_dev \<Rightarrow> bool \<times> bool \<times> es1_ap_dev" where
  "es1_find_endpoints [] fin fout e = (fin, fout, e)"
| "es1_find_endpoints ((k, a) # es) fin fout e =
     (case k of
        Bulk_in \<Rightarrow> es1_find_endpoints es True fout (e\<lparr>cport_in_endpoints := [a]\<rparr>)
      | Bulk_out \<Rightarrow> es1_find_endpoints es fin True (e\<lparr>cport_out_endpoints := [a]\<rparr>)
      | Other_endpoint \<Rightarrow> es1_find_endpoints es fin fout e)"

definition es1_ap_probe ::
    "(endpoint_kind \<times> u8) list \<Rightarrow> (nat \<Rightarrow> bool \<times> bool \<times> int) \<Rightarrow> (nat \<Rightarrow> bool) \<Rightarrow> (int \<times> es1_ap_dev) option" where
  "es1_ap_probe eps in_ans out_ans =
     (let e = fresh_es 256 1 NUM_CPORT_IN_URB 8;
          fail = (\<lambda>ret e. do { e' \<leftarrow> es1_ap_disconnect e; Some (ret, e') })
      in case es1_find_endpoints eps False False e of (fin, fout, e1) \<Rightarrow>
           if \<not> fin \<or> \<not> fout then fail (- ENOMEM) e1
           else case start_in_urbs [0..<NUM_CPORT_IN_URB] in_ans (- ENOMEM) e1 of
             (done, retval, e2) \<Rightarrow>
               if \<not> done then fail retval e2
               else case alloc_out_urbs [0..<8] out_ans e2 of
                 (done, e3) \<Rightarrow> if \<not> done then fail retval e3 else Some (0, e3))"

end
