(* ===== verification/GB_ES2_Props.thy ===== *)
theory GB_ES2_Props
  imports GB_ES2 GB_Machine
begin

text \<open>
  The urb pool as a state machine: messages are sent, complete and are cancelled in any order. The
  invariant ties the flags of the pool, the references of the urbs, the messages' back pointers and
  the cancellations in progress together. From it follow the absence of faults in every run, and
  that a cancellation never hits an urb that carries another message.
\<close>

text \<open>Messages are pairs; quantifiers over them stay as they are.\<close>

declare split_paired_All [simp del] split_paired_Ex [simp del] not_None_eq [simp del]

section \<open>Lookup in the pool\<close>

lemma find_upt_Some: "List.find P [0..<n] = Some i \<Longrightarrow> i < n \<and> P i"
  by (auto simp: find_Some_iff)

lemma find_upt_None: "List.find P [0..<n] = None \<longleftrightarrow> (\<forall>i<n. \<not> P i)"
  by (auto simp: find_None_iff)

lemma free_index_Some:
  "free_index e = Some i \<Longrightarrow>
   i < length (cport_out_urb e) \<and> \<not> cport_out_urb_busy e ! i \<and> \<not> cport_out_urb_cancelled e ! i"
  unfolding free_index_def by (drule find_upt_Some) simp

lemma pool_index_Some: "pool_index e uo = Some i \<Longrightarrow> i < length (cport_out_urb e) \<and> cport_out_urb e ! i = uo"
  unfolding pool_index_def by (drule find_upt_Some) simp

lemma pool_index_None: "pool_index e uo = None \<longleftrightarrow> uo \<notin> set (cport_out_urb e)"
  by (auto simp: pool_index_def find_upt_None in_set_conv_nth)

lemma pool_index_cong: "cport_out_urb e' = cport_out_urb e \<Longrightarrow> pool_index e' uo = pool_index e uo"
  by (simp add: pool_index_def)

lemma pool_index_nth:
  assumes "distinct (cport_out_urb e)" "i < length (cport_out_urb e)"
  shows "pool_index e (cport_out_urb e ! i) = Some i"
proof (cases "pool_index e (cport_out_urb e ! i)")
  case None
  then show ?thesis using assms(2) by (simp add: pool_index_None)
next
  case (Some j)
  then show ?thesis using assms pool_index_Some [OF Some] by (auto simp: nth_eq_iff_index_eq)
qed

lemma not_True_nth: "True \<notin> set xs \<Longrightarrow> i < length xs \<Longrightarrow> \<not> xs ! i"
  by (metis nth_mem)

section \<open>The machine\<close>

text \<open>A cancellation in progress: the message, its urb and the urb's place in the pool.\<close>

type_synonym cancel = "msg \<times> nat option \<times> nat option"
type_synonym es_state = "es1_ap_dev \<times> cancel list"

datatype es_event =
    Es_new msg bytes
  | Es_release msg
  | Es_send u16 msg bool int
  | Es_complete nat int
  | Es_cancel msg
  | Es_cancel_done cancel

text \<open>Whether the urb, if there is one, is idle.\<close>

definition idle :: "es1_ap_dev \<Rightarrow> nat option \<Rightarrow> bool" where
  "idle e uo = (case uo of None \<Rightarrow> True
     | Some u \<Rightarrow> (case urb_store e u of None \<Rightarrow> True | Some x \<Rightarrow> urb_message x = None))"

text \<open>
  The obligations of the operation core and of USB: a message is sent once at a time, is not freed while
  it is in flight, is cancelled by one thread at a time; an urb completes while it is submitted; the
  kill of an urb returns when the urb is idle.
\<close>

fun es_enabled :: "es_state \<Rightarrow> es_event \<Rightarrow> bool" where
  "es_enabled (e, cs) (Es_new m buf) = (messages e m = None \<and> HDR_SIZE \<le> length buf)"
| "es_enabled (e, cs) (Es_release m) = (messages e m \<noteq> None \<and> hcpriv e m = None)"
| "es_enabled (e, cs) (Es_send cport m ok ret) = (messages e m \<noteq> None \<and> hcpriv e m = None)"
| "es_enabled (e, cs) (Es_complete u status) = (\<not> idle e (Some u))"
| "es_enabled (e, cs) (Es_cancel m) = (messages e m \<noteq> None \<and> m \<notin> fst ` set cs)"
| "es_enabled (e, cs) (Es_cancel_done c) = (c \<in> set cs \<and> idle e (fst (snd c)))"

fun es_exec :: "es_state \<Rightarrow> es_event \<Rightarrow> es_state option" where
  "es_exec (e, cs) (Es_new m buf) = Some (set_buffer e m buf, cs)"
| "es_exec (e, cs) (Es_release m) = Some (e\<lparr>messages := (messages e)(m := None)\<rparr>, cs)"
| "es_exec (e, cs) (Es_send cport m ok ret) = do { (r, e') \<leftarrow> message_send e cport m ok ret; Some (e', cs) }"
| "es_exec (e, cs) (Es_complete u status) = do { e' \<leftarrow> usb_giveback e u status (\<lambda>_ _. True); Some (e', cs) }"
| "es_exec (e, cs) (Es_cancel m) = do { ((u, i), e') \<leftarrow> message_cancel_begin e m; Some (e', (m, u, i) # cs) }"
| "es_exec (e, cs) (Es_cancel_done c) = do {
     e' \<leftarrow> message_cancel_end e (fst (snd c)) (snd (snd c)); Some (e', remove1 c cs) }"

section \<open>Invariant\<close>

text \<open>How many cancellations hold the urb, and the references an urb has to have.\<close>

definition holds :: "cancel list \<Rightarrow> nat \<Rightarrow> nat" where
  "holds cs u = length (filter (\<lambda>c. fst (snd c) = Some u) cs)"

definition held_only_for :: "cancel list \<Rightarrow> nat \<Rightarrow> msg \<Rightarrow> bool" where
  "held_only_for cs u m \<longleftrightarrow> (\<forall>c\<in>set cs. fst (snd c) = Some u \<longrightarrow> fst c = m)"

definition in_pool :: "es1_ap_dev \<Rightarrow> nat \<Rightarrow> bool" where
  "in_pool e u \<longleftrightarrow> Some u \<in> set (cport_out_urb e)"

text \<open>
  One urb: the driver owns it while it is in the pool or in flight, the USB core while it is in
  flight, every cancellation holds one reference. A freed urb is in nobody's hands. An urb in
  flight is the one its message points to, and only cancellations of that message hold it.
\<close>

definition urb_ok :: "es_state \<Rightarrow> nat \<Rightarrow> bool" where
  "urb_ok s u \<longleftrightarrow> (case s of (e, cs) \<Rightarrow>
     (case urb_store e u of
        None \<Rightarrow> \<not> in_pool e u \<and> holds cs u = 0 \<and> (\<forall>m. hcpriv e m \<noteq> Some u)
      | Some x \<Rightarrow> u < next_urb e \<and> 0 < urb_refs x \<and>
          urb_refs x = (if in_pool e u \<or> urb_message x \<noteq> None then 1 else 0) +
                       (if urb_message x \<noteq> None then 1 else 0) + holds cs u \<and>
          (\<forall>m. hcpriv e m = Some u \<longleftrightarrow> urb_message x = Some m) \<and>
          (\<forall>m. urb_message x = Some m \<longrightarrow> held_only_for cs u m)))"

lemma urb_ok_Some:
  "urb_store e u = Some x \<Longrightarrow> urb_ok (e, cs) u \<longleftrightarrow>
     u < next_urb e \<and> 0 < urb_refs x \<and>
     urb_refs x = (if in_pool e u \<or> urb_message x \<noteq> None then 1 else 0) +
       (if urb_message x \<noteq> None then 1 else 0) + holds cs u \<and>
     (\<forall>m. hcpriv e m = Some u \<longleftrightarrow> urb_message x = Some m) \<and>
     (\<forall>m. urb_message x = Some m \<longrightarrow> held_only_for cs u m)"
  by (simp add: urb_ok_def)

lemma urb_ok_None:
  "urb_store e u = None \<Longrightarrow> urb_ok (e, cs) u \<longleftrightarrow>
     \<not> in_pool e u \<and> holds cs u = 0 \<and> (\<forall>m. hcpriv e m \<noteq> Some u)"
  by (simp add: urb_ok_def)

text \<open>One slot of the pool: busy while its urb is in flight, cancelled while a cancellation holds it.\<close>

definition slot_ok :: "es_state \<Rightarrow> nat \<Rightarrow> bool" where
  "slot_ok s i \<longleftrightarrow> (case s of (e, cs) \<Rightarrow> \<exists>u. cport_out_urb e ! i = Some u \<and>
     (cport_out_urb_busy e ! i \<longleftrightarrow> \<not> idle e (Some u)) \<and>
     (cport_out_urb_cancelled e ! i \<longleftrightarrow> 0 < holds cs u) \<and> holds cs u \<le> 1)"

definition cancel_ok :: "es1_ap_dev \<Rightarrow> cancel \<Rightarrow> bool" where
  "cancel_ok e c \<longleftrightarrow> snd (snd c) = pool_index e (fst (snd c))"

definition es_shape :: "es1_ap_dev \<Rightarrow> bool" where
  "es_shape e \<longleftrightarrow> distinct (cport_out_urb e) \<and>
     length (cport_out_urb_busy e) = length (cport_out_urb e) \<and>
     length (cport_out_urb_cancelled e) = length (cport_out_urb e) \<and>
     length (cport_out_endpoints e) = NUM_BULKS \<and> length (cport_to_ep_table e) = es_num_cports e \<and>
     (\<forall>p\<in>set (cport_to_ep_table e). p < NUM_BULKS)"

definition msgs_ok :: "es1_ap_dev \<Rightarrow> bool" where
  "msgs_ok e \<longleftrightarrow> (\<forall>m. case messages e m of None \<Rightarrow> hcpriv e m = None | Some b \<Rightarrow> HDR_SIZE \<le> length b)"

definition es_ok :: "es_state \<Rightarrow> bool" where
  "es_ok s \<longleftrightarrow> (case s of (e, cs) \<Rightarrow>
     es_shape e \<and> msgs_ok e \<and> (\<forall>u. urb_ok s u) \<and> (\<forall>i<length (cport_out_urb e). slot_ok s i) \<and>
     (\<forall>c\<in>set cs. cancel_ok e c) \<and> distinct (map fst cs))"

text \<open>A driver that has just been probed.\<close>

definition es_init :: "es_state \<Rightarrow> bool" where
  "es_init s \<longleftrightarrow> (case s of (e, cs) \<Rightarrow>
     es_shape e \<and> cs = [] \<and> messages e = (\<lambda>_. None) \<and> hcpriv e = (\<lambda>_. None) \<and>
     None \<notin> set (cport_out_urb e) \<and>
     True \<notin> set (cport_out_urb_busy e) \<and> True \<notin> set (cport_out_urb_cancelled e) \<and>
     (\<forall>u. case urb_store e u of None \<Rightarrow> \<not> in_pool e u
        | Some x \<Rightarrow> in_pool e u \<and> u < next_urb e \<and> urb_refs x = 1 \<and> urb_message x = None))"

lemma es_init_ok: "es_init s \<Longrightarrow> es_ok s"
proof -
  assume i: "es_init s"
  obtain e cs where s: "s = (e, cs)" by fastforce
  have sh: "es_shape e" "cs = []" "messages e = (\<lambda>_. None)" "hcpriv e = (\<lambda>_. None)"
    and u: "\<And>u. case urb_store e u of None \<Rightarrow> \<not> in_pool e u
        | Some x \<Rightarrow> in_pool e u \<and> u < next_urb e \<and> urb_refs x = 1 \<and> urb_message x = None"
    using i by (auto simp: es_init_def s)
  have "urb_ok s u" for u
    using u [of u] sh by (auto simp: urb_ok_def s holds_def split: option.splits)
  moreover have "slot_ok s i" if il: "i < length (cport_out_urb e)" for i
  proof -
    obtain v where v: "cport_out_urb e ! i = Some v"
      using i nth_mem [OF il] by (cases "cport_out_urb e ! i") (auto simp: es_init_def s)
    have "\<not> cport_out_urb_busy e ! i" "\<not> cport_out_urb_cancelled e ! i"
      using il i sh(1) by (auto simp: es_init_def s es_shape_def not_True_nth)
    then show ?thesis using v u [of v] sh(2)
      by (auto simp: slot_ok_def s idle_def holds_def split: option.splits)
  qed
  ultimately show ?thesis using sh by (auto simp: es_ok_def s msgs_ok_def)
qed

text \<open>
  The rule for a step that works on one urb: everything else has to stay, the urb and its slot have
  to be right again.
\<close>

lemma es_okI:
  assumes ok: "es_ok (e, cs)"
    and sh: "es_shape e'" "msgs_ok e'" "cport_out_urb e' = cport_out_urb e" "next_urb e \<le> next_urb e'"
    and other: "\<And>v. v \<noteq> u \<Longrightarrow> urb_store e' v = urb_store e v \<and> holds cs' v = holds cs v \<and>
      (\<forall>m. hcpriv e' m = Some v \<longleftrightarrow> hcpriv e m = Some v)"
    and cs: "\<And>c. c \<in> set cs' \<Longrightarrow> fst (snd c) \<noteq> Some u \<Longrightarrow> fst (snd c) \<noteq> None \<Longrightarrow> c \<in> set cs"
    and slots: "\<And>i. i < length (cport_out_urb e) \<Longrightarrow> cport_out_urb e ! i \<noteq> Some u \<Longrightarrow>
      cport_out_urb_busy e' ! i = cport_out_urb_busy e ! i \<and>
      cport_out_urb_cancelled e' ! i = cport_out_urb_cancelled e ! i"
    and new: "urb_ok (e', cs') u"
      "\<And>i. i < length (cport_out_urb e) \<Longrightarrow> cport_out_urb e ! i = Some u \<Longrightarrow> slot_ok (e', cs') i"
    and cs': "\<And>c. c \<in> set cs' \<Longrightarrow> snd (snd c) = pool_index e (fst (snd c))" "distinct (map fst cs')"
  shows "es_ok (e', cs')"
proof -
  have "urb_ok (e', cs') v" for v
  proof (cases "v = u")
    case False
    have ov: "urb_ok (e, cs) v" using ok by (simp add: es_ok_def)
    have c: "c \<in> set cs" if "c \<in> set cs'" "fst (snd c) = Some v" for c
      using cs [OF that(1)] that(2) False by simp
    show ?thesis
    proof (cases "urb_store e v")
      case None
      then show ?thesis using ov other [OF False] sh(3) by (simp add: urb_ok_None in_pool_def)
    next
      case (Some x)
      have "\<forall>m. held_only_for cs v m \<longrightarrow> held_only_for cs' v m"
        using c by (auto simp: held_only_for_def)
      then show ?thesis using ov Some other [OF False] sh(3,4) by (auto simp: urb_ok_Some in_pool_def split: if_splits)
    qed
  qed (use new in simp)
  moreover have "slot_ok (e', cs') i" if "i < length (cport_out_urb e)" for i
  proof (cases "cport_out_urb e ! i = Some u")
    case False
    have sl: "slot_ok (e, cs) i" using ok that by (simp add: es_ok_def)
    then obtain v where v: "cport_out_urb e ! i = Some v" "v \<noteq> u" using False by (auto simp: slot_ok_def)
    show ?thesis
      using sl v other [OF v(2)] slots [OF that False] sh(3) by (auto simp: slot_ok_def idle_def)
  qed (use new that in simp)
  ultimately show ?thesis
    using sh cs' by (auto simp: es_ok_def cancel_ok_def pool_index_cong [OF sh(3)])
qed

section \<open>Consequences of the invariant\<close>

lemma es_ok_urb: "es_ok (e, cs) \<Longrightarrow> urb_ok (e, cs) u"
  by (simp add: es_ok_def)

lemma es_ok_slot: "es_ok (e, cs) \<Longrightarrow> i < length (cport_out_urb e) \<Longrightarrow> slot_ok (e, cs) i"
  by (simp add: es_ok_def)

lemma es_ok_shape: "es_ok (e, cs) \<Longrightarrow> es_shape e \<and> msgs_ok e \<and> distinct (map fst cs)"
  by (simp add: es_ok_def)

lemma es_ok_cancel: "es_ok (e, cs) \<Longrightarrow> c \<in> set cs \<Longrightarrow> snd (snd c) = pool_index e (fst (snd c))"
  by (simp add: es_ok_def cancel_ok_def)

lemma es_ok_hcpriv:
  assumes "es_ok (e, cs)" "hcpriv e m = Some u"
  obtains x where "urb_store e u = Some x" "urb_message x = Some m"
  using es_ok_urb [OF assms(1), of u] assms(2)
  by (cases "urb_store e u") (auto simp: urb_ok_Some urb_ok_None)

lemma es_ok_message:
  assumes "es_ok (e, cs)" "messages e m = Some buf"
  shows "HDR_SIZE \<le> length buf"
  using es_ok_shape [OF assms(1)] assms(2) by (auto simp: msgs_ok_def dest: spec [of _ m])

lemma es_ok_in_flight_exists:
  assumes "es_ok (e, cs)" "hcpriv e m = Some u"
  shows "messages e m \<noteq> None"
  using es_ok_shape [OF assms(1)] assms(2) by (auto simp: msgs_ok_def dest: spec [of _ m] split: option.splits)

lemma es_ok_pool_no_NULL: "es_ok (e, cs) \<Longrightarrow> None \<notin> set (cport_out_urb e)"
  using es_ok_slot by (fastforce simp: in_set_conv_nth slot_ok_def)

text \<open>The slot of an urb.\<close>

lemma es_ok_pool_slot:
  assumes "es_ok (e, cs)" "pool_index e (Some u) = Some i"
  shows "i < length (cport_out_urb e) \<and> cport_out_urb e ! i = Some u \<and> in_pool e u \<and>
    (cport_out_urb_busy e ! i \<longleftrightarrow> \<not> idle e (Some u)) \<and>
    (cport_out_urb_cancelled e ! i \<longleftrightarrow> 0 < holds cs u) \<and> holds cs u \<le> 1"
proof -
  have i: "i < length (cport_out_urb e)" "cport_out_urb e ! i = Some u"
    using pool_index_Some [OF assms(2)] by auto
  have "in_pool e u" using nth_mem [OF i(1)] i(2) by (simp add: in_pool_def)
  moreover have "(cport_out_urb_busy e ! i \<longleftrightarrow> \<not> idle e (Some u)) \<and>
    (cport_out_urb_cancelled e ! i \<longleftrightarrow> 0 < holds cs u) \<and> holds cs u \<le> 1"
    using es_ok_slot [OF assms(1) i(1)] i(2) by (simp add: slot_ok_def)
  ultimately show ?thesis using i by blast
qed

lemma in_pool_index: "in_pool e u \<longleftrightarrow> pool_index e (Some u) \<noteq> None"
  by (simp add: in_pool_def pool_index_None)

lemma holds_zero: "holds cs u = 0 \<longleftrightarrow> (\<forall>c\<in>set cs. fst (snd c) \<noteq> Some u)"
  by (simp add: holds_def filter_empty_conv)

section \<open>Sending\<close>

text \<open>The urb that message_send gets: an idle urb of the pool that no cancellation holds, or a new one.\<close>

lemma next_free_urb_cases:
  assumes "es_ok (e, cs)" "next_free_urb e ok = (uo, e1)"
  obtains (none) "uo = None" "e1 = e"
  | (pool) u i x where "uo = Some u" "pool_index e (Some u) = Some i" "urb_store e u = Some x"
      "urb_message x = None" "holds cs u = 0"
      "e1 = e\<lparr>cport_out_urb_busy := (cport_out_urb_busy e)[i := True]\<rparr>"
  | (new) "uo = Some (next_urb e)"
      "e1 = (set_urb e (next_urb e) \<lparr>urb_refs = 1, urb_endpoint = 0, urb_length = 0, urb_message = None\<rparr>)
          \<lparr>next_urb := next_urb e + 1\<rparr>"
proof (cases "free_index e")
  case None
  then have "(uo, e1) = usb_alloc_urb ok e" using assms(2) by (simp add: next_free_urb_def)
  then show ?thesis by (cases ok) (simp_all add: usb_alloc_urb_def none new)
next
  case (Some i)
  note i = free_index_Some [OF Some]
  have "distinct (cport_out_urb e)" using es_ok_shape [OF assms(1)] by (simp add: es_shape_def)
  with i have pi: "pool_index e (cport_out_urb e ! i) = Some i" by (simp add: pool_index_nth)
  obtain u where u: "cport_out_urb e ! i = Some u" "idle e (Some u)" "holds cs u = 0"
    using es_ok_slot [OF assms(1)] i by (auto simp: slot_ok_def)
  have "in_pool e u" using pi u(1) by (simp add: in_pool_index)
  then obtain x where x: "urb_store e u = Some x"
    using es_ok_urb [OF assms(1), of u] by (cases "urb_store e u") (auto simp: urb_ok_None)
  have m: "urb_message x = None" using u(2) x by (simp add: idle_def)
  have "uo = Some u" "e1 = e\<lparr>cport_out_urb_busy := (cport_out_urb_busy e)[i := True]\<rparr>"
    using assms(2) Some u(1) by (simp_all add: next_free_urb_def)
  then show ?thesis using pool [of u i x] pi u x m by simp
qed

text \<open>What remains of a send: of a successful one, and of one that the host controller refused.\<close>

definition sent_state :: "es1_ap_dev \<Rightarrow> msg \<Rightarrow> nat \<Rightarrow> bytes \<Rightarrow> urb \<Rightarrow> es1_ap_dev" where
  "sent_state e m u buf x = e\<lparr>hcpriv := (hcpriv e)(m \<mapsto> u), messages := (messages e)(m \<mapsto> buf),
     timestamps_pushed := timestamps_pushed e @ [m],
     urb_store := (urb_store e)(u \<mapsto> x\<lparr>urb_refs := urb_refs x + 1, urb_message := Some m\<rparr>)\<rparr>"

definition unsent_state :: "es1_ap_dev \<Rightarrow> msg \<Rightarrow> nat \<Rightarrow> bytes \<Rightarrow> urb option \<Rightarrow> es1_ap_dev" where
  "unsent_state e m u buf xo = e\<lparr>hcpriv := (hcpriv e)(m := None), messages := (messages e)(m \<mapsto> buf),
     timestamps_pushed := timestamps_pushed e @ [m], urb_store := (urb_store e)(u := xo)\<rparr>"

lemma wr_pad: "HDR_SIZE \<le> length buf \<Longrightarrow> \<exists>b'. wr_bytes buf 6 [x] = Some b' \<and> length b' = length buf"
  by (simp add: wr_bytes_def)

lemma send_on_urb_ok:
  assumes "urb_store e u = Some x" "messages e m = Some buf" "HDR_SIZE \<le> length buf"
  shows "\<exists>b. length b = length buf \<and> send_on_urb e ep cport m u 0 =
    Some (0, sent_state e m u b (x\<lparr>urb_endpoint := ep, urb_length := length buf\<rparr>))"
proof -
  obtain b where b: "gb_message_cport_pack buf cport = Some b" "length b = length buf"
    using wr_pad [OF assms(3)] by (auto simp: gb_message_cport_pack_def)
  then show ?thesis
    using assms(1,2)
    by (intro exI [of _ b]) (simp add: send_on_urb_def usb_submit_urb_def sent_state_def gb_defs)
qed

lemma send_on_urb_fail:
  assumes "urb_store e u = Some x" "messages e m = Some buf" "HDR_SIZE \<le> length buf" "ret \<noteq> 0"
  shows "\<exists>b. length b = length buf \<and> send_on_urb e ep cport m u ret =
    (let x' = x\<lparr>urb_endpoint := ep, urb_length := length buf\<rparr> in
     case pool_index e (Some u) of
       Some i \<Rightarrow> Some (ret, (unsent_state e m u b (Some x'))
                      \<lparr>cport_out_urb_busy := (cport_out_urb_busy e)[i := False]\<rparr>)
     | None \<Rightarrow> Some (ret, unsent_state e m u b
                      (if urb_refs x \<le> 1 then None else Some (x'\<lparr>urb_refs := urb_refs x - 1\<rparr>))))"
proof -
  obtain b where b: "gb_message_cport_pack buf cport = Some b" "length b = length buf"
    using wr_pad [OF assms(3)] by (auto simp: gb_message_cport_pack_def)
  obtain b' where b': "gb_message_cport_clear b = Some b'" "length b' = length buf"
    using wr_pad [of b] assms(3) b(2) by (auto simp: gb_message_cport_clear_def)
  show ?thesis
    using assms(1,2,4) b b'
    by (intro exI [of _ b'])
       (auto simp: send_on_urb_def usb_submit_urb_def unsent_state_def gb_defs free_urb_def usb_free_urb_def Let_def
          pool_index_def split: option.splits)
qed

text \<open>
  The send keeps the invariant, from the state \<open>e1\<close> in which an unused urb has been taken: its slot, if it
  has one, is marked busy.
\<close>

lemma pool_index_eq:
  assumes "es_ok (e, cs)" "i < length (cport_out_urb e)" "cport_out_urb e ! i = Some u"
  shows "pool_index e (Some u) = Some i"
  using es_ok_shape [OF assms(1)] pool_index_nth [of e i] assms(2,3) by (simp add: es_shape_def)

lemma send_urb_keeps:
  assumes ok: "es_ok (e, cs)" and m: "messages e m = Some buf" "hcpriv e m = None"
    and e1: "urb_store e1 u = Some x" "urb_message x = None" "holds cs u = 0" "cport_out_urb e1 = cport_out_urb e"
      "urb_refs x = 1" "u < next_urb e1" "next_urb e \<le> next_urb e1" "es_shape e1"
      "hcpriv e1 = hcpriv e" "messages e1 = messages e"
      "\<And>v. v \<noteq> u \<Longrightarrow> urb_store e1 v = urb_store e v"
      "cport_out_urb_cancelled e1 = cport_out_urb_cancelled e" "\<And>m'. hcpriv e m' \<noteq> Some u"
    and busy: "cport_out_urb_busy e1 = (case pool_index e (Some u) of
        None \<Rightarrow> cport_out_urb_busy e | Some i \<Rightarrow> (cport_out_urb_busy e)[i := True])"
  shows "\<exists>e'. send_on_urb e1 ep cport m u ret = Some (ret, e') \<and> es_ok (e', cs)"
proof -
  have len: "HDR_SIZE \<le> length buf" by (rule es_ok_message [OF ok m(1)])
  have m1: "messages e1 m = Some buf" using m(1) e1(10) by simp
  have mo: "msgs_ok e" and di: "distinct (map fst cs)" using es_ok_shape [OF ok] by auto
  have lens: "length (cport_out_urb_busy e) = length (cport_out_urb e)"
    using es_ok_shape [OF ok] by (simp add: es_shape_def)
  have other_slot: "cport_out_urb_busy e1 ! i = cport_out_urb_busy e ! i"
    if "i < length (cport_out_urb e)" "cport_out_urb e ! i \<noteq> Some u" for i
    using busy that pool_index_Some [of e "Some u"]
    by (auto simp: nth_list_update lens split: option.splits)
  have held: "held_only_for cs u m'" for m' using e1(3) by (auto simp: holds_zero held_only_for_def)
  have slot: "pool_index e (Some u) = Some i \<and> cport_out_urb_busy e1 ! i \<and> \<not> cport_out_urb_cancelled e1 ! i"
    if "i < length (cport_out_urb e)" "cport_out_urb e ! i = Some u" for i
  proof -
    have pi: "pool_index e (Some u) = Some i" by (rule pool_index_eq [OF ok that])
    then show ?thesis using es_ok_pool_slot [OF ok pi] busy lens e1(3,12) by simp
  qed
  show ?thesis
  proof (cases "ret = 0")
    case True
    obtain b where b: "length b = length buf" "send_on_urb e1 ep cport m u 0 =
        Some (0, sent_state e1 m u b (x\<lparr>urb_endpoint := ep, urb_length := length buf\<rparr>))"
      using send_on_urb_ok [OF e1(1) m1 len] by blast
    define e' where "e' = sent_state e1 m u b (x\<lparr>urb_endpoint := ep, urb_length := length buf\<rparr>)"
    have "es_ok (e', cs)"
    proof (rule es_okI [OF ok, where u = u])
      show "es_shape e'" using e1(8) by (simp add: e'_def sent_state_def es_shape_def)
      show "msgs_ok e'" using mo b(1) len e1(9,10) by (auto simp: e'_def sent_state_def msgs_ok_def split: option.splits)
      show "urb_ok (e', cs) u"
        using e1 held by (simp add: e'_def sent_state_def urb_ok_Some fun_upd_apply)
      show "slot_ok (e', cs) i" if "i < length (cport_out_urb e)" "cport_out_urb e ! i = Some u" for i
        using slot [OF that] that e1(3,4) by (simp add: e'_def sent_state_def slot_ok_def idle_def)
      show "urb_store e' v = urb_store e v \<and> holds cs v = holds cs v \<and> (\<forall>m. (hcpriv e' m = Some v) = (hcpriv e m = Some v))"
        if "v \<noteq> u" for v
        using that e1(9,11) m(2) by (simp add: e'_def sent_state_def)
    qed (use e1(4,7,12) other_slot es_ok_cancel [OF ok] di in \<open>simp_all add: e'_def sent_state_def\<close>)
    then show ?thesis using b(2) True e'_def by simp
  next
    case False
    obtain b where b: "length b = length buf" "send_on_urb e1 ep cport m u ret =
      (let x' = x\<lparr>urb_endpoint := ep, urb_length := length buf\<rparr> in
       case pool_index e1 (Some u) of
         Some i \<Rightarrow> Some (ret, (unsent_state e1 m u b (Some x'))
                        \<lparr>cport_out_urb_busy := (cport_out_urb_busy e1)[i := False]\<rparr>)
       | None \<Rightarrow> Some (ret, unsent_state e1 m u b
                        (if urb_refs x \<le> 1 then None else Some (x'\<lparr>urb_refs := urb_refs x - 1\<rparr>))))"
      using send_on_urb_fail [OF e1(1) m1 len False] by blast
    define e' where "e' = (case pool_index e (Some u) of
         Some i \<Rightarrow> (unsent_state e1 m u b (Some (x\<lparr>urb_endpoint := ep, urb_length := length buf\<rparr>)))
                        \<lparr>cport_out_urb_busy := (cport_out_urb_busy e1)[i := False]\<rparr>
       | None \<Rightarrow> unsent_state e1 m u b None)"
    have "send_on_urb e1 ep cport m u ret = Some (ret, e')"
      using b(2) e1(5) by (simp add: e'_def pool_index_cong [OF e1(4)] split: option.splits)
    moreover have "es_ok (e', cs)"
    proof (rule es_okI [OF ok, where u = u])
      show "es_shape e'" using e1(8) by (simp add: e'_def unsent_state_def es_shape_def split: option.splits)
      show "msgs_ok e'" using mo b(1) len e1(9,10) by (auto simp: e'_def unsent_state_def msgs_ok_def split: option.splits)
      show "urb_ok (e', cs) u"
        using e1 held in_pool_index [of e u]
        by (cases "pool_index e (Some u)")
           (simp_all add: e'_def unsent_state_def urb_ok_Some urb_ok_None fun_upd_apply in_pool_def)
      show "slot_ok (e', cs) i" if "i < length (cport_out_urb e)" "cport_out_urb e ! i = Some u" for i
        using slot [OF that] that e1(2,3,4) lens busy by (simp add: e'_def unsent_state_def slot_ok_def idle_def)
      show "urb_store e' v = urb_store e v \<and> holds cs v = holds cs v \<and> (\<forall>m. (hcpriv e' m = Some v) = (hcpriv e m = Some v))"
        if "v \<noteq> u" for v
        using that e1(9,11) m(2) by (simp add: e'_def unsent_state_def split: option.splits)
      show "cport_out_urb_busy e' ! i = cport_out_urb_busy e ! i \<and> cport_out_urb_cancelled e' ! i = cport_out_urb_cancelled e ! i"
        if "i < length (cport_out_urb e)" "cport_out_urb e ! i \<noteq> Some u" for i
        using other_slot [OF that] that e1(12) pool_index_Some [of e "Some u"]
        by (auto simp: e'_def unsent_state_def nth_list_update lens busy split: option.splits)
    qed (use e1(4,7,12) es_ok_cancel [OF ok] di in \<open>simp_all add: e'_def unsent_state_def split: option.splits\<close>)
    ultimately show ?thesis by blast
  qed
qed

lemma cport_to_ep_ok:
  "es_shape e \<Longrightarrow> \<exists>p. cport_to_ep e cport = Some p \<and> p < NUM_BULKS"
  by (auto simp: es_shape_def cport_to_ep_def)

lemma message_send_keeps:
  assumes ok: "es_ok (e, cs)" and m: "messages e m \<noteq> None" "hcpriv e m = None"
  shows "\<exists>r e'. message_send e cport m alloc ret = Some (r, e') \<and> es_ok (e', cs)"
proof (cases "es_cport_id_valid e cport")
  case False
  then show ?thesis using ok by (simp add: message_send_def)
next
  case True
  obtain buf where buf: "messages e m = Some buf" using m(1) by (auto simp: not_None_eq)
  obtain uo e1 where n: "next_free_urb e alloc = (uo, e1)" by fastforce
  have sh: "es_shape e" using es_ok_shape [OF ok] by simp
  from ok n show ?thesis
  proof (cases rule: next_free_urb_cases)
    case none
    then show ?thesis using ok n True by (simp add: message_send_def)
  next
    case (pool u i x)
    have sh1: "es_shape e1" using sh pool(6) by (simp add: es_shape_def)
    obtain p where p: "cport_to_ep e1 cport = Some p" "p < NUM_BULKS" using cport_to_ep_ok [OF sh1] by blast
    have "\<exists>e'. send_on_urb e1 (cport_out_endpoints e1 ! p) cport m u ret = Some (ret, e') \<and> es_ok (e', cs)"
      by (rule send_urb_keeps [OF ok buf m(2), where x = x])
         (use pool sh1 es_ok_urb [OF ok, of u] in_pool_index [of e u] in \<open>simp_all add: urb_ok_Some\<close>)
    then show ?thesis
      using True n pool(1) p sh1 by (auto simp: message_send_def es_shape_def rd8_def)
  next
    case new
    have nu: "urb_store e (next_urb e) = None"
      using es_ok_urb [OF ok, of "next_urb e"] by (cases "urb_store e (next_urb e)") (auto simp: urb_ok_Some)
    note un = es_ok_urb [OF ok, of "next_urb e", unfolded urb_ok_None [OF nu]]
    have sh1: "es_shape e1" using sh new(2) by (simp add: es_shape_def set_urb_def)
    obtain p where p: "cport_to_ep e1 cport = Some p" "p < NUM_BULKS" using cport_to_ep_ok [OF sh1] by blast
    have "\<exists>e'. send_on_urb e1 (cport_out_endpoints e1 ! p) cport m (next_urb e) ret = Some (ret, e') \<and> es_ok (e', cs)"
      by (rule send_urb_keeps [OF ok buf m(2),
            where x = "\<lparr>urb_refs = 1, urb_endpoint = 0, urb_length = 0, urb_message = None\<rparr>"])
         (use new(2) sh1 un in_pool_index [of e "next_urb e"] in \<open>simp_all add: set_urb_def\<close>)
    then show ?thesis
      using True n new(1) p sh1 by (auto simp: message_send_def es_shape_def rd8_def)
  qed
qed

section \<open>Completion\<close>

text \<open>
  Completion of an urb whose message survives: the message is unlinked, the slot is free again, and
  an urb outside the pool is gone unless a cancellation holds it.
\<close>

lemma usb_giveback_result:
  assumes "urb_store e u = Some x" "urb_message x = Some m" "messages e m = Some buf" "HDR_SIZE \<le> length buf"
    and "sent m (check_urb_status status)" "2 \<le> urb_refs x"
  shows "\<exists>b. length b = length buf \<and> usb_giveback e u status sent =
    Some (e\<lparr>messages := (messages e)(m \<mapsto> b), hcpriv := (hcpriv e)(m := None),
      cport_out_urb_busy := (case pool_index e (Some u) of None \<Rightarrow> cport_out_urb_busy e
        | Some i \<Rightarrow> (cport_out_urb_busy e)[i := False]),
      urb_store := (urb_store e)(u := (let n = urb_refs x - (if pool_index e (Some u) = None then 2 else 1) in
        if n = 0 then None else Some (x\<lparr>urb_message := None, urb_refs := n\<rparr>)))\<rparr>)"
proof -
  obtain b where b: "gb_message_cport_clear buf = Some b" "length b = length buf"
    using wr_pad [OF assms(4)] by (auto simp: gb_message_cport_clear_def)
  show ?thesis
  proof (cases "pool_index e (Some u)")
    case None
    then show ?thesis
      using assms b
      by (intro exI [of _ b])
         (auto simp: usb_giveback_def cport_out_callback_def gb_defs free_urb_def usb_free_urb_def Let_def
            pool_index_def numeral_2_eq_2)
  next
    case (Some i)
    then show ?thesis
      using assms b
      by (intro exI [of _ b])
         (auto simp: usb_giveback_def cport_out_callback_def gb_defs free_urb_def usb_free_urb_def Let_def
            pool_index_def)
  qed
qed

lemma usb_giveback_keeps:
  assumes ok: "es_ok (e, cs)" and fl: "\<not> idle e (Some u)"
  shows "\<exists>e'. usb_giveback e u status (\<lambda>_ _. True) = Some e' \<and> es_ok (e', cs)"
proof -
  obtain x m where x: "urb_store e u = Some x" "urb_message x = Some m"
    using fl by (auto simp: idle_def not_None_eq split: option.splits)
  note uo = es_ok_urb [OF ok, of u, unfolded urb_ok_Some [OF x(1)]]
  have hc: "hcpriv e m = Some u" using uo x(2) by simp
  obtain buf where buf: "messages e m = Some buf"
    using es_ok_in_flight_exists [OF ok hc] by (auto simp: not_None_eq)
  have len: "HDR_SIZE \<le> length buf" by (rule es_ok_message [OF ok buf])
  have refs: "urb_refs x = 2 + holds cs u" using uo x(2) by simp
  define po where "po = pool_index e (Some u)"
  define n where "n = urb_refs x - (if po = None then 2 else 1)"
  define e' where "e' b = e\<lparr>messages := (messages e)(m \<mapsto> b), hcpriv := (hcpriv e)(m := None),
      cport_out_urb_busy := (case po of None \<Rightarrow> cport_out_urb_busy e
        | Some i \<Rightarrow> (cport_out_urb_busy e)[i := False]),
      urb_store := (urb_store e)(u := (if n = 0 then None else Some (x\<lparr>urb_message := None, urb_refs := n\<rparr>)))\<rparr>" for b
  have r2: "2 \<le> urb_refs x" using refs by simp
  obtain b where b: "length b = length buf" "usb_giveback e u status (\<lambda>_ _. True) = Some (e' b)"
    using usb_giveback_result [OF x buf len TrueI r2, of status] unfolding e'_def n_def po_def Let_def by blast
  have mo: "msgs_ok e" and di: "distinct (map fst cs)" using es_ok_shape [OF ok] by auto
  have lens: "length (cport_out_urb_busy e) = length (cport_out_urb e)"
    using es_ok_shape [OF ok] by (simp add: es_shape_def)
  have pool: "in_pool e u \<longleftrightarrow> po \<noteq> None" by (simp add: po_def in_pool_index)
  have nohc: "hcpriv (e' b) m' \<noteq> Some u" for m' using uo x(2) by (simp add: e'_def)
  have "es_ok (e' b, cs)"
  proof (rule es_okI [OF ok, where u = u])
    show "es_shape (e' b)"
      using es_ok_shape [OF ok] by (auto simp: e'_def es_shape_def split: option.splits)
    show "msgs_ok (e' b)" using mo b(1) len by (auto simp: e'_def msgs_ok_def split: option.splits)
    show "urb_ok (e' b, cs) u"
    proof (cases "n = 0")
      case True
      then show ?thesis using nohc refs pool by (auto simp: urb_ok_None e'_def n_def in_pool_def split: if_splits)
    next
      case False
      have st: "urb_store (e' b) u = Some (x\<lparr>urb_message := None, urb_refs := n\<rparr>)" using False by (simp add: e'_def)
      have "n = (if in_pool e u then 1 else 0) + holds cs u" using refs pool by (simp add: n_def)
      moreover have "in_pool (e' b) u = in_pool e u" "next_urb (e' b) = next_urb e" by (simp_all add: e'_def in_pool_def)
      moreover have "u < next_urb e" using uo by blast
      ultimately show ?thesis using nohc False unfolding urb_ok_Some [OF st] by simp
    qed
    show "slot_ok (e' b, cs) i" if "i < length (cport_out_urb e)" "cport_out_urb e ! i = Some u" for i
    proof -
      have pi: "po = Some i" using pool_index_eq [OF ok that] by (simp add: po_def)
      then show ?thesis
        using es_ok_pool_slot [OF ok, of u i] that lens by (simp add: po_def slot_ok_def e'_def idle_def)
    qed
    show "urb_store (e' b) v = urb_store e v \<and> holds cs v = holds cs v \<and>
        (\<forall>m. (hcpriv (e' b) m = Some v) = (hcpriv e m = Some v))" if "v \<noteq> u" for v
      using that hc by (simp add: e'_def)
    show "cport_out_urb_busy (e' b) ! i = cport_out_urb_busy e ! i \<and>
        cport_out_urb_cancelled (e' b) ! i = cport_out_urb_cancelled e ! i"
      if "i < length (cport_out_urb e)" "cport_out_urb e ! i \<noteq> Some u" for i
      using that pool_index_Some [of e "Some u"] by (auto simp: e'_def po_def nth_list_update lens split: option.splits)
  qed (use es_ok_cancel [OF ok] di in \<open>simp_all add: e'_def\<close>)
  then show ?thesis using b(2) by blast
qed

section \<open>Cancellation\<close>

lemma holds_Cons [simp]: "holds ((m, uo, i) # cs) v = (if uo = Some v then 1 else 0) + holds cs v"
  by (simp add: holds_def)

lemma held_only_for_NULL: "held_only_for ((m, None, i) # cs) u = held_only_for cs u"
  by (auto simp: held_only_for_def)

lemma urb_ok_NULL: "urb_ok (e, (m, None, i) # cs) u = urb_ok (e, cs) u"
  by (cases "urb_store e u") (simp_all add: urb_ok_None urb_ok_Some held_only_for_NULL)

lemma slot_ok_NULL: "slot_ok (e, (m, None, i) # cs) j = slot_ok (e, cs) j"
  by (simp add: slot_ok_def)

lemma cancel_begin_keeps:
  assumes ok: "es_ok (e, cs)" and m: "messages e m \<noteq> None" "m \<notin> fst ` set cs"
  shows "\<exists>u i e'. message_cancel_begin e m = Some ((u, i), e') \<and> es_ok (e', (m, u, i) # cs)"
proof (cases "hcpriv e m")
  case None
  have i: "pool_index e None = None" using es_ok_pool_no_NULL [OF ok] by (simp add: pool_index_None)
  then have "message_cancel_begin e m = Some ((None, None), e)"
    using m(1) None by (auto simp: message_cancel_begin_def usb_get_urb_def not_None_eq)
  moreover have "es_ok (e, (m, None, None) # cs)"
    using ok m(2) i by (simp add: es_ok_def urb_ok_NULL slot_ok_NULL cancel_ok_def)
  ultimately show ?thesis by blast
next
  case (Some u)
  obtain x where x: "urb_store e u = Some x" "urb_message x = Some m" by (rule es_ok_hcpriv [OF ok Some])
  note uo = es_ok_urb [OF ok, of u, unfolded urb_ok_Some [OF x(1)]]
  have h0: "holds cs u = 0"
    using uo x(2) m(2) by (force simp: holds_zero held_only_for_def)
  define po where "po = pool_index e (Some u)"
  define e' where "e' = e\<lparr>urb_store := (urb_store e)(u \<mapsto> x\<lparr>urb_refs := urb_refs x + 1\<rparr>),
      cport_out_urb_cancelled := (case po of None \<Rightarrow> cport_out_urb_cancelled e
        | Some j \<Rightarrow> (cport_out_urb_cancelled e)[j := True])\<rparr>"
  have "message_cancel_begin e m = Some ((Some u, po), e')"
    using m(1) Some x(1)
    by (auto simp: message_cancel_begin_def usb_get_urb_def not_None_eq gb_defs po_def e'_def pool_index_def
        split: option.splits)
  moreover have "es_ok (e', (m, Some u, po) # cs)"
  proof (rule es_okI [OF ok, where u = u])
    show "es_shape e'" using es_ok_shape [OF ok] by (auto simp: e'_def es_shape_def split: option.splits)
    show "msgs_ok e'" using es_ok_shape [OF ok] by (auto simp: e'_def msgs_ok_def split: option.splits)
    have st: "urb_store e' u = Some (x\<lparr>urb_refs := urb_refs x + 1\<rparr>)" by (simp add: e'_def)
    have e': "hcpriv e' = hcpriv e" "in_pool e' u = in_pool e u" "next_urb e' = next_urb e"
      by (simp_all add: e'_def in_pool_def)
    have "held_only_for ((m, Some u, po) # cs) u m" using h0 by (auto simp: held_only_for_def holds_zero)
    moreover have "u < next_urb e" "\<forall>m. hcpriv e m = Some u \<longleftrightarrow> urb_message x = Some m" "urb_refs x = 2"
      using uo x(2) h0 by auto
    ultimately show "urb_ok (e', (m, Some u, po) # cs) u"
      unfolding urb_ok_Some [OF st] using x(2) h0 by (simp add: e')
    show "slot_ok (e', (m, Some u, po) # cs) i" if "i < length (cport_out_urb e)" "cport_out_urb e ! i = Some u" for i
    proof -
      have pi: "po = Some i" using pool_index_eq [OF ok that] by (simp add: po_def)
      moreover have "length (cport_out_urb_cancelled e) = length (cport_out_urb e)"
        using es_ok_shape [OF ok] by (simp add: es_shape_def)
      ultimately show ?thesis
        using es_ok_pool_slot [OF ok, of u i] that x h0 by (simp add: po_def slot_ok_def e'_def idle_def)
    qed
    show "cport_out_urb_busy e' ! i = cport_out_urb_busy e ! i \<and>
        cport_out_urb_cancelled e' ! i = cport_out_urb_cancelled e ! i"
      if "i < length (cport_out_urb e)" "cport_out_urb e ! i \<noteq> Some u" for i
      using that pool_index_Some [of e "Some u"] es_ok_shape [OF ok]
      by (auto simp: e'_def po_def nth_list_update es_shape_def split: option.splits)
  qed (use es_ok_cancel [OF ok] es_ok_shape [OF ok] m(2) in \<open>auto simp: e'_def po_def\<close>)
  ultimately show ?thesis by blast
qed

lemma holds_remove1: "c \<in> set cs \<Longrightarrow> holds (remove1 c cs) v = holds cs v - (if fst (snd c) = Some v then 1 else 0)"
  by (auto simp: holds_def filter_remove1 length_remove1)

lemma holds_pos: "c \<in> set cs \<Longrightarrow> fst (snd c) = Some v \<Longrightarrow> 0 < holds cs v"
  using holds_zero [of cs v] by auto

lemma held_only_for_remove1: "held_only_for cs u m \<Longrightarrow> held_only_for (remove1 c cs) u m"
  using set_remove1_subset [of c cs] by (auto simp: held_only_for_def)

lemma distinct_fst_remove1: "distinct (map fst cs) \<Longrightarrow> distinct (map fst (remove1 c cs))"
  by (induction cs) (use set_remove1_subset in fastforce)+

lemma cancel_end_keeps:
  assumes ok: "es_ok (e, cs)" and c: "c \<in> set cs" "idle e (fst (snd c))"
  shows "\<exists>e'. message_cancel_end e (fst (snd c)) (snd (snd c)) = Some e' \<and> es_ok (e', remove1 c cs)"
proof (cases "fst (snd c)")
  case None
  then have i: "snd (snd c) = None"
    using es_ok_cancel [OF ok c(1)] es_ok_pool_no_NULL [OF ok] by (simp add: pool_index_None)
  have h: "holds (remove1 c cs) v = holds cs v" for v using holds_remove1 [OF c(1)] None by simp
  have "urb_ok (e, remove1 c cs) u" for u
    using es_ok_urb [OF ok, of u] h [of u] held_only_for_remove1 [of cs u _ c]
    by (cases "urb_store e u") (auto simp: urb_ok_Some urb_ok_None)
  moreover have "slot_ok (e, remove1 c cs) j" if "j < length (cport_out_urb e)" for j
    using es_ok_slot [OF ok that] by (simp add: slot_ok_def h)
  ultimately have "es_ok (e, remove1 c cs)"
    using ok set_remove1_subset [of c cs] distinct_fst_remove1 [of cs c] by (auto simp: es_ok_def)
  then show ?thesis using None i by (simp add: message_cancel_end_def usb_free_urb_def)
next
  case (Some u)
  have hp: "0 < holds cs u" by (rule holds_pos [OF c(1) Some])
  obtain x where x: "urb_store e u = Some x"
    using es_ok_urb [OF ok, of u] hp by (cases "urb_store e u") (auto simp: urb_ok_None)
  note uo = es_ok_urb [OF ok, of u, unfolded urb_ok_Some [OF x]]
  have mN: "urb_message x = None" using c(2) Some x by (simp add: idle_def)
  define po where "po = pool_index e (Some u)"
  have cpo: "snd (snd c) = po" using es_ok_cancel [OF ok c(1)] Some by (simp add: po_def)
  have pool: "in_pool e u \<longleftrightarrow> po \<noteq> None" by (simp add: po_def in_pool_index)
  have refs: "urb_refs x = (if in_pool e u then 1 else 0) + holds cs u" using uo mN by simp
  define e' where "e' = e\<lparr>urb_store := (urb_store e)(u := if urb_refs x \<le> 1 then None else Some (x\<lparr>urb_refs := urb_refs x - 1\<rparr>)),
      cport_out_urb_cancelled := (case po of None \<Rightarrow> cport_out_urb_cancelled e
        | Some j \<Rightarrow> (cport_out_urb_cancelled e)[j := False])\<rparr>"
  have run: "message_cancel_end e (Some u) po = Some e'"
    using x by (cases po) (simp_all add: message_cancel_end_def usb_free_urb_def gb_defs e'_def)
  have h: "holds (remove1 c cs) u = holds cs u - 1" using holds_remove1 [OF c(1)] Some by simp
  have e'1: "hcpriv e' = hcpriv e" "in_pool e' u = in_pool e u" "next_urb e' = next_urb e"
    by (simp_all add: e'_def in_pool_def)
  have nohc: "hcpriv e m \<noteq> Some u" for m using uo mN by simp
  have lens: "length (cport_out_urb_cancelled e) = length (cport_out_urb e)"
    using es_ok_shape [OF ok] by (simp add: es_shape_def)
  have "es_ok (e', remove1 c cs)"
  proof (rule es_okI [OF ok, where u = u])
    show "es_shape e'" using es_ok_shape [OF ok] by (auto simp: e'_def es_shape_def split: option.splits)
    show "msgs_ok e'" using es_ok_shape [OF ok] by (auto simp: e'_def msgs_ok_def split: option.splits)
    show "urb_ok (e', remove1 c cs) u"
    proof (cases "urb_refs x \<le> 1")
      case True
      then have "urb_store e' u = None" by (simp add: e'_def)
      then show ?thesis using True refs hp h nohc pool by (simp add: urb_ok_None e'1 split: if_splits)
    next
      case False
      then have st: "urb_store e' u = Some (x\<lparr>urb_refs := urb_refs x - 1\<rparr>)" by (simp add: e'_def)
      have "u < next_urb e" using uo by blast
      then show ?thesis
        unfolding urb_ok_Some [OF st] using False refs hp h nohc mN by (simp add: e'1)
    qed
    show "slot_ok (e', remove1 c cs) i" if "i < length (cport_out_urb e)" "cport_out_urb e ! i = Some u" for i
    proof -
      have pi: "po = Some i" using pool_index_eq [OF ok that] by (simp add: po_def)
      have sl: "\<not> cport_out_urb_busy e ! i" "holds cs u \<le> 1"
        using es_ok_pool_slot [OF ok, of u i] pi c(2) Some by (auto simp: po_def)
      then show ?thesis
        using pi that lens h hp mN by (simp add: slot_ok_def e'_def idle_def)
    qed
    show "urb_store e' v = urb_store e v \<and> holds (remove1 c cs) v = holds cs v \<and>
        (\<forall>m. (hcpriv e' m = Some v) = (hcpriv e m = Some v))" if "v \<noteq> u" for v
      using that holds_remove1 [OF c(1), of v] Some by (simp add: e'_def)
    show "cport_out_urb_busy e' ! i = cport_out_urb_busy e ! i \<and>
        cport_out_urb_cancelled e' ! i = cport_out_urb_cancelled e ! i"
      if "i < length (cport_out_urb e)" "cport_out_urb e ! i \<noteq> Some u" for i
      using that pool_index_Some [of e "Some u"] lens
      by (auto simp: e'_def po_def nth_list_update split: option.splits)
    show "c' \<in> set cs" if "c' \<in> set (remove1 c cs)" for c' using that set_remove1_subset by fastforce
    show "snd (snd c') = pool_index e (fst (snd c'))" if "c' \<in> set (remove1 c cs)" for c'
      using that set_remove1_subset [of c cs] es_ok_cancel [OF ok, of c'] by blast
    show "distinct (map fst (remove1 c cs))" using es_ok_shape [OF ok] by (simp add: distinct_fst_remove1)
  qed (simp_all add: e'_def)
  then show ?thesis using run Some cpo by simp
qed

section \<open>All runs\<close>

lemma es_ok_messages:
  assumes "es_ok (e, cs)" "msgs_ok (e\<lparr>messages := f\<rparr>)"
  shows "es_ok (e\<lparr>messages := f\<rparr>, cs)"
proof -
  have "urb_ok (e\<lparr>messages := f\<rparr>, cs) u = urb_ok (e, cs) u" for u
    by (cases "urb_store e u") (simp_all add: urb_ok_def in_pool_def)
  moreover have "slot_ok (e\<lparr>messages := f\<rparr>, cs) i = slot_ok (e, cs) i" for i by (simp add: slot_ok_def idle_def)
  moreover have "es_shape (e\<lparr>messages := f\<rparr>) = es_shape e" by (simp add: es_shape_def)
  moreover have "cancel_ok (e\<lparr>messages := f\<rparr>) c = cancel_ok e c" for c by (simp add: cancel_ok_def pool_index_def)
  ultimately show ?thesis using assms by (simp add: es_ok_def)
qed

lemma es_ok_new:
  assumes "es_ok (e, cs)" "HDR_SIZE \<le> length buf"
  shows "es_ok (set_buffer e m buf, cs)"
  unfolding set_buffer_def
  by (rule es_ok_messages [OF assms(1)])
     (use es_ok_shape [OF assms(1)] assms(2) in \<open>auto simp: msgs_ok_def split: option.splits\<close>)

lemma es_ok_release:
  assumes "es_ok (e, cs)" "hcpriv e m = None"
  shows "es_ok (e\<lparr>messages := (messages e)(m := None)\<rparr>, cs)"
  by (rule es_ok_messages [OF assms(1)])
     (use es_ok_shape [OF assms(1)] assms(2) in \<open>auto simp: msgs_ok_def split: option.splits\<close>)

lemma es_exec_safe:
  assumes "es_ok s" "es_enabled s ev"
  shows "\<exists>s'. es_exec s ev = Some s' \<and> es_ok s'"
proof -
  obtain e cs where s: "s = (e, cs)" by fastforce
  show ?thesis
  proof (cases ev)
    case (Es_new m buf)
    then show ?thesis using assms by (simp add: s es_ok_new)
  next
    case (Es_release m)
    then show ?thesis using assms by (simp add: s es_ok_release)
  next
    case (Es_send cport m ok ret)
    then show ?thesis using assms message_send_keeps [of e cs m cport ok ret] by (fastforce simp: s)
  next
    case (Es_complete u status)
    then show ?thesis using assms usb_giveback_keeps [of e cs u status] by (fastforce simp: s)
  next
    case (Es_cancel m)
    then have "es_ok (e, cs)" "messages e m \<noteq> None" "m \<notin> fst ` set cs" using assms by (simp_all add: s)
    from cancel_begin_keeps [OF this] show ?thesis using Es_cancel by (auto simp: s)
  next
    case (Es_cancel_done c)
    then show ?thesis using assms cancel_end_keeps [of e cs c] by (fastforce simp: s)
  qed
qed

interpretation esm: safe_machine es_init es_enabled es_exec es_ok
  by unfold_locales (rule es_init_ok es_exec_safe; assumption)+

definition es_reach :: "es_state \<Rightarrow> bool" where
  "es_reach = reach es_init es_enabled es_exec"

text \<open>A driver with two urbs in its pool and two cports.\<close>

definition demo_es :: es1_ap_dev where
  "demo_es = snd (alloc_out_urbs [0, 1] (\<lambda>_. True) (fresh_es 2 7 28 2))"

lemma demo_es_init: "es_init (demo_es, [])"
proof -
  have d: "demo_es = (fresh_es 2 7 28 2)\<lparr>cport_out_urb := [Some 0, Some 1], next_urb := 2,
     urb_store := (\<lambda>u. if u = 0 \<or> u = 1 then Some \<lparr>urb_refs = 1, urb_endpoint = 0, urb_length = 0, urb_message = None\<rparr> else None)\<rparr>"
    by (simp add: demo_es_def fresh_es_def usb_alloc_urb_def set_urb_def fun_eq_iff numeral_2_eq_2)
  show ?thesis
    unfolding d es_init_def by (simp add: es_shape_def fresh_es_def in_pool_def numeral_2_eq_2)
qed

definition demo_es_run :: "es_event list" where
  "demo_es_run = [Es_new (0, Request) (replicate 10 0), Es_send 1 (0, Request) True 0, Es_cancel (0, Request),
     Es_complete 0 (- ECONNRESET), Es_new (1, Request) (replicate 8 0), Es_send 0 (1, Request) True 0]"

lemma demo_es_reach: "reach es_init es_enabled es_exec (demo_es, [])"
  by (rule reach_init) (rule demo_es_init)

lemma demo_es_runs:
  "case run es_enabled es_exec (demo_es, []) demo_es_run of None \<Rightarrow> False
   | Some (e, cs) \<Rightarrow> cs = [((0, Request), Some 0, Some 0)] \<and> hcpriv e (1, Request) = Some 1"
  by code_simp



text \<open>
  C15 A cancellation never hits a message it was not meant for, and urbs do not leak: in every reachable
  state the urb that a cancellation of message m is about to kill exists and is idle or carries m;
  every urb allocated outside the pool is in flight or held by a cancellation; an urb of the pool
  is busy exactly while it is in flight.
\<close>

theorem es2_cancel_exact:
  assumes "es_reach (e, cs)"
  shows "(\<forall>m u i. (m, Some u, i) \<in> set cs \<longrightarrow>
      (\<exists>x. urb_store e u = Some x \<and> (urb_message x = None \<or> urb_message x = Some m))) \<and>
    (\<forall>u x. urb_store e u = Some x \<longrightarrow> Some u \<in> set (cport_out_urb e) \<or> urb_message x \<noteq> None \<or>
      (\<exists>m i. (m, Some u, i) \<in> set cs)) \<and>
    (\<forall>i<length (cport_out_urb e). \<exists>u x. cport_out_urb e ! i = Some u \<and> urb_store e u = Some x \<and>
      (cport_out_urb_busy e ! i \<longleftrightarrow> urb_message x \<noteq> None))"
proof -
  have ok: "es_ok (e, cs)" using assms esm.reach_inv unfolding es_reach_def by blast
  have "\<exists>x. urb_store e u = Some x \<and> (urb_message x = None \<or> urb_message x = Some m)"
    if c: "(m, Some u, i) \<in> set cs" for m u i
  proof -
    have "0 < holds cs u" using holds_pos [OF c] by simp
    then obtain x where x: "urb_store e u = Some x"
      using es_ok_urb [OF ok, of u] by (cases "urb_store e u") (auto simp: urb_ok_None)
    have "urb_message x = Some m' \<Longrightarrow> m' = m" for m'
      using es_ok_urb [OF ok, of u] x c by (force simp: urb_ok_Some held_only_for_def)
    then show ?thesis using x by (cases "urb_message x") auto
  qed
  moreover have "\<exists>m i. (m, Some u, i) \<in> set cs"
    if "urb_store e u = Some x" "Some u \<notin> set (cport_out_urb e)" "urb_message x = None" for u x
  proof -
    have "holds cs u \<noteq> 0" using es_ok_urb [OF ok, of u] that by (simp add: urb_ok_Some in_pool_def)
    then obtain c where "c \<in> set cs" "fst (snd c) = Some u" by (auto simp: holds_zero)
    then show ?thesis by (metis prod.collapse)
  qed
  moreover have "\<exists>u x. cport_out_urb e ! i = Some u \<and> urb_store e u = Some x \<and>
      (cport_out_urb_busy e ! i \<longleftrightarrow> urb_message x \<noteq> None)" if i: "i < length (cport_out_urb e)" for i
  proof -
    obtain u where u: "cport_out_urb e ! i = Some u" "cport_out_urb_busy e ! i \<longleftrightarrow> \<not> idle e (Some u)"
      using es_ok_slot [OF ok i] by (auto simp: slot_ok_def)
    have "in_pool e u" using nth_mem [OF i] u(1) by (simp add: in_pool_def)
    then obtain x where "urb_store e u = Some x"
      using es_ok_urb [OF ok, of u] by (cases "urb_store e u") (auto simp: urb_ok_None)
    then show ?thesis using u by (simp add: idle_def)
  qed
  ultimately show ?thesis by blast
qed

theorem es2_cancel_exact_witness:
  "\<exists>e x. es_reach (e, [((0, Request), Some 0, Some 0)]) \<and> urb_store e 0 = Some x \<and>
     (urb_message x = None \<or> urb_message x = Some (0, Request)) \<and> hcpriv e (1, Request) = Some 1"
proof -
  obtain e where r: "run es_enabled es_exec (demo_es, []) demo_es_run = Some (e, [((0, Request), Some 0, Some 0)])"
    "hcpriv e (1, Request) = Some 1"
    using demo_es_runs by (auto split: option.splits prod.splits)
  have "es_reach (e, [((0, Request), Some 0, Some 0)])"
    unfolding es_reach_def by (rule reach_run [OF demo_es_reach r(1)])
  then show ?thesis using es2_cancel_exact [of e "[((0, Request), Some 0, Some 0)]"] r(2) by auto
qed

end
