(* ===== verification/GB_ES2_Probe.thy ===== *)
theory GB_ES2_Probe
  imports GB_ES2_Props
begin

text \<open>
  The parts of the USB drivers around the pool: the cport id in the header, the endpoint table,
  probing (which establishes the initial state of the pool's machine), disconnecting and the log;
  and the completion of a response together with the operation core.
\<close>

section \<open>The cport id in the header\<close>

text \<open>
  The cport id survives the trip through the padding byte: with at most 256 cports, what
  message_send packs into a header whose padding is clear is delivered by cport_in_callback to the same
  cport, with the message unchanged and the padding clear again.
\<close>

theorem es2_cport_roundtrip:
  assumes "es_cport_id_valid e cport" "es_num_cports e \<le> 256" "HDR_SIZE \<le> length buf" "buf ! 6 = 0"
  shows "\<exists>packed. gb_message_cport_pack buf cport = Some packed \<and>
    cport_in_callback e 0 packed (length buf) = Some (Some (cport, buf), True, buf)"
proof -
  define packed where "packed = take 6 buf @ [ucast cport] @ drop 7 buf"
  have c: "unat cport < 256" using assms(1,2) by (simp add: es_cport_id_valid_def)
  have p: "gb_message_cport_pack buf cport = Some packed"
    using assms(3) by (simp add: gb_message_cport_pack_def wr_bytes_def packed_def)
  have n: "packed ! 6 = ucast cport" "length packed = length buf"
    using assms(3) by (simp_all add: packed_def nth_append min_def)
  have u: "ucast (ucast cport :: u8) = cport"
    using c by (intro word_unat_eq_iff [THEN iffD2]) (simp add: unsigned_ucast_eq unsigned_take_bit_eq take_bit_nat_eq_self)
  have "take 6 packed @ [0] @ drop 7 packed = take 6 buf @ [buf ! 6] @ drop 7 buf"
    using assms(3,4) by (simp add: packed_def)
  also have "\<dots> = buf" using assms(3) id_take_nth_drop [of 6 buf] by simp
  finally have cl: "gb_message_cport_clear packed = Some buf"
    using assms(3) n(2) by (simp add: gb_message_cport_clear_def wr_bytes_def)
  have "gb_message_cport_unpack packed = Some (cport, buf)"
    using n assms(3) by (simp add: gb_message_cport_unpack_def cl rd8_def u)
  then have "cport_in_callback e 0 packed (length buf) = Some (Some (cport, buf), True, buf)"
    using assms(1,3) by (simp add: cport_in_callback_def check_urb_status_def rd_bytes_def)
  with p show ?thesis by blast
qed

theorem es2_cport_roundtrip_witness:
  "\<exists>packed. gb_message_cport_pack [8, 0, 1, 0, 2, 0, 0, 0] 1 = Some packed \<and>
     cport_in_callback demo_es 0 packed 8 = Some (Some (1, [8, 0, 1, 0, 2, 0, 0, 0]), True, [8, 0, 1, 0, 2, 0, 0, 0])"
proof -
  let ?b = "[8, 0, 1, 0, 2, 0, 0, 0] :: bytes"
  have l: "length ?b = 8" by simp
  have n: "es_num_cports demo_es = 2" by (simp add: demo_es_def fresh_es_def usb_alloc_urb_def set_urb_def)
  have v: "es_cport_id_valid demo_es 1" by (simp add: es_cport_id_valid_def n)
  have "\<exists>packed. gb_message_cport_pack ?b 1 = Some packed \<and>
      cport_in_callback demo_es 0 packed (length ?b) = Some (Some (1, ?b), True, ?b)"
    by (rule es2_cport_roundtrip [OF v]) (simp_all add: n)
  then show ?thesis unfolding l .
qed

section \<open>Endpoints\<close>

text \<open>Every pair of endpoints but the first carries at most one cport.\<close>

definition eps_ok :: "es1_ap_dev \<Rightarrow> bool" where
  "eps_ok e \<longleftrightarrow> es_shape e \<and> length (cport_in_endpoints e) = NUM_BULKS \<and>
     (\<forall>i<es_num_cports e. \<forall>j<es_num_cports e. i \<noteq> j \<longrightarrow>
        cport_to_ep_table e ! i = cport_to_ep_table e ! j \<longrightarrow> cport_to_ep_table e ! i = 0)"

text \<open>
  Mapping cports to endpoints keeps every endpoint pair but the shared first one exclusive to a cport,
  whatever the device answers; a refused mapping changes nothing, and any other mapping is recorded and
  sent to the device with the endpoints of the pair, even if the device then reports an error.
\<close>

theorem map_cport_to_ep_exclusive:
  assumes "eps_ok e"
  shows "\<exists>r req e'. map_cport_to_ep e cport ep ok ret = Some (r, req, e') \<and> eps_ok e' \<and>
    (case req of
       None \<Rightarrow> e' = e \<and> r \<in> {- EINVAL, - ENOMEM}
     | Some b \<Rightarrow> cport_to_ep e' cport = Some (nat ep) \<and>
         b = cpu_to_le16 cport @ [cport_in_endpoints e ! nat ep, cport_out_endpoints e ! nat ep] \<and>
         r = (if ret = 4 then 0 else ret))"
proof -
  have lens: "length (cport_to_ep_table e) = es_num_cports e" "length (cport_in_endpoints e) = NUM_BULKS"
    "length (cport_out_endpoints e) = NUM_BULKS"
    using assms by (simp_all add: eps_ok_def es_shape_def)
  consider (bad) "ep < 0 \<or> 7 \<le> ep \<or> es_num_cports e \<le> unat cport \<or> nat ep \<noteq> 0 \<and> nat ep \<in> set (cport_to_ep_table e) \<or> \<not> ok"
    | (ok) "0 \<le> ep" "nat ep < 7" "unat cport < es_num_cports e" "nat ep = 0 \<or> nat ep \<notin> set (cport_to_ep_table e)" "ok"
    by linarith
  then show ?thesis
  proof cases
    case bad
    then show ?thesis using assms lens by (auto simp: map_cport_to_ep_def ep_in_use_def Let_def)
  next
    case ok
    define t where "t = cport_to_ep_table e"
    define e' where "e' = e\<lparr>cport_to_ep_table := t[unat cport := nat ep]\<rparr>"
    have "map_cport_to_ep e cport ep True ret = Some (if ret = 4 then 0 else ret,
        Some (cpu_to_le16 cport @ [cport_in_endpoints e ! nat ep, cport_out_endpoints e ! nat ep]), e')"
      using ok lens by (auto simp: map_cport_to_ep_def ep_in_use_def Let_def rd8_def e'_def t_def)
    moreover have "eps_ok e'"
    proof -
      have "\<forall>p\<in>set (t[unat cport := nat ep]). p < 7"
        using assms ok(2) set_update_subset_insert [of t "unat cport" "nat ep"]
        by (auto simp: eps_ok_def es_shape_def t_def)
      moreover have "t[unat cport := nat ep] ! i = 0"
        if "i < es_num_cports e" "j < es_num_cports e" "i \<noteq> j" "t[unat cport := nat ep] ! i = t[unat cport := nat ep] ! j" for i j
      proof -
        have free: "nat ep = 0 \<or> t ! k \<noteq> nat ep" if "k < es_num_cports e" for k
          using that lens(1) ok(4) by (metis nth_mem t_def)
        have ex: "t ! i = t ! j \<Longrightarrow> t ! i = 0" using assms that by (auto simp: eps_ok_def t_def)
        show ?thesis
          using that ex free [OF that(1)] free [OF that(2)] ok(3) lens
          by (auto simp: nth_list_update t_def [symmetric] split: if_splits)
      qed
      ultimately show ?thesis
        using assms lens by (auto simp: eps_ok_def es_shape_def e'_def t_def [symmetric])
    qed
    moreover have "cport_to_ep e' cport = Some (nat ep)"
      using ok lens by (simp add: cport_to_ep_def e'_def t_def)
    ultimately show ?thesis using ok(5) by simp
  qed
qed

theorem map_cport_to_ep_exclusive_witness:
  "\<exists>r req e'. map_cport_to_ep demo_es 1 3 True (- 71) = Some (r, req, e') \<and> eps_ok e'"
proof -
  have "eps_ok demo_es"
    by (simp add: eps_ok_def es_shape_def demo_es_def fresh_es_def usb_alloc_urb_def set_urb_def nth_Cons'
        numeral_2_eq_2 less_Suc_eq)
  from map_cport_to_ep_exclusive [OF this, of 1 3 True "- 71"] show ?thesis by blast
qed

section \<open>Completion of a response\<close>

text \<open>Whether the message still exists after greybus_message_sent, according to the operation core.\<close>

definition survives :: "opworld \<Rightarrow> msg \<Rightarrow> int \<Rightarrow> bool" where
  "survives w m status =
     (case greybus_message_sent w (fst m) (snd m) status of None \<Rightarrow> False | Some w' \<Rightarrow> ops w' (fst m) \<noteq> None)"

text \<open>
  The completion of a response uses freed memory: when the operation of the response has no other
  reference than the one for sending it, which is the normal case, greybus_message_sent frees
  it, and cport_out_callback then writes to the message.
\<close>

theorem es2_response_completion_use_after_free:
  assumes "urb_store e u = Some x" "urb_message x = Some (r, Response)"
    and "ops w r = Some opn" "conns w (connection opn) \<noteq> None" "kref opn = 1"
  shows "cport_out_callback e u status (survives w) = None"
proof -
  have "\<not> survives w (r, Response) st" for st
    using assms(3-5)
    by (auto simp: survives_def greybus_message_sent_def gb_operation_put_active_def gb_operation_put_def
        gb_operation_free_def gb_defs Let_def split: option.splits bind_splits)
  then show ?thesis
    using assms(1,2) by (auto simp: cport_out_callback_def gb_defs Let_def split: bind_splits)
qed

definition demo_sending :: opworld where
  "demo_sending = \<lparr>buffer_size_max = 2048,
     conns = [0 \<mapsto> \<lparr>state = GB_CONNECTION_STATE_ENABLED, operations = [0], op_cycle = 0, wq = [], has_protocol = True\<rparr>],
     ops = [0 \<mapsto> \<lparr>connection = 0, request = \<lparr>buffer = replicate 8 0, payload_size = 0\<rparr>,
       response = Some \<lparr>buffer = replicate 8 0, payload_size = 0\<rparr>, flags = 1, type = 2, op_id = 1, errno = 0,
       callback = None, completion = 0, kref = 1, waiters = 0, active = 1\<rparr>],
     next_op = 1, inflight = [(0, Response)], cancels = [], completion_wq = []\<rparr>"

theorem es2_response_completion_use_after_free_witness:
  "case message_send (set_buffer demo_es (0, Response) (replicate 8 0)) 1 (0, Response) True 0 of
     Some (r, e) \<Rightarrow> r = 0 \<and> cport_out_callback e 0 0 (survives demo_sending) = None | None \<Rightarrow> False"
proof -
  define sr where "sr = message_send (set_buffer demo_es (0, Response) (replicate 8 0)) 1 (0, Response) True 0"
  have "case sr of Some (r, e) \<Rightarrow> r = 0 \<and> map_option urb_message (urb_store e 0) = Some (Some (0, Response)) | None \<Rightarrow> False"
    unfolding sr_def by code_simp
  then obtain e x where e: "sr = Some (0, e)" "urb_store e 0 = Some x" "urb_message x = Some (0, Response)"
    by (auto split: option.splits prod.splits)
  have "cport_out_callback e 0 0 (survives demo_sending) = None"
    by (rule es2_response_completion_use_after_free [OF e(2,3), where opn = "the (ops demo_sending 0)"])
       (simp_all add: demo_sending_def)
  then show ?thesis using e(1) by (simp add: sr_def)
qed

section \<open>Probing\<close>

text \<open>The pool while its first \<open>i\<close> urbs are allocated.\<close>

definition pool_filled :: "nat \<Rightarrow> nat \<Rightarrow> es1_ap_dev \<Rightarrow> bool" where
  "pool_filled N i e \<longleftrightarrow> cport_out_urb e = map Some [0..<i] @ replicate (N - i) None \<and>
     cport_out_urb_busy e = replicate N False \<and> cport_out_urb_cancelled e = replicate N False \<and>
     next_urb e = i \<and> hcpriv e = (\<lambda>_. None) \<and> messages e = (\<lambda>_. None) \<and>
     (\<forall>u. urb_store e u = (if u < i
        then Some \<lparr>urb_refs = 1, urb_endpoint = 0, urb_length = 0, urb_message = None\<rparr> else None)) \<and>
     length (cport_out_endpoints e) = NUM_BULKS \<and> cport_to_ep_table e = replicate (es_num_cports e) 0"

lemma pool_filled_step:
  assumes "pool_filled N i e" "i < N"
  shows "pool_filled N (i + 1) ((snd (usb_alloc_urb True e))
    \<lparr>cport_out_urb := (cport_out_urb e)[i := Some i], cport_out_urb_busy := (cport_out_urb_busy e)[i := False]\<rparr>)"
proof -
  have "(map Some [0..<i] @ replicate (N - i) None)[i := Some i] = map Some [0..<i + 1] @ replicate (N - (i + 1)) None"
  proof -
    have "replicate (N - i) (None :: nat option) = None # replicate (N - (i + 1)) None"
      using assms(2) by (cases "N - i") (auto simp: Suc_diff_Suc)
    then show ?thesis by (simp add: list_update_append)
  qed
  moreover have "(replicate N False)[i := False] = replicate N False"
    using assms(2) by (simp add: list_eq_iff_nth_eq nth_list_update)
  ultimately show ?thesis
    using assms by (simp add: pool_filled_def usb_alloc_urb_def set_urb_def less_Suc_eq)
qed

lemma alloc_out_urbs_filled:
  "alloc_out_urbs [i..<N] ans e = (True, e') \<Longrightarrow> pool_filled N i e \<Longrightarrow> i \<le> N \<Longrightarrow> pool_filled N N e'"
proof (induction "N - i" arbitrary: i e)
  case (Suc k)
  then have i: "i < N" by simp
  then have l: "[i..<N] = i # [i + 1..<N]" by (simp add: upt_conv_Cons)
  have a: "ans i"
    using Suc.prems(1) unfolding l by (cases "ans i") (auto simp: usb_alloc_urb_def)
  have nx: "next_urb e = i" using Suc.prems(2) by (simp add: pool_filled_def)
  define e1 where "e1 = (snd (usb_alloc_urb True e))\<lparr>cport_out_urb := (cport_out_urb e)[i := Some i],
      cport_out_urb_busy := (cport_out_urb_busy e)[i := False]\<rparr>"
  have "alloc_out_urbs [i + 1..<N] ans e1 = (True, e')"
    using Suc.prems(1) a nx unfolding l by (simp add: usb_alloc_urb_def set_urb_def e1_def)
  moreover have "pool_filled N (i + 1) e1"
    unfolding e1_def by (rule pool_filled_step [OF Suc.prems(2) i])
  ultimately show ?case using Suc.hyps(1) [of "i + 1" e1] Suc.hyps(2) i by simp
qed simp

lemma pool_filled_init: "pool_filled N N e \<Longrightarrow> es_init (e, [])"
  by (auto simp: pool_filled_def es_init_def es_shape_def in_pool_def distinct_map)

text \<open>Finding the endpoints and starting the in urbs leave the pool alone.\<close>

lemma find_endpoints_filled:
  "find_endpoints eps bi bo e = Some (bi', bo', e') \<Longrightarrow> pool_filled N i e \<Longrightarrow>
   pool_filled N i e' \<and> cport_in_urb e' = cport_in_urb e"
  by (induction eps bi bo e rule: find_endpoints.induct)
     (fastforce simp: pool_filled_def split: endpoint_kind.splits if_splits)+

lemma start_in_urbs_filled:
  "start_in_urbs ks ans ret e = (d, ret', e') \<Longrightarrow> pool_filled N i e \<Longrightarrow> pool_filled N i e'"
  by (induction ks ans ret e rule: start_in_urbs.induct)
     (fastforce simp: pool_filled_def Let_def split: if_splits prod.splits)+

text \<open>When the loop comes to its end, every in urb of it is submitted.\<close>

definition in_urbs_running :: "nat set \<Rightarrow> es1_ap_dev \<Rightarrow> bool" where
  "in_urbs_running K e \<longleftrightarrow> (\<forall>k\<in>K. \<exists>u. cport_in_urb e ! k = Some u \<and> u < next_in_urb e \<and> in_urb_store e u = Some True)"

lemma start_in_urbs_running:
  "start_in_urbs ks ans ret e = (True, ret', e') \<Longrightarrow> in_urbs_running K e \<Longrightarrow> distinct ks \<Longrightarrow>
   set ks \<inter> K = {} \<Longrightarrow> (\<forall>k\<in>set ks. k < length (cport_in_urb e)) \<Longrightarrow> in_urbs_running (K \<union> set ks) e'"
proof (induction ks arbitrary: ret e K)
  case (Cons k ks)
  obtain b r where a: "ans k = (True, True, 0)"
    using Cons.prems(1) by (cases "ans k") (auto simp: Let_def split: if_splits)
  define e1 where "e1 = e\<lparr>next_in_urb := next_in_urb e + 1,
      cport_in_urb := (cport_in_urb e)[k := Some (next_in_urb e)], cport_in_buffer := (cport_in_buffer e)[k := True],
      in_urb_store := (in_urb_store e)(next_in_urb e \<mapsto> True)\<rparr>"
  have s: "start_in_urbs ks ans 0 e1 = (True, ret', e')"
    using Cons.prems(1) a by (simp add: Let_def e1_def)
  have "\<exists>u. cport_in_urb e1 ! j = Some u \<and> u < next_in_urb e1 \<and> in_urb_store e1 u = Some True" if j: "j \<in> insert k K" for j
  proof (cases "j = k")
    case True
    then show ?thesis using Cons.prems(5) by (simp add: e1_def)
  next
    case False
    then obtain u where "cport_in_urb e ! j = Some u" "u < next_in_urb e" "in_urb_store e u = Some True"
      using j Cons.prems(2) by (auto simp: in_urbs_running_def)
    then show ?thesis using False by (intro exI [of _ u]) (simp add: e1_def)
  qed
  then have "in_urbs_running (insert k K) e1" by (simp add: in_urbs_running_def)
  then have "in_urbs_running (insert k K \<union> set ks) e'"
    by (rule Cons.IH [OF s]) (use Cons.prems(3-5) in \<open>auto simp: e1_def\<close>)
  then show ?case by simp
qed simp

lemma find_endpoints_cports:
  "find_endpoints eps bi bo e = Some (bi', bo', e') \<Longrightarrow> es_num_cports e' = es_num_cports e"
  by (induction eps bi bo e rule: find_endpoints.induct) (auto split: endpoint_kind.splits if_splits)

lemma start_in_urbs_cports: "start_in_urbs ks ans ret e = (d, ret', e') \<Longrightarrow> es_num_cports e' = es_num_cports e"
  by (induction ks ans ret e rule: start_in_urbs.induct) (fastforce simp: Let_def split: if_splits prod.splits)+

lemma alloc_out_urbs_in:
  "alloc_out_urbs is ans e = (d, e') \<Longrightarrow>
   cport_in_urb e' = cport_in_urb e \<and> in_urb_store e' = in_urb_store e \<and> es_num_cports e' = es_num_cports e"
  by (induction "is" ans e rule: alloc_out_urbs.induct)
     (auto simp: usb_alloc_urb_def set_urb_def split: if_splits)

text \<open>
  A probe that succeeds leaves a driver that works: the pool is complete and idle, which is the initial
  state from which all runs are safe, and the four urbs of each of the seven in endpoints are
  submitted, whatever the environment answered on the way.
\<close>

theorem ap_probe_establishes:
  assumes "ap_probe n table_ok eps in_ans out_ans = Some (Inr (), e)"
  shows "es_init (e, []) \<and> length (cport_out_urb e) = NUM_CPORT_OUT_URB \<and> es_num_cports e = n \<and>
    (\<forall>k<NUM_BULKS * NUM_CPORT_IN_URB. \<exists>u. cport_in_urb e ! k = Some u \<and> in_urb_store e u = Some True)"
proof -
  define e0 where "e0 = fresh_es n NUM_BULKS (NUM_BULKS * NUM_CPORT_IN_URB) NUM_CPORT_OUT_URB"
  obtain bi bo e1 ret e2 where s:
    "find_endpoints eps 0 0 e0 = Some (bi, bo, e1)"
    "start_in_urbs [0..<NUM_BULKS * NUM_CPORT_IN_URB] in_ans (- ENOMEM) e1 = (True, ret, e2)"
    "alloc_out_urbs [0..<NUM_CPORT_OUT_URB] out_ans e2 = (True, e)"
    using assms
    by (auto simp: ap_probe_def Let_def e0_def split: if_splits prod.splits bind_splits)
  have f0: "pool_filled NUM_CPORT_OUT_URB 0 e0" by (simp add: pool_filled_def e0_def fresh_es_def)
  have f1: "pool_filled NUM_CPORT_OUT_URB 0 e1" "cport_in_urb e1 = cport_in_urb e0"
    using find_endpoints_filled [OF s(1) f0] by auto
  have f2: "pool_filled NUM_CPORT_OUT_URB 0 e2" by (rule start_in_urbs_filled [OF s(2) f1(1)])
  have f3: "pool_filled NUM_CPORT_OUT_URB NUM_CPORT_OUT_URB e"
    by (rule alloc_out_urbs_filled [OF s(3) f2]) simp
  have "in_urbs_running ({} \<union> set [0..<NUM_BULKS * NUM_CPORT_IN_URB]) e2"
    by (rule start_in_urbs_running [OF s(2)]) (simp_all add: in_urbs_running_def f1(2) e0_def fresh_es_def)
  moreover have "cport_in_urb e = cport_in_urb e2 \<and> in_urb_store e = in_urb_store e2 \<and> es_num_cports e = es_num_cports e2"
    by (rule alloc_out_urbs_in [OF s(3)])
  moreover have "es_num_cports e2 = n"
    using start_in_urbs_cports [OF s(2)] find_endpoints_cports [OF s(1)] by (simp add: e0_def fresh_es_def)
  ultimately show ?thesis
    using pool_filled_init [OF f3] f3 by (fastforce simp: in_urbs_running_def pool_filled_def)
qed

text \<open>With no failure on the way the loops come to their end.\<close>

lemma start_in_urbs_all: "\<exists>r e'. start_in_urbs ks (\<lambda>_. (True, True, 0)) ret e = (True, r, e')"
  by (induction ks arbitrary: ret e) (simp_all add: Let_def)

lemma alloc_out_urbs_all: "\<exists>e'. alloc_out_urbs is (\<lambda>_. True) e = (True, e')"
  by (induction "is" arbitrary: e) (simp_all add: usb_alloc_urb_def)

lemma demo_probe:
  "\<exists>e. ap_probe 3 True [(Bulk_in, 0x81), (Bulk_out, 0x01)] (\<lambda>_. (True, True, 0)) (\<lambda>_. True) = Some (Inr (), e)"
proof -
  define e1 where "e1 = (fresh_es 3 7 28 56)\<lparr>cport_in_endpoints := (cport_in_endpoints (fresh_es 3 7 28 56))[0 := 0x81],
      cport_out_endpoints := (cport_out_endpoints (fresh_es 3 7 28 56))[0 := 0x01]\<rparr>"
  have f: "find_endpoints [(Bulk_in, 0x81), (Bulk_out, 0x01)] 0 0 (fresh_es 3 7 28 56) = Some (1, 1, e1)"
    by (simp add: e1_def fresh_es_def)
  obtain r e2 where s: "start_in_urbs [0..<28] (\<lambda>_. (True, True, 0)) (- 12) e1 = (True, r, e2)"
    using start_in_urbs_all by blast
  obtain e3 where "alloc_out_urbs [0..<56] (\<lambda>_. True) e2 = (True, e3)" using alloc_out_urbs_all by blast
  with f s show ?thesis by (simp add: ap_probe_def Let_def)
qed

theorem ap_probe_establishes_witness:
  "\<exists>e. ap_probe 3 True [(Bulk_in, 0x81), (Bulk_out, 0x01)] (\<lambda>_. (True, True, 0)) (\<lambda>_. True) = Some (Inr (), e) \<and>
     es_init (e, [])"
proof -
  obtain e where e: "ap_probe 3 True [(Bulk_in, 0x81), (Bulk_out, 0x01)] (\<lambda>_. (True, True, 0)) (\<lambda>_. True) = Some (Inr (), e)"
    using demo_probe by blast
  then show ?thesis using ap_probe_establishes [OF e] by blast
qed

text \<open>
  A failed probe of es1.c is reported as a success: when any of the eight out urbs cannot be
  allocated, everything is torn down and the host device released, but the value returned is
  that of the last submitted in urb, 0.
\<close>

theorem es1_ap_probe_failure_reported_as_success:
  "list_all (\<lambda>i. case es1_ap_probe [(Bulk_in, 0x81), (Bulk_out, 0x01)] (\<lambda>_. (True, True, 0)) (\<lambda>j. j \<noteq> i) of
       None \<Rightarrow> False
     | Some (ret, e) \<Rightarrow> ret = 0 \<and> hd_kref e = 0 \<and> cport_out_urb e = replicate 8 None) [0..<8]"
  by (simp add: es1_ap_probe_def fresh_es_def upt_rec usb_alloc_urb_def set_urb_def es1_ap_disconnect_def
      usb_free_urb_def numeral_eq_Suc)

section \<open>Disconnecting\<close>

lemma giveback_kref: "usb_giveback e u st f = Some e' \<Longrightarrow> hd_kref e' = hd_kref e"
  by (auto simp: usb_giveback_def cport_out_callback_def gb_defs free_urb_def usb_free_urb_def Let_def
      split: bind_splits option.splits if_splits)

lemma drop_out_urbs_kref: "drop_out_urbs is e = Some e' \<Longrightarrow> hd_kref e' = hd_kref e"
proof (induction "is" e rule: drop_out_urbs.induct)
  case (2 i "is" e)
  show ?case
  proof (cases "cport_out_urb e ! i")
    case (Some u)
    then obtain x e1 e2 where s: "urb_store e u = Some x"
      "(if urb_message x = None then Some e else usb_giveback e u (- ENOENT) (\<lambda>_ _. True)) = Some e1"
      "usb_free_urb (Some u) e1 = Some e2"
      "drop_out_urbs is (e2\<lparr>cport_out_urb := (cport_out_urb e2)[i := None],
         cport_out_urb_busy := (cport_out_urb_busy e2)[i := False]\<rparr>) = Some e'"
      using 2(2) by (auto split: bind_splits)
    have "hd_kref e1 = hd_kref e" using s(2) giveback_kref by (auto split: if_splits)
    moreover have "hd_kref e2 = hd_kref e1" using s(3) by (auto simp: usb_free_urb_def gb_defs split: bind_splits if_splits)
    ultimately show ?thesis using 2(1) [OF Some s(1-4)] by simp
  qed (use 2 in simp)
qed simp

lemma drop_in_urbs_kref: "drop_in_urbs ks e = Some e' \<Longrightarrow> hd_kref e' = hd_kref e"
  by (induction ks e rule: drop_in_urbs.induct) (auto split: option.splits bind_splits)

lemma drop_all_in_urbs_kref: "drop_all_in_urbs bs e = Some e' \<Longrightarrow> hd_kref e' = hd_kref e"
  by (induction bs arbitrary: e) (auto split: bind_splits dest!: drop_in_urbs_kref)

text \<open>
  Disconnecting an ES2 bridge uses freed memory: the driver's data is part of the host device,
  and ap_disconnect reads the endpoint table from it after greybus_remove_hd has dropped the last reference.
\<close>

theorem es2_disconnect_use_after_free:
  assumes "hd_kref e = 1"
  shows "ap_disconnect e = None"
  using assms
  by (auto simp: ap_disconnect_def Let_def split: bind_splits dest!: drop_out_urbs_kref drop_all_in_urbs_kref)

theorem es2_disconnect_use_after_free_witness: "ap_disconnect demo_es = None"
  by (rule es2_disconnect_use_after_free) (simp add: demo_es_def fresh_es_def usb_alloc_urb_def set_urb_def)

section \<open>The log\<close>

lemma apb1_log_get_bound: "length fifo \<le> APB1_LOG_SIZE \<Longrightarrow> length (apb1_log_get ms fifo) \<le> APB1_LOG_SIZE"
  by (induction ms fifo rule: apb1_log_get.induct) (auto simp: kfifo_in_bytes_def)

lemma apb1_log_get_prefix: "\<exists>rest. apb1_log_get ms fifo = fifo @ rest"
  by (induction ms fifo rule: apb1_log_get.induct) (auto simp: kfifo_in_bytes_def)

text \<open>
  The log keeps the oldest bytes in order and never grows beyond its size, but a reader loses
  data: a read at a position at or beyond what it takes out of the fifo returns nothing and drops
  the bytes. Reading twice with the same buffer size therefore shows only the first part.
\<close>

theorem apb1_log_read_loses:
  assumes "length fifo \<le> APB1_LOG_SIZE" "min count (length (apb1_log_get ms fifo)) \<le> pos" "count \<le> APB1_LOG_SIZE"
  shows "length (apb1_log_get ms fifo) \<le> APB1_LOG_SIZE \<and> (\<exists>rest. apb1_log_get ms fifo = fifo @ rest) \<and>
    apb1_log_read True count pos (apb1_log_get ms fifo) = (Inr [], pos, drop count (apb1_log_get ms fifo))"
proof -
  have "drop pos (take count (apb1_log_get ms fifo)) = []" using assms(2) by simp
  then show ?thesis
    using apb1_log_get_bound [OF assms(1), of ms] apb1_log_get_prefix [of ms fifo] assms(3)
    by (simp add: apb1_log_read_def simple_read_from_buffer_def)
qed

theorem apb1_log_read_loses_witness:
  "apb1_log_read True 2 0 (apb1_log_get [(4, [1, 2, 3, 4]), (0, [])] []) = (Inr [1, 2], 2, [3, 4]) \<and>
   apb1_log_read True 2 2 (apb1_log_get [(2, [3, 4]), (0, [])] []) = (Inr [], 2, [])"
proof -
  have "apb1_log_read True 2 2 (apb1_log_get [(2, [3, 4]), (0, [])] []) =
      (Inr [], 2, drop 2 (apb1_log_get [(2, [3, 4]), (0, [])] []))"
    using apb1_log_read_loses [of "[]" 2 "[(2, [3, 4]), (0, [])]" 2] by simp
  then show ?thesis
    by (simp add: kfifo_in_bytes_def apb1_log_read_def simple_read_from_buffer_def)
qed

end
