(* ===== verification/GB_Loopback.thy ===== *)
theory GB_Loopback
  imports GB_Connection
begin

text \<open>
  The loopback protocol (loopback.c): a test driver that sends pings, transfers and sink messages on every
  loopback connection and keeps statistics of latency, throughput and request rate, per
  connection and over all of them. The clock, the answers of the other side and the
  allocator are arguments. A division by zero is a fault (\<open>None\<close>).
\<close>

section \<open>State\<close>

record gb_loopback_stats =
  st_min :: u32
  st_max :: u32
  st_sum :: u64
  st_count :: u32

text \<open>A time of day: seconds and microseconds.\<close>

type_synonym timeval = "u64 \<times> u64"

text \<open>
  struct gb_loopback; \<open>conn_ts\<close> is the timestamp fifo of its connection, into which the host driver
  puts the times at which a message left and its response arrived.
\<close>

record gb_loopback =
  conn_ts :: "timeval list"
  kfifo_lat :: "u32 list"
  kfifo_ts :: "timeval list"
  lat_con :: gb_loopback_stats
  lat_gb_con :: gb_loopback_stats
  thr_con :: gb_loopback_stats
  req_con :: gb_loopback_stats
  lbid :: u32
  it_count :: u32
  elapsed_nsecs :: u64
  elapsed_nsecs_gb :: u64
  lb_error :: u32

text \<open>
  struct gb_loopback_device, the one device of the module; \<open>gb_list\<close> is its list of connections, each with
  its address. \<open>kfifo_depth\<close> is the module parameter.
\<close>

record gb_loopback_device =
  lb_count :: u32
  lb_kfifo :: "u32 list"
  gb_list :: "(nat \<times> gb_loopback) list"
  lb_type :: int
  lb_mask :: u32
  lb_size :: u32
  iteration_max :: u32
  iteration_count :: u32
  size_max :: size_t
  ms_wait :: int
  dev_error :: u32
  latency :: gb_loopback_stats
  latency_gb :: gb_loopback_stats
  throughput :: gb_loopback_stats
  requests_per_second :: gb_loopback_stats
  kfifo_depth :: nat

abbreviation (input) GB_LOOPBACK_TYPE_PING :: int where "GB_LOOPBACK_TYPE_PING \<equiv> 2"
abbreviation (input) GB_LOOPBACK_TYPE_TRANSFER :: int where "GB_LOOPBACK_TYPE_TRANSFER \<equiv> 3"
abbreviation (input) GB_LOOPBACK_TYPE_SINK :: int where "GB_LOOPBACK_TYPE_SINK \<equiv> 4"
abbreviation (input) NSEC_PER_DAY :: u64 where "NSEC_PER_DAY \<equiv> 86400000000000"
abbreviation (input) EREMOTEIO :: int where "EREMOTEIO \<equiv> 121"

section \<open>Statistics\<close>

definition stats_reset :: gb_loopback_stats where
  "stats_reset = \<lparr>st_min = 0xffffffff, st_max = 0, st_sum = 0, st_count = 0\<rparr>"

definition gb_loopback_update_stats :: "gb_loopback_stats \<Rightarrow> u32 \<Rightarrow> gb_loopback_stats" where
  "gb_loopback_update_stats s val =
     \<lparr>st_min = (if val < st_min s then val else st_min s),
      st_max = (if st_max s < val then val else st_max s),
      st_sum = st_sum s + ucast val, st_count = st_count s + 1\<rparr>"

definition gb_loopback_reset_stats :: "gb_loopback_device \<Rightarrow> gb_loopback_device" where
  "gb_loopback_reset_stats d =
     d\<lparr>gb_list := map (\<lambda>(a, gb). (a, gb\<lparr>lat_con := stats_reset, lat_gb_con := stats_reset,
                                      thr_con := stats_reset, req_con := stats_reset\<rparr>)) (gb_list d),
       latency := stats_reset, latency_gb := stats_reset, throughput := stats_reset,
       requests_per_second := stats_reset\<rparr>"

text \<open>The average that the attributes print: the part before the point and the six digits after it.\<close>

definition avg_show :: "gb_loopback_stats \<Rightarrow> u64 \<times> u32" where
  "avg_show s =
     (let count = (if st_count s \<noteq> 0 then st_count s else 1);
          avg = st_sum s + ucast (count div 2);
          rem = ucast (avg mod ucast count) :: u32
      in (avg div ucast count, 1000000 * rem div count))"

section \<open>Attributes\<close>

definition gb_loopback_check_attr :: "gb_loopback_device \<Rightarrow> gb_loopback_device" where
  "gb_loopback_check_attr d =
     (let d1 = d\<lparr>ms_wait := (if 1000 < ms_wait d then 1000 else ms_wait d),
                 lb_size := (if size_max d < ucast (lb_size d) then ucast (size_max d) else lb_size d),
                 iteration_count := 0, dev_error := 0,
                 gb_list := map (\<lambda>(a, gb). (a, gb\<lparr>it_count := 0, lb_error := 0, kfifo_lat := [], kfifo_ts := []\<rparr>))
                              (gb_list d)\<rparr>
      in if lb_type d1 \<in> {GB_LOOPBACK_TYPE_PING, GB_LOOPBACK_TYPE_TRANSFER, GB_LOOPBACK_TYPE_SINK}
         then gb_loopback_reset_stats (d1\<lparr>lb_kfifo := []\<rparr>)
         else d1\<lparr>lb_type := 0\<rparr>)"

text \<open>
  Writing an attribute: sscanf stores the number, if the text has one, and the attributes are
  checked; without a number the result is -EINVAL.
\<close>

datatype loopback_attr = Attr_type int | Attr_size u32 | Attr_ms_wait int | Attr_iteration_max u32 | Attr_mask u32

fun set_attr :: "loopback_attr \<Rightarrow> gb_loopback_device \<Rightarrow> gb_loopback_device" where
  "set_attr (Attr_type t) d = d\<lparr>lb_type := t\<rparr>"
| "set_attr (Attr_size s) d = d\<lparr>lb_size := s\<rparr>"
| "set_attr (Attr_ms_wait m) d = d\<lparr>ms_wait := m\<rparr>"
| "set_attr (Attr_iteration_max i) d = d\<lparr>iteration_max := i\<rparr>"
| "set_attr (Attr_mask m) d = d\<lparr>lb_mask := m\<rparr>"

definition gb_dev_loopback_store :: "loopback_attr option \<Rightarrow> nat \<Rightarrow> gb_loopback_device \<Rightarrow> int \<times> gb_loopback_device" where
  "gb_dev_loopback_store scanned len d =
     (case scanned of None \<Rightarrow> (- EINVAL, d) | Some a \<Rightarrow> (int len, gb_loopback_check_attr (set_attr a d)))"

section \<open>Latency\<close>

definition gb_loopback_nsec_to_usec_latency :: "u64 \<Rightarrow> u32" where
  "gb_loopback_nsec_to_usec_latency ns = ucast (ns div 1000)"

definition calc_latency :: "u64 \<Rightarrow> u64 \<Rightarrow> u64" where
  "calc_latency t1 t2 = (if t1 < t2 then t2 - t1 else NSEC_PER_DAY - t2 + t1)"

definition timeval_to_ns :: "timeval \<Rightarrow> u64" where
  "timeval_to_ns tv = fst tv * 1000000000 + snd tv * 1000"

definition gb_loopback_calc_latency :: "timeval \<Rightarrow> timeval \<Rightarrow> u64" where
  "gb_loopback_calc_latency ts te = calc_latency (timeval_to_ns ts) (timeval_to_ns te)"

text \<open>kfifo_in with room for \<open>cap\<close> elements.\<close>

definition kfifo_push :: "nat \<Rightarrow> 'a \<Rightarrow> 'a list \<Rightarrow> 'a list" where
  [gb_defs]: "kfifo_push cap x q = (if length q < cap then q @ [x] else q)"

definition gb_loopback_push_latency_ts :: "nat \<Rightarrow> gb_loopback \<Rightarrow> timeval \<Rightarrow> timeval \<Rightarrow> gb_loopback" where
  "gb_loopback_push_latency_ts depth gb ts te =
     gb\<lparr>kfifo_ts := kfifo_push (2 * depth) te (kfifo_push (2 * depth) ts (kfifo_ts gb))\<rparr>"

definition gb_loopback_active :: "gb_loopback_device \<Rightarrow> gb_loopback \<Rightarrow> bool" where
  "gb_loopback_active d gb \<longleftrightarrow> lb_mask d = 0 \<or> lb_mask d AND lbid gb \<noteq> 0"

text \<open>
  The end that ping, sink and transfer share: the latency from the times around the call, and the part
  of it outside greybus from the two timestamps of the host driver; a pop from an empty fifo leaves
  the variable as it was.
\<close>

definition measure_call :: "nat \<Rightarrow> gb_loopback \<Rightarrow> timeval \<Rightarrow> timeval \<Rightarrow> gb_loopback" where
  "measure_call depth gb ts te =
     (let gb1 = (gb_loopback_push_latency_ts depth gb ts te)\<lparr>elapsed_nsecs := gb_loopback_calc_latency ts te\<rparr>
      in case gb_connection_pop_timestamp (conn_ts gb1) of (_, t1, q1) \<Rightarrow>
         case gb_connection_pop_timestamp q1 of (_, t2, q2) \<Rightarrow>
           gb1\<lparr>conn_ts := q2,
               elapsed_nsecs_gb := gb_loopback_calc_latency (case t1 of None \<Rightarrow> ts | Some t \<Rightarrow> t)
                                     (case t2 of None \<Rightarrow> te | Some t \<Rightarrow> t)\<rparr>)"

section \<open>Messages\<close>

text \<open>
  One call of the driver: the request that goes out, if it gets that far, with the size of the
  expected response; \<open>sync\<close> is what gb_operation_sync answers. \<open>heap\<close> is what the freshly
  allocated request happens to contain.
\<close>

type_synonym lb_sync = "u8 \<Rightarrow> bytes \<Rightarrow> nat \<Rightarrow> int \<times> bytes"

definition gb_loopback_sink ::
    "nat \<Rightarrow> lb_sync \<Rightarrow> bool \<Rightarrow> bytes \<Rightarrow> timeval \<Rightarrow> timeval \<Rightarrow> gb_loopback \<Rightarrow> u32 \<Rightarrow> int \<times> bytes option \<times> gb_loopback" where
  "gb_loopback_sink depth sync ok heap ts te gb len =
     (if \<not> ok then (- ENOMEM, None, gb)
      else let req = cpu_to_le32 len @ take (unat len) heap in
        (fst (sync 0x04 req 0), Some req, measure_call depth gb ts te))"

definition gb_loopback_transfer ::
    "nat \<Rightarrow> lb_sync \<Rightarrow> bool \<Rightarrow> bool \<Rightarrow> timeval \<Rightarrow> timeval \<Rightarrow> gb_loopback \<Rightarrow> u32 \<Rightarrow> int \<times> bytes option \<times> gb_loopback" where
  "gb_loopback_transfer depth sync ok1 ok2 ts te gb len =
     (if \<not> ok1 \<or> \<not> ok2 then (- ENOMEM, None, gb)
      else
        let data = replicate (unat len) 0x5A;
            req = cpu_to_le32 len @ data;
            gb1 = measure_call depth gb ts te
        in case sync 0x03 req (unat len) of (ret, resp) \<Rightarrow>
             if ret \<noteq> 0 then (ret, Some req, gb1)
             else (if take (unat len) resp \<noteq> data then - EREMOTEIO else 0, Some req, gb1))"

definition gb_loopback_ping ::
    "nat \<Rightarrow> lb_sync \<Rightarrow> timeval \<Rightarrow> timeval \<Rightarrow> gb_loopback \<Rightarrow> int \<times> bytes option \<times> gb_loopback" where
  "gb_loopback_ping depth sync ts te gb = (fst (sync 0x02 [] 0), Some [], measure_call depth gb ts te)"

text \<open>Requests of the module: the payload of a transfer is echoed.\<close>

definition gb_loopback_request_recv ::
    "size_t \<Rightarrow> size_t \<Rightarrow> bool \<Rightarrow> bool \<Rightarrow> u8 \<Rightarrow> gb_operation \<Rightarrow> (int \<times> gb_operation) option" where
  "gb_loopback_request_recv bmax smax ok1 ok2 ty opn =
     (if ty = 0x01 then Some (- EINVAL, opn)
      else if ty = 0x02 \<or> ty = 0x04 then Some (0, opn)
      else if ty = 0x03 then
        if payload_size (request opn) < 4 then Some (- EINVAL, opn)
        else do {
          q \<leftarrow> rd_bytes (buffer (request opn)) 8 4;
          let len = (ucast (le32_to_cpu (q ! 0) (q ! 1) (q ! 2) (q ! 3)) :: size_t);
          if smax < len then Some (- EINVAL, opn)
          else if len = 0 then Some (0, opn)
          else do {
            (ok, o1) \<leftarrow> gb_operation_response_alloc bmax ok1 ok2 len opn;
            if \<not> ok then Some (- ENOMEM, o1)
            else do {
              resp \<leftarrow> response o1;
              src \<leftarrow> rd_bytes (buffer (request o1)) 12 (unat len);
              buf \<leftarrow> wr_bytes (buffer resp) 8 src;
              Some (0, o1\<lparr>response := Some (resp\<lparr>buffer := buf\<rparr>)\<rparr>)
            }
          }
        }
      else Some (- EINVAL, opn))"

section \<open>Accounting\<close>

definition gb_loopback_requests_update ::
    "gb_loopback_device \<Rightarrow> gb_loopback \<Rightarrow> u32 \<Rightarrow> (gb_loopback_device \<times> gb_loopback) option" where
  "gb_loopback_requests_update d gb lat =
     (if lat = 0 then None
      else let req = 1000000 div lat in
        Some (d\<lparr>requests_per_second := gb_loopback_update_stats (requests_per_second d) req\<rparr>,
              gb\<lparr>req_con := gb_loopback_update_stats (req_con gb) req\<rparr>))"

definition aggregate_size :: "gb_loopback_device \<Rightarrow> u32 option" where
  "aggregate_size d =
     (if lb_type d = GB_LOOPBACK_TYPE_PING then Some 16
      else if lb_type d = GB_LOOPBACK_TYPE_SINK then Some (16 + (4 + lb_size d))
      else if lb_type d = GB_LOOPBACK_TYPE_TRANSFER then Some (16 + (4 + 0 + lb_size d * 2))
      else None)"

definition gb_loopback_throughput_update ::
    "gb_loopback_device \<Rightarrow> gb_loopback \<Rightarrow> u32 \<Rightarrow> (gb_loopback_device \<times> gb_loopback) option" where
  "gb_loopback_throughput_update d gb lat =
     (case aggregate_size d of
        None \<Rightarrow> Some (d, gb)
      | Some sz \<Rightarrow>
          if lat = 0 then None
          else let thr = 1000000 div lat * sz in
            Some (d\<lparr>throughput := gb_loopback_update_stats (throughput d) thr\<rparr>,
                  gb\<lparr>thr_con := gb_loopback_update_stats (thr_con gb) thr\<rparr>))"

definition gb_loopback_calculate_stats ::
    "gb_loopback_device \<Rightarrow> gb_loopback \<Rightarrow> (gb_loopback_device \<times> gb_loopback) option" where
  "gb_loopback_calculate_stats d gb = do {
     let lat = gb_loopback_nsec_to_usec_latency (elapsed_nsecs gb);
     let d1 = d\<lparr>latency := gb_loopback_update_stats (latency d) lat\<rparr>;
     let gb1 = gb\<lparr>lat_con := gb_loopback_update_stats (lat_con gb) lat,
                  kfifo_lat := kfifo_push (kfifo_depth d) lat (kfifo_lat gb)\<rparr>;
     (d2, gb2) \<leftarrow> gb_loopback_throughput_update d1 gb1 lat;
     (d3, gb3) \<leftarrow> gb_loopback_requests_update d2 gb2 lat;
     let lat = (ucast (elapsed_nsecs gb3 - elapsed_nsecs_gb gb3) :: u32);
     Some (d3\<lparr>latency_gb := gb_loopback_update_stats (latency_gb d3) lat\<rparr>,
           gb3\<lparr>lat_gb_con := gb_loopback_update_stats (lat_gb_con gb3) lat\<rparr>)
   }"

text \<open>
  One round of gb_loopback_calculate_aggregate_stats over the connections: the earliest start and the latest
  end of the round, and the fifos without the timestamps that were taken; \<open>None\<close> when a
  fifo has too few.
\<close>

record agg = agg_latched :: bool  agg_min :: u64  agg_max :: u64  agg_rollover :: bool

fun aggregate_round ::
    "gb_loopback_device \<Rightarrow> (nat \<times> gb_loopback) list \<Rightarrow> agg \<Rightarrow> agg \<times> (nat \<times> gb_loopback) list \<times> bool" where
  "aggregate_round d [] g = (g, [], True)"
| "aggregate_round d ((a, gb) # gbs) g =
     (if \<not> gb_loopback_active d gb
      then (case aggregate_round d gbs g of (g', gbs', ok) \<Rightarrow> (g', (a, gb) # gbs', ok))
      else case kfifo_ts gb of
        ts # te # rest \<Rightarrow>
          let t1 = timeval_to_ns ts; t2 = timeval_to_ns te;
              mn = (if \<not> agg_latched g \<or> t1 < agg_min g then t1 else agg_min g);
              g1 = (if t1 < t2
                    then g\<lparr>agg_max := (if \<not> agg_latched g \<or> agg_max g < t2 then t2 else agg_max g)\<rparr>
                    else
                      let mx = (if \<not> agg_latched g \<or> \<not> agg_rollover g then t2 else agg_max g);
                          mx = (if agg_rollover g \<and> mx < t2 then t2 else mx)
                      in g\<lparr>agg_max := mx, agg_rollover := True\<rparr>)
          in (case aggregate_round d gbs (g1\<lparr>agg_min := mn, agg_latched := True\<rparr>) of
                (g', gbs', ok) \<Rightarrow> (g', (a, gb\<lparr>kfifo_ts := rest\<rparr>) # gbs', ok))
      | _ \<Rightarrow> (g, (a, gb\<lparr>kfifo_ts := []\<rparr>) # gbs, False))"

fun aggregate_loop :: "nat \<Rightarrow> bool \<Rightarrow> gb_loopback_device \<Rightarrow> int \<times> gb_loopback_device" where
  "aggregate_loop 0 rollover d = (0, d)"
| "aggregate_loop (Suc n) rollover d =
     (case aggregate_round d (gb_list d) \<lparr>agg_latched = False, agg_min = 0, agg_max = 0, agg_rollover = rollover\<rparr> of
        (g, gbs, ok) \<Rightarrow>
          if \<not> ok then (- ENOMEM, d\<lparr>gb_list := gbs, lb_kfifo := []\<rparr>)
          else
            let lat = gb_loopback_nsec_to_usec_latency (calc_latency (agg_min g) (agg_max g))
            in aggregate_loop n (agg_rollover g)
                 (d\<lparr>gb_list := gbs, lb_kfifo := kfifo_push (kfifo_depth d) lat (lb_kfifo d)\<rparr>))"

text \<open>The loop counter is an int that is compared with a u32, so all values up to 2^32 - 1 are rounds.\<close>

definition gb_loopback_calculate_aggregate_stats :: "gb_loopback_device \<Rightarrow> int \<times> gb_loopback_device" where
  "gb_loopback_calculate_aggregate_stats d = aggregate_loop (unat (iteration_max d)) False d"

section \<open>The thread of a connection\<close>

datatype fn_action = Blocked | Continue | Sleep | Perform int u32

text \<open>
  gb_loopback_fn from the top of the loop to the decision what to do: wait for a type to be set,
  skip an inactive connection, count the iterations that all connections have done, end the test, or
  perform an operation.
\<close>

definition low_count :: "gb_loopback_device \<Rightarrow> gb_loopback \<Rightarrow> u32" where
  "low_count d gb = fold (\<lambda>(_, g) low. if gb_loopback_active d g \<and> it_count g < low then it_count g else low)
     (gb_list d) (it_count gb)"

definition fn_decide :: "gb_loopback_device \<Rightarrow> gb_loopback \<Rightarrow> fn_action \<times> gb_loopback_device" where
  "fn_decide d gb =
     (if lb_type d = 0 then (Blocked, d)
      else if \<not> gb_loopback_active d gb then (Continue, d)
      else
        let d1 = (if iteration_max d \<noteq> 0 \<and> iteration_count d < low_count d gb
                  then d\<lparr>iteration_count := low_count d gb\<rparr> else d)
        in if iteration_max d \<noteq> 0 \<and> iteration_count d1 = iteration_max d1
           then (Continue, (snd (gb_loopback_calculate_aggregate_stats d1))\<lparr>lb_type := 0\<rparr>)
           else if iteration_max d1 \<le> it_count gb then (Sleep, d1)
           else (Perform (lb_type d1) (lb_size d1), d1))"

text \<open>What the environment contributes to one iteration.\<close>

record lb_env =
  env_sync :: lb_sync
  env_ok1 :: bool
  env_ok2 :: bool
  env_heap :: bytes
  env_ts :: timeval
  env_te :: timeval

definition perform :: "lb_env \<Rightarrow> nat \<Rightarrow> int \<Rightarrow> u32 \<Rightarrow> gb_loopback \<Rightarrow> int \<times> bytes option \<times> gb_loopback" where
  "perform env depth ty sz gb =
     (if ty = GB_LOOPBACK_TYPE_PING then gb_loopback_ping depth (env_sync env) (env_ts env) (env_te env) gb
      else if ty = GB_LOOPBACK_TYPE_TRANSFER
        then gb_loopback_transfer depth (env_sync env) (env_ok1 env) (env_ok2 env) (env_ts env) (env_te env) gb sz
      else if ty = GB_LOOPBACK_TYPE_SINK
        then gb_loopback_sink depth (env_sync env) (env_ok1 env) (env_heap env) (env_ts env) (env_te env) gb sz
      else (0, None, gb))"

definition set_gb :: "gb_loopback_device \<Rightarrow> nat \<Rightarrow> gb_loopback \<Rightarrow> gb_loopback_device" where
  [gb_defs]: "set_gb d a gb = d\<lparr>gb_list := map (\<lambda>(b, g). if b = a then (b, gb) else (b, g)) (gb_list d)\<rparr>"

definition fn_account :: "gb_loopback_device \<Rightarrow> nat \<Rightarrow> int \<Rightarrow> gb_loopback \<Rightarrow> gb_loopback_device option" where
  "fn_account d a error gb = do {
     let d1 = (if error \<noteq> 0 then d\<lparr>dev_error := dev_error d + 1\<rparr> else d);
     let gb1 = (if error \<noteq> 0 then gb\<lparr>lb_error := lb_error gb + 1\<rparr> else gb);
     (d2, gb2) \<leftarrow> gb_loopback_calculate_stats d1 gb1;
     Some (set_gb d2 a (gb2\<lparr>it_count := it_count gb2 + 1\<rparr>))
   }"

text \<open>One iteration of the thread of connection \<open>a\<close>.\<close>

definition gb_loopback_fn :: "lb_env \<Rightarrow> nat \<Rightarrow> gb_loopback_device \<Rightarrow> (fn_action \<times> gb_loopback_device) option" where
  "gb_loopback_fn env a d = do {
     gb \<leftarrow> map_of (gb_list d) a;
     (case fn_decide d gb of
        (Perform ty sz, d1) \<Rightarrow>
          (case perform env (kfifo_depth d1) ty sz gb of (error, _, gb1) \<Rightarrow> do {
             d2 \<leftarrow> fn_account d1 a error gb1;
             Some (Perform ty sz, d2)
           })
      | (act, d1) \<Rightarrow> Some (act, d1))
   }"

section \<open>The raw latency files\<close>

definition gb_loopback_dbgfs_latency_show_common :: "u32 list \<Rightarrow> int \<times> u32 option \<times> u32 list" where
  "gb_loopback_dbgfs_latency_show_common q =
     (case q of [] \<Rightarrow> (- EAGAIN, None, []) | x # rest \<Rightarrow> (0, Some x, rest))"

section \<open>Connections\<close>

text \<open>
  gb_loopback_connection_init: \<open>pmax\<close> is the largest payload of an operation on the connection; the
  other arguments are the results of the allocations, of sysfs and of kthread_run.
\<close>

record lb_init_env =
  init_alloc :: bool
  sysfs_dev_ret :: int
  sysfs_con_ret :: int
  kfifo_lat_ok :: bool
  kfifo_ts_ok :: bool
  kthread_ret :: int

definition new_gb :: "u32 \<Rightarrow> gb_loopback" where
  "new_gb lb = \<lparr>conn_ts = [], kfifo_lat = [], kfifo_ts = [], lat_con = \<lparr>st_min = 0, st_max = 0, st_sum = 0, st_count = 0\<rparr>,
     lat_gb_con = \<lparr>st_min = 0, st_max = 0, st_sum = 0, st_count = 0\<rparr>,
     thr_con = \<lparr>st_min = 0, st_max = 0, st_sum = 0, st_count = 0\<rparr>,
     req_con = \<lparr>st_min = 0, st_max = 0, st_sum = 0, st_count = 0\<rparr>,
     lbid = lb, it_count = 0, elapsed_nsecs = 0, elapsed_nsecs_gb = 0, lb_error = 0\<rparr>"

definition gb_loopback_connection_init ::
    "lb_init_env \<Rightarrow> size_t \<Rightarrow> nat \<Rightarrow> gb_loopback_device \<Rightarrow> (int \<times> gb_loopback_device) option" where
  "gb_loopback_connection_init env pmax a d =
     (if \<not> init_alloc env then Some (- ENOMEM, d)
      else
        let d1 = gb_loopback_reset_stats d in
        if lb_count d1 = 0 \<and> sysfs_dev_ret env \<noteq> 0 then Some (sysfs_dev_ret env, d1)
        else if lb_count d1 = 0 \<and> pmax \<le> 4 then Some (- EINVAL, d1\<lparr>size_max := pmax\<rparr>)
        else
          let d2 = (if lb_count d1 = 0 then d1\<lparr>size_max := pmax - 4\<rparr> else d1) in
          if sysfs_con_ret env \<noteq> 0 then Some (sysfs_con_ret env, d2)
          else if \<not> kfifo_lat_ok env then Some (- ENOMEM, d2)
          else if \<not> kfifo_ts_ok env then Some (- ENOMEM, d2)
          else if 32 \<le> unat (lb_count d2) then None
          else if kthread_ret env \<noteq> 0 then Some (kthread_ret env, d2)
          else Some (0, d2\<lparr>gb_list := gb_list d2 @ [(a, new_gb (push_bit (unat (lb_count d2)) 1))],
                           lb_count := lb_count d2 + 1\<rparr>))"

definition gb_loopback_connection_exit :: "nat \<Rightarrow> gb_loopback_device \<Rightarrow> gb_loopback_device" where
  "gb_loopback_connection_exit a d =
     d\<lparr>gb_list := filter (\<lambda>(b, _). b \<noteq> a) (gb_list d), lb_count := lb_count d - 1\<rparr>"

end
