(* ===== verification/GB_Loopback_Props.thy ===== *)
theory GB_Loopback_Props
  imports GB_Loopback GB_Operation_Handlers
begin

text \<open>
  What the loopback driver measures and when a test ends: exactness of the statistics, the latency
  of calls, the echo of transfers, the end of a bounded test under every fair schedule, and the
  runs in which it divides by zero, sends nothing or confuses connections.
\<close>

section \<open>Statistics\<close>

definition stats_of :: "u32 list \<Rightarrow> gb_loopback_stats" where
  "stats_of vs = foldl gb_loopback_update_stats stats_reset vs"

lemma update_min: "st_min (gb_loopback_update_stats s v) = min v (st_min s)"
  by (auto simp: gb_loopback_update_stats_def min_def)

lemma update_max: "st_max (gb_loopback_update_stats s v) = max v (st_max s)"
  by (auto simp: gb_loopback_update_stats_def max_def)

lemma stats_of_fields:
  "st_min (stats_of vs) = foldr min vs 0xffffffff \<and> st_max (stats_of vs) = foldr max vs 0 \<and>
   st_sum (stats_of vs) = of_nat (sum_list (map unat vs)) \<and> st_count (stats_of vs) = of_nat (length vs)"
proof (induction vs rule: rev_induct)
  case (snoc v vs)
  have mn: "foldr min vs (min v x) = min v (foldr min vs x)" for x :: u32
    by (induction vs) (auto simp: min.left_commute)
  have mx: "foldr max vs (max v x) = max v (foldr max vs x)" for x :: u32
    by (induction vs) (auto simp: max.left_commute)
  have s: "stats_of (vs @ [v]) = gb_loopback_update_stats (stats_of vs) v" by (simp add: stats_of_def)
  have "st_sum (gb_loopback_update_stats (stats_of vs) v) = st_sum (stats_of vs) + of_nat (unat v)"
    "st_count (gb_loopback_update_stats (stats_of vs) v) = st_count (stats_of vs) + 1"
    by (simp_all add: gb_loopback_update_stats_def)
  moreover have "foldr max vs v = max v (foldr max vs 0)" using mx [of 0] by simp
  ultimately show ?case using snoc by (simp add: s update_min update_max mn)
qed (simp add: stats_of_def stats_reset_def)

lemma foldr_min_Min: "vs \<noteq> [] \<Longrightarrow> foldr min vs (0xffffffff :: u32) = Min (set vs)"
proof (induction vs)
  case (Cons v vs)
  have "v \<le> 0xffffffff" using unsigned_less [of v, where 'a = nat] by (simp add: word_le_nat_alt)
  then have "min v (0xffffffff :: u32) = v" by (simp add: min_def)
  then show ?case using Cons by (cases "vs = []") auto
qed simp

lemma foldr_max_Max: "vs \<noteq> [] \<Longrightarrow> foldr max vs (0 :: u32) = Max (set vs)"
proof (induction vs)
  case (Cons v vs)
  then show ?case by (cases "vs = []") auto
qed simp

lemma sum_unat_bound: "sum_list (map unat (vs :: u32 list)) \<le> length vs * (2 ^ 32 - 1)"
proof (induction vs)
  case (Cons v vs)
  then show ?case using unsigned_less [of v, where 'a = nat] by simp
qed simp

lemma stats_of_exact:
  assumes "vs \<noteq> []" "length vs < 2 ^ 32"
  shows "st_min (stats_of vs) = Min (set vs) \<and> st_max (stats_of vs) = Max (set vs) \<and>
    unat (st_sum (stats_of vs)) = sum_list (map unat vs) \<and> unat (st_count (stats_of vs)) = length vs"
proof -
  have "sum_list (map unat vs) < 2 ^ 64"
  proof -
    have "length vs * (2 ^ 32 - 1) \<le> (2 ^ 32) * (2 ^ 32 - 1)" using assms(2) by (intro mult_le_mono1) simp
    also have "\<dots> < (2::nat) ^ 64" by simp
    finally show ?thesis using sum_unat_bound [of vs] by linarith
  qed
  then show ?thesis
    using assms stats_of_fields [of vs]
    by (simp add: foldr_min_Min foldr_max_Max unsigned_of_nat take_bit_nat_eq_self)
qed

text \<open>
  The statistics are exact: after a reset and fewer than 2^32 measurements they hold the smallest and the
  largest value, the sum of all values without overflow, and their number.
\<close>

theorem gb_loopback_stats_exact:
  assumes "vs \<noteq> []" "length vs < 2 ^ 32"
  shows "st_min (stats_of vs) = Min (set vs) \<and> st_max (stats_of vs) = Max (set vs) \<and>
    unat (st_sum (stats_of vs)) = sum_list (map unat vs) \<and> unat (st_count (stats_of vs)) = length vs"
  by (rule stats_of_exact [OF assms])

theorem gb_loopback_stats_exact_witness:
  "st_min (stats_of [7, 3, 9]) = 3 \<and> st_max (stats_of [7, 3, 9]) = 9 \<and> unat (st_sum (stats_of [7, 3, 9])) = 19"
  using gb_loopback_stats_exact [of "[7, 3, 9]"] by simp

text \<open>
  The printed average is off by one half: for an even number of equal measurements the attribute prints the
  value followed by .500000, since the digits after the point are those of the sum that was already
  rounded.
\<close>

theorem avg_show_biased:
  assumes "0 < n" "n < 2000"
  shows "avg_show (stats_of (replicate (2 * n) v)) = (ucast v, 500000)"
proof -
  let ?s = "stats_of (replicate (2 * n) v)"
  have len: "2 * n < 2 ^ 32" using assms(2) by simp
  have f: "unat (st_sum ?s) = 2 * n * unat v" "unat (st_count ?s) = 2 * n"
    using stats_of_exact [of "replicate (2 * n) v"] assms(1) len by (simp_all add: sum_list_replicate)
  have vb: "unat v < 2 ^ 32" using unsigned_less [of v, where 'a = nat] by simp
  have c0: "st_count ?s \<noteq> 0" using f(2) assms(1) by auto
  have half: "unat (st_count ?s div 2) = n" using f(2) by (simp add: unat_div)
  have bound: "2 * n * unat v + n < 2 ^ 64"
  proof -
    have "2 * n * unat v + n \<le> 4000 * 2 ^ 32 + 2000" using assms(2) vb by (intro add_mono mult_le_mono) auto
    also have "\<dots> < (2 :: nat) ^ 64" by simp
    finally show ?thesis .
  qed
  define avg where "avg = st_sum ?s + ucast (st_count ?s div 2)"
  have avg: "unat avg = 2 * n * unat v + n"
    using bound f(1) half unat_add_lem [of "st_sum ?s" "ucast (st_count ?s div 2)"] by (simp add: avg_def)
  have q: "avg div ucast (st_count ?s) = ucast v"
  proof (rule word_unat_eq_iff [THEN iffD2])
    have "unat (avg div ucast (st_count ?s)) = (2 * n * unat v + n) div (2 * n)" by (simp add: unat_div avg f(2))
    also have "\<dots> = unat v" using assms(1) by (simp add: div_mult_self3)
    finally show "unat (avg div ucast (st_count ?s)) = unat (ucast v :: u64)" by simp
  qed
  define rem where "rem = (ucast (avg mod ucast (st_count ?s)) :: u32)"
  have r: "unat rem = n"
  proof -
    have "unat (avg mod ucast (st_count ?s)) = n" using assms by (simp add: unat_mod avg f(2))
    then show ?thesis
      using assms(2) by (simp add: rem_def unsigned_ucast_eq take_bit_nat_eq_self)
  qed
  have "unat (1000000 * rem) = 1000000 * n"
    using unat_mult_lem [of 1000000 rem] r assms(2) by simp
  then have "unat (1000000 * rem div st_count ?s) = 500000"
    using assms(1) f(2) by (simp add: unat_div)
  then have "1000000 * rem div st_count ?s = 500000" by (simp add: word_unat_eq_iff)
  then show ?thesis
    using c0 q unfolding rem_def avg_def by (simp add: avg_show_def Let_def)
qed

theorem avg_show_biased_witness: "avg_show (stats_of [3, 3, 3, 3]) = (3, 500000)"
proof -
  have "replicate (2 * 2) (3 :: u32) = [3, 3, 3, 3]" by (simp add: numeral_eq_Suc)
  then show ?thesis using avg_show_biased [of 2 3] by simp
qed

section \<open>Latency\<close>

text \<open>
  The latency of a call that ends in a later microsecond is the time between its timestamps; a call that
  starts and ends in the same microsecond is recorded as one day, in microseconds
  cut to 32 bits: 500654080; and when the clock passes midnight between the stamps the
  result and the true latency add up to two days.
\<close>

theorem gb_loopback_calc_latency_exact:
  "(t1 < t2 \<longrightarrow> unat (calc_latency t1 t2) = unat t2 - unat t1) \<and>
   gb_loopback_nsec_to_usec_latency (gb_loopback_calc_latency ts ts) = 500654080 \<and>
   (t2 \<le> t1 \<longrightarrow> calc_latency t1 t2 + (NSEC_PER_DAY - t1 + t2) = 2 * NSEC_PER_DAY)"
proof (intro conjI impI)
  show "unat (calc_latency t1 t2) = unat t2 - unat t1" if "t1 < t2"
    using that unat_sub [OF order.strict_implies_order [OF that]] by (simp add: calc_latency_def)
  show "calc_latency t1 t2 + (NSEC_PER_DAY - t1 + t2) = 2 * NSEC_PER_DAY" if "t2 \<le> t1"
    using that by (simp add: calc_latency_def not_less [symmetric])
qed (simp add: gb_loopback_calc_latency_def calc_latency_def gb_loopback_nsec_to_usec_latency_def)

theorem gb_loopback_calc_latency_exact_witness:
  "unat (calc_latency 1000 4000) = 3000 \<and> calc_latency 4000 1000 + (NSEC_PER_DAY - 4000 + 1000) = 2 * NSEC_PER_DAY"
  using gb_loopback_calc_latency_exact [of 1000 4000] gb_loopback_calc_latency_exact [of 4000 1000] by simp

section \<open>Transfers\<close>

text \<open>The length a transfer request claims.\<close>

definition transfer_len :: "gb_operation \<Rightarrow> nat" where
  "transfer_len opn = (let q = drop 8 (buffer (request opn)) in unat (le32_to_cpu (q ! 0) (q ! 1) (q ! 2) (q ! 3)))"

text \<open>
  A transfer request with memory available is answered with exactly its data; a request that claims
  more data than it has, up to the largest payload, is not refused: the handler copies what lies behind the
  request in memory into the response.
\<close>

theorem gb_loopback_transfer_echo:
  assumes "msg_ok (request opn)" "4 \<le> payload_size (request opn)" "unat bmax \<le> 65535"
    and "0 < transfer_len opn" "transfer_len opn \<le> unat smax" "8 + transfer_len opn \<le> unat bmax"
  shows "if 4 + transfer_len opn \<le> unat (payload_size (request opn))
    then \<exists>o' m. gb_loopback_request_recv bmax smax True True 0x03 opn = Some (0, o') \<and> response o' = Some m \<and>
      drop 8 (buffer m) = take (transfer_len opn) (drop 12 (buffer (request opn)))
    else gb_loopback_request_recv bmax smax True True 0x03 opn = None"
proof -
  have len: "length (buffer (request opn)) = 8 + unat (payload_size (request opn))"
    using assms(1) by (simp add: msg_ok_def msg_wf_def)
  have p4: "4 \<le> unat (payload_size (request opn))" using assms(2) by (simp add: word_le_nat_alt)
  define q where "q = take 4 (drop 8 (buffer (request opn)))"
  define l where "l = le32_to_cpu (q ! 0) (q ! 1) (q ! 2) (q ! 3)"
  define sz where "sz = (ucast l :: size_t)"
  have q: "rd_bytes (buffer (request opn)) 8 4 = Some q" using len p4 by (simp add: rd_bytes_def q_def)
  have tl: "transfer_len opn = unat sz"
    using len p4 by (simp add: transfer_len_def q_def l_def sz_def Let_def)
  have le: "unat sz \<le> 2 ^ 63" using assms(3,6) tl by simp
  have nn: "\<not> bmax < sz + 8"
    using message_size_no_wrap [OF le] assms(6) tl by (simp add: word_less_nat_alt)
  have "gb_operation_response_alloc bmax True True sz opn \<noteq> Some (False, opn)"
    using nn by (auto simp: gb_operation_response_alloc_def gb_operation_message_alloc_def Let_def split: bind_splits)
  then obtain m where m: "gb_operation_response_alloc bmax True True sz opn = Some (True, opn\<lparr>response := Some m\<rparr>)"
    "msg_ok m" "payload_size m = sz"
    using gb_operation_response_alloc_ok [OF assms(3) le assms(1), of True True] by blast
  have lm: "length (buffer m) = 8 + unat sz" using msg_ok_length [OF m(2)] m(3) by simp
  have nz: "sz \<noteq> 0" "\<not> smax < sz" "\<not> payload_size (request opn) < 4"
    using p4 assms(4,5) tl by (auto simp: word_less_nat_alt)
  have run: "gb_loopback_request_recv bmax smax True True 0x03 opn =
      do { src \<leftarrow> rd_bytes (buffer (request opn)) 12 (unat sz);
           buf \<leftarrow> wr_bytes (buffer m) 8 src;
           Some (0, opn\<lparr>response := Some (m\<lparr>buffer := buf\<rparr>)\<rparr>) }"
    using q m(1) nz by (simp add: gb_loopback_request_recv_def Let_def l_def [symmetric] sz_def [symmetric] del: One_nat_def)
  show ?thesis
    unfolding run tl using lm len by (auto simp: rd_bytes_def wr_bytes_def)
qed

definition demo_transfer :: "bytes \<Rightarrow> gb_operation" where
  "demo_transfer p = \<lparr>connection = 0,
     request = \<lparr>buffer = [of_nat (8 + length p), 0, 1, 0, 3, 0, 0, 0] @ p, payload_size = of_nat (length p)\<rparr>,
     response = None, flags = 1, type = 3, op_id = 1, errno = - EINPROGRESS, callback = None,
     completion = 0, kref = 1, waiters = 0, active = 1\<rparr>"

theorem gb_loopback_transfer_echo_witness:
  "(\<exists>o' m. gb_loopback_request_recv 2048 2000 True True 0x03 (demo_transfer [2, 0, 0, 0, 7, 8]) = Some (0, o') \<and>
      response o' = Some m \<and> drop 8 (buffer m) = [7, 8]) \<and>
   gb_loopback_request_recv 2048 2000 True True 0x03 (demo_transfer [200, 0, 0, 0]) = None"
proof -
  have l: "transfer_len (demo_transfer [2, 0, 0, 0, 7, 8]) = 2" "transfer_len (demo_transfer [200, 0, 0, 0]) = 200"
    by code_simp+
  have "msg_ok (request (demo_transfer [2, 0, 0, 0, 7, 8]))" "msg_ok (request (demo_transfer [200, 0, 0, 0]))"
    by (simp_all add: msg_ok_def msg_wf_def demo_transfer_def)
  then show ?thesis
    using gb_loopback_transfer_echo [of "demo_transfer [2, 0, 0, 0, 7, 8]" 2048 2000]
      gb_loopback_transfer_echo [of "demo_transfer [200, 0, 0, 0]" 2048 2000] l
    by (simp add: demo_transfer_def word_le_nat_alt)
qed

section \<open>Faults and confusions\<close>

text \<open>
  Running out of memory in the first iteration of a transfer or sink test divides by zero: no
  call was made, the elapsed time of the connection is still 0, and the statistics are computed
  from it all the same.
\<close>

theorem gb_loopback_alloc_failure_faults:
  assumes "map_of (gb_list d) a = Some gb" "fn_decide d gb = (Perform ty sz, d1)" "lb_type d1 = ty"
    and "ty = GB_LOOPBACK_TYPE_TRANSFER \<or> ty = GB_LOOPBACK_TYPE_SINK" "\<not> env_ok1 env" "elapsed_nsecs gb = 0"
  shows "gb_loopback_fn env a d = None"
proof -
  have p: "perform env (kfifo_depth d1) ty sz gb = (- ENOMEM, None, gb)"
    using assms(4,5) by (auto simp: perform_def gb_loopback_transfer_def gb_loopback_sink_def)
  have "fn_account d1 a (- ENOMEM) gb = None"
    using assms(3,4,6)
    by (auto simp: fn_account_def gb_loopback_calculate_stats_def gb_loopback_nsec_to_usec_latency_def
        gb_loopback_throughput_update_def aggregate_size_def Let_def)
  with p show ?thesis using assms(1,2) by (simp add: gb_loopback_fn_def)
qed

text \<open>A device with connections 1 and 2, as gb_loopback_connection_init creates them.\<close>

definition demo_lb_env :: lb_init_env where
  "demo_lb_env = \<lparr>init_alloc = True, sysfs_dev_ret = 0, sysfs_con_ret = 0, kfifo_lat_ok = True, kfifo_ts_ok = True, kthread_ret = 0\<rparr>"

definition demo_lb0 :: gb_loopback_device where
  "demo_lb0 = \<lparr>lb_count = 0, lb_kfifo = [], gb_list = [], lb_type = 0, lb_mask = 0, lb_size = 0, iteration_max = 0,
     iteration_count = 0, size_max = 0, ms_wait = 0, dev_error = 0, latency = stats_reset, latency_gb = stats_reset,
     throughput = stats_reset, requests_per_second = stats_reset, kfifo_depth = 8192\<rparr>"

definition demo_lb :: "u32 \<Rightarrow> gb_loopback_device" where
  "demo_lb n = gb_loopback_check_attr (demo_lb0\<lparr>lb_type := 3, lb_size := 2, iteration_max := n, size_max := 2000, lb_count := 2,
     gb_list := [(1, new_gb 1), (2, new_gb 2)]\<rparr>)"

definition demo_call :: "bool \<Rightarrow> lb_env" where
  "demo_call ok = \<lparr>env_sync = (\<lambda>_ _ n. (0, replicate n 0x5A)), env_ok1 = ok, env_ok2 = ok, env_heap = [], env_ts = (5, 10), env_te = (5, 30)\<rparr>"

theorem gb_loopback_alloc_failure_faults_witness:
  "gb_loopback_fn (demo_call False) 1 (demo_lb 3) = None"
proof -
  have m: "\<exists>gb. map_of (gb_list (demo_lb 3)) 1 = Some gb \<and> elapsed_nsecs gb = 0 \<and> lbid gb = 1 \<and> it_count gb = 0"
    by (simp add: demo_lb_def demo_lb0_def gb_loopback_check_attr_def gb_loopback_reset_stats_def new_gb_def)
  then obtain gb where gb: "map_of (gb_list (demo_lb 3)) 1 = Some gb" "elapsed_nsecs gb = 0" "it_count gb = 0" by blast
  have f: "lb_type (demo_lb 3) = 3" "lb_mask (demo_lb 3) = 0" "iteration_max (demo_lb 3) = 3" "iteration_count (demo_lb 3) = 0"
    by (simp_all add: demo_lb_def demo_lb0_def gb_loopback_check_attr_def gb_loopback_reset_stats_def)
  have "low_count (demo_lb 3) gb = 0"
    using gb(3) by (simp add: low_count_def demo_lb_def demo_lb0_def gb_loopback_check_attr_def gb_loopback_reset_stats_def new_gb_def)
  then have "fn_decide (demo_lb 3) gb = (Perform 3 (lb_size (demo_lb 3)), demo_lb 3)"
    using f gb(3) by (simp add: fn_decide_def gb_loopback_active_def Let_def)
  from gb_loopback_alloc_failure_faults [OF gb(1) this f(1)] show ?thesis
    using gb(2) by (simp add: demo_call_def)
qed

text \<open>
  A test without a bound on its iterations does nothing: with iteration_max 0, documented as infinite,
  no thread ever sends a message or changes the device.
\<close>

theorem gb_loopback_unbounded_test_idle:
  assumes "iteration_max d = 0" "map_of (gb_list d) a = Some gb"
  shows "\<exists>act. gb_loopback_fn env a d = Some (act, d) \<and> act \<in> {Blocked, Continue, Sleep}"
  using assms by (auto simp: gb_loopback_fn_def fn_decide_def Let_def)

theorem gb_loopback_unbounded_test_idle_witness:
  "\<exists>act. gb_loopback_fn (demo_call True) 1 (demo_lb 0) = Some (act, demo_lb 0) \<and> act \<in> {Blocked, Continue, Sleep}"
  by (rule gb_loopback_unbounded_test_idle [where gb = "the (map_of (gb_list (demo_lb 0)) 1)"])
     (simp_all add: demo_lb_def demo_lb0_def gb_loopback_check_attr_def gb_loopback_reset_stats_def)

text \<open>
  Loopback ids are reused while they are in use: after the first of two connections has gone, a new
  connection gets the id of the other, and the mask cannot tell them apart.
\<close>

theorem gb_loopback_ids_collide:
  "case gb_loopback_connection_init demo_lb_env 2040 1 demo_lb0 of None \<Rightarrow> False
   | Some (r1, d1) \<Rightarrow> (case gb_loopback_connection_init demo_lb_env 2040 2 d1 of None \<Rightarrow> False
     | Some (r2, d2) \<Rightarrow> (case gb_loopback_connection_init demo_lb_env 2040 3 (gb_loopback_connection_exit 1 d2) of
         None \<Rightarrow> False
       | Some (r3, d3) \<Rightarrow> r1 = 0 \<and> r2 = 0 \<and> r3 = 0 \<and> map (\<lambda>(a, gb). (a, lbid gb)) (gb_list d3) = [(2, 2), (3, 2)]))"
  by (simp add: gb_loopback_connection_init_def gb_loopback_connection_exit_def gb_loopback_reset_stats_def
      demo_lb0_def demo_lb_env_def new_gb_def Let_def)

section \<open>The end of a test\<close>

text \<open>A schedule: which thread runs, with what its environment does. Every thread step is one iteration.\<close>

fun lb_run :: "(lb_env \<times> nat) list \<Rightarrow> gb_loopback_device \<Rightarrow> gb_loopback_device option" where
  "lb_run [] d = Some d"
| "lb_run ((env, a) # sch) d = (case gb_loopback_fn env a d of None \<Rightarrow> None | Some (_, d') \<Rightarrow> lb_run sch d')"

lemma lb_run_append: "lb_run (xs @ ys) d = (case lb_run xs d of None \<Rightarrow> None | Some d' \<Rightarrow> lb_run ys d')"
  by (induction xs d rule: lb_run.induct) (auto split: option.splits)

text \<open>An environment in which calls are made and take at least a microsecond.\<close>

definition env_good :: "lb_env \<Rightarrow> bool" where
  "env_good env \<longleftrightarrow> env_ok1 env \<and> env_ok2 env \<and>
     gb_loopback_nsec_to_usec_latency (gb_loopback_calc_latency (env_ts env) (env_te env)) \<noteq> 0"

text \<open>What the threads leave alone while a test runs.\<close>

definition lb_frame :: "gb_loopback_device \<Rightarrow> gb_loopback_device \<Rightarrow> bool" where
  "lb_frame d d' \<longleftrightarrow> lb_mask d' = lb_mask d \<and> iteration_max d' = iteration_max d \<and>
     map (\<lambda>(a, g). (a, lbid g)) (gb_list d') = map (\<lambda>(a, g). (a, lbid g)) (gb_list d)"

lemma perform_fields:
  assumes "perform env depth ty sz gb = (err, req, gb')" "env_good env" "ty \<in> {2, 3, 4}"
  shows "lbid gb' = lbid gb \<and> it_count gb' = it_count gb \<and>
    gb_loopback_nsec_to_usec_latency (elapsed_nsecs gb') \<noteq> 0"
  using assms
  by (auto simp: perform_def gb_loopback_ping_def gb_loopback_transfer_def gb_loopback_sink_def measure_call_def
      gb_loopback_push_latency_ts_def env_good_def Let_def split: if_splits prod.splits)

lemma calculate_stats_ok:
  assumes "gb_loopback_nsec_to_usec_latency (elapsed_nsecs gb) \<noteq> 0"
  shows "\<exists>d' gb'. gb_loopback_calculate_stats d gb = Some (d', gb') \<and> lbid gb' = lbid gb \<and> it_count gb' = it_count gb \<and>
    lb_type d' = lb_type d \<and> lb_mask d' = lb_mask d \<and> iteration_max d' = iteration_max d \<and>
    iteration_count d' = iteration_count d \<and> gb_list d' = gb_list d"
  using assms
  by (auto simp: gb_loopback_calculate_stats_def gb_loopback_throughput_update_def gb_loopback_requests_update_def
      Let_def split: option.splits)

lemma fn_account_ok:
  assumes "gb_loopback_nsec_to_usec_latency (elapsed_nsecs gb) \<noteq> 0"
  shows "\<exists>d' gb'. fn_account d a err gb = Some d' \<and> lbid gb' = lbid gb \<and> it_count gb' = it_count gb + 1 \<and>
    lb_type d' = lb_type d \<and> lb_mask d' = lb_mask d \<and> iteration_max d' = iteration_max d \<and>
    iteration_count d' = iteration_count d \<and>
    gb_list d' = map (\<lambda>(b, g). if b = a then (b, gb') else (b, g)) (gb_list d)"
proof -
  define d1 where "d1 = (if err \<noteq> 0 then d\<lparr>dev_error := dev_error d + 1\<rparr> else d)"
  define gb1 where "gb1 = (if err \<noteq> 0 then gb\<lparr>lb_error := lb_error gb + 1\<rparr> else gb)"
  have "gb_loopback_nsec_to_usec_latency (elapsed_nsecs gb1) \<noteq> 0" using assms by (simp add: gb1_def)
  from calculate_stats_ok [OF this, of d1] obtain d2 gb2 where
    c: "gb_loopback_calculate_stats d1 gb1 = Some (d2, gb2)" "lbid gb2 = lbid gb1" "it_count gb2 = it_count gb1"
    "lb_type d2 = lb_type d1" "lb_mask d2 = lb_mask d1" "iteration_max d2 = iteration_max d1"
    "iteration_count d2 = iteration_count d1" "gb_list d2 = gb_list d1" by blast
  have "fn_account d a err gb = Some (set_gb d2 a (gb2\<lparr>it_count := it_count gb2 + 1\<rparr>))"
    using c(1) by (simp add: fn_account_def Let_def d1_def [symmetric] gb1_def [symmetric])
  moreover have "lb_type d1 = lb_type d" "lb_mask d1 = lb_mask d" "iteration_max d1 = iteration_max d"
    "iteration_count d1 = iteration_count d" "gb_list d1 = gb_list d" "lbid gb1 = lbid gb" "it_count gb1 = it_count gb"
    by (simp_all add: d1_def gb1_def)
  ultimately show ?thesis
    using c by (intro exI [of _ "set_gb d2 a (gb2\<lparr>it_count := it_count gb2 + 1\<rparr>)"]
        exI [of _ "gb2\<lparr>it_count := it_count gb2 + 1\<rparr>"]) (auto simp: gb_defs)
qed

text \<open>The aggregate statistics take timestamps from the fifos and nothing else.\<close>

lemma aggregate_round_ids:
  "aggregate_round d gbs g = (g', gbs', ok) \<Longrightarrow>
   map (\<lambda>(a, g). (a, lbid g, it_count g)) gbs' = map (\<lambda>(a, g). (a, lbid g, it_count g)) gbs"
  by (induction d gbs g arbitrary: g' gbs' ok rule: aggregate_round.induct)
     (auto simp: Let_def split: if_splits list.splits prod.splits)

lemma aggregate_loop_frame:
  "lb_mask (snd (aggregate_loop n r d)) = lb_mask d \<and> iteration_max (snd (aggregate_loop n r d)) = iteration_max d \<and>
   iteration_count (snd (aggregate_loop n r d)) = iteration_count d \<and>
   map (\<lambda>(a, g). (a, lbid g, it_count g)) (gb_list (snd (aggregate_loop n r d))) =
     map (\<lambda>(a, g). (a, lbid g, it_count g)) (gb_list d)"
  by (induction n r d rule: aggregate_loop.induct)
     (auto simp: Let_def split: prod.splits dest: aggregate_round_ids)

text \<open>The lowest count of the active connections.\<close>

lemma low_fold_le:
  "fold (\<lambda>(_, g) low. if gb_loopback_active d g \<and> it_count g < low then it_count g else low) gbs c \<le> c"
proof (induction gbs arbitrary: c)
  case (Cons x gbs)
  obtain b g where x: "x = (b, g)" by fastforce
  define c' where "c' = (if gb_loopback_active d g \<and> it_count g < c then it_count g else c)"
  have "c' \<le> c" by (auto simp: c'_def)
  then show ?case using Cons [of c'] by (simp add: x c'_def [symmetric])
qed simp

lemma low_fold_lower:
  "(a, g) \<in> set gbs \<Longrightarrow> gb_loopback_active d g \<Longrightarrow>
   fold (\<lambda>(_, g) low. if gb_loopback_active d g \<and> it_count g < low then it_count g else low) gbs c \<le> it_count g"
proof (induction gbs arbitrary: c)
  case (Cons x gbs)
  show ?case
  proof (cases "x = (a, g)")
    case True
    then show ?thesis
      using Cons.prems(2) low_fold_le [of d gbs] by (auto simp: not_less intro: order.trans)
  next
    case False
    then show ?thesis using Cons by (cases x) auto
  qed
qed simp

lemma low_fold_greatest:
  "c0 \<le> c \<Longrightarrow> (\<And>a g. (a, g) \<in> set gbs \<Longrightarrow> gb_loopback_active d g \<Longrightarrow> c0 \<le> it_count g) \<Longrightarrow>
   c0 \<le> fold (\<lambda>(_, g) low. if gb_loopback_active d g \<and> it_count g < low then it_count g else low) gbs c"
proof (induction gbs arbitrary: c)
  case (Cons x gbs)
  obtain b g where x: "x = (b, g)" by fastforce
  define c' where "c' = (if gb_loopback_active d g \<and> it_count g < c then it_count g else c)"
  have "c0 \<le> c'" using Cons.prems x by (auto simp: c'_def)
  then have "c0 \<le> fold (\<lambda>(_, g) low. if gb_loopback_active d g \<and> it_count g < low then it_count g else low) gbs c'"
    by (rule Cons.IH) (use Cons.prems(2) in auto)
  then show ?case by (simp add: x c'_def [symmetric])
qed simp

text \<open>
  A running test in which every active connection has done at least \<open>k\<close> iterations, and those in \<open>S\<close> one more;
  and a test that is over.
\<close>

definition running :: "nat \<Rightarrow> nat set \<Rightarrow> gb_loopback_device \<Rightarrow> bool" where
  "running k S d \<longleftrightarrow> lb_type d \<in> {2, 3, 4} \<and> distinct (map fst (gb_list d)) \<and> iteration_max d \<noteq> 0 \<and>
     k \<le> unat (iteration_max d) \<and>
     (\<forall>a g. (a, g) \<in> set (gb_list d) \<longrightarrow> gb_loopback_active d g \<longrightarrow>
        k \<le> unat (it_count g) \<and> it_count g \<le> iteration_max d \<and> iteration_count d \<le> it_count g \<and>
        (a \<in> S \<longrightarrow> min (k + 1) (unat (iteration_max d)) \<le> unat (it_count g)))"

definition finished :: "gb_loopback_device \<Rightarrow> bool" where
  "finished d \<longleftrightarrow> lb_type d = 0 \<and> iteration_count d = iteration_max d \<and>
     (\<forall>a g. (a, g) \<in> set (gb_list d) \<longrightarrow> gb_loopback_active d g \<longrightarrow> it_count g = iteration_max d)"

lemma runningD:
  assumes "running k S d" "(a, g) \<in> set (gb_list d)" "gb_loopback_active d g"
  shows "k \<le> unat (it_count g)" "it_count g \<le> iteration_max d" "iteration_count d \<le> it_count g"
    "a \<in> S \<Longrightarrow> min (k + 1) (unat (iteration_max d)) \<le> unat (it_count g)"
  using assms by (auto simp: running_def)

text \<open>The end of a test: when the lowest count reaches the bound, all counts have.\<close>

lemma fn_ends:
  assumes r: "running k S d" and g: "(a, g) \<in> set (gb_list d)" "gb_loopback_active d g"
    and c: "d1 = d \<or> d1 = d\<lparr>iteration_count := low_count d g\<rparr>" "iteration_count d1 = iteration_max d1"
  shows "finished ((snd (gb_loopback_calculate_aggregate_stats d1))\<lparr>lb_type := 0\<rparr>) \<and>
    lb_frame d ((snd (gb_loopback_calculate_aggregate_stats d1))\<lparr>lb_type := 0\<rparr>)"
proof -
  define d2 where "d2 = snd (gb_loopback_calculate_aggregate_stats d1)"
  note f = aggregate_loop_frame [of "unat (iteration_max d1)" False d1]
  have f1: "lb_mask d2 = lb_mask d" "iteration_max d2 = iteration_max d" "iteration_count d2 = iteration_max d"
    "map (\<lambda>(a, g). (a, lbid g, it_count g)) (gb_list d2) = map (\<lambda>(a, g). (a, lbid g, it_count g)) (gb_list d)"
    using f c by (auto simp: d2_def gb_loopback_calculate_aggregate_stats_def)
  have all: "it_count h = iteration_max d" if h: "(b, h) \<in> set (gb_list d)" "gb_loopback_active d h" for b h
  proof -
    have "iteration_count d1 \<le> it_count h"
      using c(1) runningD(3) [OF r h] low_fold_lower [OF h] by (auto simp: low_count_def)
    then show ?thesis using c runningD(2) [OF r h] by auto
  qed
  have "it_count h = iteration_max d" if h: "(b, h) \<in> set (gb_list d2)" "gb_loopback_active d2 h" for b h
  proof -
    have "(b, lbid h, it_count h) \<in> set (map (\<lambda>(a, g). (a, lbid g, it_count g)) (gb_list d))"
      using h(1) unfolding f1(4) [symmetric] by force
    then obtain h' where "(b, h') \<in> set (gb_list d)" "lbid h' = lbid h" "it_count h' = it_count h" by auto
    then show ?thesis using all [of b h'] h(2) f1(1) by (simp add: gb_loopback_active_def)
  qed
  then have "finished (d2\<lparr>lb_type := 0\<rparr>)" using f1 by (auto simp: finished_def gb_loopback_active_def)
  moreover have "map (\<lambda>(a, g). (a, lbid g)) (gb_list d2) = map (\<lambda>(a, g). (a, lbid g)) (gb_list d)"
    using arg_cong [OF f1(4), of "map (\<lambda>(a, l, c). (a, l))"] by (simp add: comp_def case_prod_unfold)
  ultimately show ?thesis using f1 by (simp add: lb_frame_def d2_def)
qed

text \<open>One iteration of a running test: it ends the test, or the thread has done one more iteration.\<close>

lemma frame_active: "lb_frame d d' \<Longrightarrow> lbid g' = lbid g \<Longrightarrow> gb_loopback_active d' g' = gb_loopback_active d g"
  by (simp add: lb_frame_def gb_loopback_active_def)

lemma map_of_mem: "distinct (map fst xs) \<Longrightarrow> (a, g) \<in> set xs \<Longrightarrow> map_of xs a = Some g"
  by (simp add: map_of_is_SomeI)

lemma fn_decide_running:
  assumes r: "running k S d" and g: "(a, g) \<in> set (gb_list d)" and act: "gb_loopback_active d g"
  obtains (ends) d' where "fn_decide d g = (Continue, d')" "finished d'" "lb_frame d d'"
  | (sleeps) d' where "fn_decide d g = (Sleep, d')" "it_count g = iteration_max d" "low_count d g < iteration_max d"
      "d' = d \<or> d' = d\<lparr>iteration_count := low_count d g\<rparr>"
  | (performs) d' where "fn_decide d g = (Perform (lb_type d) (lb_size d), d')" "it_count g < iteration_max d"
      "d' = d \<or> d' = d\<lparr>iteration_count := low_count d g\<rparr>"
proof -
  define d1 where "d1 = (if iteration_count d < low_count d g then d\<lparr>iteration_count := low_count d g\<rparr> else d)"
  have d1: "d1 = d \<or> d1 = d\<lparr>iteration_count := low_count d g\<rparr>" by (simp add: d1_def)
  have nz: "iteration_max d \<noteq> 0" "lb_type d \<noteq> 0" using r by (auto simp: running_def)
  have s1: "iteration_max d1 = iteration_max d" "lb_type d1 = lb_type d" "lb_size d1 = lb_size d" by (simp_all add: d1_def)
  have fd: "fn_decide d g = (if iteration_count d1 = iteration_max d1
      then (Continue, (snd (gb_loopback_calculate_aggregate_stats d1))\<lparr>lb_type := 0\<rparr>)
      else if iteration_max d \<le> it_count g then (Sleep, d1) else (Perform (lb_type d) (lb_size d), d1))"
    using nz act s1 by (simp add: fn_decide_def d1_def [symmetric] Let_def)
  have low: "low_count d g \<le> iteration_count d1" by (auto simp: d1_def)
  have le: "iteration_count d1 \<le> it_count g"
    using d1 runningD(3) [OF r g act] low_fold_le [of d "gb_list d" "it_count g"] by (auto simp: low_count_def)
  have top: "it_count g \<le> iteration_max d" by (rule runningD(2) [OF r g act])
  consider "iteration_count d1 = iteration_max d1" | "iteration_count d1 \<noteq> iteration_max d1" "iteration_max d \<le> it_count g"
    | "iteration_count d1 \<noteq> iteration_max d1" "it_count g < iteration_max d" by fastforce
  then show ?thesis
  proof cases
    case 1
    then show ?thesis using fn_ends [OF r g act d1] fd ends by simp
  next
    case 2
    have "low_count d g < iteration_max d" using 2 low le top s1(1) by auto
    moreover have "it_count g = iteration_max d" using 2(2) top by simp
    ultimately show ?thesis using 2 fd d1 sleeps [of d1] by simp
  next
    case 3
    then show ?thesis using fd d1 performs [of d1] by simp
  qed
qed

lemma running_recount:
  assumes r: "running k S d" and g: "(a, g) \<in> set (gb_list d)" "gb_loopback_active d g"
  shows "running k S (d\<lparr>iteration_count := low_count d g\<rparr>)"
proof -
  have "low_count d g \<le> it_count h" if "(b, h) \<in> set (gb_list d)" "gb_loopback_active d h" for b h
    using low_fold_lower [OF that] by (simp add: low_count_def)
  then show ?thesis using r by (auto simp: running_def gb_loopback_active_def)
qed

lemma fn_step:
  assumes r: "running k S d" and a: "a \<in> fst ` set (gb_list d)" and e: "env_good env"
  shows "\<exists>act d'. gb_loopback_fn env a d = Some (act, d') \<and> lb_frame d d' \<and> (finished d' \<or> running k (insert a S) d')"
proof -
  obtain g where g: "(a, g) \<in> set (gb_list d)" using a by force
  have dist: "distinct (map fst (gb_list d))" using r by (simp add: running_def)
  have mo: "map_of (gb_list d) a = Some g" by (rule map_of_mem [OF dist g])
  have uniq: "h = g" if "(a, h) \<in> set (gb_list d)" for h using map_of_mem [OF dist that] mo by simp
  show ?thesis
  proof (cases "gb_loopback_active d g")
    case False
    then have "gb_loopback_fn env a d = Some (Continue, d)"
      using r mo by (auto simp: gb_loopback_fn_def fn_decide_def running_def)
    moreover have "running k (insert a S) d" using r False uniq by (auto simp: running_def)
    ultimately show ?thesis by (auto simp: lb_frame_def)
  next
    case act: True
    from r g act show ?thesis
    proof (cases rule: fn_decide_running)
      case (ends d')
      then show ?thesis using mo by (auto simp: gb_loopback_fn_def)
    next
      case (sleeps d')
      have "running k S d'" using sleeps(4) r running_recount [OF r g act] by auto
      then have "running k (insert a S) d'"
        using sleeps(2,4) uniq by (auto simp: running_def)
      moreover have "lb_frame d d'" using sleeps(4) by (auto simp: lb_frame_def)
      ultimately show ?thesis using sleeps(1) mo by (auto simp: gb_loopback_fn_def)
    next
      case (performs d')
      have r': "running k S d'" using performs(3) r running_recount [OF r g act] by auto
      obtain err req g1 where p: "perform env (kfifo_depth d') (lb_type d) (lb_size d) g = (err, req, g1)"
        by (cases "perform env (kfifo_depth d') (lb_type d) (lb_size d) g") auto
      have g1: "lbid g1 = lbid g" "it_count g1 = it_count g" "gb_loopback_nsec_to_usec_latency (elapsed_nsecs g1) \<noteq> 0"
        using perform_fields [OF p e] r by (auto simp: running_def)
      obtain d2 g2 where d2: "fn_account d' a err g1 = Some d2" "lbid g2 = lbid g1" "it_count g2 = it_count g1 + 1"
        "lb_type d2 = lb_type d'" "lb_mask d2 = lb_mask d'" "iteration_max d2 = iteration_max d'"
        "iteration_count d2 = iteration_count d'"
        "gb_list d2 = map (\<lambda>(b, g). if b = a then (b, g2) else (b, g)) (gb_list d')"
        using fn_account_ok [OF g1(3), of d' a err] by blast
      have same: "gb_list d' = gb_list d" "lb_mask d' = lb_mask d" "iteration_max d' = iteration_max d"
        using performs(3) by auto
      have "map (\<lambda>(b, h). (b, lbid h)) (gb_list d2) = map (\<lambda>(b, h). (b, lbid h)) (gb_list d)"
        using d2(2,8) g1(1) same(1) uniq by auto
      then have fr: "lb_frame d d2" using d2(5,6) same by (simp add: lb_frame_def)
      have inc: "unat (it_count g2) = unat (it_count g) + 1"
        using performs(2) d2(3) g1(2) unsigned_less [of "iteration_max d", where 'a = nat]
          unat_add_lem [of "it_count g" 1] by (simp add: word_less_nat_alt)
      have ga: "(a, g) \<in> set (gb_list d')" "gb_loopback_active d' g"
        using g act same by (simp_all add: gb_loopback_active_def)
      have "running k (insert a S) d2"
        unfolding running_def
      proof (intro conjI allI impI)
        show "lb_type d2 \<in> {2, 3, 4}" "iteration_max d2 \<noteq> 0" "k \<le> unat (iteration_max d2)"
          using r' d2(4,6) by (auto simp: running_def)
        have "map fst (gb_list d2) = map fst (gb_list d')" using d2(8) by (auto simp: comp_def)
        then show "distinct (map fst (gb_list d2))" using dist same(1) by simp
        fix b h assume h: "(b, h) \<in> set (gb_list d2)" "gb_loopback_active d2 h"
        consider (own) "b = a" "h = g2" | (other) "b \<noteq> a" "(b, h) \<in> set (gb_list d')" using h(1) d2(8) by (auto split: if_splits)
        then have "k \<le> unat (it_count h) \<and> it_count h \<le> iteration_max d2 \<and> iteration_count d2 \<le> it_count h \<and>
            (b \<in> insert a S \<longrightarrow> min (k + 1) (unat (iteration_max d2)) \<le> unat (it_count h))"
        proof cases
          case own
          then show ?thesis
            using runningD(1-3) [OF r' ga] inc performs(2) d2(6,7) same(3)
            by (auto simp: word_le_nat_alt word_less_nat_alt)
        next
          case other
          have "gb_loopback_active d' h" using h(2) d2(5) by (simp add: gb_loopback_active_def)
          from runningD [OF r' other(2) this] show ?thesis using other(1) d2(6,7) by auto
        qed
        then show "k \<le> unat (it_count h)" "it_count h \<le> iteration_max d2" "iteration_count d2 \<le> it_count h"
          "b \<in> insert a S \<Longrightarrow> min (k + 1) (unat (iteration_max d2)) \<le> unat (it_count h)" by auto
      qed
      with fr show ?thesis using performs(1) mo p d2(1) by (auto simp: gb_loopback_fn_def)
    qed
  qed
qed

text \<open>A test that is over stays over.\<close>

lemma fn_finished: "finished d \<Longrightarrow> a \<in> fst ` set (gb_list d) \<Longrightarrow> gb_loopback_fn env a d = Some (Blocked, d)"
proof -
  assume f: "finished d" "a \<in> fst ` set (gb_list d)"
  then obtain g where "map_of (gb_list d) a = Some g" by (metis map_of_eq_None_iff not_None_eq)
  then show ?thesis using f(1) by (simp add: gb_loopback_fn_def fn_decide_def finished_def)
qed

lemma lb_frame_trans: "lb_frame d d1 \<Longrightarrow> lb_frame d1 d2 \<Longrightarrow> lb_frame d d2"
  by (simp add: lb_frame_def)

lemma lb_frame_fst: "lb_frame d d' \<Longrightarrow> fst ` set (gb_list d') = fst ` set (gb_list d)"
proof -
  assume "lb_frame d d'"
  then have "map fst (map (\<lambda>(a, g). (a, lbid g)) (gb_list d')) = map fst (map (\<lambda>(a, g). (a, lbid g)) (gb_list d))"
    by (simp add: lb_frame_def)
  then have "map fst (gb_list d') = map fst (gb_list d)" by (simp add: comp_def case_prod_unfold)
  then show ?thesis by (metis set_map)
qed

definition sched_ok :: "gb_loopback_device \<Rightarrow> (lb_env \<times> nat) list \<Rightarrow> bool" where
  "sched_ok d sch \<longleftrightarrow> (\<forall>(env, a)\<in>set sch. env_good env \<and> a \<in> fst ` set (gb_list d))"

lemma lb_run_finished: "finished d \<Longrightarrow> sched_ok d sch \<Longrightarrow> lb_run sch d = Some d"
proof (induction sch)
  case (Cons x sch)
  obtain env a where x: "x = (env, a)" by fastforce
  have "a \<in> fst ` set (gb_list d)" "sched_ok d sch" using Cons.prems(2) by (auto simp: sched_ok_def x)
  then show ?case using Cons.IH Cons.prems(1) fn_finished by (simp add: x)
qed simp

lemma lb_run_steps:
  "running k S d \<Longrightarrow> sched_ok d sch \<Longrightarrow>
   \<exists>d'. lb_run sch d = Some d' \<and> lb_frame d d' \<and> (finished d' \<or> running k (S \<union> snd ` set sch) d')"
proof (induction sch arbitrary: S d)
  case Nil
  then show ?case by (auto simp: lb_frame_def)
next
  case (Cons x sch)
  obtain env a where x: "x = (env, a)" by fastforce
  have ok: "env_good env" "a \<in> fst ` set (gb_list d)" using Cons.prems(2) by (auto simp: sched_ok_def x)
  obtain act d1 where d1: "gb_loopback_fn env a d = Some (act, d1)" "lb_frame d d1" "finished d1 \<or> running k (insert a S) d1"
    using fn_step [OF Cons.prems(1) ok(2,1)] by blast
  have s1: "sched_ok d1 sch" using Cons.prems(2) lb_frame_fst [OF d1(2)] by (simp add: sched_ok_def)
  from d1(3) show ?case
  proof
    assume "finished d1"
    then show ?thesis using lb_run_finished [OF _ s1] d1 by (auto simp: x)
  next
    assume "running k (insert a S) d1"
    from Cons.IH [OF this s1] obtain d2 where d2: "lb_run sch d1 = Some d2" "lb_frame d1 d2"
      "finished d2 \<or> running k (insert a S \<union> snd ` set sch) d2" by blast
    then show ?thesis using d1(1) lb_frame_trans [OF d1(2) d2(2)] by (auto simp: x)
  qed
qed

lemma running_next:
  assumes "running k S d" "fst ` set (gb_list d) \<subseteq> S"
  shows "running (min (k + 1) (unat (iteration_max d))) {} d"
  using assms by (force simp: running_def)

text \<open>A round schedules every thread at least once.\<close>

definition round_ok :: "gb_loopback_device \<Rightarrow> (lb_env \<times> nat) list \<Rightarrow> bool" where
  "round_ok d sch \<longleftrightarrow> sched_ok d sch \<and> fst ` set (gb_list d) \<subseteq> snd ` set sch"

lemma round_ok_frame: "lb_frame d d' \<Longrightarrow> round_ok d' sch = round_ok d sch"
  using lb_frame_fst [of d d'] by (simp add: round_ok_def sched_ok_def)

lemma lb_run_rounds:
  "running k {} d \<Longrightarrow> list_all (round_ok d) rs \<Longrightarrow>
   \<exists>d'. lb_run (concat rs) d = Some d' \<and> lb_frame d d' \<and>
     (finished d' \<or> running (min (k + length rs) (unat (iteration_max d))) {} d')"
proof (induction rs arbitrary: k d)
  case Nil
  then show ?case by (auto simp: lb_frame_def running_def min_def)
next
  case (Cons sch rs)
  have sch: "sched_ok d sch" "fst ` set (gb_list d) \<subseteq> snd ` set sch" using Cons.prems(2) by (auto simp: round_ok_def)
  obtain d1 where d1: "lb_run sch d = Some d1" "lb_frame d d1" "finished d1 \<or> running k (snd ` set sch) d1"
    using lb_run_steps [OF Cons.prems(1) sch(1)] by auto
  have rs: "list_all (round_ok d1) rs" using Cons.prems(2) round_ok_frame [OF d1(2)] by (simp add: list_all_iff)
  have mx: "iteration_max d1 = iteration_max d" using d1(2) by (simp add: lb_frame_def)
  show ?case
  proof (cases "finished d1")
    case True
    have "sched_ok d1 (concat rs)" using rs by (auto simp: round_ok_def sched_ok_def list_all_iff)
    then show ?thesis using lb_run_finished [OF True] d1 True by (auto simp: lb_run_append)
  next
    case False
    then have "running (min (k + 1) (unat (iteration_max d1))) {} d1"
      using d1(3) running_next [of k "snd ` set sch" d1] sch(2) lb_frame_fst [OF d1(2)] by auto
    from Cons.IH [OF this rs] obtain d2 where d2: "lb_run (concat rs) d1 = Some d2" "lb_frame d1 d2"
      "finished d2 \<or> running (min (min (k + 1) (unat (iteration_max d1)) + length rs) (unat (iteration_max d1))) {} d2" by blast
    moreover have "min (min (k + 1) (unat (iteration_max d1)) + length rs) (unat (iteration_max d1)) =
        min (k + length (sch # rs)) (unat (iteration_max d))" by (simp add: mx)
    ultimately show ?thesis using d1(1) lb_frame_trans [OF d1(2) d2(2)] by (auto simp: lb_run_append)
  qed
qed

text \<open>With all iterations done, the next active thread ends the test.\<close>

lemma running_all_done:
  assumes "running (unat (iteration_max d)) {} d" "(a, g) \<in> set (gb_list d)" "gb_loopback_active d g"
  shows "it_count g = iteration_max d"
  using runningD(1,2) [OF assms] by (simp add: word_le_nat_alt word_unat_eq_iff)

lemma fn_last:
  assumes r: "running (unat (iteration_max d)) {} d" and g: "(a, g) \<in> set (gb_list d)" "gb_loopback_active d g"
    and e: "env_good env"
  shows "\<exists>act d'. gb_loopback_fn env a d = Some (act, d') \<and> finished d' \<and> lb_frame d d'"
proof -
  have mo: "map_of (gb_list d) a = Some g" using map_of_mem [of "gb_list d"] r g(1) by (simp add: running_def)
  have all: "it_count g = iteration_max d" by (rule running_all_done [OF r g])
  have low: "iteration_max d \<le> low_count d g"
    unfolding low_count_def by (rule low_fold_greatest) (use all running_all_done [OF r] in auto)
  from r g show ?thesis
  proof (cases rule: fn_decide_running)
    case (ends d')
    then show ?thesis using mo by (auto simp: gb_loopback_fn_def)
  qed (use all low in auto)
qed

lemma lb_run_last:
  "running (unat (iteration_max d)) {} d \<Longrightarrow> sched_ok d sch \<Longrightarrow> (a, g) \<in> set (gb_list d) \<Longrightarrow> gb_loopback_active d g \<Longrightarrow>
   a \<in> snd ` set sch \<Longrightarrow> \<exists>d'. lb_run sch d = Some d' \<and> finished d' \<and> lb_frame d d'"
proof (induction sch arbitrary: d g)
  case (Cons x sch)
  obtain env b where x: "x = (env, b)" by fastforce
  have ok: "env_good env" "b \<in> fst ` set (gb_list d)" using Cons.prems(2) by (auto simp: sched_ok_def x)
  obtain act d1 where d1: "gb_loopback_fn env b d = Some (act, d1)" "lb_frame d d1"
      "finished d1 \<or> running (unat (iteration_max d)) {} d1 \<and> b \<noteq> a"
  proof (cases "b = a")
    case True
    then show ?thesis using fn_last [OF Cons.prems(1,3,4) ok(1)] that by blast
  next
    case False
    obtain act d1 where "gb_loopback_fn env b d = Some (act, d1)" "lb_frame d d1"
      "finished d1 \<or> running (unat (iteration_max d)) {b} d1"
      using fn_step [OF Cons.prems(1) ok(2,1)] by blast
    moreover have "running n {b} d1 \<Longrightarrow> running n {} d1" for n d1 by (simp add: running_def)
    ultimately show ?thesis using that False by blast
  qed
  have s1: "sched_ok d1 sch" using Cons.prems(2) lb_frame_fst [OF d1(2)] by (simp add: sched_ok_def)
  have mx: "iteration_max d1 = iteration_max d" using d1(2) by (simp add: lb_frame_def)
  from d1(3) show ?case
  proof
    assume "finished d1"
    then show ?thesis using lb_run_finished [OF _ s1] d1 by (auto simp: x)
  next
    assume r: "running (unat (iteration_max d)) {} d1 \<and> b \<noteq> a"
    have "(a, lbid g) \<in> set (map (\<lambda>(a, g). (a, lbid g)) (gb_list d1))"
      using Cons.prems(3) d1(2) by (force simp: lb_frame_def)
    then obtain g' where g': "(a, g') \<in> set (gb_list d1)" "lbid g' = lbid g" by auto
    have "a \<in> snd ` set sch" using Cons.prems(5) r by (auto simp: x)
    then obtain d2 where "lb_run sch d1 = Some d2" "finished d2" "lb_frame d1 d2"
      using Cons.IH [OF _ s1 g'(1)] r mx Cons.prems(4) frame_active [OF d1(2) g'(2)] by auto
    then show ?thesis using d1(1) lb_frame_trans [OF d1(2)] by (auto simp: x)
  qed
qed simp

text \<open>
  C16 A bounded test ends: with a bound on the iterations and at least one active connection, from the state
  that writing the attributes leaves, every schedule that gives each thread one turn more than
  the bound ends the test, whatever the other side answers, as long as memory lasts and every call takes at
  least a microsecond; then each active connection has made exactly as many calls as the bound says.
\<close>

theorem gb_loopback_test_ends:
  assumes "lb_type d \<in> {2, 3, 4}" "iteration_max d \<noteq> 0" "iteration_count d = 0" "distinct (map fst (gb_list d))"
    and "list_all (\<lambda>(a, g). it_count g = 0) (gb_list d)" "list_ex (\<lambda>(a, g). gb_loopback_active d g) (gb_list d)"
    and "length rs = unat (iteration_max d) + 1" "list_all (round_ok d) rs"
  shows "\<exists>d'. lb_run (concat rs) d = Some d' \<and> lb_type d' = 0 \<and> iteration_count d' = iteration_max d \<and>
    list_all (\<lambda>(a, g). gb_loopback_active d' g \<longrightarrow> it_count g = iteration_max d) (gb_list d')"
proof -
  have run0: "running 0 {} d" using assms(1-5) by (auto simp: running_def list_all_iff)
  have "rs \<noteq> []" using assms(7) by auto
  then obtain rs' r where rs: "rs = rs' @ [r]" by (metis rev_exhaust)
  obtain d1 where d1: "lb_run (concat rs') d = Some d1" "lb_frame d d1"
    "finished d1 \<or> running (unat (iteration_max d)) {} d1"
    using lb_run_rounds [OF run0, of rs'] assms(7,8) rs by auto
  have mx: "iteration_max d1 = iteration_max d" using d1(2) by (simp add: lb_frame_def)
  have "round_ok d1 r" using assms(8) rs round_ok_frame [OF d1(2)] by simp
  then have r: "sched_ok d1 r" "fst ` set (gb_list d1) \<subseteq> snd ` set r" by (simp_all add: round_ok_def)
  have "\<exists>d2. lb_run r d1 = Some d2 \<and> finished d2 \<and> lb_frame d1 d2"
    using d1(3)
  proof
    assume "finished d1"
    then show ?thesis using lb_run_finished [OF _ r(1)] by (auto simp: lb_frame_def)
  next
    assume run: "running (unat (iteration_max d)) {} d1"
    obtain a g where g: "(a, g) \<in> set (gb_list d)" "gb_loopback_active d g" using assms(6) by (auto simp: list_ex_iff)
    have "(a, lbid g) \<in> set (map (\<lambda>(a, g). (a, lbid g)) (gb_list d1))"
      using g(1) d1(2) by (force simp: lb_frame_def)
    then obtain g' where g': "(a, g') \<in> set (gb_list d1)" "lbid g' = lbid g" by auto
    have "a \<in> snd ` set r" using r(2) g'(1) by force
    then show ?thesis
      using lb_run_last [of d1 r a g'] run mx r(1) g' g(2) frame_active [OF d1(2) g'(2)] by auto
  qed
  then obtain d2 where d2: "lb_run r d1 = Some d2" "finished d2" "lb_frame d1 d2" by blast
  have "iteration_max d2 = iteration_max d" using mx d2(3) by (simp add: lb_frame_def)
  then show ?thesis using d1(1) d2(1,2) rs by (auto simp: lb_run_append finished_def list_all_iff)
qed

theorem gb_loopback_test_ends_witness:
  "\<exists>d'. lb_run (concat (replicate 3 [(demo_call True, 1), (demo_call True, 2)])) (demo_lb 2) = Some d' \<and>
     lb_type d' = 0 \<and> iteration_count d' = 2"
proof -
  have f: "lb_type (demo_lb 2) = 3" "iteration_max (demo_lb 2) = 2" "iteration_count (demo_lb 2) = 0" "lb_mask (demo_lb 2) = 0"
    "map fst (gb_list (demo_lb 2)) = [1, 2]" "list_all (\<lambda>(a, g). it_count g = 0) (gb_list (demo_lb 2))"
    by (simp_all add: demo_lb_def demo_lb0_def gb_loopback_check_attr_def gb_loopback_reset_stats_def new_gb_def)
  have fs: "fst ` set (gb_list (demo_lb 2)) = {1, 2}" using arg_cong [OF f(5), of set] by simp
  have ex: "list_ex (\<lambda>(a, g). gb_loopback_active (demo_lb 2) g) (gb_list (demo_lb 2))"
    using f(4,5) by (cases "gb_list (demo_lb 2)") (auto simp: gb_loopback_active_def)
  have good: "env_good (demo_call True)" by code_simp
  have "\<exists>d'. lb_run (concat (replicate 3 [(demo_call True, 1), (demo_call True, 2)])) (demo_lb 2) = Some d' \<and>
     lb_type d' = 0 \<and> iteration_count d' = iteration_max (demo_lb 2) \<and>
     list_all (\<lambda>(a, g). gb_loopback_active d' g \<longrightarrow> it_count g = iteration_max (demo_lb 2)) (gb_list d')"
    by (rule gb_loopback_test_ends) (use f fs ex good in \<open>simp_all add: round_ok_def sched_ok_def list_all_iff\<close>)
  then show ?thesis using f(2) by auto
qed

end
