(* ===== verification/GB_Class.thy ===== *)
theory GB_Class
  imports GB_Machine GB_Operation
begin

text \<open>
  What the class drivers share. A class driver sits on one connection and talks to its module with
  gb_operation_sync; here the whole state of a driver extends \<open>class_env\<close>, which holds what the
  module and the kernel answer, one entry per call, and the log of all requests with their outcome.
  The theorems hold for all answers.
\<close>

section \<open>The environment of a class driver\<close>

record xfer =
  x_type :: u8
  x_req :: bytes
  x_ret :: int
  x_resp :: bytes

record class_env =
  replies :: "nat \<Rightarrow> int \<times> bytes"
  ncalls :: nat
  sent :: "xfer list"

text \<open>
  gb_operation_sync: the type and payload of the request, the size of the response buffer. The
  operation core hands back a response only if it has exactly the size of the buffer.
\<close>

definition gb_sync :: "u8 \<Rightarrow> bytes \<Rightarrow> nat \<Rightarrow> 'a class_env_scheme \<Rightarrow> (int \<times> bytes) \<times> 'a class_env_scheme" where
  "gb_sync ty req n e =
     (let ret = fst (replies e (ncalls e));
          resp = take n (snd (replies e (ncalls e)) @ replicate n 0)
      in ((ret, resp), e\<lparr>ncalls := ncalls e + 1,
                          sent := sent e @ [\<lparr>x_type = ty, x_req = req, x_ret = ret, x_resp = resp\<rparr>]\<rparr>))"

text \<open>A call into the kernel that only returns a status, an allocation (negative for NULL) or a number.\<close>

definition kcall :: "'a class_env_scheme \<Rightarrow> int \<times> 'a class_env_scheme" where
  "kcall e = (fst (replies e (ncalls e)), e\<lparr>ncalls := ncalls e + 1\<rparr>)"

lemma gb_sync_cases:
  obtains ret resp e' where "gb_sync ty req n e = ((ret, resp), e')"
    "e' = e\<lparr>ncalls := ncalls e + 1, sent := sent e @ [\<lparr>x_type = ty, x_req = req, x_ret = ret, x_resp = resp\<rparr>]\<rparr>"
    "length resp = n"
  by (rule that [OF surjective_pairing [THEN trans]]) (auto simp: gb_sync_def Let_def)

text \<open>An incoming request with a given payload, as the operation core hands it to a driver.\<close>

definition incoming :: "u8 \<Rightarrow> bytes \<Rightarrow> gb_operation" where
  "incoming ty p = \<lparr>connection = 0,
     request = \<lparr>buffer = cpu_to_le16 (of_nat (8 + length p)) @ [1, 0, ty, 0, 0, 0] @ p, payload_size = of_nat (length p)\<rparr>,
     response = None, flags = 1, type = ty, op_id = 1, errno = - EINPROGRESS, callback = None,
     completion = 0, kref = 1, waiters = 0, active = 1\<rparr>"

text \<open>Testing a flag.\<close>

lemma and_pow_nz: "(w AND 2 ^ n \<noteq> 0) = bit w n" for w :: "'a::len word"
  by (simp add: and_exp_eq_0_iff_not_bit)

section \<open>Building requests\<close>

text \<open>
  gb_operation_create as the drivers use it that fill in the request themselves: the zeroed payload
  of the new request, or NULL when a message would be larger than the host device allows or
  memory is short. Sizes are computed in size_t.
\<close>

definition fresh_request :: "size_t \<Rightarrow> bool \<Rightarrow> size_t \<Rightarrow> size_t \<Rightarrow> bytes option" where
  "fresh_request bmax ok request_size response_size =
     (if ok \<and> request_size + 8 \<le> bmax \<and> response_size + 8 \<le> bmax
      then Some (replicate (unat request_size) 0) else None)"

lemma unat_of_nat_u32: "n < 4294967296 \<Longrightarrow> unat (of_nat n :: u32) = n"
  by (simp add: unat_of_nat take_bit_nat_eq_self unsigned_of_nat)

lemma unat_of_nat_u64: "n < 18446744073709551616 \<Longrightarrow> unat (of_nat n :: u64) = n"
  by (simp add: unat_of_nat take_bit_nat_eq_self unsigned_of_nat)

lemma ucast_of_nat_u32: "n < 4294967296 \<Longrightarrow> (ucast (of_nat n :: u32) :: u64) = of_nat n"
  by (rule word_unat_eq_iff [THEN iffD2]) (simp add: unat_of_nat_u32 unat_of_nat_u64)

lemma ucast_of_nat_u16: "n \<le> 65535 \<Longrightarrow> (ucast (of_nat n :: u32) :: u16) = of_nat n"
  by (rule word_unat_eq_iff [THEN iffD2]) (simp add: unsigned_ucast_eq unsigned_of_nat take_bit_nat_eq_self)

lemma fresh_request_fits:
  assumes "8 + n \<le> unat bmax" "8 + k \<le> unat bmax" "n < 9223372036854775808" "k < 9223372036854775808"
  shows "fresh_request bmax True (of_nat n) (of_nat k) = Some (replicate n 0)"
proof -
  have le: "(of_nat j :: u64) + 8 \<le> bmax" if "8 + j \<le> unat bmax" "j < 9223372036854775808" for j
  proof -
    have "(of_nat j :: u64) + 8 = of_nat (j + 8)" by simp
    then have "unat ((of_nat j :: u64) + 8) = j + 8" using that(2) unat_of_nat_u64 [of "j + 8"] by simp
    then show ?thesis using that(1) by (simp add: word_le_nat_alt)
  qed
  have "unat (of_nat n :: u64) = n" using assms(3) by (simp add: unat_of_nat_u64)
  then show ?thesis using le [OF assms(1,3)] le [OF assms(2,4)] by (simp add: fresh_request_def)
qed

text \<open>Copies one behind the other into a buffer, from an offset on; the offset behind the last one.\<close>

fun put_all :: "nat \<Rightarrow> bytes list \<Rightarrow> bytes \<Rightarrow> (nat \<times> bytes) option" where
  "put_all off [] buf = Some (off, buf)"
| "put_all off (b # bs) buf = do { buf1 \<leftarrow> wr_bytes buf off b; put_all (off + length b) bs buf1 }"

lemma put_all_fits:
  "off + length (concat bs) \<le> length buf \<Longrightarrow>
   put_all off bs buf = Some (off + length (concat bs), take off buf @ concat bs @ drop (off + length (concat bs)) buf)"
proof (induction bs arbitrary: off buf)
  case (Cons b bs)
  let ?buf1 = "take off buf @ b @ drop (off + length b) buf"
  have wr: "wr_bytes buf off b = Some ?buf1" using Cons.prems by (simp add: wr_bytes_def)
  have off: "min (length buf) off = off" using Cons.prems by simp
  have "put_all (off + length b) bs ?buf1 = Some (off + length b + length (concat bs),
      take (off + length b) ?buf1 @ concat bs @ drop (off + length b + length (concat bs)) ?buf1)"
    using Cons.prems by (intro Cons.IH) simp
  then show ?case using wr off by (simp add: ac_simps)
qed simp

lemma put_all_overflows:
  "off \<le> length buf \<Longrightarrow> length buf < off + length (concat bs) \<Longrightarrow> put_all off bs buf = None"
proof (induction bs arbitrary: off buf)
  case (Cons b bs)
  show ?case
  proof (cases "wr_bytes buf off b")
    case (Some buf1)
    then have "off + length b \<le> length buf1" "length buf1 = length buf"
      by (auto simp: wr_bytes_def split: if_splits)
    then show ?thesis using Cons.IH [of "off + length b" buf1] Cons.prems Some by simp
  qed simp
qed simp

text \<open>Data that arrives one piece behind the other: each size gets its slice.\<close>

fun slices :: "nat list \<Rightarrow> bytes \<Rightarrow> bytes list" where
  "slices [] d = []"
| "slices (n # ns) d = take n d # slices ns (drop n d)"

lemma slices_concat: "length d = sum_list ns \<Longrightarrow> concat (slices ns d) = d \<and> map length (slices ns d) = ns"
  by (induction ns arbitrary: d) auto

context wire_format
begin

text \<open>An array of structures.\<close>

fun dec_many :: "nat \<Rightarrow> bytes \<Rightarrow> ('a list \<times> bytes) option" where
  "dec_many 0 bs = Some ([], bs)"
| "dec_many (Suc k) bs = do { x \<leftarrow> dec bs; (xs, rest) \<leftarrow> dec_many k (drop n bs); Some (x # xs, rest) }"

lemma dec_many_enc: "dec_many (length xs) (concat (map enc xs) @ rest) = Some (xs, rest)"
  by (induction xs) (simp_all add: dec_enc enc_length)

lemma length_enc_many: "length (concat (map enc xs)) = n * length xs"
  by (induction xs) (simp_all add: enc_length)

end

section \<open>Drivers that cache the state of their module\<close>

text \<open>
  The contract of a driver that keeps a copy of what it has told its module: \<open>step\<close> is the effect
  of one logged request on the module as the protocol describes it, \<open>m0\<close> its state after
  reset, and \<open>rel\<close> says that the cache of the driver agrees with the module. If every entry point of the
  driver keeps the two in agreement, they agree in every reachable state, and no run faults.
\<close>

locale cached_module =
  fixes init :: "'s \<Rightarrow> bool"
    and enabled :: "'s \<Rightarrow> 'e \<Rightarrow> bool"
    and exec :: "'s \<Rightarrow> 'e \<Rightarrow> 's option"
    and log :: "'s \<Rightarrow> xfer list"
    and step :: "xfer \<Rightarrow> 'm \<Rightarrow> 'm"
    and m0 :: "'s \<Rightarrow> 'm"
    and rel :: "'s \<Rightarrow> 'm \<Rightarrow> bool"
  assumes init_rel: "init s \<Longrightarrow> rel s (fold step (log s) (m0 s))"
    and exec_rel: "rel s m \<Longrightarrow> enabled s e \<Longrightarrow>
      \<exists>s' new. exec s e = Some s' \<and> log s' = log s @ new \<and> m0 s' = m0 s \<and> rel s' (fold step new m)"
begin

definition module_state :: "'s \<Rightarrow> 'm" where
  "module_state s = fold step (log s) (m0 s)"

lemma exec_module_state:
  assumes "rel s (module_state s)" "enabled s e"
  shows "\<exists>s'. exec s e = Some s' \<and> rel s' (module_state s')"
proof -
  obtain s' new where "exec s e = Some s'" "log s' = log s @ new" "m0 s' = m0 s" "rel s' (fold step new (module_state s))"
    using exec_rel [OF assms] by blast
  then show ?thesis by (auto simp: module_state_def)
qed

end

sublocale cached_module \<subseteq> safe_machine init enabled exec "\<lambda>s. rel s (module_state s)"
proof
  show "init s \<Longrightarrow> rel s (module_state s)" for s using init_rel by (simp add: module_state_def)
  show "rel s (module_state s) \<Longrightarrow> enabled s e \<Longrightarrow> \<exists>s'. exec s e = Some s' \<and> rel s' (module_state s')" for s e
    by (rule exec_module_state)
qed

end
