(* ===== verification/GB_GPIO.thy ===== *)
theory GB_GPIO
  imports GB_Class
begin

text \<open>
  The GPIO class driver (gpio.c): the lines of a controller module, their cached state, and the
  irqchip whose changes are collected under the bus lock and sent when it is released.
\<close>

section \<open>State\<close>

text \<open>struct gb_gpio_line; a direction of 1 (\<open>True\<close>) is input.\<close>

record gb_gpio_line =
  ln_active :: bool
  ln_direction :: bool
  ln_value :: bool
  debounce_usec :: u16
  irq_type :: u8
  irq_type_pending :: bool
  masked :: bool
  masked_pending :: bool

text \<open>
  struct gb_gpio_controller. The irq domain holds the irq mapped to each line, 0 for none;
  \<open>handled_irqs\<close> are the irqs delivered to the kernel.
\<close>

record gb_gpio_controller = class_env +
  line_max :: u8
  lines :: "gb_gpio_line list"
  irqdomain :: "nat list option"
  irq_base :: nat
  irqchip :: bool
  handled_irqs :: "nat list"

definition get_line :: "gb_gpio_controller \<Rightarrow> u8 \<Rightarrow> gb_gpio_line option" where
  "get_line g which = (if unat which < length (lines g) then Some (lines g ! unat which) else None)"

definition upd_line :: "u8 \<Rightarrow> (gb_gpio_line \<Rightarrow> gb_gpio_line) \<Rightarrow> gb_gpio_controller \<Rightarrow> gb_gpio_controller option" where
  "upd_line which f g = (if unat which < length (lines g)
     then Some (g\<lparr>lines := (lines g)[unat which := f (lines g ! unat which)]\<rparr>) else None)"

section \<open>Operations on the module\<close>

definition gb_gpio_line_count_operation :: "gb_gpio_controller \<Rightarrow> int \<times> gb_gpio_controller" where
  "gb_gpio_line_count_operation g =
     (case gb_sync 0x02 [] 1 g of ((ret, resp), g1) \<Rightarrow>
        (ret, if ret = 0 then g1\<lparr>line_max := resp ! 0\<rparr> else g1))"

definition gb_gpio_activate_operation :: "gb_gpio_controller \<Rightarrow> u8 \<Rightarrow> (int \<times> gb_gpio_controller) option" where
  "gb_gpio_activate_operation g which =
     (case gb_sync 0x03 [which] 0 g of ((ret, _), g1) \<Rightarrow>
        if ret = 0 then do { g2 \<leftarrow> upd_line which (\<lambda>l. l\<lparr>ln_active := True\<rparr>) g1; Some (ret, g2) }
        else Some (ret, g1))"

definition gb_gpio_deactivate_operation :: "gb_gpio_controller \<Rightarrow> u8 \<Rightarrow> gb_gpio_controller option" where
  "gb_gpio_deactivate_operation g which =
     (case gb_sync 0x04 [which] 0 g of ((ret, _), g1) \<Rightarrow>
        if ret \<noteq> 0 then Some g1 else upd_line which (\<lambda>l. l\<lparr>ln_active := False\<rparr>) g1)"

definition gb_gpio_get_direction_operation :: "gb_gpio_controller \<Rightarrow> u8 \<Rightarrow> (int \<times> gb_gpio_controller) option" where
  "gb_gpio_get_direction_operation g which =
     (case gb_sync 0x05 [which] 1 g of ((ret, resp), g1) \<Rightarrow>
        if ret \<noteq> 0 then Some (ret, g1)
        else do { g2 \<leftarrow> upd_line which (\<lambda>l. l\<lparr>ln_direction := resp ! 0 \<noteq> 0\<rparr>) g1; Some (0, g2) })"

definition gb_gpio_direction_in_operation :: "gb_gpio_controller \<Rightarrow> u8 \<Rightarrow> (int \<times> gb_gpio_controller) option" where
  "gb_gpio_direction_in_operation g which =
     (case gb_sync 0x06 [which] 0 g of ((ret, _), g1) \<Rightarrow>
        if ret = 0 then do { g2 \<leftarrow> upd_line which (\<lambda>l. l\<lparr>ln_direction := True\<rparr>) g1; Some (ret, g2) }
        else Some (ret, g1))"

definition gb_gpio_direction_out_operation :: "gb_gpio_controller \<Rightarrow> u8 \<Rightarrow> bool \<Rightarrow> (int \<times> gb_gpio_controller) option" where
  "gb_gpio_direction_out_operation g which value_high =
     (case gb_sync 0x07 [which, if value_high then 1 else 0] 0 g of ((ret, _), g1) \<Rightarrow>
        if ret = 0 then do { g2 \<leftarrow> upd_line which (\<lambda>l. l\<lparr>ln_direction := False\<rparr>) g1; Some (ret, g2) }
        else Some (ret, g1))"

definition gb_gpio_get_value_operation :: "gb_gpio_controller \<Rightarrow> u8 \<Rightarrow> (int \<times> gb_gpio_controller) option" where
  "gb_gpio_get_value_operation g which =
     (case gb_sync 0x08 [which] 1 g of ((ret, resp), g1) \<Rightarrow>
        if ret \<noteq> 0 then Some (ret, g1)
        else do { g2 \<leftarrow> upd_line which (\<lambda>l. l\<lparr>ln_value := resp ! 0 \<noteq> 0\<rparr>) g1; Some (0, g2) })"

definition gb_gpio_set_value_operation :: "gb_gpio_controller \<Rightarrow> u8 \<Rightarrow> bool \<Rightarrow> gb_gpio_controller option" where
  "gb_gpio_set_value_operation g which value_high = do {
     line \<leftarrow> get_line g which;
     if ln_direction line then Some g
     else case gb_sync 0x09 [which, if value_high then 1 else 0] 0 g of ((ret, _), g1) \<Rightarrow>
       if ret \<noteq> 0 then Some g1 else upd_line which (\<lambda>l. l\<lparr>ln_value := value_high\<rparr>) g1
   }"

definition gb_gpio_set_debounce_operation :: "gb_gpio_controller \<Rightarrow> u8 \<Rightarrow> u16 \<Rightarrow> (int \<times> gb_gpio_controller) option" where
  "gb_gpio_set_debounce_operation g which usec =
     (case gb_sync 0x0a (which # cpu_to_le16 usec) 0 g of ((ret, _), g1) \<Rightarrow>
        if ret = 0 then do { g2 \<leftarrow> upd_line which (\<lambda>l. l\<lparr>debounce_usec := usec\<rparr>) g1; Some (ret, g2) }
        else Some (ret, g1))"

section \<open>Interrupts\<close>

definition gpio_irq_mask_op :: "gb_gpio_controller \<Rightarrow> u8 \<Rightarrow> gb_gpio_controller" where
  "gpio_irq_mask_op g hwirq = snd (gb_sync 0x0c [hwirq] 0 g)"

definition gpio_irq_unmask_op :: "gb_gpio_controller \<Rightarrow> u8 \<Rightarrow> gb_gpio_controller" where
  "gpio_irq_unmask_op g hwirq = snd (gb_sync 0x0d [hwirq] 0 g)"

definition gpio_irq_set_type_op :: "gb_gpio_controller \<Rightarrow> u8 \<Rightarrow> u8 \<Rightarrow> gb_gpio_controller" where
  "gpio_irq_set_type_op g hwirq ty = snd (gb_sync 0x0b [hwirq, ty] 0 g)"

definition gb_gpio_irq_mask :: "gb_gpio_controller \<Rightarrow> u8 \<Rightarrow> gb_gpio_controller option" where
  "gb_gpio_irq_mask g hwirq = upd_line hwirq (\<lambda>l. l\<lparr>masked := True, masked_pending := True\<rparr>) g"

definition gb_gpio_irq_unmask :: "gb_gpio_controller \<Rightarrow> u8 \<Rightarrow> gb_gpio_controller option" where
  "gb_gpio_irq_unmask g hwirq = upd_line hwirq (\<lambda>l. l\<lparr>masked := False, masked_pending := True\<rparr>) g"

text \<open>The irq types of the kernel and of the protocol.\<close>

definition gpio_irq_type :: "u32 \<Rightarrow> u8 option" where
  "gpio_irq_type ty =
     (if ty = 0 then Some 0x00
      else if ty = 1 then Some 0x01
      else if ty = 2 then Some 0x02
      else if ty = 3 then Some 0x03
      else if ty = 8 then Some 0x08
      else if ty = 4 then Some 0x04
      else None)"

definition gb_gpio_irq_set_type :: "gb_gpio_controller \<Rightarrow> u8 \<Rightarrow> u32 \<Rightarrow> (int \<times> gb_gpio_controller) option" where
  "gb_gpio_irq_set_type g hwirq ty =
     (case gpio_irq_type ty of
        None \<Rightarrow> Some (- EINVAL, g)
      | Some t \<Rightarrow> do {
          g1 \<leftarrow> upd_line hwirq (\<lambda>l. l\<lparr>irq_type := t, irq_type_pending := True\<rparr>) g;
          Some (0, g1)
        })"

text \<open>gb_gpio_irq_bus_sync_unlock: what is pending for the line is sent, then the lock is released.\<close>

definition gb_gpio_irq_bus_sync_unlock :: "gb_gpio_controller \<Rightarrow> u8 \<Rightarrow> gb_gpio_controller option" where
  "gb_gpio_irq_bus_sync_unlock g hwirq = do {
     line \<leftarrow> get_line g hwirq;
     g1 \<leftarrow> (if irq_type_pending line
           then upd_line hwirq (\<lambda>l. l\<lparr>irq_type_pending := False\<rparr>) (gpio_irq_set_type_op g hwirq (irq_type line))
           else Some g);
     if masked_pending line
     then upd_line hwirq (\<lambda>l. l\<lparr>masked_pending := False\<rparr>)
            (if masked line then gpio_irq_mask_op g1 hwirq else gpio_irq_unmask_op g1 hwirq)
     else Some g1
   }"

text \<open>
  gb_gpio_request_recv. The irq of the line is looked up in the domain; \<open>desc_ok\<close> is whether the
  kernel has a descriptor for it.
\<close>

definition gb_gpio_request_recv :: "gb_gpio_controller \<Rightarrow> bool \<Rightarrow> u8 \<Rightarrow> gb_operation \<Rightarrow> (int \<times> gb_gpio_controller) option" where
  "gb_gpio_request_recv g desc_ok ty op =
     (if ty \<noteq> 0x0e then Some (- EINVAL, g)
      else if payload_size (request op) < 1 then Some (- EINVAL, g)
      else do {
        which \<leftarrow> rd8 (buffer (request op)) HDR_SIZE;
        if line_max g < which then Some (- EINVAL, g)
        else do {
          domain \<leftarrow> irqdomain g;
          let irq = (if unat which < length domain then domain ! unat which else 0);
          if irq = 0 then Some (- EINVAL, g)
          else if \<not> desc_ok then Some (- EINVAL, g)
          else Some (0, g\<lparr>handled_irqs := handled_irqs g @ [irq]\<rparr>)
        }
      })"

section \<open>The gpio chip\<close>

definition gb_gpio_request :: "gb_gpio_controller \<Rightarrow> u32 \<Rightarrow> (int \<times> gb_gpio_controller) option" where
  "gb_gpio_request g offset = gb_gpio_activate_operation g (ucast offset)"

definition gb_gpio_free :: "gb_gpio_controller \<Rightarrow> u32 \<Rightarrow> gb_gpio_controller option" where
  "gb_gpio_free g offset = gb_gpio_deactivate_operation g (ucast offset)"

definition gb_gpio_get_direction :: "gb_gpio_controller \<Rightarrow> u32 \<Rightarrow> (int \<times> gb_gpio_controller) option" where
  "gb_gpio_get_direction g offset = do {
     (ret, g1) \<leftarrow> gb_gpio_get_direction_operation g (ucast offset);
     if ret \<noteq> 0 then Some (ret, g1)
     else do { l \<leftarrow> get_line g1 (ucast offset); Some (if ln_direction l then 1 else 0, g1) }
   }"

definition gb_gpio_direction_input :: "gb_gpio_controller \<Rightarrow> u32 \<Rightarrow> (int \<times> gb_gpio_controller) option" where
  "gb_gpio_direction_input g offset = gb_gpio_direction_in_operation g (ucast offset)"

definition gb_gpio_direction_output :: "gb_gpio_controller \<Rightarrow> u32 \<Rightarrow> int \<Rightarrow> (int \<times> gb_gpio_controller) option" where
  "gb_gpio_direction_output g offset v = gb_gpio_direction_out_operation g (ucast offset) (v \<noteq> 0)"

definition gb_gpio_get :: "gb_gpio_controller \<Rightarrow> u32 \<Rightarrow> (int \<times> gb_gpio_controller) option" where
  "gb_gpio_get g offset = do {
     (ret, g1) \<leftarrow> gb_gpio_get_value_operation g (ucast offset);
     if ret \<noteq> 0 then Some (ret, g1)
     else do { l \<leftarrow> get_line g1 (ucast offset); Some (if ln_value l then 1 else 0, g1) }
   }"

definition gb_gpio_set :: "gb_gpio_controller \<Rightarrow> u32 \<Rightarrow> int \<Rightarrow> gb_gpio_controller option" where
  "gb_gpio_set g offset v = gb_gpio_set_value_operation g (ucast offset) (v \<noteq> 0)"

definition gb_gpio_set_debounce :: "gb_gpio_controller \<Rightarrow> u32 \<Rightarrow> u32 \<Rightarrow> (int \<times> gb_gpio_controller) option" where
  "gb_gpio_set_debounce g offset debounce =
     (if 0xffff < debounce then Some (- EINVAL, g)
      else gb_gpio_set_debounce_operation g (ucast offset) (ucast debounce))"

definition gb_gpio_to_irq :: "gb_gpio_controller \<Rightarrow> u32 \<Rightarrow> nat option" where
  "gb_gpio_to_irq g offset = do {
     domain \<leftarrow> irqdomain g;
     Some (if unat offset < length domain then domain ! unat offset else 0)
   }"

section \<open>Set-up\<close>

definition blank_line :: gb_gpio_line where
  "blank_line = \<lparr>ln_active = False, ln_direction = False, ln_value = False, debounce_usec = 0, irq_type = 0,
     irq_type_pending = False, masked = False, masked_pending = False\<rparr>"

definition gb_gpio_controller_setup :: "gb_gpio_controller \<Rightarrow> int \<times> gb_gpio_controller" where
  "gb_gpio_controller_setup g =
     (case gb_gpio_line_count_operation g of (ret, g1) \<Rightarrow>
        if ret \<noteq> 0 then (ret, g1)
        else case kcall g1 of (ok, g2) \<Rightarrow>
          if ok < 0 then (- ENOMEM, g2)
          else (0, g2\<lparr>lines := replicate (unat (line_max g2) + 1) blank_line\<rparr>))"

text \<open>irq_create_mapping for each line; a failed mapping leaves no irq.\<close>

fun create_mappings :: "nat list \<Rightarrow> gb_gpio_controller \<Rightarrow> nat list \<times> gb_gpio_controller" where
  "create_mappings [] g = ([], g)"
| "create_mappings (i # is) g =
     (case kcall g of (irq, g1) \<Rightarrow>
        let g2 = (if i = 0 then g1\<lparr>irq_base := nat irq\<rparr> else g1) in
        case create_mappings is g2 of (irqs, g3) \<Rightarrow> (nat irq # irqs, g3))"

definition gb_gpio_irqchip_add :: "gb_gpio_controller \<Rightarrow> int \<times> gb_gpio_controller" where
  "gb_gpio_irqchip_add g =
     (case kcall g of (ok, g1) \<Rightarrow>
        if ok < 0 then (- EINVAL, g1\<lparr>irqchip := False\<rparr>)
        else case create_mappings [0..<unat (line_max g1) + 1] (g1\<lparr>irqchip := True\<rparr>) of (irqs, g2) \<Rightarrow>
          (0, g2\<lparr>irqdomain := Some irqs\<rparr>))"

text \<open>The irqs given back when the irqchip is removed.\<close>

definition gb_gpio_irqchip_remove :: "gb_gpio_controller \<Rightarrow> nat list \<times> gb_gpio_controller" where
  "gb_gpio_irqchip_remove g =
     ((case irqdomain g of None \<Rightarrow> []
       | Some d \<Rightarrow> map (\<lambda>i. if i < length d then d ! i else 0) [0..<unat (line_max g) + 1]),
      g\<lparr>irqchip := False\<rparr>)"

text \<open>
  gb_gpio_connection_init. The result has the controller, unless it was freed, and whether the gpio chip is
  registered with the kernel.
\<close>

definition gb_gpio_connection_init :: "class_env \<Rightarrow> int \<times> gb_gpio_controller option \<times> bool" where
  "gb_gpio_connection_init e =
     (case kcall e of (ok, e1) \<Rightarrow>
        if ok < 0 then (- ENOMEM, None, False)
        else
          let g = \<lparr>replies = replies e1, ncalls = ncalls e1, sent = sent e1, line_max = 0, lines = [],
                   irqdomain = None, irq_base = 0, irqchip = False, handled_irqs = []\<rparr>
          in case gb_gpio_controller_setup g of (ret, g1) \<Rightarrow>
            if ret \<noteq> 0 then (ret, None, False)
            else case kcall g1 of (ret, g2) \<Rightarrow>
              if ret \<noteq> 0 then (ret, None, False)
              else case gb_gpio_irqchip_add g2 of (ret, g3) \<Rightarrow>
                if ret \<noteq> 0 then (ret, None, False)
                else (0, Some g3, True))"

definition gb_gpio_connection_exit :: "gb_gpio_controller option \<Rightarrow> nat list" where
  "gb_gpio_connection_exit private =
     (case private of None \<Rightarrow> [] | Some g \<Rightarrow> fst (gb_gpio_irqchip_remove g))"

end
