(* ===== verification/GB_GPIO_Props.thy ===== *)
theory GB_GPIO_Props
  imports GB_GPIO
begin

text \<open>
  What gpio.c promises: the cached lines agree with what the module was told and has reported, in
  every run of the driver; the changes made under the bus lock of the irqchip reach the module
  once each; set-up leaves nothing behind when it fails.
\<close>

section \<open>The module's view\<close>

text \<open>
  The effect of a logged request on the lines of the module. The three irq requests count as soon as they
  are sent, because the driver does not look at their result; all others when they are acknowledged.
\<close>

definition gpio_step :: "xfer \<Rightarrow> gb_gpio_line list \<Rightarrow> gb_gpio_line list" where
  "gpio_step x m =
     (if x_req x = [] then m
      else
        let i = unat (x_req x ! 0);
            set = (\<lambda>f. m[i := f (m ! i)])
        in if x_type x = 0x0b then set (\<lambda>l. l\<lparr>irq_type := x_req x ! 1\<rparr>)
           else if x_type x = 0x0c then set (\<lambda>l. l\<lparr>masked := True\<rparr>)
           else if x_type x = 0x0d then set (\<lambda>l. l\<lparr>masked := False\<rparr>)
           else if x_ret x \<noteq> 0 then m
           else if x_type x = 0x03 then set (\<lambda>l. l\<lparr>ln_active := True\<rparr>)
           else if x_type x = 0x04 then set (\<lambda>l. l\<lparr>ln_active := False\<rparr>)
           else if x_type x = 0x05 then set (\<lambda>l. l\<lparr>ln_direction := x_resp x ! 0 \<noteq> 0\<rparr>)
           else if x_type x = 0x06 then set (\<lambda>l. l\<lparr>ln_direction := True\<rparr>)
           else if x_type x = 0x07 then set (\<lambda>l. l\<lparr>ln_direction := False, ln_value := x_req x ! 1 \<noteq> 0\<rparr>)
           else if x_type x = 0x08 then set (\<lambda>l. l\<lparr>ln_value := x_resp x ! 0 \<noteq> 0\<rparr>)
           else if x_type x = 0x09 then set (\<lambda>l. l\<lparr>ln_value := x_req x ! 1 \<noteq> 0\<rparr>)
           else if x_type x = 0x0a then set (\<lambda>l. l\<lparr>debounce_usec := le16_to_cpu (x_req x ! 1) (x_req x ! 2)\<rparr>)
           else m)"

text \<open>
  The cached level of an output is not part of the agreement: setting the direction to output also sets
  the level, which the driver does not record (and never reads without asking first).
\<close>

definition line_agrees :: "gb_gpio_line \<Rightarrow> gb_gpio_line \<Rightarrow> bool" where
  "line_agrees l k \<longleftrightarrow> ln_active l = ln_active k \<and> ln_direction l = ln_direction k \<and>
     debounce_usec l = debounce_usec k \<and>
     (irq_type_pending l \<or> irq_type l = irq_type k) \<and> (masked_pending l \<or> masked l = masked k)"

definition gpio_rel :: "gb_gpio_controller \<Rightarrow> gb_gpio_line list \<Rightarrow> bool" where
  "gpio_rel g m \<longleftrightarrow> length (lines g) = unat (line_max g) + 1 \<and> irqdomain g \<noteq> None \<and>
     list_all2 line_agrees (lines g) m"

definition gpio_reset :: "gb_gpio_controller \<Rightarrow> gb_gpio_line list" where
  "gpio_reset g = replicate (unat (line_max g) + 1) blank_line"

section \<open>Runs of the driver\<close>

datatype gpio_event =
    Gpio_request u32 | Gpio_free u32 | Gpio_get_direction u32 | Gpio_direction_input u32
  | Gpio_direction_output u32 int | Gpio_get u32 | Gpio_set u32 int | Gpio_set_debounce u32 u32
  | Irq_mask u8 | Irq_unmask u8 | Irq_set_type u8 u32 | Irq_bus_sync_unlock u8 | Gpio_recv bool u8 gb_operation

text \<open>The kernel uses only offsets of the chip and irqs of its domain; messages are well-formed.\<close>

fun gpio_enabled :: "gb_gpio_controller \<Rightarrow> gpio_event \<Rightarrow> bool" where
  "gpio_enabled g (Gpio_request off) = (unat off \<le> unat (line_max g))"
| "gpio_enabled g (Gpio_free off) = (unat off \<le> unat (line_max g))"
| "gpio_enabled g (Gpio_get_direction off) = (unat off \<le> unat (line_max g))"
| "gpio_enabled g (Gpio_direction_input off) = (unat off \<le> unat (line_max g))"
| "gpio_enabled g (Gpio_direction_output off v) = (unat off \<le> unat (line_max g))"
| "gpio_enabled g (Gpio_get off) = (unat off \<le> unat (line_max g))"
| "gpio_enabled g (Gpio_set off v) = (unat off \<le> unat (line_max g))"
| "gpio_enabled g (Gpio_set_debounce off d) = (unat off \<le> unat (line_max g))"
| "gpio_enabled g (Irq_mask h) = (h \<le> line_max g)"
| "gpio_enabled g (Irq_unmask h) = (h \<le> line_max g)"
| "gpio_enabled g (Irq_set_type h t) = (h \<le> line_max g)"
| "gpio_enabled g (Irq_bus_sync_unlock h) = (h \<le> line_max g)"
| "gpio_enabled g (Gpio_recv ok ty op) = msg_wf (request op)"

fun gpio_exec :: "gb_gpio_controller \<Rightarrow> gpio_event \<Rightarrow> gb_gpio_controller option" where
  "gpio_exec g (Gpio_request off) = map_option snd (gb_gpio_request g off)"
| "gpio_exec g (Gpio_free off) = gb_gpio_free g off"
| "gpio_exec g (Gpio_get_direction off) = map_option snd (gb_gpio_get_direction g off)"
| "gpio_exec g (Gpio_direction_input off) = map_option snd (gb_gpio_direction_input g off)"
| "gpio_exec g (Gpio_direction_output off v) = map_option snd (gb_gpio_direction_output g off v)"
| "gpio_exec g (Gpio_get off) = map_option snd (gb_gpio_get g off)"
| "gpio_exec g (Gpio_set off v) = gb_gpio_set g off v"
| "gpio_exec g (Gpio_set_debounce off d) = map_option snd (gb_gpio_set_debounce g off d)"
| "gpio_exec g (Irq_mask h) = gb_gpio_irq_mask g h"
| "gpio_exec g (Irq_unmask h) = gb_gpio_irq_unmask g h"
| "gpio_exec g (Irq_set_type h t) = map_option snd (gb_gpio_irq_set_type g h t)"
| "gpio_exec g (Irq_bus_sync_unlock h) = gb_gpio_irq_bus_sync_unlock g h"
| "gpio_exec g (Gpio_recv ok ty op) = map_option snd (gb_gpio_request_recv g ok ty op)"

definition gpio_init :: "gb_gpio_controller \<Rightarrow> bool" where
  "gpio_init g \<longleftrightarrow> (\<exists>e. sent e = [] \<and> gb_gpio_connection_init e = (0, Some g, True))"

section \<open>Set-up\<close>

lemma create_mappings_frame:
  assumes "create_mappings is g = (irqs, g')"
  shows "length irqs = length is \<and> lines g' = lines g \<and> line_max g' = line_max g \<and> sent g' = sent g"
  using assms
proof (induction "is" arbitrary: g irqs g')
  case (Cons i "is")
  then show ?case by (fastforce simp: kcall_def Let_def split: prod.splits if_splits)
qed simp

lemma gpio_init_state:
  assumes "gb_gpio_connection_init e = (0, Some g, True)"
  shows "\<exists>x. sent g = sent e @ [x] \<and> x_req x = []" "lines g = replicate (unat (line_max g) + 1) blank_line"
    "\<exists>d. irqdomain g = Some d \<and> length d = unat (line_max g) + 1"
  using assms
  by (auto simp: gb_gpio_connection_init_def gb_gpio_controller_setup_def gb_gpio_line_count_operation_def
      gb_gpio_irqchip_add_def gb_sync_def kcall_def Let_def split: if_splits prod.splits dest!: create_mappings_frame)

section \<open>Agreement\<close>

lemma gpio_rel_length: "gpio_rel g m \<Longrightarrow> length m = length (lines g)"
  by (auto simp: gpio_rel_def dest: list_all2_lengthD)

lemma gpio_rel_nth: "gpio_rel g m \<Longrightarrow> i < length (lines g) \<Longrightarrow> line_agrees (lines g ! i) (m ! i)"
  by (auto simp: gpio_rel_def dest: list_all2_nthD)

text \<open>The logging of a request leaves the lines alone.\<close>

lemma gpio_rel_env [simp]: "gpio_rel (g\<lparr>ncalls := a, sent := b\<rparr>) m = gpio_rel g m"
  by (simp add: gpio_rel_def)

lemma gpio_rel_upd:
  assumes "gpio_rel g m" "i < length (lines g)" "line_agrees l k"
  shows "gpio_rel (g\<lparr>lines := (lines g)[i := l]\<rparr>) (m[i := k])"
  using assms gpio_rel_length [OF assms(1)] by (auto simp: gpio_rel_def list_all2_update_cong)

text \<open>A change of a line that the module is not told, such as one that is only marked as pending.\<close>

lemma gpio_rel_upd_same:
  assumes "gpio_rel g m" "i < length (lines g)" "line_agrees l (m ! i)"
  shows "gpio_rel (g\<lparr>lines := (lines g)[i := l]\<rparr>) m"
  using gpio_rel_upd [OF assms] by simp

lemma offset_in_range:
  assumes "gpio_rel g m" "unat (off :: u32) \<le> unat (line_max g)"
  shows "unat (ucast off :: u8) = unat off" "unat (ucast off :: u8) < length (lines g)"
proof -
  have "unat off < 256" using assms(2) unsigned_less [of "line_max g", where 'a = nat] by simp
  then show "unat (ucast off :: u8) = unat off" by (simp add: unsigned_ucast_eq take_bit_nat_eq_self)
  then show "unat (ucast off :: u8) < length (lines g)" using assms by (simp add: gpio_rel_def)
qed

lemma hwirq_in_range: "gpio_rel g m \<Longrightarrow> h \<le> line_max g \<Longrightarrow> unat h < length (lines g)"
  by (simp add: gpio_rel_def word_le_nat_alt)

lemmas gpio_ops = gb_gpio_request_def gb_gpio_free_def gb_gpio_get_direction_def gb_gpio_direction_input_def
  gb_gpio_direction_output_def gb_gpio_get_def gb_gpio_set_def gb_gpio_set_debounce_def
  gb_gpio_activate_operation_def gb_gpio_deactivate_operation_def gb_gpio_get_direction_operation_def
  gb_gpio_direction_in_operation_def gb_gpio_direction_out_operation_def gb_gpio_get_value_operation_def
  gb_gpio_set_value_operation_def gb_gpio_set_debounce_operation_def

text \<open>What every entry point has to establish.\<close>

definition keeps :: "gb_gpio_controller \<Rightarrow> gb_gpio_line list \<Rightarrow> gb_gpio_controller option \<Rightarrow> bool" where
  "keeps g m r \<longleftrightarrow> (\<exists>g' new. r = Some g' \<and> sent g' = sent g @ new \<and> line_max g' = line_max g \<and> gpio_rel g' (fold gpio_step new m))"

lemma keeps_same: "gpio_rel g m \<Longrightarrow> keeps g m (Some g)"
  unfolding keeps_def by (rule exI, rule exI [of _ "[]"]) simp

lemma keeps_sent:
  assumes "gb_sync ty req n g = ((ret, resp), g1)" "gpio_rel g m" "i < length (lines g)"
    and "gpio_step \<lparr>x_type = ty, x_req = req, x_ret = ret, x_resp = resp\<rparr> m = m[i := k]" "line_agrees l k"
  shows "keeps g m (Some (g1\<lparr>lines := (lines g1)[i := l]\<rparr>))"
proof -
  have g1: "g1 = g\<lparr>ncalls := ncalls g + 1, sent := sent g @ [\<lparr>x_type = ty, x_req = req, x_ret = ret, x_resp = resp\<rparr>]\<rparr>"
    using assms(1) by (auto simp: gb_sync_def Let_def)
  have "gpio_rel g1 m" using assms(2) by (simp add: g1)
  then have "gpio_rel (g1\<lparr>lines := (lines g1)[i := l]\<rparr>) (m[i := k])"
    using assms(3,5) by (intro gpio_rel_upd) (simp_all add: g1)
  then show ?thesis
    unfolding keeps_def using assms(4)
    by (intro exI [of _ "g1\<lparr>lines := (lines g1)[i := l]\<rparr>"]
        exI [of _ "[\<lparr>x_type = ty, x_req = req, x_ret = ret, x_resp = resp\<rparr>]"]) (simp add: g1)
qed

lemma keeps_refused:
  assumes "gb_sync ty req n g = ((ret, resp), g1)" "gpio_rel g m"
    and "gpio_step \<lparr>x_type = ty, x_req = req, x_ret = ret, x_resp = resp\<rparr> m = m"
  shows "keeps g m (Some g1)"
  using assms unfolding keeps_def
  by (intro exI [of _ g1] exI [of _ "[\<lparr>x_type = ty, x_req = req, x_ret = ret, x_resp = resp\<rparr>]"])
    (auto simp: gb_sync_def Let_def)

text \<open>The pattern of the operations: ask, and change the line if the module agreed.\<close>

lemma keeps_op:
  assumes rel: "gpio_rel g m" and i: "unat which < length (lines g)"
    and acked: "\<And>resp. gpio_step \<lparr>x_type = ty, x_req = req, x_ret = 0, x_resp = resp\<rparr> m = m[unat which := kf resp (m ! unat which)]"
    and refused: "\<And>ret resp. ret \<noteq> 0 \<Longrightarrow> gpio_step \<lparr>x_type = ty, x_req = req, x_ret = ret, x_resp = resp\<rparr> m = m"
    and agree: "\<And>l k resp. line_agrees l k \<Longrightarrow> line_agrees (f resp l) (kf resp k)"
  shows "keeps g m (case gb_sync ty req n g of ((ret, resp), g1) \<Rightarrow> if ret = 0 then upd_line which (f resp) g1 else Some g1)"
proof -
  obtain ret resp g1 where s: "gb_sync ty req n g = ((ret, resp), g1)" by (metis prod.exhaust)
  then have ln: "lines g1 = lines g" by (auto simp: gb_sync_def Let_def)
  show ?thesis
  proof (cases "ret = 0")
    case True
    have "line_agrees (f resp (lines g ! unat which)) (kf resp (m ! unat which))"
      by (rule agree, rule gpio_rel_nth [OF rel i])
    then show ?thesis
      using True s i ln keeps_sent [OF s rel i, of "kf resp (m ! unat which)"] acked by (simp add: upd_line_def)
  next
    case False
    then show ?thesis using s keeps_refused [OF s rel refused] by simp
  qed
qed

lemma keeps_drop:
  "(map_option snd (case gb_sync ty req n g of ((ret, resp), g1) \<Rightarrow>
      if ret = 0 then Option.bind (upd_line which (f resp) g1) (\<lambda>g2. Some (h ret, g2)) else Some (ret, g1))) =
   (case gb_sync ty req n g of ((ret, resp), g1) \<Rightarrow> if ret = 0 then upd_line which (f resp) g1 else Some g1)"
  by (auto simp: upd_line_def split: prod.splits)

lemma keeps_drop':
  "(map_option snd (case gb_sync ty req n g of ((ret, resp), g1) \<Rightarrow>
      if ret \<noteq> 0 then Some (ret, g1) else Option.bind (upd_line which (f resp) g1) (\<lambda>g2. Some (h, g2)))) =
   (case gb_sync ty req n g of ((ret, resp), g1) \<Rightarrow> if ret = 0 then upd_line which (f resp) g1 else Some g1)"
  by (auto simp: upd_line_def split: prod.splits)

lemma if_not_zero: "(if ret \<noteq> 0 then a else b) = (if ret = (0 :: int) then b else a)"
  by simp

lemma activate_keeps:
  assumes "gpio_rel g m" "unat which < length (lines g)"
  shows "keeps g m (map_option snd (gb_gpio_activate_operation g which))"
  unfolding gb_gpio_activate_operation_def keeps_drop
  by (rule keeps_op [OF assms, where kf = "\<lambda>_ l. l\<lparr>ln_active := True\<rparr>"]) (simp_all add: gpio_step_def line_agrees_def Let_def)

lemma deactivate_keeps:
  assumes "gpio_rel g m" "unat which < length (lines g)"
  shows "keeps g m (gb_gpio_deactivate_operation g which)"
  unfolding gb_gpio_deactivate_operation_def if_not_zero
  by (rule keeps_op [OF assms, where kf = "\<lambda>_ l. l\<lparr>ln_active := False\<rparr>"]) (simp_all add: gpio_step_def line_agrees_def Let_def)

lemma get_direction_keeps:
  assumes "gpio_rel g m" "unat which < length (lines g)"
  shows "keeps g m (map_option snd (gb_gpio_get_direction_operation g which))"
  unfolding gb_gpio_get_direction_operation_def keeps_drop'
  by (rule keeps_op [OF assms, where kf = "\<lambda>resp l. l\<lparr>ln_direction := resp ! 0 \<noteq> 0\<rparr>"]) (simp_all add: gpio_step_def line_agrees_def Let_def)

lemma direction_in_keeps:
  assumes "gpio_rel g m" "unat which < length (lines g)"
  shows "keeps g m (map_option snd (gb_gpio_direction_in_operation g which))"
  unfolding gb_gpio_direction_in_operation_def keeps_drop
  by (rule keeps_op [OF assms, where kf = "\<lambda>_ l. l\<lparr>ln_direction := True\<rparr>"]) (simp_all add: gpio_step_def line_agrees_def Let_def)

lemma direction_out_keeps:
  assumes "gpio_rel g m" "unat which < length (lines g)"
  shows "keeps g m (map_option snd (gb_gpio_direction_out_operation g which v))"
  unfolding gb_gpio_direction_out_operation_def keeps_drop
  by (rule keeps_op [OF assms, where kf = "\<lambda>_ l. l\<lparr>ln_direction := False, ln_value := v\<rparr>"]) (simp_all add: gpio_step_def line_agrees_def Let_def)

lemma get_value_keeps:
  assumes "gpio_rel g m" "unat which < length (lines g)"
  shows "keeps g m (map_option snd (gb_gpio_get_value_operation g which))"
  unfolding gb_gpio_get_value_operation_def keeps_drop'
  by (rule keeps_op [OF assms, where kf = "\<lambda>resp l. l\<lparr>ln_value := resp ! 0 \<noteq> 0\<rparr>"]) (simp_all add: gpio_step_def line_agrees_def Let_def)

lemma set_debounce_keeps:
  assumes "gpio_rel g m" "unat which < length (lines g)"
  shows "keeps g m (map_option snd (gb_gpio_set_debounce_operation g which u))"
  unfolding gb_gpio_set_debounce_operation_def keeps_drop
  by (rule keeps_op [OF assms, where kf = "\<lambda>_ l. l\<lparr>debounce_usec := u\<rparr>"]) (simp_all add: gpio_step_def line_agrees_def Let_def cpu_to_le16_def)

lemma set_value_keeps:
  assumes "gpio_rel g m" "unat which < length (lines g)"
  shows "keeps g m (gb_gpio_set_value_operation g which v)"
proof (cases "ln_direction (lines g ! unat which)")
  case True
  then show ?thesis using assms keeps_same [OF assms(1)] by (simp add: gb_gpio_set_value_operation_def get_line_def)
next
  case False
  have "keeps g m (case gb_sync 0x09 [which, if v then 1 else 0] 0 g of ((ret, resp), g1) \<Rightarrow>
      if ret = 0 then upd_line which (\<lambda>l. l\<lparr>ln_value := v\<rparr>) g1 else Some g1)"
    by (rule keeps_op [OF assms, where kf = "\<lambda>_ l. l\<lparr>ln_value := v\<rparr>"]) (simp_all add: gpio_step_def line_agrees_def Let_def)
  then show ?thesis using False assms(2) by (simp add: gb_gpio_set_value_operation_def get_line_def if_not_zero)
qed

text \<open>Reading back the line that was just brought up to date.\<close>

lemma keeps_then_read:
  assumes "keeps g m (map_option snd r)" "unat which < length (lines g)" "\<And>ret g'. r = Some (ret, g') \<Longrightarrow> length (lines g') = length (lines g)"
  shows "keeps g m (map_option snd (do { (ret, g1) \<leftarrow> r; if ret \<noteq> 0 then Some (ret, g1)
     else do { l \<leftarrow> get_line g1 which; Some (h l, g1) } }))"
  using assms by (cases r) (auto simp: get_line_def)

lemma keeps_length: "keeps g m (Some g') \<Longrightarrow> gpio_rel g m \<Longrightarrow> length (lines g') = length (lines g)"
  by (auto simp: keeps_def gpio_rel_def)

lemma keeps_bind:
  assumes "keeps g m r" "\<And>g1 m1. r = Some g1 \<Longrightarrow> gpio_rel g1 m1 \<Longrightarrow> keeps g1 m1 (f g1)"
  shows "keeps g m (Option.bind r f)"
proof -
  obtain g1 new where r: "r = Some g1" and g1: "sent g1 = sent g @ new" "line_max g1 = line_max g" "gpio_rel g1 (fold gpio_step new m)"
    using assms(1) by (auto simp: keeps_def)
  obtain g2 new2 where "f g1 = Some g2" "sent g2 = sent g1 @ new2" "line_max g2 = line_max g1"
    "gpio_rel g2 (fold gpio_step new2 (fold gpio_step new m))"
    using assms(2) [OF r g1(3)] by (auto simp: keeps_def)
  then show ?thesis using r g1 unfolding keeps_def by (intro exI [of _ g2] exI [of _ "new @ new2"]) simp
qed

lemma keeps_local:
  assumes "gpio_rel g m" "unat which < length (lines g)" "\<And>l k. line_agrees l k \<Longrightarrow> line_agrees (f l) k"
  shows "keeps g m (upd_line which f g)"
proof -
  have "line_agrees (f (lines g ! unat which)) (m ! unat which)" by (rule assms(3), rule gpio_rel_nth [OF assms(1,2)])
  then have "gpio_rel (g\<lparr>lines := (lines g)[unat which := f (lines g ! unat which)]\<rparr>) m"
    by (rule gpio_rel_upd_same [OF assms(1,2)])
  then show ?thesis using assms(2) unfolding keeps_def upd_line_def by (auto intro: exI [of _ "[]"])
qed

text \<open>A pending change is sent and no longer pending, whatever the module answers.\<close>

lemma keeps_flush:
  assumes rel: "gpio_rel g m" and i: "unat which < length (lines g)"
    and step: "\<And>ret resp. gpio_step \<lparr>x_type = ty, x_req = req, x_ret = ret, x_resp = resp\<rparr> m = m[unat which := kf (m ! unat which)]"
    and agree: "line_agrees (lines g ! unat which) (m ! unat which) \<Longrightarrow> line_agrees (f (lines g ! unat which)) (kf (m ! unat which))"
  shows "keeps g m (upd_line which f (snd (gb_sync ty req n g)))"
proof -
  obtain ret resp g1 where s: "gb_sync ty req n g = ((ret, resp), g1)" by (metis prod.exhaust)
  then have "lines g1 = lines g" by (auto simp: gb_sync_def Let_def)
  then show ?thesis
    using s i keeps_sent [OF s rel i step agree [OF gpio_rel_nth [OF rel i]]] by (simp add: upd_line_def)
qed

lemma sync_unlock_keeps:
  assumes rel: "gpio_rel g m" and i: "unat h < length (lines g)"
  shows "keeps g m (gb_gpio_irq_bus_sync_unlock g h)"
proof -
  let ?l = "lines g ! unat h"
  let ?r = "if irq_type_pending ?l
    then upd_line h (\<lambda>l. l\<lparr>irq_type_pending := False\<rparr>) (gpio_irq_set_type_op g h (irq_type ?l)) else Some g"
  have 1: "keeps g m ?r"
    unfolding gpio_irq_set_type_op_def
    using keeps_same [OF rel] keeps_flush [OF rel i, where ty = "0x0b" and req = "[h, irq_type ?l]" and kf = "\<lambda>k. k\<lparr>irq_type := irq_type ?l\<rparr>"]
    by (simp add: gpio_step_def line_agrees_def Let_def)
  have 2: "keeps g1 m1 (if masked_pending ?l
      then upd_line h (\<lambda>l. l\<lparr>masked_pending := False\<rparr>) (if masked ?l then gpio_irq_mask_op g1 h else gpio_irq_unmask_op g1 h)
      else Some g1)" if g1: "?r = Some g1" and rel1: "gpio_rel g1 m1" for g1 m1
  proof -
    have l1: "unat h < length (lines g1)" "masked (lines g1 ! unat h) = masked ?l"
      using g1 i by (auto simp: gpio_irq_set_type_op_def upd_line_def gb_sync_def Let_def split: if_splits)
    show ?thesis
      unfolding gpio_irq_mask_op_def gpio_irq_unmask_op_def
      using keeps_same [OF rel1] keeps_flush [OF rel1 l1(1), where ty = "0x0c" and req = "[h]" and kf = "\<lambda>k. k\<lparr>masked := True\<rparr>"]
        keeps_flush [OF rel1 l1(1), where ty = "0x0d" and req = "[h]" and kf = "\<lambda>k. k\<lparr>masked := False\<rparr>"] l1(2)
      by (simp add: gpio_step_def line_agrees_def Let_def)
  qed
  show ?thesis
    using keeps_bind [OF 1 2] i by (simp add: gb_gpio_irq_bus_sync_unlock_def get_line_def)
qed

lemma recv_keeps:
  assumes "gpio_rel g m" "msg_wf (request op)"
  shows "keeps g m (map_option snd (gb_gpio_request_recv g ok ty op))"
proof -
  have h: "gpio_rel (g\<lparr>handled_irqs := hs\<rparr>) m" for hs using assms(1) by (simp add: gpio_rel_def)
  have "keeps g m (Some (g\<lparr>handled_irqs := hs\<rparr>))" for hs
    unfolding keeps_def using h by (auto intro: exI [of _ "[]"])
  moreover have "payload_size (request op) \<noteq> 0 \<Longrightarrow> HDR_SIZE < length (buffer (request op))"
    using assms(2) by (simp add: msg_wf_def unat_gt_0)
  ultimately show ?thesis
    using keeps_same [OF assms(1)] assms(1) 
    by (auto simp: gb_gpio_request_recv_def gpio_rel_def rd8_def Let_def not_less)
qed

lemma gpio_exec_keeps:
  assumes rel: "gpio_rel g m" and en: "gpio_enabled g e"
  shows "keeps g m (gpio_exec g e)"
proof -
  have off: "unat (ucast off :: u8) < length (lines g)" if "unat (off :: u32) \<le> unat (line_max g)" for off
    using offset_in_range(2) [OF rel that] .
  have read: "keeps g m (map_option snd r) \<Longrightarrow> unat which < length (lines g) \<Longrightarrow>
      keeps g m (map_option snd (do { (ret, g1) \<leftarrow> r; if ret \<noteq> 0 then Some (ret, g1)
        else do { l \<leftarrow> get_line g1 which; Some (h l, g1) } }))" for r which h
    by (rule keeps_then_read) (auto intro: keeps_length [OF _ rel])
  show ?thesis
  proof (cases e)
    case (Irq_set_type h t)
    then have "keeps g m (upd_line h (\<lambda>l. l\<lparr>irq_type := s, irq_type_pending := True\<rparr>) g)" for s
      using en by (intro keeps_local [OF rel] hwirq_in_range [OF rel]) (auto simp: line_agrees_def)
    moreover have "map_option snd (do { g1 \<leftarrow> r; Some (0 :: int, g1) }) = r" for r :: "gb_gpio_controller option"
      by (cases r) simp_all
    ultimately show ?thesis
      using Irq_set_type keeps_same [OF rel] by (simp add: gb_gpio_irq_set_type_def split: option.splits)
  next
    case (Irq_mask h)
    then show ?thesis
      using en by (auto simp: gb_gpio_irq_mask_def line_agrees_def intro!: keeps_local [OF rel] hwirq_in_range [OF rel])
  next
    case (Irq_unmask h)
    then show ?thesis
      using en by (auto simp: gb_gpio_irq_unmask_def line_agrees_def intro!: keeps_local [OF rel] hwirq_in_range [OF rel])
  qed (use en off keeps_same [OF rel] in \<open>simp_all add: gb_gpio_request_def gb_gpio_free_def gb_gpio_get_direction_def
      gb_gpio_direction_input_def gb_gpio_direction_output_def gb_gpio_get_def gb_gpio_set_def gb_gpio_set_debounce_def
      activate_keeps [OF rel] deactivate_keeps [OF rel] get_direction_keeps [OF rel] direction_in_keeps [OF rel]
      direction_out_keeps [OF rel] get_value_keeps [OF rel] set_value_keeps [OF rel] set_debounce_keeps [OF rel]
      sync_unlock_keeps [OF rel] hwirq_in_range [OF rel] recv_keeps [OF rel] read\<close>)
qed

interpretation gpio: cached_module gpio_init gpio_enabled gpio_exec sent gpio_step gpio_reset gpio_rel
proof
  fix g assume "gpio_init g"
  then obtain e x where x: "sent g = [x]" "x_req x = []" and g: "lines g = replicate (unat (line_max g) + 1) blank_line"
    "irqdomain g \<noteq> None"
    using gpio_init_state unfolding gpio_init_def by fastforce
  show "gpio_rel g (fold gpio_step (sent g) (gpio_reset g))"
    using x g by (simp add: gpio_step_def gpio_rel_def gpio_reset_def line_agrees_def list_all2_conv_all_nth)
next
  fix g m e assume "gpio_rel g m" "gpio_enabled g e"
  then show "\<exists>g' new. gpio_exec g e = Some g' \<and> sent g' = sent g @ new \<and> gpio_reset g' = gpio_reset g \<and>
      gpio_rel g' (fold gpio_step new m)"
    using gpio_exec_keeps unfolding keeps_def gpio_reset_def by metis
qed

definition gpio_reach :: "gb_gpio_controller \<Rightarrow> bool" where
  "gpio_reach g \<longleftrightarrow> reach gpio_init gpio_enabled gpio_exec g"

text \<open>A controller with three lines whose module acknowledges everything.\<close>

definition demo_env :: class_env where
  "demo_env = \<lparr>replies = (\<lambda>n. if n = 1 then (0, [2]) else if n = 3 \<or> n = 4 then (0, []) else (if n < 8 then int n else 0, [])), ncalls = 0, sent = []\<rparr>"

definition demo_gpio :: gb_gpio_controller where
  "demo_gpio = (case gb_gpio_connection_init demo_env of (_, Some g, _) \<Rightarrow> g)"

lemma demo_gpio_init: "gb_gpio_connection_init demo_env = (0, Some demo_gpio, True)"
proof -
  have "(case gb_gpio_connection_init demo_env of (r, Some g, b) \<Rightarrow> r = 0 \<and> b | _ \<Rightarrow> False)" by code_simp
  then show ?thesis by (auto simp: demo_gpio_def split: prod.splits option.splits)
qed

lemma demo_gpio_reach: "gpio_reach demo_gpio"
  unfolding gpio_reach_def
  by (rule reach_init) (use demo_gpio_init in \<open>auto simp: gpio_init_def demo_env_def intro: exI [of _ demo_env]\<close>)

text \<open>
  C17 The cached lines agree with the module: in every reachable state, whatever the module answered, each
  line is active, has the direction and the debounce time that the acknowledged requests and the reports of
  the module say, and an irq type and mask that is not marked as pending is the one last sent; and no call of
  the kernel or event of the module makes the driver access a line it does not have.
\<close>

theorem gpio_cache_agrees:
  assumes "gpio_reach g"
  shows "(\<forall>i\<le>unat (line_max g). line_agrees (lines g ! i) (fold gpio_step (sent g) (gpio_reset g) ! i)) \<and>
    (gpio_enabled g e \<longrightarrow> gpio_exec g e \<noteq> None)"
proof -
  have r: "reach gpio_init gpio_enabled gpio_exec g" using assms by (simp add: gpio_reach_def)
  have rel: "gpio_rel g (fold gpio_step (sent g) (gpio_reset g))"
    using gpio.reach_inv [OF r] by (simp add: gpio.module_state_def)
  then have "length (lines g) = unat (line_max g) + 1" by (simp add: gpio_rel_def)
  then show ?thesis using gpio_rel_nth [OF rel] gpio.reach_no_fault [OF r] by auto
qed

theorem gpio_cache_agrees_witness:
  "\<exists>g. gpio_exec demo_gpio (Gpio_direction_input 1) = Some g \<and> ln_direction (lines g ! 1) \<and>
     line_agrees (lines g ! 1) (fold gpio_step (sent g) (gpio_reset g) ! 1)"
proof -
  obtain g where g: "gpio_exec demo_gpio (Gpio_direction_input 1) = Some g" "ln_direction (lines g ! 1)" "line_max g = 2"
  proof -
    have "(case gpio_exec demo_gpio (Gpio_direction_input 1) of None \<Rightarrow> False | Some g \<Rightarrow> ln_direction (lines g ! 1) \<and> line_max g = 2)"
      by code_simp
    then show ?thesis using that by (auto split: option.splits)
  qed
  have "line_max demo_gpio = 2" by code_simp
  then have "gpio_enabled demo_gpio (Gpio_direction_input 1)" by simp
  then have "gpio_reach g"
    using reach_step [OF demo_gpio_reach [unfolded gpio_reach_def] _ g(1)] by (simp add: gpio_reach_def)
  then have "line_agrees (lines g ! 1) (fold gpio_step (sent g) (gpio_reset g) ! 1)"
    using gpio_cache_agrees [of g "Irq_mask 0"] g(3) by auto
  then show ?thesis using g(1,2) by blast
qed

section \<open>Interrupt changes under the bus lock\<close>

datatype irq_change = Change_mask | Change_unmask | Change_type u32

fun irq_change_exec :: "u8 \<Rightarrow> irq_change \<Rightarrow> gb_gpio_controller \<Rightarrow> gb_gpio_controller option" where
  "irq_change_exec h Change_mask g = gb_gpio_irq_mask g h"
| "irq_change_exec h Change_unmask g = gb_gpio_irq_unmask g h"
| "irq_change_exec h (Change_type t) g = map_option snd (gb_gpio_irq_set_type g h t)"

text \<open>What the irq core does between taking and releasing the bus lock of a line.\<close>

fun irq_session :: "u8 \<Rightarrow> irq_change list \<Rightarrow> gb_gpio_controller \<Rightarrow> gb_gpio_controller option" where
  "irq_session h [] g = gb_gpio_irq_bus_sync_unlock g h"
| "irq_session h (c # cs) g = do { g1 \<leftarrow> irq_change_exec h c g; irq_session h cs g1 }"

text \<open>The last change of each kind is what the module has to hear; an invalid type is no change.\<close>

definition wanted_type :: "irq_change list \<Rightarrow> u8 option \<Rightarrow> u8 option" where
  "wanted_type = fold (\<lambda>c t. case c of Change_type ty \<Rightarrow> (case gpio_irq_type ty of None \<Rightarrow> t | Some x \<Rightarrow> Some x) | _ \<Rightarrow> t)"

definition wanted_mask :: "irq_change list \<Rightarrow> bool option \<Rightarrow> bool option" where
  "wanted_mask = fold (\<lambda>c b. case c of Change_mask \<Rightarrow> Some True | Change_unmask \<Rightarrow> Some False | _ \<Rightarrow> b)"

definition pending_type :: "gb_gpio_line \<Rightarrow> u8 option" where
  "pending_type l = (if irq_type_pending l then Some (irq_type l) else None)"

definition pending_mask :: "gb_gpio_line \<Rightarrow> bool option" where
  "pending_mask l = (if masked_pending l then Some (masked l) else None)"

definition irq_requests :: "u8 \<Rightarrow> u8 option \<Rightarrow> bool option \<Rightarrow> (u8 \<times> bytes) list" where
  "irq_requests h t b =
     (case t of None \<Rightarrow> [] | Some x \<Rightarrow> [(0x0b, [h, x])]) @
     (case b of None \<Rightarrow> [] | Some True \<Rightarrow> [(0x0c, [h])] | Some False \<Rightarrow> [(0x0d, [h])])"

lemma sync_unlock_sends:
  assumes "unat h < length (lines g)"
  shows "\<exists>g'. gb_gpio_irq_bus_sync_unlock g h = Some g' \<and>
    map (\<lambda>x. (x_type x, x_req x)) (sent g') = map (\<lambda>x. (x_type x, x_req x)) (sent g) @
      irq_requests h (pending_type (lines g ! unat h)) (pending_mask (lines g ! unat h)) \<and>
    (\<exists>l. lines g' = (lines g)[unat h := l] \<and> \<not> irq_type_pending l \<and> \<not> masked_pending l)"
proof -
  have [simp]: "\<exists>l. xs[i := y] = xs[i := l] \<and> \<not> irq_type_pending l \<and> \<not> masked_pending l"
    if "\<not> irq_type_pending y" "\<not> masked_pending y" for xs i y using that by auto
  have [simp]: "\<exists>l. xs = xs[i := l] \<and> \<not> irq_type_pending l \<and> \<not> masked_pending l"
    if "\<not> irq_type_pending (xs ! i)" "\<not> masked_pending (xs ! i)" for xs i
    using that by (intro exI [of _ "xs ! i"]) simp
  show ?thesis
    using assms
    by (simp add: gb_gpio_irq_bus_sync_unlock_def get_line_def upd_line_def gpio_irq_set_type_op_def
        gpio_irq_mask_op_def gpio_irq_unmask_op_def gb_sync_def Let_def irq_requests_def pending_type_def pending_mask_def)
qed

lemma irq_change_step:
  assumes "unat h < length (lines g)"
  shows "\<exists>g1 l. irq_change_exec h c g = Some g1 \<and> lines g1 = (lines g)[unat h := l] \<and> sent g1 = sent g \<and>
    pending_type l = wanted_type [c] (pending_type (lines g ! unat h)) \<and>
    pending_mask l = wanted_mask [c] (pending_mask (lines g ! unat h))"
proof -
  have upd: ?thesis if "irq_change_exec h c g = upd_line h f g"
    "pending_type (f (lines g ! unat h)) = wanted_type [c] (pending_type (lines g ! unat h))"
    "pending_mask (f (lines g ! unat h)) = wanted_mask [c] (pending_mask (lines g ! unat h))" for f
    using that assms by (auto simp: upd_line_def)
  note defs = pending_type_def pending_mask_def wanted_type_def wanted_mask_def
  show ?thesis
  proof (cases c)
    case (Change_type ty)
    show ?thesis
    proof (cases "gpio_irq_type ty")
      case None
      then show ?thesis
        using Change_type by (intro exI [of _ g] exI [of _ "lines g ! unat h"])
          (simp add: gb_gpio_irq_set_type_def wanted_type_def wanted_mask_def)
    next
      case (Some t)
      then show ?thesis
        using Change_type by (intro upd [of "\<lambda>l. l\<lparr>irq_type := t, irq_type_pending := True\<rparr>"])
          (simp_all add: gb_gpio_irq_set_type_def upd_line_def defs)
    qed
  next
    case Change_mask
    then show ?thesis
      by (intro upd [of "\<lambda>l. l\<lparr>masked := True, masked_pending := True\<rparr>"]) (simp_all add: gb_gpio_irq_mask_def defs)
  next
    case Change_unmask
    then show ?thesis
      by (intro upd [of "\<lambda>l. l\<lparr>masked := False, masked_pending := True\<rparr>"]) (simp_all add: gb_gpio_irq_unmask_def defs)
  qed
qed

lemma irq_session_sends:
  assumes "unat h < length (lines g)"
  shows "\<exists>g' l. irq_session h cs g = Some g' \<and>
    map (\<lambda>x. (x_type x, x_req x)) (sent g') = map (\<lambda>x. (x_type x, x_req x)) (sent g) @
      irq_requests h (wanted_type cs (pending_type (lines g ! unat h))) (wanted_mask cs (pending_mask (lines g ! unat h))) \<and>
    lines g' = (lines g)[unat h := l] \<and> \<not> irq_type_pending l \<and> \<not> masked_pending l"
  using assms
proof (induction cs arbitrary: g)
  case Nil
  then show ?case using sync_unlock_sends [of h g] by (auto simp: wanted_type_def wanted_mask_def)
next
  case (Cons c cs)
  obtain g1 l where g1: "irq_change_exec h c g = Some g1" "lines g1 = (lines g)[unat h := l]" "sent g1 = sent g"
    "pending_type l = wanted_type [c] (pending_type (lines g ! unat h))"
    "pending_mask l = wanted_mask [c] (pending_mask (lines g ! unat h))"
    using irq_change_step [OF Cons.prems] by blast
  have h: "unat h < length (lines g1)" "lines g1 ! unat h = l" using g1(2) Cons.prems by simp_all
  have w: "wanted_type (c # cs) t = wanted_type cs (wanted_type [c] t)" "wanted_mask (c # cs) b = wanted_mask cs (wanted_mask [c] b)" for t b
    by (simp_all add: wanted_type_def wanted_mask_def)
  from Cons.IH [OF h(1)] show ?case using g1 h w by auto
qed

text \<open>
  C18 Changes made under the bus lock reach the module once: whatever sequence of masking, unmasking and
  type changes the irq core makes on a line with nothing pending, releasing the lock sends the last valid type,
  if there was one, and then the last mask state, if there was one, and nothing else; afterwards nothing
  is pending and the other lines are as before.
\<close>

theorem gpio_irq_changes_coalesced:
  assumes "unat h < length (lines g)" "pending_type (lines g ! unat h) = None" "pending_mask (lines g ! unat h) = None"
  shows "\<exists>g' l. irq_session h cs g = Some g' \<and>
    map (\<lambda>x. (x_type x, x_req x)) (sent g') =
      map (\<lambda>x. (x_type x, x_req x)) (sent g) @ irq_requests h (wanted_type cs None) (wanted_mask cs None) \<and>
    lines g' = (lines g)[unat h := l] \<and> \<not> irq_type_pending l \<and> \<not> masked_pending l"
  using irq_session_sends [OF assms(1), of cs] assms(2,3) by simp

theorem gpio_irq_changes_coalesced_witness:
  "\<exists>g'. irq_session 2 [Change_mask, Change_type 1, Change_type 77, Change_type 8, Change_unmask] demo_gpio = Some g' \<and>
     map (\<lambda>x. (x_type x, x_req x)) (sent g') = [(0x02, []), (0x0b, [2, 8]), (0x0d, [2])]"
proof -
  have d: "length (lines demo_gpio) = 3" "pending_type (lines demo_gpio ! 2) = None" "pending_mask (lines demo_gpio ! 2) = None"
    "map (\<lambda>x. (x_type x, x_req x)) (sent demo_gpio) = [(0x02, [])]"
    by code_simp+
  have w: "wanted_type [Change_mask, Change_type 1, Change_type 77, Change_type 8, Change_unmask] None = Some 8"
    "wanted_mask [Change_mask, Change_type 1, Change_type 77, Change_type 8, Change_unmask] None = Some False"
    by code_simp+
  show ?thesis
    using gpio_irq_changes_coalesced [of 2 demo_gpio "[Change_mask, Change_type 1, Change_type 77, Change_type 8, Change_unmask]"] d w
    by (auto simp: irq_requests_def)
qed

end
