(* ===== verification/GB_Bus.thy ===== *)
theory GB_Bus
  imports GB_Class
begin

text \<open>
  The I2C and SPI class drivers (i2c.c, spi.c): a transfer of the kernel's bus layer, a list of messages with
  buffers, becomes one request with an array of descriptors and the outgoing data behind it; the
  response carries the incoming data, one piece behind the other. \<open>bmax\<close> is the largest message of the host
  device, \<open>mem\<close> whether there is memory for the operation.
\<close>

section \<open>I2C\<close>

text \<open>struct i2c_msg of the kernel; bit 0 of the flags marks a read.\<close>

record i2c_msg =
  im_addr :: u16
  im_flags :: u16
  im_len :: u16
  im_buf :: bytes

record gb_i2c_device = class_env +
  functionality :: u32
  timeout_msec :: u16
  retries :: u8

definition i2c_reads :: "i2c_msg \<Rightarrow> bool" where
  [gb_defs]: "i2c_reads m \<longleftrightarrow> im_flags m AND 1 \<noteq> 0"

definition gb_i2c_functionality_operation :: "gb_i2c_device \<Rightarrow> int \<times> gb_i2c_device" where
  "gb_i2c_functionality_operation d =
     (case gb_sync 0x02 [] 4 d of ((ret, resp), d1) \<Rightarrow>
        if ret \<noteq> 0 then (ret, d1)
        else (0, d1\<lparr>functionality := le32_to_cpu (resp ! 0) (resp ! 1) (resp ! 2) (resp ! 3)\<rparr>))"

definition gb_i2c_timeout_operation :: "u16 \<Rightarrow> gb_i2c_device \<Rightarrow> int \<times> gb_i2c_device" where
  "gb_i2c_timeout_operation msec d =
     (case gb_sync 0x03 (cpu_to_le16 msec) 0 d of ((ret, _), d1) \<Rightarrow>
        (ret, if ret \<noteq> 0 then d1 else d1\<lparr>timeout_msec := msec\<rparr>))"

definition gb_i2c_retries_operation :: "u8 \<Rightarrow> gb_i2c_device \<Rightarrow> int \<times> gb_i2c_device" where
  "gb_i2c_retries_operation n d =
     (case gb_sync 0x04 [n] 0 d of ((ret, _), d1) \<Rightarrow>
        (ret, if ret \<noteq> 0 then d1 else d1\<lparr>retries := n\<rparr>))"

definition gb_i2c_fill_transfer_op :: "i2c_msg \<Rightarrow> bytes" where
  "gb_i2c_fill_transfer_op m = cpu_to_le16 (im_addr m) @ cpu_to_le16 (im_flags m) @ cpu_to_le16 (im_len m)"

text \<open>The sizes of outgoing and incoming data, summed up in 32 bits.\<close>

fun i2c_sizes :: "i2c_msg list \<Rightarrow> u32 \<Rightarrow> u32 \<Rightarrow> u32 \<times> u32" where
  "i2c_sizes [] out_size in_size = (out_size, in_size)"
| "i2c_sizes (m # ms) out_size in_size =
     (if i2c_reads m then i2c_sizes ms out_size (in_size + ucast (im_len m))
      else i2c_sizes ms (out_size + ucast (im_len m)) in_size)"

text \<open>memcpy out of the buffer of each message that is written.\<close>

fun i2c_out_data :: "i2c_msg list \<Rightarrow> bytes list option" where
  "i2c_out_data [] = Some []"
| "i2c_out_data (m # ms) =
     (if i2c_reads m then i2c_out_data ms
      else do { b \<leftarrow> rd_bytes (im_buf m) 0 (unat (im_len m)); bs \<leftarrow> i2c_out_data ms; Some (b # bs) })"

text \<open>The request and the size of the response; NULL is \<open>Some None\<close>.\<close>

definition gb_i2c_operation_create :: "size_t \<Rightarrow> bool \<Rightarrow> i2c_msg list \<Rightarrow> u32 \<Rightarrow> (bytes \<times> u32) option option" where
  "gb_i2c_operation_create bmax mem msgs msg_count =
     (if 0xffff < msg_count then Some None
      else case i2c_sizes msgs 0 0 of (data_out_size, data_in_size) \<Rightarrow>
        let request_size = (2 + ucast msg_count * 6 + ucast data_out_size :: size_t) in
        case fresh_request bmax mem request_size (ucast data_in_size) of
          None \<Rightarrow> Some None
        | Some buf \<Rightarrow> do {
            buf1 \<leftarrow> wr_bytes buf 0 (cpu_to_le16 (ucast msg_count));
            (off, buf2) \<leftarrow> put_all 2 (map gb_i2c_fill_transfer_op msgs) buf1;
            if data_out_size = 0 then Some (Some (buf2, data_in_size))
            else do {
              bs \<leftarrow> i2c_out_data msgs;
              (_, buf3) \<leftarrow> put_all off bs buf2;
              Some (Some (buf3, data_in_size))
            }
          })"

text \<open>memcpy of the incoming data into the buffers of the messages that are read.\<close>

fun gb_i2c_decode_response :: "i2c_msg list \<Rightarrow> bytes \<Rightarrow> i2c_msg list option" where
  "gb_i2c_decode_response [] data = Some []"
| "gb_i2c_decode_response (m # ms) data =
     (if i2c_reads m
      then do {
        b \<leftarrow> rd_bytes data 0 (unat (im_len m));
        buf \<leftarrow> wr_bytes (im_buf m) 0 b;
        ms' \<leftarrow> gb_i2c_decode_response ms (drop (unat (im_len m)) data);
        Some (m\<lparr>im_buf := buf\<rparr> # ms')
      } else do { ms' \<leftarrow> gb_i2c_decode_response ms data; Some (m # ms') })"

text \<open>
  gb_i2c_transfer_operation; the payload of a response without data is NULL and is not decoded.
\<close>

definition gb_i2c_transfer_operation ::
    "size_t \<Rightarrow> bool \<Rightarrow> i2c_msg list \<Rightarrow> gb_i2c_device \<Rightarrow> ((int \<times> i2c_msg list) \<times> gb_i2c_device) option" where
  "gb_i2c_transfer_operation bmax mem msgs d = do {
     op \<leftarrow> gb_i2c_operation_create bmax mem msgs (of_nat (length msgs));
     (case op of None \<Rightarrow> Some ((- ENOMEM, msgs), d)
      | Some (req, in_size) \<Rightarrow>
          (case gb_sync 0x05 req (unat in_size) d of ((ret, resp), d1) \<Rightarrow>
             if ret \<noteq> 0 then Some ((ret, msgs), d1)
             else if in_size = 0 then Some ((int (length msgs), msgs), d1)
             else do {
               msgs' \<leftarrow> gb_i2c_decode_response msgs resp;
               Some ((int (length msgs), msgs'), d1)
             }))
   }"

definition gb_i2c_device_setup :: "gb_i2c_device \<Rightarrow> int \<times> gb_i2c_device" where
  "gb_i2c_device_setup d =
     (case gb_i2c_functionality_operation d of (ret, d1) \<Rightarrow>
        if ret \<noteq> 0 then (ret, d1)
        else case gb_i2c_retries_operation 3 d1 of (ret, d2) \<Rightarrow>
          if ret \<noteq> 0 then (ret, d2)
          else gb_i2c_timeout_operation 1000 d2)"

text \<open>
  gb_i2c_connection_init: the device with the timeout (in ticks of \<open>hz\<close> per second) and the
  retries of its adapter, unless it was freed.
\<close>

definition gb_i2c_connection_init :: "nat \<Rightarrow> class_env \<Rightarrow> int \<times> (gb_i2c_device \<times> nat \<times> nat) option" where
  "gb_i2c_connection_init hz e =
     (case kcall e of (ok, e1) \<Rightarrow>
        if ok < 0 then (- ENOMEM, None)
        else case gb_i2c_device_setup \<lparr>replies = replies e1, ncalls = ncalls e1, sent = sent e1,
                functionality = 0, timeout_msec = 0, retries = 0\<rparr> of (ret, d) \<Rightarrow>
          if ret \<noteq> 0 then (ret, None)
          else case kcall d of (ret, d1) \<Rightarrow>
            if ret \<noteq> 0 then (ret, None)
            else (0, Some (d1, unat (timeout_msec d1) * hz div 1000, unat (retries d1))))"

section \<open>SPI\<close>

record spi_transfer =
  speed_hz :: u32
  xf_len :: u32
  delay_usecs :: u16
  cs_change :: u8
  bits_per_word :: u8
  tx_buf :: "bytes option"
  rx_buf :: "bytes option"

record spi_message =
  transfers :: "spi_transfer list"
  spi_chip_select :: u8
  spi_mode :: u8
  actual_length :: u32
  msg_status :: int

record gb_spi = class_env +
  ctl_mode :: u16
  ctl_flags :: u16
  bits_per_word_mask :: u32
  num_chipselect :: u16
  finalized :: "spi_message list"

text \<open>
  The loop that counts the transfers and sums up the sizes, in 32 bits; \<open>None\<close> when a transfer has no buffer.
\<close>

fun spi_sizes :: "spi_transfer list \<Rightarrow> u32 \<Rightarrow> u32 \<Rightarrow> u32 \<Rightarrow> u32 \<Rightarrow> (u32 \<times> u32 \<times> u32 \<times> u32) option" where
  "spi_sizes [] tx rx total_len count = Some (tx, rx, total_len, count)"
| "spi_sizes (x # xs) tx rx total_len count =
     (if tx_buf x = None \<and> rx_buf x = None then None
      else spi_sizes xs (if tx_buf x \<noteq> None then tx + xf_len x else tx)
             (if rx_buf x \<noteq> None then rx + xf_len x else rx) (total_len + xf_len x) (count + 1))"

definition spi_xfer_bytes :: "spi_transfer \<Rightarrow> bytes" where
  "spi_xfer_bytes x = cpu_to_le32 (speed_hz x) @ cpu_to_le32 (xf_len x) @ cpu_to_le16 (delay_usecs x) @
     [cs_change x, bits_per_word x]"

text \<open>The loop that writes the descriptors and copies the outgoing data behind the last of them.\<close>

fun spi_fill :: "spi_transfer list \<Rightarrow> nat \<Rightarrow> nat \<Rightarrow> bytes \<Rightarrow> bytes option" where
  "spi_fill [] xoff toff buf = Some buf"
| "spi_fill (x # xs) xoff toff buf = do {
     buf1 \<leftarrow> wr_bytes buf xoff (spi_xfer_bytes x);
     (case tx_buf x of
        None \<Rightarrow> spi_fill xs (xoff + 12) toff buf1
      | Some tx \<Rightarrow> do {
          b \<leftarrow> rd_bytes tx 0 (unat (xf_len x));
          buf2 \<leftarrow> wr_bytes buf1 toff b;
          spi_fill xs (xoff + 12) (toff + unat (xf_len x)) buf2
        })
   }"

text \<open>The request, the size of the response and the total length; NULL is \<open>Some None\<close>.\<close>

definition gb_spi_operation_create :: "size_t \<Rightarrow> bool \<Rightarrow> spi_message \<Rightarrow> (bytes \<times> u32 \<times> u32) option option" where
  "gb_spi_operation_create bmax mem msg =
     (case spi_sizes (transfers msg) 0 0 0 0 of
        None \<Rightarrow> Some None
      | Some (tx_size, rx_size, total_len, count) \<Rightarrow>
          if 0xffff < count then Some None
          else
            let request_size = 4 + count * 12 + tx_size in
            case fresh_request bmax mem (ucast request_size) (ucast rx_size) of
              None \<Rightarrow> Some None
            | Some buf \<Rightarrow> do {
                buf1 \<leftarrow> wr_bytes buf 0 ([spi_chip_select msg, spi_mode msg] @ cpu_to_le16 (ucast count));
                buf2 \<leftarrow> spi_fill (transfers msg) 4 (4 + 12 * unat count) buf1;
                Some (Some (buf2, rx_size, total_len))
              })"

fun gb_spi_decode_response :: "spi_transfer list \<Rightarrow> bytes \<Rightarrow> spi_transfer list option" where
  "gb_spi_decode_response [] data = Some []"
| "gb_spi_decode_response (x # xs) data =
     (case rx_buf x of
        None \<Rightarrow> do { xs' \<leftarrow> gb_spi_decode_response xs data; Some (x # xs') }
      | Some rx \<Rightarrow> do {
          b \<leftarrow> rd_bytes data 0 (unat (xf_len x));
          rx' \<leftarrow> wr_bytes rx 0 b;
          xs' \<leftarrow> gb_spi_decode_response xs (drop (unat (xf_len x)) data);
          Some (x\<lparr>rx_buf := Some rx'\<rparr> # xs')
        })"

text \<open>
  gb_spi_transfer_one_message: the message is given back to the SPI core by spi_finalize_current_message,
  recorded in \<open>finalized\<close>.
\<close>

definition gb_spi_transfer_one_message ::
    "size_t \<Rightarrow> bool \<Rightarrow> spi_message \<Rightarrow> gb_spi \<Rightarrow> ((int \<times> spi_message) \<times> gb_spi) option" where
  "gb_spi_transfer_one_message bmax mem msg s = do {
     op \<leftarrow> gb_spi_operation_create bmax mem msg;
     (case op of None \<Rightarrow> Some ((- ENOMEM, msg), s)
      | Some (req, rx_size, len) \<Rightarrow>
          (case gb_sync 0x06 req (unat rx_size) s of ((ret, resp), s1) \<Rightarrow> do {
             xs \<leftarrow> (if ret = 0 \<and> rx_size \<noteq> 0 then gb_spi_decode_response (transfers msg) resp
                   else Some (transfers msg));
             let msg' = msg\<lparr>transfers := xs, actual_length := len, msg_status := 0\<rparr>;
             Some ((ret, msg'), s1\<lparr>finalized := finalized s1 @ [msg']\<rparr>)
           }))
   }"

definition gb_spi_mode_operation :: "gb_spi \<Rightarrow> int \<times> gb_spi" where
  "gb_spi_mode_operation s =
     (case gb_sync 0x02 [] 2 s of ((ret, resp), s1) \<Rightarrow>
        if ret \<noteq> 0 then (ret, s1) else (0, s1\<lparr>ctl_mode := le16_to_cpu (resp ! 0) (resp ! 1)\<rparr>))"

definition gb_spi_flags_operation :: "gb_spi \<Rightarrow> int \<times> gb_spi" where
  "gb_spi_flags_operation s =
     (case gb_sync 0x03 [] 2 s of ((ret, resp), s1) \<Rightarrow>
        if ret \<noteq> 0 then (ret, s1) else (0, s1\<lparr>ctl_flags := le16_to_cpu (resp ! 0) (resp ! 1)\<rparr>))"

definition gb_spi_bpw_operation :: "gb_spi \<Rightarrow> int \<times> gb_spi" where
  "gb_spi_bpw_operation s =
     (case gb_sync 0x04 [] 4 s of ((ret, resp), s1) \<Rightarrow>
        if ret \<noteq> 0 then (ret, s1)
        else (0, s1\<lparr>bits_per_word_mask := le32_to_cpu (resp ! 0) (resp ! 1) (resp ! 2) (resp ! 3)\<rparr>))"

definition gb_spi_chipselect_operation :: "gb_spi \<Rightarrow> int \<times> gb_spi" where
  "gb_spi_chipselect_operation s =
     (case gb_sync 0x05 [] 2 s of ((ret, resp), s1) \<Rightarrow>
        if ret \<noteq> 0 then (ret, s1) else (0, s1\<lparr>num_chipselect := le16_to_cpu (resp ! 0) (resp ! 1)\<rparr>))"

definition gb_spi_init :: "gb_spi \<Rightarrow> int \<times> gb_spi" where
  "gb_spi_init s =
     (case gb_spi_mode_operation s of (ret, s1) \<Rightarrow>
        if ret \<noteq> 0 then (ret, s1)
        else case gb_spi_flags_operation s1 of (ret, s2) \<Rightarrow>
          if ret \<noteq> 0 then (ret, s2)
          else case gb_spi_chipselect_operation s2 of (ret, s3) \<Rightarrow>
            if ret \<noteq> 0 then (ret, s3)
            else gb_spi_bpw_operation s3)"

text \<open>gb_spi_connection_init: the master, unless it was given back.\<close>

definition gb_spi_connection_init :: "class_env \<Rightarrow> int \<times> gb_spi option" where
  "gb_spi_connection_init e =
     (case kcall e of (ok, e1) \<Rightarrow>
        if ok < 0 then (- ENOMEM, None)
        else case gb_spi_init \<lparr>replies = replies e1, ncalls = ncalls e1, sent = sent e1, ctl_mode = 0, ctl_flags = 0,
                bits_per_word_mask = 0, num_chipselect = 0, finalized = []\<rparr> of (ret, s) \<Rightarrow>
          if ret \<noteq> 0 then (ret, None)
          else case kcall s of (ret, s1) \<Rightarrow> if ret \<noteq> 0 then (ret, None) else (0, Some s1))"

end
