(* ===== verification/GB_Bus_Props.thy ===== *)
theory GB_Bus_Props
  imports GB_Bus
begin

text \<open>
  What i2c.c and spi.c promise: the request is exactly the encoding of the kernel's messages, which the
  module can decode again, and each message that reads gets its own part of the response.
\<close>

section \<open>I2C transfers\<close>

text \<open>A message whose buffer has the length it claims.\<close>

definition i2c_wf :: "i2c_msg \<Rightarrow> bool" where
  "i2c_wf m \<longleftrightarrow> length (im_buf m) = unat (im_len m)"

definition i2c_out :: "i2c_msg list \<Rightarrow> bytes" where
  "i2c_out msgs = concat (map im_buf (filter (\<lambda>m. \<not> i2c_reads m) msgs))"

definition i2c_in :: "i2c_msg list \<Rightarrow> bytes" where
  "i2c_in msgs = concat (map im_buf (filter i2c_reads msgs))"

text \<open>The descriptor of a message, as the protocol lays it out, and how a module reads a transfer request.\<close>

definition i2c_op_bytes :: "u16 \<times> u16 \<times> u16 \<Rightarrow> bytes" where
  "i2c_op_bytes = (\<lambda>(a, f, s). cpu_to_le16 a @ cpu_to_le16 f @ cpu_to_le16 s)"

definition i2c_op_of :: "bytes \<Rightarrow> (u16 \<times> u16 \<times> u16) option" where
  "i2c_op_of b = (if length b < 6 then None
     else Some (le16_to_cpu (b ! 0) (b ! 1), le16_to_cpu (b ! 2) (b ! 3), le16_to_cpu (b ! 4) (b ! 5)))"

interpretation i2c_op: wire_format 6 i2c_op_bytes i2c_op_of
  by unfold_locales (auto simp: i2c_op_bytes_def i2c_op_of_def cpu_to_le16_def nth_append)

definition i2c_parse :: "bytes \<Rightarrow> ((u16 \<times> u16 \<times> u16) list \<times> bytes) option" where
  "i2c_parse b = (if length b < 2 then None
     else i2c_op.dec_many (unat (le16_to_cpu (b ! 0) (b ! 1))) (drop 2 b))"

definition i2c_desc :: "i2c_msg \<Rightarrow> u16 \<times> u16 \<times> u16" where
  "i2c_desc m = (im_addr m, im_flags m, im_len m)"

definition i2c_encode :: "i2c_msg list \<Rightarrow> bytes" where
  "i2c_encode msgs = cpu_to_le16 (of_nat (length msgs)) @ concat (map (i2c_op_bytes \<circ> i2c_desc) msgs) @ i2c_out msgs"

lemma fill_is_op_bytes: "gb_i2c_fill_transfer_op = i2c_op_bytes \<circ> i2c_desc"
  by (rule ext) (simp add: gb_i2c_fill_transfer_op_def i2c_op_bytes_def i2c_desc_def)

lemma le16_of_bytes: "le16_to_cpu (cpu_to_le16 w ! 0) (cpu_to_le16 w ! Suc 0) = w"
  by (simp add: cpu_to_le16_def)

lemma i2c_parse_encode:
  assumes "length msgs \<le> 65535"
  shows "i2c_parse (i2c_encode msgs) = Some (map i2c_desc msgs, i2c_out msgs)"
proof -
  have "unat (of_nat (length msgs) :: u16) = length msgs"
    using assms by (simp add: unsigned_of_nat take_bit_nat_eq_self)
  then show ?thesis
    using i2c_op.dec_many_enc [of "map i2c_desc msgs" "i2c_out msgs"]
    by (simp add: i2c_parse_def i2c_encode_def le16_of_bytes nth_append)
qed

lemma i2c_sizes_sum:
  "list_all i2c_wf msgs \<Longrightarrow>
   i2c_sizes msgs a b = (a + of_nat (length (i2c_out msgs)), b + of_nat (length (i2c_in msgs)))"
proof (induction msgs arbitrary: a b)
  case (Cons m ms)
  have "(of_nat (unat (im_len m)) :: u32) = ucast (im_len m)" by simp
  then show ?case using Cons by (simp add: i2c_wf_def i2c_out_def i2c_in_def ac_simps)
qed (simp add: i2c_out_def i2c_in_def)

lemma length_concat_le: "(\<And>x. x \<in> set xs \<Longrightarrow> length x \<le> k) \<Longrightarrow> length (concat xs) \<le> k * length xs"
  by (induction xs) force+

lemma i2c_bounds:
  assumes "list_all i2c_wf msgs" "length msgs \<le> 65535"
  shows "length (i2c_out msgs) < 4294967296" "length (i2c_in msgs) < 4294967296"
proof -
  have l: "length (im_buf m) \<le> 65535" if "m \<in> set msgs" for m
    using unat_le16_bound [of "im_len m"] assms(1) that by (simp add: i2c_wf_def list_all_iff)
  have "length (concat (map im_buf (filter P msgs))) \<le> 65535 * 65535" for P
  proof -
    have "length (concat (map im_buf (filter P msgs))) \<le> 65535 * length (map im_buf (filter P msgs))"
      by (rule length_concat_le) (use l in auto)
    also have "\<dots> \<le> 65535 * length msgs" by simp
    also have "\<dots> \<le> 65535 * 65535" using assms(2) by simp
    finally show ?thesis .
  qed
  from this [of "\<lambda>m. \<not> i2c_reads m"] this [of i2c_reads]
  show "length (i2c_out msgs) < 4294967296" "length (i2c_in msgs) < 4294967296"
    by (simp_all add: i2c_out_def i2c_in_def)
qed

lemma i2c_out_data_wf:
  "list_all i2c_wf msgs \<Longrightarrow> i2c_out_data msgs = Some (map im_buf (filter (\<lambda>m. \<not> i2c_reads m) msgs))"
  by (induction msgs) (auto simp: i2c_wf_def rd_bytes_def)

lemma i2c_request_size:
  assumes "length msgs \<le> 65535" "n < 4294967296"
  shows "(2 + ucast (of_nat (length msgs) :: u32) * 6 + ucast (of_nat n :: u32) :: size_t) = of_nat (2 + 6 * length msgs + n)"
  using assms by (simp add: ucast_of_nat_u32)

lemma wr_bytes_front: "length b \<le> length X \<Longrightarrow> wr_bytes (P @ X) (length P) b = Some (P @ b @ drop (length b) X)"
  by (simp add: wr_bytes_def)

lemma gb_i2c_operation_create_exact:
  assumes wf: "list_all i2c_wf msgs" and n: "length msgs \<le> 65535"
    and fits: "10 + 6 * length msgs + length (i2c_out msgs) \<le> unat bmax" "8 + length (i2c_in msgs) \<le> unat bmax"
  shows "gb_i2c_operation_create bmax True msgs (of_nat (length msgs)) =
    Some (Some (i2c_encode msgs, of_nat (length (i2c_in msgs))))"
proof -
  let ?ops = "map gb_i2c_fill_transfer_op msgs"
  let ?outs = "map im_buf (filter (\<lambda>m. \<not> i2c_reads m) msgs)"
  let ?sz = "2 + 6 * length msgs + length (i2c_out msgs)"
  have ops: "concat ?ops = concat (map i2c_op_bytes (map i2c_desc msgs))" by (simp add: fill_is_op_bytes)
  have lops: "length (concat ?ops) = 6 * length msgs" unfolding ops i2c_op.length_enc_many by simp
  have outs: "concat ?outs = i2c_out msgs" by (simp add: i2c_out_def)
  have cnt: "\<not> 0xffff < (of_nat (length msgs) :: u32)" using n by (simp add: word_less_nat_alt unat_of_nat_u32)
  have fr: "fresh_request bmax True (of_nat ?sz) (of_nat (length (i2c_in msgs))) = Some (replicate ?sz 0)"
    using fits n i2c_bounds [OF wf n] by (intro fresh_request_fits) simp_all
  let ?h = "cpu_to_le16 (ucast (of_nat (length msgs) :: u32))"
  let ?b1 = "?h @ replicate (6 * length msgs + length (i2c_out msgs)) 0"
  have h: "?h = cpu_to_le16 (of_nat (length msgs))"
    by (simp add: ucast_of_nat_u16 [OF n])
  have b1: "wr_bytes (replicate ?sz 0) 0 ?h = Some ?b1" by (simp add: wr_bytes_def)
  have b2: "put_all 2 ?ops ?b1 = Some (2 + 6 * length msgs, ?h @ concat ?ops @ replicate (length (i2c_out msgs)) 0)"
    using put_all_fits [of 2 ?ops ?b1] lops by simp
  have b3: "put_all (2 + 6 * length msgs) ?outs (?h @ concat ?ops @ replicate (length (i2c_out msgs)) 0) =
      Some (?sz, ?h @ concat ?ops @ i2c_out msgs)"
    using put_all_fits [of "2 + 6 * length msgs" ?outs "?h @ concat ?ops @ replicate (length (i2c_out msgs)) 0"] lops outs by simp
  have z: "i2c_out msgs = []" if "(of_nat (length (i2c_out msgs)) :: u32) = 0"
    using that unat_of_nat_u32 [OF i2c_bounds(1) [OF wf n]] by simp
  have sz: "(2 + ucast (of_nat (length msgs) :: u32) * 6 + ucast (of_nat (length (i2c_out msgs)) :: u32) :: size_t) = of_nat ?sz"
    by (rule i2c_request_size [OF n i2c_bounds(1) [OF wf n]])
  have enc: "i2c_encode msgs = ?h @ concat ?ops @ i2c_out msgs" by (simp add: i2c_encode_def h fill_is_op_bytes)
  show ?thesis
    unfolding gb_i2c_operation_create_def enc Let_def i2c_sizes_sum [OF wf]
    by (simp only: cnt if_False prod.case add_0 sz ucast_of_nat_u32 [OF i2c_bounds(2) [OF wf n]] fr option.case b1
        bind.bind_lunit b2 b3 i2c_out_data_wf [OF wf]) (auto dest: z)
qed

lemma i2c_set_buf [simp]:
  "i2c_desc (m\<lparr>im_buf := b\<rparr>) = i2c_desc m" "i2c_reads (m\<lparr>im_buf := b\<rparr>) = i2c_reads m"
  "i2c_wf (m\<lparr>im_buf := b\<rparr>) = (length b = unat (im_len m))"
  by (simp_all add: i2c_desc_def i2c_reads_def i2c_wf_def)

lemma gb_i2c_decode_exact:
  assumes "list_all i2c_wf msgs" "length data = length (i2c_in msgs)"
  shows "\<exists>msgs'. gb_i2c_decode_response msgs data = Some msgs' \<and> i2c_in msgs' = data \<and>
    map i2c_desc msgs' = map i2c_desc msgs \<and> i2c_out msgs' = i2c_out msgs \<and> list_all i2c_wf msgs'"
  using assms
proof (induction msgs arbitrary: data)
  case (Cons m ms)
  show ?case
  proof (cases "i2c_reads m")
    case True
    let ?n = "unat (im_len m)"
    have len: "length (im_buf m) = ?n" "length data = ?n + length (i2c_in ms)"
      using Cons.prems True by (simp_all add: i2c_wf_def i2c_in_def)
    obtain ms' where ms': "gb_i2c_decode_response ms (drop ?n data) = Some ms'" "i2c_in ms' = drop ?n data"
      "map i2c_desc ms' = map i2c_desc ms" "i2c_out ms' = i2c_out ms" "list_all i2c_wf ms'"
      using Cons.IH [of "drop ?n data"] Cons.prems(1) len(2) by auto
    then show ?thesis
      using True len by (auto simp: rd_bytes_def wr_bytes_def i2c_in_def i2c_out_def)
  next
    case False
    then show ?thesis using Cons by (fastforce simp: i2c_in_def i2c_out_def)
  qed
qed (simp add: i2c_in_def)

text \<open>
  C19 An I2C transfer is carried out as asked: for messages whose buffers have the length they claim and
  that fit into one message of the host device, the request that goes out is the one a module decodes to
  exactly the descriptors of the messages and the concatenation of the data to write; when the
  module accepts it, the call returns the number of messages and the buffers of the messages that read hold
  the response, in order and completely; otherwise the error is returned and no buffer has changed.
\<close>

theorem i2c_transfer_exact:
  assumes "list_all i2c_wf msgs" "length msgs \<le> 65535"
    and "10 + 6 * length msgs + length (i2c_out msgs) \<le> unat bmax" "8 + length (i2c_in msgs) \<le> unat bmax"
  shows "\<exists>req ret resp msgs' d'.
    gb_i2c_transfer_operation bmax True msgs d = Some ((if ret = 0 then int (length msgs) else ret, msgs'), d') \<and>
    sent d' = sent d @ [\<lparr>x_type = 0x05, x_req = req, x_ret = ret, x_resp = resp\<rparr>] \<and>
    i2c_parse req = Some (map i2c_desc msgs, i2c_out msgs) \<and>
    map i2c_desc msgs' = map i2c_desc msgs \<and> i2c_out msgs' = i2c_out msgs \<and>
    (if ret = 0 then i2c_in msgs' = resp \<and> list_all i2c_wf msgs' else msgs' = msgs)"
proof -
  let ?n = "length (i2c_in msgs)"
  have create: "gb_i2c_operation_create bmax True msgs (of_nat (length msgs)) = Some (Some (i2c_encode msgs, of_nat ?n))"
    by (rule gb_i2c_operation_create_exact [OF assms])
  have n: "unat (of_nat ?n :: u32) = ?n" by (rule unat_of_nat_u32 [OF i2c_bounds(2) [OF assms(1,2)]])
  obtain ret resp d' where s: "gb_sync 0x05 (i2c_encode msgs) ?n d = ((ret, resp), d')"
    "d' = d\<lparr>ncalls := ncalls d + 1, sent := sent d @ [\<lparr>x_type = 0x05, x_req = i2c_encode msgs, x_ret = ret, x_resp = resp\<rparr>]\<rparr>"
    "length resp = ?n"
    by (rule gb_sync_cases)
  obtain dm where dm: "gb_i2c_decode_response msgs resp = Some dm" "i2c_in dm = resp"
    "map i2c_desc dm = map i2c_desc msgs" "i2c_out dm = i2c_out msgs" "list_all i2c_wf dm"
    using gb_i2c_decode_exact [OF assms(1) s(3)] by blast
  let ?m = "if ret \<noteq> 0 \<or> ?n = 0 then msgs else dm"
  have z: "((of_nat ?n :: u32) = 0) = (?n = 0)" using n by (metis unat_eq_zero)
  have "gb_i2c_transfer_operation bmax True msgs d = Some ((if ret = 0 then int (length msgs) else ret, ?m), d')"
    using create n s(1) dm(1) z by (simp add: gb_i2c_transfer_operation_def)
  moreover have "i2c_in msgs = resp" if "?n = 0" using that s(3) by simp
  ultimately show ?thesis
    using s(2) dm(2-) i2c_parse_encode [OF assms(2)] assms(1)
    by (intro exI [of _ "i2c_encode msgs"] exI [of _ ret] exI [of _ resp] exI [of _ ?m] exI [of _ d']) auto
qed

definition demo_i2c :: gb_i2c_device where
  "demo_i2c = \<lparr>replies = (\<lambda>_. (0, [7, 8, 9])), ncalls = 0, sent = [], functionality = 0, timeout_msec = 1000, retries = 3\<rparr>"

definition demo_i2c_msgs :: "i2c_msg list" where
  "demo_i2c_msgs = [\<lparr>im_addr = 0x50, im_flags = 0, im_len = 2, im_buf = [1, 2]\<rparr>,
     \<lparr>im_addr = 0x50, im_flags = 1, im_len = 3, im_buf = [0, 0, 0]\<rparr>]"

theorem i2c_transfer_exact_witness:
  "\<exists>req ret resp msgs' d'.
    gb_i2c_transfer_operation 2048 True demo_i2c_msgs demo_i2c = Some ((if ret = 0 then 2 else ret, msgs'), d') \<and>
    sent d' = [\<lparr>x_type = 0x05, x_req = req, x_ret = ret, x_resp = resp\<rparr>] \<and>
    i2c_parse req = Some ([(0x50, 0, 2), (0x50, 1, 3)], [1, 2]) \<and> (ret = 0 \<longrightarrow> i2c_in msgs' = resp)"
proof -
  have f: "list_all i2c_wf demo_i2c_msgs" "length demo_i2c_msgs = 2" "i2c_out demo_i2c_msgs = [1, 2]" "length (i2c_in demo_i2c_msgs) = 3"
    "map i2c_desc demo_i2c_msgs = [(0x50, 0, 2), (0x50, 1, 3)]" "sent demo_i2c = []"
    by (simp_all add: demo_i2c_msgs_def i2c_wf_def i2c_out_def i2c_in_def i2c_reads_def i2c_desc_def demo_i2c_def)
  obtain req ret resp msgs' d' where "gb_i2c_transfer_operation 2048 True demo_i2c_msgs demo_i2c =
      Some ((if ret = 0 then int (length demo_i2c_msgs) else ret, msgs'), d')"
    "sent d' = sent demo_i2c @ [\<lparr>x_type = 0x05, x_req = req, x_ret = ret, x_resp = resp\<rparr>]"
    "i2c_parse req = Some (map i2c_desc demo_i2c_msgs, i2c_out demo_i2c_msgs)"
    "if ret = 0 then i2c_in msgs' = resp \<and> list_all i2c_wf msgs' else msgs' = demo_i2c_msgs"
    using i2c_transfer_exact [of demo_i2c_msgs 2048 demo_i2c] f by auto
  then show ?thesis unfolding f by (intro exI [of _ req] exI [of _ ret] exI [of _ resp] exI [of _ msgs'] exI [of _ d']) auto
qed

section \<open>SPI transfers\<close>

definition buf_bytes :: "bytes option \<Rightarrow> bytes" where
  "buf_bytes b = (case b of None \<Rightarrow> [] | Some d \<Rightarrow> d)"

text \<open>A transfer with at least one buffer, each of the length it claims.\<close>

definition spi_wf :: "spi_transfer \<Rightarrow> bool" where
  "spi_wf x \<longleftrightarrow> (tx_buf x \<noteq> None \<or> rx_buf x \<noteq> None) \<and>
     (tx_buf x \<noteq> None \<longrightarrow> length (buf_bytes (tx_buf x)) = unat (xf_len x)) \<and>
     (rx_buf x \<noteq> None \<longrightarrow> length (buf_bytes (rx_buf x)) = unat (xf_len x))"

definition spi_out :: "spi_transfer list \<Rightarrow> bytes" where
  "spi_out xs = concat (map (buf_bytes \<circ> tx_buf) xs)"

definition spi_in :: "spi_transfer list \<Rightarrow> bytes" where
  "spi_in xs = concat (map (buf_bytes \<circ> rx_buf) xs)"

text \<open>struct gb_spi_transfer, and how a module reads a transfer request.\<close>

definition spi_desc_bytes :: "u32 \<times> u32 \<times> u16 \<times> u8 \<times> u8 \<Rightarrow> bytes" where
  "spi_desc_bytes = (\<lambda>(sp, l, d, c, b). cpu_to_le32 sp @ cpu_to_le32 l @ cpu_to_le16 d @ [c, b])"

definition spi_desc_of :: "bytes \<Rightarrow> (u32 \<times> u32 \<times> u16 \<times> u8 \<times> u8) option" where
  "spi_desc_of q = (if length q < 12 then None
     else Some (le32_to_cpu (q ! 0) (q ! 1) (q ! 2) (q ! 3), le32_to_cpu (q ! 4) (q ! 5) (q ! 6) (q ! 7),
       le16_to_cpu (q ! 8) (q ! 9), q ! 10, q ! 11))"

interpretation spi_desc: wire_format 12 spi_desc_bytes spi_desc_of
  by unfold_locales (auto simp: spi_desc_bytes_def spi_desc_of_def cpu_to_le16_def cpu_to_le32_def nth_append)

definition spi_desc :: "spi_transfer \<Rightarrow> u32 \<times> u32 \<times> u16 \<times> u8 \<times> u8" where
  "spi_desc x = (speed_hz x, xf_len x, delay_usecs x, cs_change x, bits_per_word x)"

definition spi_parse :: "bytes \<Rightarrow> (u8 \<times> u8 \<times> (u32 \<times> u32 \<times> u16 \<times> u8 \<times> u8) list \<times> bytes) option" where
  "spi_parse q = (if length q < 4 then None
     else do { (ds, rest) \<leftarrow> spi_desc.dec_many (unat (le16_to_cpu (q ! 2) (q ! 3))) (drop 4 q); Some (q ! 0, q ! 1, ds, rest) })"

definition spi_encode :: "spi_message \<Rightarrow> bytes" where
  "spi_encode msg = [spi_chip_select msg, spi_mode msg] @ cpu_to_le16 (of_nat (length (transfers msg))) @
     concat (map (spi_desc_bytes \<circ> spi_desc) (transfers msg)) @ spi_out (transfers msg)"

lemma spi_xfer_bytes_desc: "spi_xfer_bytes = spi_desc_bytes \<circ> spi_desc"
  by (rule ext) (simp add: spi_xfer_bytes_def spi_desc_bytes_def spi_desc_def)

lemma length_spi_xfer_bytes [simp]: "length (spi_xfer_bytes x) = 12"
  by (simp add: spi_xfer_bytes_def)

lemma spi_parse_encode:
  assumes "length (transfers msg) \<le> 65535"
  shows "spi_parse (spi_encode msg) =
    Some (spi_chip_select msg, spi_mode msg, map spi_desc (transfers msg), spi_out (transfers msg))"
proof -
  have "unat (of_nat (length (transfers msg)) :: u16) = length (transfers msg)"
    using assms by (simp add: unsigned_of_nat take_bit_nat_eq_self)
  then show ?thesis
    using spi_desc.dec_many_enc [of "map spi_desc (transfers msg)" "spi_out (transfers msg)"]
    by (simp add: spi_parse_def spi_encode_def cpu_to_le16_def)
qed

lemma spi_sizes_sum:
  "list_all spi_wf xs \<Longrightarrow> spi_sizes xs t r l c =
     Some (t + of_nat (length (spi_out xs)), r + of_nat (length (spi_in xs)), l + of_nat (sum_list (map (unat \<circ> xf_len) xs)),
       c + of_nat (length xs))"
proof (induction xs arbitrary: t r l c)
  case (Cons x xs)
  then show ?case by (auto simp: spi_wf_def spi_out_def spi_in_def buf_bytes_def ac_simps)
qed (simp add: spi_out_def spi_in_def)

text \<open>The descriptors grow towards the data, the data behind them; together they fill the request.\<close>

lemma spi_fill_exact:
  assumes "list_all spi_wf xs" "length D = 12 * length xs" "length (spi_out xs) = length T"
  shows "spi_fill xs (length P) (length P + length D + length Q) (P @ D @ Q @ T) =
    Some (P @ concat (map spi_xfer_bytes xs) @ Q @ spi_out xs)"
  using assms
proof (induction xs arbitrary: P D Q T)
  case (Cons x xs)
  have D: "length D = 12 + 12 * length xs" using Cons.prems(2) by simp
  let ?D = "drop 12 D" and ?n = "unat (xf_len x)"
  have wr: "wr_bytes (P @ D @ Q @ T) (length P) (spi_xfer_bytes x) = Some ((P @ spi_xfer_bytes x) @ ?D @ Q @ T)"
    using wr_bytes_front [of "spi_xfer_bytes x" "D @ Q @ T" P] D by simp
  show ?case
  proof (cases "tx_buf x")
    case None
    then have T: "length (spi_out xs) = length T" "spi_out (x # xs) = spi_out xs"
      using Cons.prems(3) by (simp_all add: spi_out_def buf_bytes_def)
    then show ?thesis
      using Cons.IH [of ?D T "P @ spi_xfer_bytes x" Q] Cons.prems(1) D wr None by (simp add: ac_simps)
  next
    case (Some tx)
    have l: "length tx = ?n" using Some Cons.prems(1) by (simp add: spi_wf_def buf_bytes_def)
    have T: "length T = ?n + length (spi_out xs)" "spi_out (x # xs) = tx @ spi_out xs"
      using Cons.prems(3) Some l by (simp_all add: spi_out_def buf_bytes_def)
    have wt: "wr_bytes ((P @ spi_xfer_bytes x) @ ?D @ Q @ T) (length P + length D + length Q) tx =
        Some ((P @ spi_xfer_bytes x) @ ?D @ (Q @ tx) @ drop ?n T)"
      using wr_bytes_front [of tx T "(P @ spi_xfer_bytes x) @ ?D @ Q"] T(1) l D by (simp add: ac_simps)
    have r: "rd_bytes tx 0 ?n = Some tx" using l by (simp add: rd_bytes_def)
    have "spi_fill xs (length P + 12) (length P + length D + length Q + ?n) ((P @ spi_xfer_bytes x) @ ?D @ (Q @ tx) @ drop ?n T) =
        Some ((P @ spi_xfer_bytes x) @ concat (map spi_xfer_bytes xs) @ (Q @ tx) @ spi_out xs)"
      using Cons.IH [of ?D "drop ?n T" "P @ spi_xfer_bytes x" "Q @ tx"] Cons.prems(1) D T l by (simp add: ac_simps)
    then show ?thesis using wr wt r Some T(2) by simp
  qed
qed (simp add: spi_out_def)

lemma spi_fill_bound:
  assumes "spi_fill xs xoff toff buf = Some buf'" "list_all spi_wf xs" "spi_out xs \<noteq> []"
  shows "toff + length (spi_out xs) \<le> length buf"
  using assms
proof (induction xs arbitrary: xoff toff buf)
  case (Cons x xs)
  obtain b1 where b1: "wr_bytes buf xoff (spi_xfer_bytes x) = Some b1" "length b1 = length buf"
    using Cons.prems(1) wr_bytes_length by (cases "wr_bytes buf xoff (spi_xfer_bytes x)") auto
  show ?case
  proof (cases "tx_buf x")
    case None
    then have "spi_out (x # xs) = spi_out xs" by (simp add: spi_out_def buf_bytes_def)
    then show ?thesis using Cons.IH [of "xoff + 12" toff b1] Cons.prems None b1 by simp
  next
    case (Some tx)
    have l: "length tx = unat (xf_len x)" using Some Cons.prems(2) by (simp add: spi_wf_def buf_bytes_def)
    have o: "spi_out (x # xs) = tx @ spi_out xs" using Some by (simp add: spi_out_def buf_bytes_def)
    obtain b2 where b2: "wr_bytes b1 toff tx = Some b2" "spi_fill xs (xoff + 12) (toff + length tx) b2 = Some buf'"
      using Cons.prems(1) Some b1(1) l by (cases "wr_bytes b1 toff tx") (auto simp: rd_bytes_def)
    then have "length b2 = length b1" "toff + length tx \<le> length b1" by (auto simp: wr_bytes_def split: if_splits)
    then show ?thesis
      using Cons.IH [OF b2(2)] Cons.prems(2) b1(2) o by (cases "spi_out xs = []") simp_all
  qed
qed (simp add: spi_out_def)

lemma u32_of_sizes:
  assumes "n \<le> 65535" "4 + 12 * n + t < 4294967296"
  shows "(ucast (4 + of_nat n * 12 + of_nat t :: u32) :: size_t) = of_nat (4 + 12 * n + t)" "unat (of_nat n :: u32) = n"
proof -
  have "(4 + of_nat n * 12 + of_nat t :: u32) = of_nat (4 + 12 * n + t)" by simp
  then show "(ucast (4 + of_nat n * 12 + of_nat t :: u32) :: size_t) = of_nat (4 + 12 * n + t)"
    by (simp only: ucast_of_nat_u32 [OF assms(2)])
  show "unat (of_nat n :: u32) = n" using assms(1) by (simp add: unat_of_nat_u32)
qed

lemma gb_spi_operation_create_exact:
  assumes wf: "list_all spi_wf (transfers msg)" and n: "length (transfers msg) \<le> 65535"
    and sz: "4 + 12 * length (transfers msg) + length (spi_out (transfers msg)) < 4294967296" "length (spi_in (transfers msg)) < 4294967296"
    and fits: "12 + 12 * length (transfers msg) + length (spi_out (transfers msg)) \<le> unat bmax" "8 + length (spi_in (transfers msg)) \<le> unat bmax"
  shows "gb_spi_operation_create bmax True msg = Some (Some (spi_encode msg, of_nat (length (spi_in (transfers msg))),
    of_nat (sum_list (map (unat \<circ> xf_len) (transfers msg)))))"
proof -
  let ?n = "length (transfers msg)" and ?out = "spi_out (transfers msg)"
  let ?sz = "4 + 12 * ?n + length ?out"
  have cnt: "\<not> 0xffff < (of_nat ?n :: u32)" using n by (simp add: word_less_nat_alt unat_of_nat_u32)
  have fr: "fresh_request bmax True (of_nat ?sz) (of_nat (length (spi_in (transfers msg)))) = Some (replicate ?sz 0)"
    using fits sz by (intro fresh_request_fits) simp_all
  let ?h = "[spi_chip_select msg, spi_mode msg] @ cpu_to_le16 (ucast (of_nat ?n :: u32))"
  have h: "?h = [spi_chip_select msg, spi_mode msg] @ cpu_to_le16 (of_nat ?n)" by (simp add: ucast_of_nat_u16 [OF n])
  have b1: "wr_bytes (replicate ?sz 0) 0 ?h = Some (?h @ replicate (12 * ?n) 0 @ [] @ replicate (length ?out) 0)"
    by (simp add: wr_bytes_def replicate_add)
  have b2: "spi_fill (transfers msg) 4 (4 + 12 * ?n) (?h @ replicate (12 * ?n) 0 @ [] @ replicate (length ?out) 0) =
      Some (?h @ concat (map spi_xfer_bytes (transfers msg)) @ [] @ ?out)"
    using spi_fill_exact [OF wf, of "replicate (12 * ?n) 0" "replicate (length ?out) 0" ?h "[]"] by simp
  have enc: "spi_encode msg = ?h @ concat (map spi_xfer_bytes (transfers msg)) @ [] @ ?out"
    by (simp add: spi_encode_def ucast_of_nat_u16 [OF n] spi_xfer_bytes_desc)
  show ?thesis
    unfolding gb_spi_operation_create_def enc Let_def spi_sizes_sum [OF wf]
    by (simp only: option.case prod.case add_0 cnt if_False u32_of_sizes [OF n sz(1)] ucast_of_nat_u32 [OF sz(2)] fr b1
        bind.bind_lunit b2)
qed

lemma gb_spi_decode_exact:
  assumes "list_all spi_wf xs" "length data = length (spi_in xs)"
  shows "\<exists>xs'. gb_spi_decode_response xs data = Some xs' \<and> spi_in xs' = data \<and>
    map spi_desc xs' = map spi_desc xs \<and> map tx_buf xs' = map tx_buf xs \<and> list_all spi_wf xs'"
  using assms
proof (induction xs arbitrary: data)
  case (Cons x xs)
  show ?case
  proof (cases "rx_buf x")
    case (Some rx)
    let ?n = "unat (xf_len x)"
    have len: "length rx = ?n" "length data = ?n + length (spi_in xs)"
      using Cons.prems Some by (simp_all add: spi_wf_def spi_in_def buf_bytes_def)
    obtain xs' where xs': "gb_spi_decode_response xs (drop ?n data) = Some xs'" "spi_in xs' = drop ?n data"
      "map spi_desc xs' = map spi_desc xs" "map tx_buf xs' = map tx_buf xs" "list_all spi_wf xs'"
      using Cons.IH [of "drop ?n data"] Cons.prems(1) len(2) by auto
    have "spi_desc (x\<lparr>rx_buf := b\<rparr>) = spi_desc x" "spi_wf (x\<lparr>rx_buf := Some (take ?n data)\<rparr>)" for b
      using Cons.prems(1) len by (simp_all add: spi_desc_def spi_wf_def buf_bytes_def)
    then show ?thesis
      using Some len xs' by (simp add: rd_bytes_def wr_bytes_def spi_in_def buf_bytes_def)
  next
    case None
    then show ?thesis using Cons by (fastforce simp: spi_in_def buf_bytes_def)
  qed
qed (simp add: spi_in_def)

text \<open>
  C20 An SPI message is carried out as asked: for transfers whose buffers have the length they claim and
  whose sizes add up below 2^32 and fit into one message of the host device, the request is the one a module
  decodes to the chip select, the mode, exactly the descriptors of the transfers and the data to send; when the
  module accepts it the receive buffers hold the response, in order and completely; the message is given back
  to the SPI core with its whole length and status 0 -- also when the module refused it, in which case only
  the result tells.
\<close>

theorem spi_transfer_exact:
  assumes "list_all spi_wf (transfers msg)" "length (transfers msg) \<le> 65535"
    and "4 + 12 * length (transfers msg) + length (spi_out (transfers msg)) < 4294967296" "length (spi_in (transfers msg)) < 4294967296"
    and "12 + 12 * length (transfers msg) + length (spi_out (transfers msg)) \<le> unat bmax" "8 + length (spi_in (transfers msg)) \<le> unat bmax"
  shows "\<exists>req ret resp msg' s'. gb_spi_transfer_one_message bmax True msg s = Some ((ret, msg'), s') \<and>
    sent s' = sent s @ [\<lparr>x_type = 0x06, x_req = req, x_ret = ret, x_resp = resp\<rparr>] \<and>
    spi_parse req = Some (spi_chip_select msg, spi_mode msg, map spi_desc (transfers msg), spi_out (transfers msg)) \<and>
    finalized s' = finalized s @ [msg'] \<and> msg_status msg' = 0 \<and>
    actual_length msg' = of_nat (sum_list (map (unat \<circ> xf_len) (transfers msg))) \<and>
    map spi_desc (transfers msg') = map spi_desc (transfers msg) \<and>
    (if ret = 0 then spi_in (transfers msg') = resp else transfers msg' = transfers msg)"
proof -
  let ?n = "length (spi_in (transfers msg))" and ?len = "of_nat (sum_list (map (unat \<circ> xf_len) (transfers msg))) :: u32"
  have create: "gb_spi_operation_create bmax True msg = Some (Some (spi_encode msg, of_nat ?n, ?len))"
    by (rule gb_spi_operation_create_exact [OF assms])
  have n: "unat (of_nat ?n :: u32) = ?n" by (rule unat_of_nat_u32 [OF assms(4)])
  obtain ret resp s1 where s: "gb_sync 0x06 (spi_encode msg) ?n s = ((ret, resp), s1)"
    "s1 = s\<lparr>ncalls := ncalls s + 1, sent := sent s @ [\<lparr>x_type = 0x06, x_req = spi_encode msg, x_ret = ret, x_resp = resp\<rparr>]\<rparr>"
    "length resp = ?n"
    by (rule gb_sync_cases)
  obtain xs where xs: "gb_spi_decode_response (transfers msg) resp = Some xs" "spi_in xs = resp"
    "map spi_desc xs = map spi_desc (transfers msg)"
    using gb_spi_decode_exact [OF assms(1) s(3)] by blast
  let ?xs = "if ret = 0 \<and> ?n \<noteq> 0 then xs else transfers msg"
  let ?msg = "msg\<lparr>transfers := ?xs, actual_length := ?len, msg_status := 0\<rparr>"
  have z: "((of_nat ?n :: u32) = 0) = (?n = 0)" using n by (metis unat_eq_zero)
  have "gb_spi_transfer_one_message bmax True msg s = Some ((ret, ?msg), s1\<lparr>finalized := finalized s1 @ [?msg]\<rparr>)"
    unfolding gb_spi_transfer_one_message_def create using n s(1) xs(1) z by (simp add: Let_def)
  moreover have "spi_in (transfers msg) = resp" if "?n = 0" using that s(3) by simp
  ultimately show ?thesis
    using s(2) xs(2,3) spi_parse_encode [OF assms(2)]
    by (intro exI [of _ "spi_encode msg"] exI [of _ ret] exI [of _ resp] exI [of _ ?msg]
        exI [of _ "s1\<lparr>finalized := finalized s1 @ [?msg]\<rparr>"]) auto
qed

definition demo_spi :: "int \<Rightarrow> gb_spi" where
  "demo_spi ret = \<lparr>replies = (\<lambda>_. (ret, [7, 8])), ncalls = 0, sent = [], ctl_mode = 0, ctl_flags = 0, bits_per_word_mask = 0,
     num_chipselect = 1, finalized = []\<rparr>"

definition demo_spi_msg :: spi_message where
  "demo_spi_msg = \<lparr>transfers =
      [\<lparr>speed_hz = 1000000, xf_len = 3, delay_usecs = 0, cs_change = 0, bits_per_word = 8, tx_buf = Some [1, 2, 3], rx_buf = None\<rparr>,
       \<lparr>speed_hz = 1000000, xf_len = 2, delay_usecs = 5, cs_change = 1, bits_per_word = 8, tx_buf = None, rx_buf = Some [0, 0]\<rparr>],
     spi_chip_select = 1, spi_mode = 3, actual_length = 0, msg_status = 0\<rparr>"

theorem spi_transfer_exact_witness:
  "\<exists>req ret resp msg' s'. gb_spi_transfer_one_message 2048 True demo_spi_msg (demo_spi 0) = Some ((ret, msg'), s') \<and>
    sent s' = [\<lparr>x_type = 0x06, x_req = req, x_ret = ret, x_resp = resp\<rparr>] \<and>
    spi_parse req = Some (1, 3, [(1000000, 3, 0, 0, 8), (1000000, 2, 5, 1, 8)], [1, 2, 3]) \<and> actual_length msg' = 5"
proof -
  have f: "list_all spi_wf (transfers demo_spi_msg)" "length (transfers demo_spi_msg) = 2" "spi_out (transfers demo_spi_msg) = [1, 2, 3]"
    "length (spi_in (transfers demo_spi_msg)) = 2" "map spi_desc (transfers demo_spi_msg) = [(1000000, 3, 0, 0, 8), (1000000, 2, 5, 1, 8)]"
    "spi_chip_select demo_spi_msg = 1" "spi_mode demo_spi_msg = 3" "sum_list (map (unat \<circ> xf_len) (transfers demo_spi_msg)) = 5"
    "sent (demo_spi 0) = []" "finalized (demo_spi 0) = []"
    by (simp_all add: demo_spi_msg_def demo_spi_def spi_wf_def buf_bytes_def spi_out_def spi_in_def spi_desc_def)
  obtain req ret resp msg' s' where "gb_spi_transfer_one_message 2048 True demo_spi_msg (demo_spi 0) = Some ((ret, msg'), s')"
    "sent s' = sent (demo_spi 0) @ [\<lparr>x_type = 0x06, x_req = req, x_ret = ret, x_resp = resp\<rparr>]"
    "spi_parse req = Some (spi_chip_select demo_spi_msg, spi_mode demo_spi_msg, map spi_desc (transfers demo_spi_msg),
       spi_out (transfers demo_spi_msg))"
    "actual_length msg' = of_nat (sum_list (map (unat \<circ> xf_len) (transfers demo_spi_msg)))"
    using spi_transfer_exact [of demo_spi_msg 2048 "demo_spi 0"] f by auto
  then show ?thesis unfolding f
    by (intro exI [of _ req] exI [of _ ret] exI [of _ resp] exI [of _ msg'] exI [of _ s']) simp
qed

text \<open>
  The sizes are summed up in 32 bits. When the data to send reaches 2^32 bytes the sum wraps around, the request is
  allocated too small, and the data is copied behind its end.
\<close>

theorem spi_size_overflow_faults:
  assumes wf: "list_all spi_wf (transfers msg)" and n: "length (transfers msg) \<le> 65535"
    and big: "4294967296 \<le> length (spi_out (transfers msg))" and i: "length (spi_in (transfers msg)) < 4294967296"
    and fits: "unat (of_nat (4 + 12 * length (transfers msg) + length (spi_out (transfers msg))) :: u32) + 8 \<le> unat bmax"
      "8 + length (spi_in (transfers msg)) \<le> unat bmax"
  shows "gb_spi_transfer_one_message bmax True msg s = None"
proof -
  let ?n = "length (transfers msg)" and ?out = "spi_out (transfers msg)"
  let ?w = "4 + of_nat ?n * 12 + of_nat (length ?out) :: u32"
  have w: "?w = of_nat (4 + 12 * ?n + length ?out)" by simp
  have uw: "unat ?w < 4294967296" using unsigned_less [of ?w, where 'a = nat] by simp
  have uc: "(ucast ?w :: size_t) = of_nat (unat ?w)" by simp
  have cnt: "\<not> 0xffff < (of_nat ?n :: u32)" "unat (of_nat ?n :: u32) = ?n"
    using n by (simp_all add: word_less_nat_alt unat_of_nat_u32)
  have fr: "fresh_request bmax True (ucast ?w) (ucast (of_nat (length (spi_in (transfers msg))) :: u32)) = Some (replicate (unat ?w) 0)"
    unfolding uc ucast_of_nat_u32 [OF i] using fits uw i by (intro fresh_request_fits) (simp_all add: w)
  have no: "spi_fill (transfers msg) 4 (4 + 12 * ?n) buf = None" if "length buf = unat ?w" for buf
  proof (rule ccontr)
    assume "spi_fill (transfers msg) 4 (4 + 12 * ?n) buf \<noteq> None"
    then obtain b where b: "spi_fill (transfers msg) 4 (4 + 12 * ?n) buf = Some b" by blast
    have "?out \<noteq> []" using big by auto
    from spi_fill_bound [OF b wf this] show False using big uw that by simp
  qed
  show ?thesis
    unfolding gb_spi_transfer_one_message_def gb_spi_operation_create_def Let_def spi_sizes_sum [OF wf]
    using cnt fr no by (auto simp: wr_bytes_length split: bind_splits)
qed

end
