(* ===== verification/GB_UART.thy ===== *)
theory GB_UART
  imports GB_Class
begin

text \<open>
  The UART class driver (uart.c): a tty whose data and line settings travel to the module, whose input comes as
  unsolicited requests, and the table of minor numbers shared by all UART connections. What the tty
  layer decides (baud rate, room in the flip buffer, signals) is an argument.
\<close>

section \<open>State\<close>

record gb_tty_line_coding =
  lc_rate :: u32
  lc_format :: u8
  lc_parity :: u8
  lc_data_bits :: u8

text \<open>The counters of struct async_icount that the driver compares.\<close>

record async_icount =
  cnt_dsr :: u32
  cnt_rng :: u32
  cnt_dcd :: u32

datatype tty_flag = TTY_NORMAL | TTY_BREAK | TTY_PARITY | TTY_FRAME | TTY_OVERRUN

text \<open>struct gb_tty; \<open>flip\<close> is the flip buffer of its port, \<open>tx_buffer\<close> the transmit buffer.\<close>

record gb_tty = class_env +
  tx_buffer :: bytes
  buffer_payload_max :: u32
  tty_minor :: nat
  clocal :: bool
  disconnected :: bool
  ctrlin :: u8
  ctrlout :: u8
  line_coding :: gb_tty_line_coding
  iocount :: async_icount
  oldcount :: async_icount
  close_delay :: u32
  closing_wait :: u32
  flip :: "(u8 \<times> tty_flag) list"

abbreviation (input) EFAULT :: int where "EFAULT \<equiv> 14"
abbreviation (input) EPERM :: int where "EPERM \<equiv> 1"
abbreviation (input) EOPNOTSUPP :: int where "EOPNOTSUPP \<equiv> 95"
abbreviation (input) ERESTARTSYS :: int where "ERESTARTSYS \<equiv> 512"
abbreviation (input) ENOIOCTLCMD :: int where "ENOIOCTLCMD \<equiv> 515"
abbreviation (input) GB_UART_CTRL_DTR :: u8 where "GB_UART_CTRL_DTR \<equiv> 0x01"
abbreviation (input) GB_UART_CTRL_RTS :: u8 where "GB_UART_CTRL_RTS \<equiv> 0x02"
abbreviation (input) TIOCM_DTR :: u32 where "TIOCM_DTR \<equiv> 0x002"
abbreviation (input) TIOCM_RTS :: u32 where "TIOCM_RTS \<equiv> 0x004"
abbreviation (input) TIOCM_CTS :: u32 where "TIOCM_CTS \<equiv> 0x020"
abbreviation (input) TIOCM_CD :: u32 where "TIOCM_CD \<equiv> 0x040"
abbreviation (input) TIOCM_RI :: u32 where "TIOCM_RI \<equiv> 0x080"
abbreviation (input) TIOCM_DSR :: u32 where "TIOCM_DSR \<equiv> 0x100"

section \<open>Input\<close>

text \<open>
  gb_uart_receive_data; \<open>room\<close> is how many characters the flip buffer takes. The size field is
  read from the payload of the request, whose own size is not consulted.
\<close>

definition recv_flag :: "u8 \<Rightarrow> tty_flag" where
  "recv_flag fl = (if fl AND 0x08 \<noteq> 0 then TTY_BREAK else if fl AND 0x02 \<noteq> 0 then TTY_PARITY
     else if fl AND 0x01 \<noteq> 0 then TTY_FRAME else TTY_NORMAL)"

definition gb_uart_receive_data :: "gb_tty \<Rightarrow> nat \<Rightarrow> gb_message \<Rightarrow> (int \<times> gb_tty) option" where
  "gb_uart_receive_data t room msg = do {
     h \<leftarrow> rd_bytes (buffer msg) HDR_SIZE 2;
     let count = sint (ucast (ucast (buffer_payload_max t) - 3 :: u64) :: u32);
     let recv_data_size = le16_to_cpu (h ! 0) (h ! 1);
     if recv_data_size = 0 \<or> count < int (unat recv_data_size) then Some (- EINVAL, t)
     else do {
       fl \<leftarrow> rd8 (buffer msg) (HDR_SIZE + 2);
       let t1 = (if fl AND 0x04 \<noteq> 0 then t\<lparr>flip := flip t @ [(0, TTY_OVERRUN)]\<rparr> else t);
       data \<leftarrow> rd_bytes (buffer msg) (HDR_SIZE + 3) (unat recv_data_size);
       Some (0, t1\<lparr>flip := flip t1 @ map (\<lambda>c. (c, recv_flag fl)) (take room data)\<rparr>)
     }
   }"

definition gb_uart_request_recv :: "gb_tty \<Rightarrow> nat \<Rightarrow> u8 \<Rightarrow> gb_operation \<Rightarrow> (int \<times> gb_tty) option" where
  "gb_uart_request_recv t room ty op =
     (if ty = 0x03 then gb_uart_receive_data t room (request op)
      else if ty = 0x07 then do { c \<leftarrow> rd8 (buffer (request op)) HDR_SIZE; Some (0, t\<lparr>ctrlin := c\<rparr>) }
      else Some (- EINVAL, t))"

section \<open>Output\<close>

text \<open>
  send_data copies into the transmit buffer behind the two bytes of the size field.
\<close>

definition send_data :: "gb_tty \<Rightarrow> u16 \<Rightarrow> bytes \<Rightarrow> (int \<times> gb_tty) option" where
  "send_data t sz data =
     (if sz = 0 then Some (0, t)
      else do {
        let sz = (if buffer_payload_max t < ucast sz then ucast (buffer_payload_max t) else sz);
        b1 \<leftarrow> wr_bytes (tx_buffer t) 0 (cpu_to_le16 sz);
        src \<leftarrow> rd_bytes data 0 (unat sz);
        b2 \<leftarrow> wr_bytes b1 2 src;
        let t1 = t\<lparr>tx_buffer := b2\<rparr>;
        req \<leftarrow> rd_bytes b2 0 (2 + unat sz);
        (case gb_sync 0x02 req 0 t1 of ((ret, _), t2) \<Rightarrow>
           Some (if ret \<noteq> 0 then ret else int (unat sz), t2))
      })"

definition line_coding_bytes :: "gb_tty_line_coding \<Rightarrow> bytes" where
  "line_coding_bytes lc = cpu_to_le32 (lc_rate lc) @ [lc_format lc, lc_parity lc, lc_data_bits lc]"

definition send_line_coding :: "gb_tty \<Rightarrow> int \<times> gb_tty" where
  "send_line_coding t = (case gb_sync 0x04 (line_coding_bytes (line_coding t)) 0 t of ((ret, _), t1) \<Rightarrow> (ret, t1))"

definition send_control :: "gb_tty \<Rightarrow> u8 \<Rightarrow> int \<times> gb_tty" where
  "send_control t control = (case gb_sync 0x05 [control] 0 t of ((ret, _), t1) \<Rightarrow> (ret, t1))"

definition send_break :: "gb_tty \<Rightarrow> u8 \<Rightarrow> int \<times> gb_tty" where
  "send_break t st =
     (if st \<noteq> 0 \<and> st \<noteq> 1 then (- EINVAL, t)
      else case gb_sync 0x06 [st] 0 t of ((ret, _), t1) \<Rightarrow> (ret, t1))"

section \<open>The tty operations\<close>

text \<open>gb_tty_write hands its int count to a 16-bit size.\<close>

definition gb_tty_write :: "gb_tty \<Rightarrow> bytes \<Rightarrow> nat \<Rightarrow> (int \<times> gb_tty) option" where
  "gb_tty_write t buf count = send_data t (of_nat count) buf"

definition gb_tty_write_room :: "gb_tty \<Rightarrow> u32" where
  "gb_tty_write_room t = buffer_payload_max t"

definition gb_tty_break_ctl :: "gb_tty \<Rightarrow> int \<Rightarrow> int \<times> gb_tty" where
  "gb_tty_break_ctl t st = send_break t (if st \<noteq> 0 then 1 else 0)"

text \<open>The line coding for the c_cflag of a termios and a baud rate.\<close>

definition termios_coding :: "u32 \<Rightarrow> u32 \<Rightarrow> gb_tty_line_coding" where
  "termios_coding baud cflag =
     \<lparr>lc_rate = baud,
      lc_format = (if cflag AND 0x40 \<noteq> 0 then 2 else 0),
      lc_parity = (if cflag AND 0x100 \<noteq> 0
                   then (if cflag AND 0x200 \<noteq> 0 then 1 else 2) + (if cflag AND 0x40000000 \<noteq> 0 then 2 else 0) else 0),
      lc_data_bits = (if cflag AND 0x30 = 0x00 then 5 else if cflag AND 0x30 = 0x10 then 6
                      else if cflag AND 0x30 = 0x20 then 7 else 8)\<rparr>"

abbreviation (input) CBAUD :: u32 where "CBAUD \<equiv> 0x100f"

text \<open>gb_tty_set_termios; \<open>old_cflag\<close> is the c_cflag of the old termios, if there is one.\<close>

definition gb_tty_set_termios :: "gb_tty \<Rightarrow> u32 \<Rightarrow> u32 \<Rightarrow> u32 option \<Rightarrow> gb_tty" where
  "gb_tty_set_termios t baud cflag old_cflag =
     (let newline = termios_coding baud cflag;
          t1 = t\<lparr>clocal := cflag AND 0x800 \<noteq> 0\<rparr>;
          hangup = (cflag AND CBAUD = 0);
          newline = (if hangup then newline\<lparr>lc_rate := lc_rate (line_coding t1)\<rparr> else newline);
          newctrl = (if hangup then ctrlout t1 AND GB_UART_CTRL_DTR
                     else case old_cflag of None \<Rightarrow> ctrlout t1
                     | Some old \<Rightarrow> if old AND CBAUD = 0 then ctrlout t1 OR GB_UART_CTRL_DTR else ctrlout t1);
          t2 = (if newctrl \<noteq> ctrlout t1 then snd (send_control (t1\<lparr>ctrlout := newctrl\<rparr>) newctrl) else t1)
      in snd (send_line_coding (t2\<lparr>line_coding := newline\<rparr>)))"

definition gb_tty_tiocmget :: "gb_tty \<Rightarrow> u32" where
  "gb_tty_tiocmget t =
     (if ctrlout t AND GB_UART_CTRL_DTR \<noteq> 0 then TIOCM_DTR else 0) OR
     (if ctrlout t AND GB_UART_CTRL_RTS \<noteq> 0 then TIOCM_RTS else 0) OR
     (if ctrlin t AND 0x02 \<noteq> 0 then TIOCM_DSR else 0) OR
     (if ctrlin t AND 0x04 \<noteq> 0 then TIOCM_RI else 0) OR
     (if ctrlin t AND 0x01 \<noteq> 0 then TIOCM_CD else 0) OR TIOCM_CTS"

definition ctrl_bits :: "u32 \<Rightarrow> u8" where
  "ctrl_bits m = (if m AND TIOCM_DTR \<noteq> 0 then GB_UART_CTRL_DTR else 0) OR (if m AND TIOCM_RTS \<noteq> 0 then GB_UART_CTRL_RTS else 0)"

definition gb_tty_tiocmset :: "gb_tty \<Rightarrow> u32 \<Rightarrow> u32 \<Rightarrow> int \<times> gb_tty" where
  "gb_tty_tiocmset t sets clears =
     (let newctrl = (ctrlout t AND NOT (ctrl_bits clears)) OR ctrl_bits sets in
      if ctrlout t = newctrl then (0, t)
      else send_control (t\<lparr>ctrlout := newctrl\<rparr>) newctrl)"

text \<open>gb_tty_throttle and gb_tty_unthrottle: software and hardware flow control.\<close>

definition gb_tty_throttle :: "gb_tty \<Rightarrow> u8 option \<Rightarrow> bool \<Rightarrow> gb_tty option" where
  "gb_tty_throttle t ixoff crtscts = do {
     (retval, t1) \<leftarrow> (case ixoff of None \<Rightarrow> Some (1, t) | Some c \<Rightarrow> gb_tty_write t [c] 1);
     if retval \<le> 0 then Some t1
     else if crtscts
     then let t2 = t1\<lparr>ctrlout := ctrlout t1 AND NOT GB_UART_CTRL_RTS\<rparr> in Some (snd (send_control t2 (ctrlout t2)))
     else Some t1
   }"

definition gb_tty_unthrottle :: "gb_tty \<Rightarrow> u8 option \<Rightarrow> bool \<Rightarrow> gb_tty option" where
  "gb_tty_unthrottle t ixoff crtscts = do {
     (retval, t1) \<leftarrow> (case ixoff of None \<Rightarrow> Some (1, t) | Some c \<Rightarrow> gb_tty_write t [c] 1);
     if retval \<le> 0 then Some t1
     else if crtscts
     then let t2 = t1\<lparr>ctrlout := ctrlout t1 OR GB_UART_CTRL_RTS\<rparr> in Some (snd (send_control t2 (ctrlout t2)))
     else Some t1
   }"

text \<open>
  The delays of struct serial_struct; the special value stands for no waiting. The user's pointer is NULL
  (\<open>None\<close>) or can or cannot be written.
\<close>

abbreviation (input) ASYNC_CLOSING_WAIT_NONE :: u32 where "ASYNC_CLOSING_WAIT_NONE \<equiv> 65535"

definition get_serial_info :: "gb_tty \<Rightarrow> bool option \<Rightarrow> int \<times> (nat \<times> u32 \<times> u32) option" where
  "get_serial_info t info =
     (let r = (tty_minor t, close_delay t div 10,
               if closing_wait t = ASYNC_CLOSING_WAIT_NONE then ASYNC_CLOSING_WAIT_NONE else closing_wait t div 10)
      in case info of None \<Rightarrow> (- EINVAL, None)
         | Some copy_ok \<Rightarrow> if \<not> copy_ok then (- EFAULT, None) else (0, Some r))"

definition set_serial_info :: "gb_tty \<Rightarrow> (u32 \<times> u32) option \<Rightarrow> bool \<Rightarrow> int \<times> gb_tty" where
  "set_serial_info t newinfo admin =
     (case newinfo of None \<Rightarrow> (- EFAULT, t)
      | Some (nd, nw) \<Rightarrow>
          let cd = nd * 10;
              cw = (if nw = ASYNC_CLOSING_WAIT_NONE then ASYNC_CLOSING_WAIT_NONE else nw * 10)
          in if \<not> admin
             then (if cd \<noteq> close_delay t \<or> cw \<noteq> closing_wait t then (- EPERM, t) else (- EOPNOTSUPP, t))
             else (0, t\<lparr>close_delay := cd, closing_wait := cw\<rparr>))"

text \<open>
  wait_serial_change. Each entry of \<open>wakeups\<close> is the state of the tty when the caller is woken and whether it has a
  signal pending; \<open>None\<close> means that it is still asleep when they are used up.
\<close>

definition line_changed :: "u32 \<Rightarrow> async_icount \<Rightarrow> async_icount \<Rightarrow> bool" where
  "line_changed arg old new \<longleftrightarrow>
     arg AND TIOCM_DSR \<noteq> 0 \<and> cnt_dsr old \<noteq> cnt_dsr new \<or>
     arg AND TIOCM_CD \<noteq> 0 \<and> cnt_dcd old \<noteq> cnt_dcd new \<or>
     arg AND TIOCM_RI \<noteq> 0 \<and> cnt_rng old \<noteq> cnt_rng new"

fun wait_loop :: "u32 \<Rightarrow> (gb_tty \<times> bool) list \<Rightarrow> gb_tty \<Rightarrow> (int \<times> gb_tty) option" where
  "wait_loop arg wakeups t =
     (let t1 = t\<lparr>oldcount := iocount t\<rparr> in
      if line_changed arg (oldcount t) (iocount t) then Some (0, t1)
      else case wakeups of
        [] \<Rightarrow> None
      | (t2, signal) # rest \<Rightarrow>
          if disconnected t2 then Some (if arg AND TIOCM_CD \<noteq> 0 then 0 else - ENODEV, t2)
          else if signal then Some (- ERESTARTSYS, t2)
          else wait_loop arg rest t2)"

definition wait_serial_change :: "u32 \<Rightarrow> (gb_tty \<times> bool) list \<Rightarrow> gb_tty \<Rightarrow> (int \<times> gb_tty) option" where
  "wait_serial_change arg wakeups t =
     (if arg AND (TIOCM_DSR OR TIOCM_RI OR TIOCM_CD) = 0 then Some (- EINVAL, t) else wait_loop arg wakeups t)"

section \<open>Minor numbers and connections\<close>

text \<open>
  The state all UART connections share: the table of minors, the ttys that exist, how many
  connections use the tty driver and whether it is registered.
\<close>

record uart_module =
  tty_minors :: "nat \<Rightarrow> nat option"
  ttys :: "nat \<Rightarrow> gb_tty option"
  next_tty :: nat
  reference_count :: int
  gb_tty_driver :: bool

text \<open>get_gb_by_minor dereferences what the table names.\<close>

definition get_gb_by_minor :: "uart_module \<Rightarrow> nat \<Rightarrow> nat option option" where
  "get_gb_by_minor u minor =
     (case tty_minors u minor of
        None \<Rightarrow> Some None
      | Some a \<Rightarrow> do { t \<leftarrow> ttys u a; Some (if disconnected t then None else Some a) })"

text \<open>gb_tty_install: the result, and what becomes the driver data of the tty; \<open>ret\<close> is that of tty_standard_install.\<close>

definition gb_tty_install :: "uart_module \<Rightarrow> nat \<Rightarrow> int \<Rightarrow> (int \<times> nat option) option" where
  "gb_tty_install u minor ret = do {
     tty \<leftarrow> get_gb_by_minor u minor;
     Some (case tty of None \<Rightarrow> (- ENODEV, None) | Some a \<Rightarrow> if ret \<noteq> 0 then (ret, None) else (0, Some a))
   }"

text \<open>idr_alloc takes the lowest free number below 16.\<close>

definition alloc_minor :: "uart_module \<Rightarrow> nat \<Rightarrow> bool \<Rightarrow> int \<times> uart_module" where
  "alloc_minor u a mem =
     (if \<not> mem then (- ENOMEM, u)
      else case List.find (\<lambda>i. tty_minors u i = None) [0..<16] of
        None \<Rightarrow> (- ENOSPC, u)
      | Some i \<Rightarrow> (int i, u\<lparr>tty_minors := (tty_minors u)(i \<mapsto> a)\<rparr>))"

definition release_minor :: "uart_module \<Rightarrow> nat \<Rightarrow> uart_module" where
  "release_minor u minor = u\<lparr>tty_minors := (tty_minors u)(minor := None)\<rparr>"

definition gb_tty_init :: "uart_module \<Rightarrow> bool \<Rightarrow> int \<Rightarrow> int \<times> uart_module" where
  "gb_tty_init u mem ret =
     (if \<not> mem then (- ENOMEM, u)
      else if ret \<noteq> 0 then (ret, u)
      else (0, u\<lparr>gb_tty_driver := True\<rparr>))"

text \<open>gb_tty_exit also destroys the table of minors.\<close>

definition gb_tty_exit :: "uart_module \<Rightarrow> uart_module" where
  "gb_tty_exit u = u\<lparr>gb_tty_driver := False, tty_minors := (\<lambda>_. None)\<rparr>"

definition put_reference :: "uart_module \<Rightarrow> uart_module" where
  "put_reference u =
     (let u1 = u\<lparr>reference_count := reference_count u - 1\<rparr> in if reference_count u1 = 0 then gb_tty_exit u1 else u1)"

definition new_tty :: "class_env \<Rightarrow> u32 \<Rightarrow> u32 \<times> u32 \<Rightarrow> nat \<Rightarrow> gb_tty" where
  "new_tty e pmax delays minor =
     (let lc = \<lparr>lc_rate = 9600, lc_format = 0, lc_parity = 0, lc_data_bits = 8\<rparr>;
          zero = \<lparr>cnt_dsr = 0, cnt_rng = 0, cnt_dcd = 0\<rparr>;
          t = \<lparr>replies = replies e, ncalls = ncalls e, sent = sent e, tx_buffer = replicate (unat pmax) 0, buffer_payload_max = pmax,
               tty_minor = minor, clocal = False, disconnected = False, ctrlin = 0, ctrlout = 0, line_coding = lc,
               iocount = zero, oldcount = zero, close_delay = fst delays, closing_wait = snd delays, flip = []\<rparr>
      in snd (send_line_coding (snd (send_control t 0))))"

text \<open>What the environment decides during gb_uart_connection_init.\<close>

record uart_init_env =
  ui_driver_mem :: bool
  ui_driver_ret :: int
  ui_tty_mem :: bool
  ui_pmax :: u32
  ui_buffer_mem :: bool
  ui_minor_mem :: bool
  ui_delays :: "u32 \<times> u32"
  ui_device_ret :: int
  ui_link :: class_env

text \<open>
  gb_uart_connection_init: the result, the address of the tty (connection->private) on success, and the
  module state.
\<close>

definition gb_uart_connection_init :: "uart_module \<Rightarrow> uart_init_env \<Rightarrow> int \<times> nat option \<times> uart_module" where
  "gb_uart_connection_init u env =
     (let u1 = u\<lparr>reference_count := reference_count u + 1\<rparr>;
          first = (if reference_count u1 = 1 then gb_tty_init u1 (ui_driver_mem env) (ui_driver_ret env) else (0, u1))
      in case first of (retval, u2) \<Rightarrow>
        if retval \<noteq> 0 then (retval, None, u2\<lparr>reference_count := reference_count u2 - 1\<rparr>)
        else if \<not> ui_tty_mem env then (- ENOMEM, None, put_reference u2)
        else if ui_pmax env = 0 then (- EINVAL, None, put_reference u2)
        else if \<not> ui_buffer_mem env then (- ENOMEM, None, put_reference u2)
        else
          let a = next_tty u2; u3 = u2\<lparr>next_tty := a + 1\<rparr> in
          case alloc_minor u3 a (ui_minor_mem env) of (minor, u4) \<Rightarrow>
            if minor < 0 then (if minor = - ENOSPC then - ENODEV else minor, None, put_reference u4)
            else if ui_device_ret env \<noteq> 0 then (ui_device_ret env, None, put_reference (release_minor u4 (nat minor)))
            else (0, Some a, u4\<lparr>ttys := (ttys u4)(a \<mapsto> new_tty (ui_link env) (ui_pmax env) (ui_delays env) (nat minor))\<rparr>))"

text \<open>gb_uart_connection_exit of the connection whose private data is the tty at \<open>private\<close>.\<close>

definition gb_uart_connection_exit :: "uart_module \<Rightarrow> nat option \<Rightarrow> uart_module option" where
  "gb_uart_connection_exit u private =
     (case private of None \<Rightarrow> Some u
      | Some a \<Rightarrow> do {
          _ \<leftarrow> ttys u a;
          Some (put_reference (u\<lparr>ttys := (ttys u)(a := None)\<rparr>))
        })"

end
