(* ===== verification/GB_UART_Props.thy ===== *)
theory GB_UART_Props
  imports GB_UART
begin

text \<open>
  What uart.c promises, and where it fails: input is delivered with its flags, output is sent as written as
  long as it fits, the modem lines read back as set; waiting for a modem line to change never ends; the
  tty driver is registered exactly while connections exist, but their minor numbers stay behind.
\<close>

section \<open>Input\<close>

definition recv_size :: "gb_message \<Rightarrow> nat" where
  "recv_size m = unat (le16_to_cpu (buffer m ! 8) (buffer m ! 9))"

lemma recv_count:
  assumes "3 \<le> unat (pmax :: u32)" "unat pmax \<le> 65535"
  shows "sint (ucast (ucast pmax - 3 :: u64) :: u32) = int (unat pmax) - 3"
proof -
  have "(3 :: u64) \<le> ucast pmax" using assms(1) by (simp add: word_le_nat_alt)
  then have "unat (ucast pmax - 3 :: u64) = unat pmax - 3" using unat_sub [of 3 "ucast pmax :: u64"] by simp
  then have u: "unat (ucast (ucast pmax - 3 :: u64) :: u32) = unat pmax - 3"
    using assms by (simp add: unsigned_ucast_eq take_bit_nat_eq_self)
  then have "uint (ucast (ucast pmax - 3 :: u64) :: u32) = int (unat pmax) - 3"
    using assms(1) by (metis of_nat_diff of_nat_numeral uint_nat)
  moreover have "sint w = uint w" if "uint w < 2 ^ 31" for w :: u32
  proof -
    have "- (2 ^ 31) \<le> uint w" by (rule order_trans [OF _ uint_ge_0]) simp
    then show ?thesis using that by (simp add: sint_uint signed_take_bit_int_eq_self_iff)
  qed
  moreover have "int (unat pmax) - 3 < 2 ^ 31"
  proof -
    have "int (unat pmax) \<le> 65535" using assms(2) unfolding of_nat_le_iff [symmetric, where 'a = int] by simp
    then show ?thesis by simp
  qed
  ultimately show ?thesis by metis
qed

text \<open>
  Received data is delivered as declared: for a tty of a connection with a payload limit up to 2^16, a
  request that declares no data or more than the limit allows is refused without effect; any other
  request that carries what it declares puts, behind an overrun mark if it has one, exactly its data, as far as the tty
  layer has room, into the flip buffer, every character with the condition the flags give; a request that
  carries less than it declares is not refused, and the driver reads behind its end.
\<close>

theorem uart_receive_exact:
  assumes "msg_wf m" "3 \<le> unat (payload_size m)" "3 \<le> unat (buffer_payload_max t)" "unat (buffer_payload_max t) \<le> 65535"
  shows "gb_uart_receive_data t room m =
    (if recv_size m = 0 \<or> unat (buffer_payload_max t) < recv_size m + 3 then Some (- EINVAL, t)
     else if recv_size m + 3 \<le> unat (payload_size m)
     then Some (0, t\<lparr>flip := flip t @ (if buffer m ! 10 AND 4 \<noteq> 0 then [(0, TTY_OVERRUN)] else []) @
       map (\<lambda>c. (c, recv_flag (buffer m ! 10))) (take room (take (recv_size m) (drop 11 (buffer m))))\<rparr>)
     else None)"
proof -
  have len: "length (buffer m) = 8 + unat (payload_size m)" using assms(1) by (simp add: msg_wf_def)
  let ?h = "take 2 (drop 8 (buffer m))"
  have h: "rd_bytes (buffer m) 8 2 = Some ?h" "?h ! 0 = buffer m ! 8" "?h ! Suc 0 = buffer m ! 9"
    using len assms(2) by (simp_all add: rd_bytes_def)
  have z: "(le16_to_cpu (buffer m ! 8) (buffer m ! 9) = 0) = (recv_size m = 0)"
    by (simp add: recv_size_def unat_eq_zero)
  have c: "(sint (ucast (ucast (buffer_payload_max t) - 3 :: u64) :: u32) < uint (le16_to_cpu (buffer m ! 8) (buffer m ! 9))) =
      (unat (buffer_payload_max t) < recv_size m + 3)"
    unfolding recv_count [OF assms(3,4)] recv_size_def uint_nat using assms(3) by linarith
  show ?thesis
    unfolding gb_uart_receive_data_def h(1)
    using h(2,3) z c len assms(2)
    by (simp add: Let_def rd_bytes_def rd8_def recv_size_def [symmetric])
qed

definition demo_tty :: gb_tty where
  "demo_tty = new_tty \<lparr>replies = (\<lambda>_. (0, [])), ncalls = 0, sent = []\<rparr> 8 (50, 3000) 0"

lemma demo_tty_fields: "buffer_payload_max demo_tty = 8" "flip demo_tty = []" "length (tx_buffer demo_tty) = 8"
  by (simp_all add: demo_tty_def new_tty_def send_line_coding_def send_control_def gb_sync_def Let_def)

theorem uart_receive_exact_witness:
  "gb_uart_receive_data demo_tty 100 (request (incoming 3 [2, 0, 4, 65, 66])) =
     Some (0, demo_tty\<lparr>flip := [(0, TTY_OVERRUN), (65, TTY_NORMAL), (66, TTY_NORMAL)]\<rparr>) \<and>
   gb_uart_receive_data demo_tty 100 (request (incoming 3 [5, 0, 0, 65])) = None"
proof -
  have wf: "msg_wf (request (incoming 3 [2, 0, 4, 65, 66]))" "msg_wf (request (incoming 3 [5, 0, 0, 65]))"
    by (simp_all add: msg_wf_def incoming_def)
  have f: "recv_size (request (incoming 3 [2, 0, 4, 65, 66])) = 2" "recv_size (request (incoming 3 [5, 0, 0, 65])) = 5"
    "unat (payload_size (request (incoming 3 [2, 0, 4, 65, 66]))) = 5" "unat (payload_size (request (incoming 3 [5, 0, 0, 65]))) = 4"
    "buffer (request (incoming 3 [2, 0, 4, 65, 66])) = [13, 0, 1, 0, 3, 0, 0, 0, 2, 0, 4, 65, 66]"
    "recv_flag 4 = TTY_NORMAL"
    by (simp_all add: recv_size_def incoming_def recv_flag_def cpu_to_le16_def le16_to_cpu_def)
  show ?thesis
    using uart_receive_exact [OF wf(1), of demo_tty 100] uart_receive_exact [OF wf(2), of demo_tty 100] f demo_tty_fields by simp
qed

section \<open>Output\<close>

text \<open>
  C21 Output is sent as written, or written behind the buffer: with the transmit buffer as set-up
  allocates it, a write of up to the payload limit less the two bytes of the size field sends exactly the size
  and the data and returns the number of bytes or the error of the module; a larger write, although the driver
  reports room for the whole limit, is copied beyond the end of the buffer.
\<close>

theorem uart_send_exact:
  assumes "length (tx_buffer t) = unat (buffer_payload_max t)" "unat (buffer_payload_max t) \<le> 65535"
    and "0 < n" "n \<le> unat (gb_tty_write_room t)" "n \<le> length data"
  shows "if n + 2 \<le> unat (buffer_payload_max t)
    then \<exists>ret t'. gb_tty_write t data n = Some (if ret = 0 then int n else ret, t') \<and>
      sent t' = sent t @ [\<lparr>x_type = 0x02, x_req = cpu_to_le16 (of_nat n) @ take n data, x_ret = ret, x_resp = []\<rparr>] \<and>
      length (tx_buffer t') = length (tx_buffer t)
    else gb_tty_write t data n = None"
proof -
  have n: "unat (of_nat n :: u16) = n" using assms(2,4) by (simp add: gb_tty_write_room_def unsigned_of_nat take_bit_nat_eq_self)
  have nz: "(of_nat n :: u16) \<noteq> 0" using n assms(3) by (metis less_numeral_extra(3) unat_0)
  have le: "\<not> buffer_payload_max t < (ucast (of_nat n :: u16) :: u32)"
  proof -
    have "unat (ucast (of_nat n :: u16) :: u32) = n" using n assms(2,4)
      by (simp add: gb_tty_write_room_def unsigned_ucast_eq take_bit_nat_eq_self)
    then show ?thesis using assms(4) by (simp add: word_less_nat_alt gb_tty_write_room_def)
  qed
  let ?h = "cpu_to_le16 (of_nat n :: u16)"
  have src: "rd_bytes data 0 n = Some (take n data)" using assms(5) by (simp add: rd_bytes_def)
  show ?thesis
  proof (cases "n + 2 \<le> unat (buffer_payload_max t)")
    case True
    then have b1: "wr_bytes (tx_buffer t) 0 ?h = Some (?h @ drop 2 (tx_buffer t))"
      using assms(1) by (simp add: wr_bytes_def numeral_2_eq_2)
    have b2: "wr_bytes (?h @ drop 2 (tx_buffer t)) 2 (take n data) = Some (?h @ take n data @ drop (2 + n) (tx_buffer t))"
      using True assms(1,5) by (simp add: wr_bytes_def add.commute)
    have rq: "rd_bytes (?h @ take n data @ drop (2 + n) (tx_buffer t)) 0 (2 + n) = Some (?h @ take n data)"
      using True assms(1,5) by (simp add: rd_bytes_def)
    show ?thesis
      using True nz le n b1 b2 src rq assms(1,5) unfolding gb_tty_write_def send_data_def by (auto simp: gb_sync_def Let_def)
  next
    case False
    have "wr_bytes b1 2 (take n data) = None" if "wr_bytes (tx_buffer t) 0 ?h = Some b1" for b1
      using False that assms(1,5) wr_bytes_length [OF that] by (simp add: wr_bytes_None_iff)
    then show ?thesis
      using False nz le n src unfolding gb_tty_write_def send_data_def by (cases "wr_bytes (tx_buffer t) 0 ?h") (auto simp: Let_def)
  qed
qed

theorem uart_send_exact_witness:
  "(\<exists>ret t'. gb_tty_write demo_tty [1, 2, 3, 4, 5, 6] 6 = Some (if ret = 0 then 6 else ret, t') \<and>
     sent t' = sent demo_tty @ [\<lparr>x_type = 0x02, x_req = [6, 0, 1, 2, 3, 4, 5, 6], x_ret = ret, x_resp = []\<rparr>]) \<and>
   gb_tty_write demo_tty [1, 2, 3, 4, 5, 6, 7] 7 = None"
proof -
  note e = uart_send_exact [of demo_tty 6 "[1, 2, 3, 4, 5, 6]"] uart_send_exact [of demo_tty 7 "[1, 2, 3, 4, 5, 6, 7]"]
  have "gb_tty_write_room demo_tty = 8" by (simp add: gb_tty_write_room_def demo_tty_fields)
  then show ?thesis using e demo_tty_fields by (fastforce simp: cpu_to_le16_def)
qed

section \<open>Modem lines\<close>

lemmas line_bits = and_pow_nz [of _ 0, simplified] and_pow_nz [of _ 1, simplified] and_pow_nz [of _ 2, simplified]
  and_pow_nz [of _ 5, simplified] and_pow_nz [of _ 6, simplified] and_pow_nz [of _ 7, simplified] and_pow_nz [of _ 8, simplified]

lemma bit_ctrl_bits: "bit (ctrl_bits m) 0 = bit m 1" "bit (ctrl_bits m) (Suc 0) = bit m 2"
  unfolding ctrl_bits_def line_bits by (simp_all add: bit_simps bit_numeral_rec)

lemma bit_tiocmget:
  "bit (gb_tty_tiocmget t) 1 = bit (ctrlout t) 0" "bit (gb_tty_tiocmget t) 2 = bit (ctrlout t) (Suc 0)"
  unfolding gb_tty_tiocmget_def line_bits by (simp_all add: bit_simps bit_numeral_rec)

lemma send_control_eq:
  "send_control t c = (fst (replies t (ncalls t)), t\<lparr>ncalls := ncalls t + 1,
     sent := sent t @ [\<lparr>x_type = 0x05, x_req = [c], x_ret = fst (replies t (ncalls t)), x_resp = []\<rparr>]\<rparr>)"
  by (simp add: send_control_def gb_sync_def Let_def)

lemma send_line_coding_eq:
  "send_line_coding t = (fst (replies t (ncalls t)), t\<lparr>ncalls := ncalls t + 1,
     sent := sent t @ [\<lparr>x_type = 0x04, x_req = line_coding_bytes (line_coding t), x_ret = fst (replies t (ncalls t)), x_resp = []\<rparr>]\<rparr>)"
  by (simp add: send_line_coding_def gb_sync_def Let_def)

text \<open>
  The modem lines read back as they were set: after TIOCMSET, TIOCMGET reports DTR and RTS as
  raised if the caller raised them, as lowered if it lowered them, and as before otherwise; the module is told the new control bits, unless
  they are what they were, and the result is its answer.
\<close>

theorem uart_modem_lines:
  "case gb_tty_tiocmset t sets clears of (ret, t') \<Rightarrow>
     (gb_tty_tiocmget t' AND TIOCM_DTR \<noteq> 0) = (sets AND TIOCM_DTR \<noteq> 0 \<or> gb_tty_tiocmget t AND TIOCM_DTR \<noteq> 0 \<and> clears AND TIOCM_DTR = 0) \<and>
     (gb_tty_tiocmget t' AND TIOCM_RTS \<noteq> 0) = (sets AND TIOCM_RTS \<noteq> 0 \<or> gb_tty_tiocmget t AND TIOCM_RTS \<noteq> 0 \<and> clears AND TIOCM_RTS = 0) \<and>
     sent t' = sent t @ (if ctrlout t' = ctrlout t then []
                         else [\<lparr>x_type = 0x05, x_req = [ctrlout t'], x_ret = ret, x_resp = []\<rparr>])"
proof -
  obtain ret t' where s: "gb_tty_tiocmset t sets clears = (ret, t')" by (cases "gb_tty_tiocmset t sets clears")
  let ?new = "(ctrlout t AND NOT (ctrl_bits clears)) OR ctrl_bits sets"
  have c: "ctrlout t' = ?new" and l: "sent t' = sent t @ (if ctrlout t' = ctrlout t then []
      else [\<lparr>x_type = 0x05, x_req = [ctrlout t'], x_ret = ret, x_resp = []\<rparr>])"
    using s by (auto simp: gb_tty_tiocmset_def Let_def send_control_eq split: if_splits)
  have eq0: "(w AND TIOCM_DTR = 0) = (\<not> bit w 1)" "(w AND TIOCM_RTS = 0) = (\<not> bit w 2)" for w
    using line_bits(2,3) [of w] by auto
  have "bit (ctrlout t') 0 = (bit sets 1 \<or> bit (ctrlout t) 0 \<and> \<not> bit clears 1)"
    "bit (ctrlout t') (Suc 0) = (bit sets 2 \<or> bit (ctrlout t) (Suc 0) \<and> \<not> bit clears 2)"
    unfolding c by (auto simp: bit_simps bit_ctrl_bits)
  then show ?thesis unfolding s prod.case eq0 bit_tiocmget using l by blast
qed

theorem uart_modem_lines_witness:
  "gb_tty_tiocmget (snd (gb_tty_tiocmset (demo_tty\<lparr>ctrlout := 1\<rparr>) TIOCM_RTS TIOCM_DTR)) AND TIOCM_RTS \<noteq> 0 \<and>
   gb_tty_tiocmget (snd (gb_tty_tiocmset (demo_tty\<lparr>ctrlout := 1\<rparr>) TIOCM_RTS TIOCM_DTR)) AND TIOCM_DTR = 0"
  using uart_modem_lines [where t = "demo_tty\<lparr>ctrlout := 1\<rparr>" and sets = TIOCM_RTS and clears = TIOCM_DTR] by (simp split: prod.splits)

text \<open>
  Hanging up does not lower DTR: setting the baud rate to zero, which is to drop DTR,
  drops every other control line and leaves DTR as it was.
\<close>

theorem uart_hangup_keeps_dtr:
  assumes "cflag AND CBAUD = 0"
  shows "ctrlout (gb_tty_set_termios t baud cflag old) = ctrlout t AND GB_UART_CTRL_DTR \<and>
    lc_rate (line_coding (gb_tty_set_termios t baud cflag old)) = lc_rate (line_coding t)"
  using assms by (simp_all add: gb_tty_set_termios_def send_control_eq send_line_coding_eq Let_def)

theorem uart_hangup_keeps_dtr_witness:
  "ctrlout (gb_tty_set_termios (demo_tty\<lparr>ctrlout := 3\<rparr>) 0 0x30 None) = 1"
proof -
  have "ctrlout (gb_tty_set_termios (demo_tty\<lparr>ctrlout := 3\<rparr>) 0 0x30 None) = ctrlout (demo_tty\<lparr>ctrlout := 3\<rparr>) AND 1"
    using uart_hangup_keeps_dtr [of "0x30" "demo_tty\<lparr>ctrlout := 3\<rparr>" 0 None] by simp
  then show ?thesis by simp
qed

section \<open>Waiting for a modem line\<close>

text \<open>What can happen to a tty while its connection is up.\<close>

datatype uart_event =
    URequest nat u8 gb_operation
  | UWrite bytes nat
  | UBreak int
  | UTermios u32 u32 "u32 option"
  | UModem u32 u32
  | UThrottle "u8 option" bool
  | UUnthrottle "u8 option" bool
  | USerial "(u32 \<times> u32) option" bool

fun uart_exec :: "gb_tty \<Rightarrow> uart_event \<Rightarrow> gb_tty option" where
  "uart_exec t (URequest room ty op) = map_option snd (gb_uart_request_recv t room ty op)"
| "uart_exec t (UWrite data n) = map_option snd (gb_tty_write t data n)"
| "uart_exec t (UBreak st) = Some (snd (gb_tty_break_ctl t st))"
| "uart_exec t (UTermios baud cflag old) = Some (gb_tty_set_termios t baud cflag old)"
| "uart_exec t (UModem sets clears) = Some (snd (gb_tty_tiocmset t sets clears))"
| "uart_exec t (UThrottle c hw) = gb_tty_throttle t c hw"
| "uart_exec t (UUnthrottle c hw) = gb_tty_unthrottle t c hw"
| "uart_exec t (USerial info admin) = Some (snd (set_serial_info t info admin))"


text \<open>What no event touches.\<close>

definition tty_fixed :: "gb_tty \<Rightarrow> async_icount \<times> async_icount \<times> nat \<times> bool" where
  "tty_fixed t = (iocount t, oldcount t, tty_minor t, disconnected t)"

lemma write_fixed: "gb_tty_write t data n = Some (ret, t') \<Longrightarrow> tty_fixed t' = tty_fixed t"
  by (auto simp: gb_tty_write_def send_data_def gb_sync_def Let_def tty_fixed_def split: if_splits bind_splits)

lemma throttle_fixed:
  "gb_tty_throttle t c hw = Some t' \<Longrightarrow> tty_fixed t' = tty_fixed t"
  "gb_tty_unthrottle t c hw = Some t' \<Longrightarrow> tty_fixed t' = tty_fixed t"
  unfolding gb_tty_throttle_def gb_tty_unthrottle_def
  by (auto simp: send_control_eq Let_def tty_fixed_def dest!: write_fixed split: if_splits bind_splits option.splits)

lemma send_fixed [simp]: "tty_fixed (snd (send_control t c)) = tty_fixed t" "tty_fixed (snd (send_line_coding t)) = tty_fixed t"
  by (simp_all add: send_control_eq send_line_coding_eq tty_fixed_def)

lemma update_fixed [simp]:
  "tty_fixed (t\<lparr>ctrlout := c\<rparr>) = tty_fixed t" "tty_fixed (t\<lparr>clocal := l\<rparr>) = tty_fixed t"
  "tty_fixed (t\<lparr>line_coding := lc\<rparr>) = tty_fixed t" "tty_fixed (t\<lparr>close_delay := d, closing_wait := cw\<rparr>) = tty_fixed t"
  by (simp_all add: tty_fixed_def)

lemma termios_fixed: "tty_fixed (gb_tty_set_termios t baud cflag old) = tty_fixed t"
  unfolding gb_tty_set_termios_def Let_def send_fixed update_fixed by simp

lemma exec_fixed: "uart_exec t e = Some t' \<Longrightarrow> tty_fixed t' = tty_fixed t"
proof (cases e)
  case (URequest room ty op)
  assume "uart_exec t e = Some t'"
  then show ?thesis using URequest
    by (auto simp: gb_uart_request_recv_def gb_uart_receive_data_def Let_def tty_fixed_def split: if_splits bind_splits)
next
  case (UBreak st)
  assume "uart_exec t e = Some t'"
  then show ?thesis using UBreak by (cases "st = 0") (auto simp: gb_tty_break_ctl_def send_break_def gb_sync_def Let_def tty_fixed_def)
qed (auto simp: termios_fixed gb_tty_tiocmset_def set_serial_info_def Let_def dest: write_fixed throttle_fixed split: option.splits)





section \<open>Connections and minors\<close>

datatype uart_module_event = UInit uart_init_env | UTty nat uart_event | UExit nat

fun uart_module_exec :: "uart_module \<Rightarrow> uart_module_event \<Rightarrow> uart_module option" where
  "uart_module_exec u (UInit env) = Some (snd (snd (gb_uart_connection_init u env)))"
| "uart_module_exec u (UTty a e) = do { t \<leftarrow> ttys u a; t' \<leftarrow> uart_exec t e; Some (u\<lparr>ttys := (ttys u)(a \<mapsto> t')\<rparr>) }"
| "uart_module_exec u (UExit a) = gb_uart_connection_exit u (Some a)"

text \<open>
  The callers: an event of a tty is one that does not fault by itself, and a
  connection is taken down once.
\<close>

fun uart_module_enabled :: "uart_module \<Rightarrow> uart_module_event \<Rightarrow> bool" where
  "uart_module_enabled u (UInit env) = True"
| "uart_module_enabled u (UTty a e) = (\<exists>t t'. ttys u a = Some t \<and> uart_exec t e = Some t')"
| "uart_module_enabled u (UExit a) = (ttys u a \<noteq> None)"

definition uart_module_init :: "uart_module \<Rightarrow> bool" where
  "uart_module_init u \<longleftrightarrow> tty_minors u = (\<lambda>_. None) \<and> ttys u = (\<lambda>_. None) \<and> reference_count u = 0 \<and> \<not> gb_tty_driver u"

text \<open>
  \<open>uart_ok n u\<close>: the module while \<open>n\<close> more references are held than there are connections.
\<close>

definition uart_ok :: "nat \<Rightarrow> uart_module \<Rightarrow> bool" where
  "uart_ok n u \<longleftrightarrow> (\<forall>a. ttys u a \<noteq> None \<longrightarrow> a < next_tty u) \<and> reference_count u = int (card (dom (ttys u)) + n) \<and>
     gb_tty_driver u = (dom (ttys u) \<noteq> {} \<or> 0 < n) \<and>
     (\<forall>a t. ttys u a = Some t \<longrightarrow> tty_minor t < 16 \<and> tty_minors u (tty_minor t) = Some a \<and> \<not> disconnected t)"

lemma uart_ok_finite: "uart_ok n u \<Longrightarrow> finite (dom (ttys u))"
  by (rule finite_subset [of _ "{..< next_tty u}"]) (auto simp: uart_ok_def)

lemma put_reference_ok: "uart_ok 1 u \<Longrightarrow> uart_ok 0 (put_reference u)"
  using uart_ok_finite [of 1 u] by (auto simp: uart_ok_def put_reference_def gb_tty_exit_def Let_def card_eq_0_iff)

lemma alloc_minor_ok:
  assumes "uart_ok 1 u" "alloc_minor u a mem = (minor, u')"
  shows "uart_ok 1 u'" "ttys u' = ttys u" "next_tty u' = next_tty u"
    "0 \<le> minor \<Longrightarrow> nat minor < 16 \<and> tty_minors u (nat minor) = None \<and> u' = u\<lparr>tty_minors := (tty_minors u)(nat minor \<mapsto> a)\<rparr>"
proof -
  have "(minor < 0 \<and> u' = u) \<or> (\<exists>i < 16. minor = int i \<and> tty_minors u i = None \<and> u' = u\<lparr>tty_minors := (tty_minors u)(i \<mapsto> a)\<rparr>)"
    using assms(2) by (auto simp: alloc_minor_def find_Some_iff split: if_splits option.splits)
  then show "uart_ok 1 u'" "ttys u' = ttys u" "next_tty u' = next_tty u"
    "0 \<le> minor \<Longrightarrow> nat minor < 16 \<and> tty_minors u (nat minor) = None \<and> u' = u\<lparr>tty_minors := (tty_minors u)(nat minor \<mapsto> a)\<rparr>"
    using assms(1) by (auto simp: uart_ok_def)
qed

lemma release_new_ok:
  "uart_ok 1 u \<Longrightarrow> tty_minors u i = None \<Longrightarrow> uart_ok 1 (release_minor (u\<lparr>tty_minors := (tty_minors u)(i \<mapsto> a)\<rparr>) i)"
  by (auto simp: uart_ok_def release_minor_def)

lemma new_tty_ok: "tty_minor (new_tty e pmax delays minor) = minor \<and> \<not> disconnected (new_tty e pmax delays minor)"
  by (simp add: new_tty_def send_control_eq send_line_coding_eq Let_def)

lemma add_tty_ok:
  assumes "uart_ok 1 u" "i < 16" "tty_minors u i = None" "a < next_tty u" "ttys u a = None" "tty_minor t = i" "\<not> disconnected t"
  shows "uart_ok 0 (u\<lparr>tty_minors := (tty_minors u)(i \<mapsto> a), ttys := (ttys u)(a \<mapsto> t)\<rparr>)"
proof -
  have "card (insert a (dom (ttys u))) = card (dom (ttys u)) + 1"
    using uart_ok_finite [OF assms(1)] assms(5) by (subst card_insert_disjoint) auto
  moreover have "tty_minor t' \<noteq> i" if "ttys u b = Some t'" for b t'
    using assms(1,3) that by (auto simp: uart_ok_def)
  ultimately show ?thesis using assms by (auto simp: uart_ok_def)
qed

lemma init_ok: "uart_ok 0 u \<Longrightarrow> uart_ok 0 (snd (snd (gb_uart_connection_init u env)))"
proof -
  assume ok: "uart_ok 0 u"
  let ?u1 = "u\<lparr>reference_count := reference_count u + 1\<rparr>"
  obtain retval u2 where f: "(if reference_count ?u1 = 1 then gb_tty_init ?u1 (ui_driver_mem env) (ui_driver_ret env) else (0, ?u1)) = (retval, u2)"
    by (cases "if reference_count ?u1 = 1 then gb_tty_init ?u1 (ui_driver_mem env) (ui_driver_ret env) else (0, ?u1)")
  have fail: "retval \<noteq> 0 \<Longrightarrow> uart_ok 0 (u2\<lparr>reference_count := reference_count u2 - 1\<rparr>)"
    using f ok by (auto simp: gb_tty_init_def uart_ok_def split: if_splits)
  have ok2: "retval = 0 \<Longrightarrow> uart_ok 1 u2"
    using f ok by (auto simp: gb_tty_init_def uart_ok_def split: if_splits)
  let ?u3 = "u2\<lparr>next_tty := next_tty u2 + 1\<rparr>"
  obtain minor u4 where a: "alloc_minor ?u3 (next_tty u2) (ui_minor_mem env) = (minor, u4)"
    by (cases "alloc_minor ?u3 (next_tty u2) (ui_minor_mem env)")
  have ok3: "retval = 0 \<Longrightarrow> uart_ok 1 ?u3" using ok2 by (auto simp: uart_ok_def less_Suc_eq)
  note al = alloc_minor_ok [OF ok3 a]
  have rel: "retval = 0 \<Longrightarrow> 0 \<le> minor \<Longrightarrow> uart_ok 0 (put_reference (release_minor u4 (nat minor)))"
    using al(4) release_new_ok [OF ok3] by (auto intro: put_reference_ok)
  have new: "ttys ?u3 (next_tty u2) = None" if "retval = 0" using ok2 [OF that] by (auto simp: uart_ok_def)
  have add: "uart_ok 0 (u4\<lparr>ttys := (ttys u4)(next_tty u2 \<mapsto> new_tty e pm d (nat minor))\<rparr>)" if "retval = 0" "0 \<le> minor" for e pm d
    using al(4) [OF that] add_tty_ok [OF ok3 [OF that(1)] _ _ _ new [OF that(1)], of "nat minor" "new_tty e pm d (nat minor)"] new_tty_ok
    by simp
  show ?thesis
    unfolding gb_uart_connection_init_def Let_def f prod.case a
    using fail ok2 al(1) rel add by (auto intro: put_reference_ok)
qed

lemma exit_ok: "uart_ok 0 u \<Longrightarrow> ttys u a = Some t \<Longrightarrow> uart_ok 1 (u\<lparr>ttys := (ttys u)(a := None)\<rparr>)"
proof -
  assume ok: "uart_ok 0 u" and a: "ttys u a = Some t"
  then have "0 < card (dom (ttys u))" using uart_ok_finite [OF ok] by (auto simp: card_gt_0_iff)
  then show ?thesis using ok a by (auto simp: uart_ok_def card_Diff_singleton domI)
qed

interpretation uart: safe_machine uart_module_init uart_module_enabled uart_module_exec "uart_ok 0"
proof
  show "uart_module_init u \<Longrightarrow> uart_ok 0 u" for u by (simp add: uart_module_init_def uart_ok_def)
next
  fix u e
  assume ok: "uart_ok 0 u" and en: "uart_module_enabled u e"
  show "\<exists>u'. uart_module_exec u e = Some u' \<and> uart_ok 0 u'"
  proof (cases e)
    case (UInit env)
    then show ?thesis using init_ok [OF ok] by simp
  next
    case (UTty a ev)
    then obtain t t' where t: "ttys u a = Some t" "uart_exec t ev = Some t'" using en by auto
    then have "uart_ok 0 (u\<lparr>ttys := (ttys u)(a \<mapsto> t')\<rparr>)"
      using ok exec_fixed [OF t(2)] by (auto simp: uart_ok_def tty_fixed_def insert_absorb domI)
    then show ?thesis using UTty t by simp
  next
    case (UExit a)
    then show ?thesis using en exit_ok [OF ok] by (auto simp: gb_uart_connection_exit_def intro!: put_reference_ok)
  qed
qed

text \<open>
  C22 The tty driver is registered exactly while UART connections exist, and every connection is found:
  whatever connections are set up, fail to set up, are used and are taken down, the reference count is the number of
  connections, the tty driver is registered exactly if there is one, and the minor of each connection is below 16 and
  leads to it, so no two connections share a minor.
\<close>

theorem uart_connections_found:
  assumes "reach uart_module_init uart_module_enabled uart_module_exec u"
  shows "reference_count u = int (card (dom (ttys u))) \<and> gb_tty_driver u = (\<exists>a. ttys u a \<noteq> None) \<and>
    (\<forall>a t. ttys u a = Some t \<longrightarrow> tty_minor t < 16 \<and> gb_tty_install u (tty_minor t) 0 = Some (0, Some a))"
  using uart.reach_inv [OF assms] by (auto simp: uart_ok_def gb_tty_install_def get_gb_by_minor_def)

definition demo_uart_env :: uart_init_env where
  "demo_uart_env = \<lparr>ui_driver_mem = True, ui_driver_ret = 0, ui_tty_mem = True, ui_pmax = 8, ui_buffer_mem = True,
     ui_minor_mem = True, ui_delays = (50, 3000), ui_device_ret = 0,
     ui_link = \<lparr>replies = (\<lambda>_. (0, [])), ncalls = 0, sent = []\<rparr>\<rparr>"

definition demo_uart :: uart_module where
  "demo_uart = snd (snd (gb_uart_connection_init (snd (snd (gb_uart_connection_init
     \<lparr>tty_minors = (\<lambda>_. None), ttys = (\<lambda>_. None), next_tty = 0, reference_count = 0, gb_tty_driver = False\<rparr>
     demo_uart_env))) demo_uart_env))"

lemma demo_uart_reach: "reach uart_module_init uart_module_enabled uart_module_exec demo_uart"
  unfolding demo_uart_def
  by (rule reach_step [where e = "UInit demo_uart_env", OF reach_step [where e = "UInit demo_uart_env", OF reach_init]])
    (simp_all add: uart_module_init_def)

lemma demo_uart_fields:
  "reference_count demo_uart = 2" "\<exists>t. ttys demo_uart 0 = Some t \<and> tty_minor t = 0" "\<exists>t. ttys demo_uart 1 = Some t \<and> tty_minor t = 1"
  by (simp_all add: demo_uart_def demo_uart_env_def gb_uart_connection_init_def gb_tty_init_def alloc_minor_def upt_rec
      new_tty_def send_control_eq send_line_coding_eq Let_def)

theorem uart_connections_found_witness:
  "card (dom (ttys demo_uart)) = 2 \<and> gb_tty_driver demo_uart \<and> gb_tty_install demo_uart 1 0 = Some (0, Some 1)"
  using uart_connections_found [OF demo_uart_reach] demo_uart_fields by fastforce

text \<open>
  The minor of a connection that is taken down stays behind: if another UART connection is
  still up, installing a tty for the minor, as opening its device node does, dereferences the
  memory that was released.
\<close>

theorem uart_stale_minor_faults:
  assumes "reach uart_module_init uart_module_enabled uart_module_exec u"
    and "ttys u a = Some t" "ttys u b \<noteq> None" "a \<noteq> b"
  shows "\<exists>u'. gb_uart_connection_exit u (Some a) = Some u' \<and> gb_tty_install u' (tty_minor t) ret = None"
proof -
  have ok: "uart_ok 0 u" using uart.reach_inv [OF assms(1)] .
  have "{a, b} \<subseteq> dom (ttys u)" using assms by auto
  then have "card {a, b} \<le> card (dom (ttys u))" by (rule card_mono [OF uart_ok_finite [OF ok]])
  then have "reference_count u \<noteq> 1" using ok assms(4) by (simp add: uart_ok_def)
  then show ?thesis using assms(2) ok
    by (auto simp: gb_uart_connection_exit_def put_reference_def gb_tty_install_def get_gb_by_minor_def uart_ok_def Let_def)
qed

theorem uart_stale_minor_faults_witness:
  "\<exists>u'. gb_uart_connection_exit demo_uart (Some 0) = Some u' \<and> gb_tty_install u' 0 0 = None"
proof -
  obtain t t1 where "ttys demo_uart 0 = Some t" "tty_minor t = 0" "ttys demo_uart 1 = Some t1" using demo_uart_fields by blast
  then show ?thesis using uart_stale_minor_faults [OF demo_uart_reach, of 0 t 1 0] by simp
qed

end
