(* ===== verification/GB_SDIO.thy ===== *)
theory GB_SDIO
  imports GB_Class
begin

text \<open>
  The SD/MMC class driver (sdio.c). Requests of the kernel's MMC layer are carried out by a work item that
  sends commands and moves data in pieces that fit into one message. The constants of the
  MMC layer are constructors here, \<open>..._OTHER\<close> being any other value; a scatter list is the bytes it covers. What
  another thread does meanwhile is an argument. An operation has type \<open>'a option option\<close> when it may
  not return at all: \<open>None\<close> means that its thread never gets on (a loop without end, a
  mutex that nobody releases), \<open>Some None\<close> is a fault.
\<close>

section \<open>State\<close>

datatype mmc_cap = MMC_CAP_NONREMOVABLE | MMC_CAP_4_BIT_DATA | MMC_CAP_8_BIT_DATA | MMC_CAP_MMC_HIGHSPEED
  | MMC_CAP_SD_HIGHSPEED | MMC_CAP_ERASE | MMC_CAP_1_2V_DDR | MMC_CAP_1_8V_DDR | MMC_CAP_POWER_OFF_CARD
  | MMC_CAP_UHS_SDR12 | MMC_CAP_UHS_SDR25 | MMC_CAP_UHS_SDR50 | MMC_CAP_UHS_SDR104 | MMC_CAP_UHS_DDR50
  | MMC_CAP_DRIVER_TYPE_A | MMC_CAP_DRIVER_TYPE_C | MMC_CAP_DRIVER_TYPE_D | MMC_CAP_NEEDS_POLL
  | MMC_CAP2_HS200_1_2V_SDR | MMC_CAP2_HS400_1_2V | MMC_CAP2_HS400_1_8V | MMC_CAP2_HS200_1_8V_SDR

datatype mmc_bus_mode = MMC_BUSMODE_OPENDRAIN | MMC_BUSMODE_PUSHPULL
datatype mmc_power_mode = MMC_POWER_OFF | MMC_POWER_UP | MMC_POWER_ON | MMC_POWER_UNDEFINED | MMC_POWER_OTHER
datatype mmc_bus_width = MMC_BUS_WIDTH_1 | MMC_BUS_WIDTH_4 | MMC_BUS_WIDTH_8 | MMC_BUS_WIDTH_OTHER
datatype mmc_timing = MMC_TIMING_LEGACY | MMC_TIMING_MMC_HS | MMC_TIMING_SD_HS | MMC_TIMING_UHS_SDR12
  | MMC_TIMING_UHS_SDR25 | MMC_TIMING_UHS_SDR50 | MMC_TIMING_UHS_SDR104 | MMC_TIMING_UHS_DDR50
  | MMC_TIMING_MMC_DDR52 | MMC_TIMING_MMC_HS200 | MMC_TIMING_MMC_HS400 | MMC_TIMING_OTHER
datatype mmc_voltage = MMC_SIGNAL_VOLTAGE_330 | MMC_SIGNAL_VOLTAGE_180 | MMC_SIGNAL_VOLTAGE_120 | MMC_SIGNAL_VOLTAGE_OTHER
datatype mmc_driver = MMC_SET_DRIVER_TYPE_A | MMC_SET_DRIVER_TYPE_B | MMC_SET_DRIVER_TYPE_C | MMC_SET_DRIVER_TYPE_D
  | MMC_SET_DRIVER_TYPE_OTHER
datatype mmc_rsp = MMC_RSP_NONE | MMC_RSP_R1 | MMC_RSP_R1B | MMC_RSP_R2 | MMC_RSP_R3 | MMC_RSP_OTHER
datatype mmc_cmd_kind = MMC_CMD_BC | MMC_CMD_BCR | MMC_CMD_AC | MMC_CMD_ADTC | MMC_CMD_OTHER

record mmc_ios =
  ios_clock :: u32
  ios_vdd :: nat
  ios_bus_mode :: mmc_bus_mode
  ios_power_mode :: mmc_power_mode
  ios_bus_width :: mmc_bus_width
  ios_timing :: mmc_timing
  ios_signal_voltage :: mmc_voltage
  ios_drv_type :: mmc_driver

record mmc_command =
  opcode :: u32
  cmd_arg :: u32
  cmd_rsp :: mmc_rsp
  cmd_kind :: mmc_cmd_kind
  cmd_resp :: "u32 list"
  cmd_error :: int

record mmc_data =
  blksz :: u32
  blocks :: u32
  data_flags :: u32
  sg :: bytes
  bytes_xfered :: u32
  data_error :: int

record mmc_request =
  sbc :: "mmc_command option"
  cmd :: mmc_command
  mdata :: "mmc_data option"
  stop :: "mmc_command option"

record mmc_host =
  caps :: "mmc_cap list"
  caps2 :: "mmc_cap list"
  max_blk_size :: u32
  max_blk_count :: u32
  max_segs :: u16
  max_seg_size :: u32
  max_req_size :: u32
  ocr_avail :: u32
  mmc_ios_set :: "mmc_ios option"

text \<open>
  struct gb_sdio_host with its mmc_host; \<open>finished\<close> are the requests handed to mmc_request_done, \<open>detects\<close> the
  calls of mmc_detect_change.
\<close>

record gb_sdio_host = class_env +
  mmc :: mmc_host
  mrq :: "mmc_request option"
  host_lock :: bool
  data_max :: size_t
  xfer_buffer :: bytes
  xfer_stop :: bool
  mrqwork :: bool
  queued_events :: u8
  removed :: bool
  card_present :: bool
  read_only :: bool
  finished :: "mmc_request list"
  detects :: nat

abbreviation (input) ENOMEDIUM :: int where "ENOMEDIUM \<equiv> 123"
abbreviation (input) MMC_READ_SINGLE_BLOCK :: u32 where "MMC_READ_SINGLE_BLOCK \<equiv> 17"
abbreviation (input) MMC_WRITE_BLOCK :: u32 where "MMC_WRITE_BLOCK \<equiv> 24"
abbreviation (input) MMC_STOP_TRANSMISSION :: u32 where "MMC_STOP_TRANSMISSION \<equiv> 12"
abbreviation (input) MMC_DATA_READ :: u32 where "MMC_DATA_READ \<equiv> 0x200"
abbreviation (input) GB_SDIO_CARD_INSERTED :: u8 where "GB_SDIO_CARD_INSERTED \<equiv> 0x01"
abbreviation (input) GB_SDIO_CARD_REMOVED :: u8 where "GB_SDIO_CARD_REMOVED \<equiv> 0x02"
abbreviation (input) GB_SDIO_WP :: u8 where "GB_SDIO_WP \<equiv> 0x04"

section \<open>Capabilities\<close>

definition single_op :: "mmc_command \<Rightarrow> bool" where
  "single_op c \<longleftrightarrow> opcode c = MMC_WRITE_BLOCK \<or> opcode c = MMC_READ_SINGLE_BLOCK"

text \<open>The bits of the wire format with their meaning, in the order of the code.\<close>

definition cap_table :: "(u32 \<times> mmc_cap) list" where
  "cap_table =
     [(0x00001, MMC_CAP_NONREMOVABLE), (0x00002, MMC_CAP_4_BIT_DATA), (0x00004, MMC_CAP_8_BIT_DATA),
      (0x00008, MMC_CAP_MMC_HIGHSPEED), (0x00010, MMC_CAP_SD_HIGHSPEED), (0x00020, MMC_CAP_ERASE),
      (0x00040, MMC_CAP_1_2V_DDR), (0x00080, MMC_CAP_1_8V_DDR), (0x00100, MMC_CAP_POWER_OFF_CARD),
      (0x00200, MMC_CAP_UHS_SDR12), (0x00400, MMC_CAP_UHS_SDR25), (0x00800, MMC_CAP_UHS_SDR50),
      (0x01000, MMC_CAP_UHS_SDR104), (0x02000, MMC_CAP_UHS_DDR50), (0x04000, MMC_CAP_DRIVER_TYPE_A),
      (0x08000, MMC_CAP_DRIVER_TYPE_C), (0x10000, MMC_CAP_DRIVER_TYPE_D)]"

definition cap2_table :: "(u32 \<times> mmc_cap) list" where
  "cap2_table =
     [(0x020000, MMC_CAP2_HS200_1_2V_SDR), (0x080000, MMC_CAP2_HS400_1_2V), (0x100000, MMC_CAP2_HS400_1_8V),
      (0x040000, MMC_CAP2_HS200_1_8V_SDR)]"

definition select_caps :: "(u32 \<times> mmc_cap) list \<Rightarrow> u32 \<Rightarrow> mmc_cap list" where
  "select_caps tab r = map snd (filter (\<lambda>(b, _). r AND b \<noteq> 0) tab)"

definition gb_sdio_set_host_caps :: "gb_sdio_host \<Rightarrow> u32 \<Rightarrow> gb_sdio_host" where
  "gb_sdio_set_host_caps h r =
     (let cs = select_caps cap_table r;
          h1 = h\<lparr>mmc := (mmc h)\<lparr>caps := cs @ [MMC_CAP_NEEDS_POLL], caps2 := select_caps cap2_table r\<rparr>\<rparr>
      in if MMC_CAP_NONREMOVABLE \<in> set cs then h1\<lparr>card_present := True\<rparr> else h1)"

definition rounddown_pow_of_two :: "u32 \<Rightarrow> u32" where
  "rounddown_pow_of_two n = last (filter (\<lambda>p. p \<le> n) (map (\<lambda>i. push_bit i 1) [0..<32]))"

text \<open>The largest amount of data in a transfer message: in 16 bits, computed from size_t.\<close>

definition sdio_data_max :: "size_t \<Rightarrow> u16" where
  "sdio_data_max pmax = (let dm = (ucast (ucast pmax :: u16) :: size_t) in ucast (min (dm - 5) (dm - 4)))"

definition gb_sdio_get_caps :: "gb_sdio_host \<Rightarrow> size_t \<Rightarrow> int \<times> gb_sdio_host" where
  "gb_sdio_get_caps h pmax =
     (case gb_sync 0x02 [] 12 h of ((ret, resp), h1) \<Rightarrow>
        if ret < 0 then (ret, h1)
        else
          let h2 = gb_sdio_set_host_caps h1 (le32_to_cpu (resp ! 0) (resp ! 1) (resp ! 2) (resp ! 3));
              ocr = le32_to_cpu (resp ! 4) (resp ! 5) (resp ! 6) (resp ! 7);
              blk_count = le16_to_cpu (resp ! 8) (resp ! 9);
              blk_size = le16_to_cpu (resp ! 10) (resp ! 11);
              dmax = sdio_data_max pmax;
              bsz = max 512 (ucast (min blk_size dmax) :: u32)
          in (0, h2\<lparr>mmc := (mmc h2)\<lparr>max_blk_size := rounddown_pow_of_two bsz, max_blk_count := ucast blk_count, ocr_avail := ocr\<rparr>,
                    data_max := ucast dmax\<rparr>))"

section \<open>Events\<close>

definition gb_queue_event :: "u8 \<Rightarrow> gb_sdio_host \<Rightarrow> gb_sdio_host" where
  "gb_queue_event event h =
     (let q = (if event AND GB_SDIO_CARD_INSERTED \<noteq> 0 then queued_events h AND NOT GB_SDIO_CARD_REMOVED
               else if event AND GB_SDIO_CARD_REMOVED \<noteq> 0 then queued_events h AND NOT GB_SDIO_CARD_INSERTED
               else queued_events h)
      in h\<lparr>queued_events := q OR event\<rparr>)"

definition mmc_card_is_removable :: "gb_sdio_host \<Rightarrow> bool" where
  "mmc_card_is_removable h \<longleftrightarrow> MMC_CAP_NONREMOVABLE \<notin> set (caps (mmc h))"

definition gb_sdio_process_events :: "gb_sdio_host \<Rightarrow> u8 \<Rightarrow> int \<times> gb_sdio_host" where
  "gb_sdio_process_events h event =
     (if event AND GB_SDIO_CARD_INSERTED \<noteq> 0 \<and> (\<not> mmc_card_is_removable h \<or> card_present h) then (0, h)
      else
        let ins = event AND GB_SDIO_CARD_INSERTED \<noteq> 0;
            h1 = (if ins then h\<lparr>card_present := True\<rparr> else h)
        in if event AND GB_SDIO_CARD_REMOVED \<noteq> 0 \<and> (\<not> mmc_card_is_removable h1 \<or> \<not> card_present h1) then (0, h1)
        else
          let rem = event AND GB_SDIO_CARD_REMOVED \<noteq> 0;
              h2 = (if rem then h1\<lparr>card_present := False\<rparr> else h1);
              h3 = (if event AND GB_SDIO_WP \<noteq> 0 then h2\<lparr>read_only := True\<rparr> else h2)
          in (0, if ins \<or> rem then h3\<lparr>detects := detects h3 + 1\<rparr> else h3))"

definition gb_sdio_event_recv :: "gb_sdio_host \<Rightarrow> u8 \<Rightarrow> gb_operation \<Rightarrow> (int \<times> gb_sdio_host) option" where
  "gb_sdio_event_recv h ty op =
     (if ty \<noteq> 0x06 then Some (- EINVAL, h)
      else if payload_size (request op) < 1 then Some (- EINVAL, h)
      else do {
        event \<leftarrow> rd8 (buffer (request op)) HDR_SIZE;
        Some (if removed h then (0, gb_queue_event event h) else gb_sdio_process_events h event)
      })"

section \<open>Data\<close>

text \<open>sg_pcopy_to_buffer and sg_pcopy_from_buffer copy as much as the scatter list has behind \<open>skip\<close>.\<close>

definition sg_out :: "bytes \<Rightarrow> nat \<Rightarrow> nat \<Rightarrow> bytes" where
  "sg_out s len skip = take len (drop skip s)"

definition sg_in :: "bytes \<Rightarrow> bytes \<Rightarrow> nat \<Rightarrow> bytes \<times> nat" where
  "sg_in s b skip = (let n = min (length b) (length s - skip) in (take skip s @ take n b @ drop (skip + n) s, n))"

definition transfer_header :: "mmc_data \<Rightarrow> u16 \<Rightarrow> bytes" where
  "transfer_header d nblocks = [ucast (drop_bit 8 (data_flags d))] @ cpu_to_le16 nblocks @ cpu_to_le16 (ucast (blksz d))"

text \<open>The number of bytes a response confirms: an int product, compared as a size_t.\<close>

definition confirmed :: "u16 \<Rightarrow> u16 \<Rightarrow> size_t" where
  "confirmed n sz = scast (ucast sz * ucast n :: u32)"

definition gb_sdio_send :: "gb_sdio_host \<Rightarrow> mmc_data \<Rightarrow> size_t \<Rightarrow> u16 \<Rightarrow> nat \<Rightarrow> (int \<times> gb_sdio_host) option" where
  "gb_sdio_send h d len nblocks skip = do {
     b1 \<leftarrow> wr_bytes (xfer_buffer h) 0 (transfer_header d nblocks);
     let copy = sg_out (sg d) (unat len) skip;
     b2 \<leftarrow> wr_bytes b1 5 copy;
     let h1 = h\<lparr>xfer_buffer := b2\<rparr>;
     if length copy \<noteq> unat len then Some (- EINVAL, h1)
     else do {
       req \<leftarrow> rd_bytes b2 0 (unat len + 5);
       (case gb_sync 0x05 req 4 h1 of ((ret, resp), h2) \<Rightarrow>
          Some (if ret < 0 then (ret, h2)
                else if len \<noteq> confirmed (le16_to_cpu (resp ! 0) (resp ! 1)) (le16_to_cpu (resp ! 2) (resp ! 3)) then (- EINVAL, h2)
                else (ret, h2)))
     }
   }"

definition gb_sdio_recv ::
  "gb_sdio_host \<Rightarrow> mmc_data \<Rightarrow> size_t \<Rightarrow> u16 \<Rightarrow> nat \<Rightarrow> (int \<times> gb_sdio_host \<times> mmc_data) option" where
  "gb_sdio_recv h d len nblocks skip =
     (case gb_sync 0x05 (transfer_header d nblocks) (unat len + 4) h of ((ret, resp), h1) \<Rightarrow>
        if ret < 0 then Some (ret, h1, d)
        else do {
          b \<leftarrow> wr_bytes (xfer_buffer h1) 0 resp;
          let h2 = h1\<lparr>xfer_buffer := b\<rparr>;
          if len \<noteq> confirmed (le16_to_cpu (resp ! 0) (resp ! 1)) (le16_to_cpu (resp ! 2) (resp ! 3)) then Some (- EINVAL, h2, d)
          else case sg_in (sg d) (drop 4 resp) skip of (s, copied) \<Rightarrow>
            Some (if copied \<noteq> unat len then - EINVAL else 0, h2, d\<lparr>sg := s\<rparr>)
        })"

text \<open>
  One turn of the loop of gb_sdio_transfer: whether another thread has asked to stop, the rest to do and the offset
  reached are given; the loop ends, or goes on with less to do.
\<close>

datatype sdio_turn = Ended int gb_sdio_host mmc_data | Again int gb_sdio_host mmc_data size_t nat

definition transfer_turn :: "bool \<Rightarrow> gb_sdio_host \<Rightarrow> mmc_data \<Rightarrow> size_t \<Rightarrow> nat \<Rightarrow> sdio_turn option" where
  "transfer_turn stp h0 d left skip =
     (let h = (if stp then h0\<lparr>xfer_stop := True\<rparr> else h0) in
      if xfer_stop h then Some (Ended (- EINTR) (h\<lparr>xfer_stop := False\<rparr>) d)
      else
        let len0 = min left (data_max h);
            nblocks = (ucast (len0 div ucast (blksz d)) :: u16);
            len = (ucast (ucast nblocks * blksz d :: u32) :: size_t)
        in do {
          (ret, h1, d1) \<leftarrow> (if data_flags d AND MMC_DATA_READ \<noteq> 0 then gb_sdio_recv h d len nblocks skip
                           else do { (ret, h1) \<leftarrow> gb_sdio_send h d len nblocks skip; Some (ret, h1, d) });
          if ret < 0 then Some (Ended ret h1 d1)
          else Some (Again ret h1 (d1\<lparr>bytes_xfered := bytes_xfered d1 + ucast len\<rparr>) (left - len) (skip + unat len))
        })"

partial_function (option) transfer_loop ::
  "(nat \<Rightarrow> bool) \<Rightarrow> int \<Rightarrow> gb_sdio_host \<Rightarrow> mmc_data \<Rightarrow> size_t \<Rightarrow> nat \<Rightarrow> (int \<times> gb_sdio_host \<times> mmc_data) option option" where
  "transfer_loop stops ret h d left skip =
     (if left = 0 then Some (Some (ret, h, d))
      else case transfer_turn (stops 0) h d left skip of
        None \<Rightarrow> Some None
      | Some (Ended ret1 h1 d1) \<Rightarrow> Some (Some (ret1, h1, d1))
      | Some (Again ret1 h1 d1 left1 skip1) \<Rightarrow> transfer_loop (\<lambda>i. stops (Suc i)) ret1 h1 d1 left1 skip1)"

text \<open>
  gb_sdio_transfer; \<open>stops i\<close> says whether a request to stop arrives before turn \<open>i\<close>. \<open>c\<close> is the command of the
  request the data belongs to.
\<close>

definition gb_sdio_transfer ::
  "(nat \<Rightarrow> bool) \<Rightarrow> gb_sdio_host \<Rightarrow> mmc_command \<Rightarrow> mmc_data \<Rightarrow> (int \<times> gb_sdio_host \<times> mmc_data) option option" where
  "gb_sdio_transfer stops h c d =
     (if single_op c \<and> 1 < blocks d then Some (Some (- ETIMEDOUT, h, d\<lparr>data_error := - ETIMEDOUT\<rparr>))
      else map_option (map_option (\<lambda>(ret, h1, d1). (ret, h1, d1\<lparr>data_error := ret\<rparr>)))
             (transfer_loop stops 0 h d (ucast (blksz d * blocks d)) 0))"

section \<open>Commands\<close>

definition cmd_flags_of :: "mmc_rsp \<Rightarrow> u8 option" where
  "cmd_flags_of r = (case r of MMC_RSP_NONE \<Rightarrow> Some 0x00 | MMC_RSP_R1 \<Rightarrow> Some 0x15 | MMC_RSP_R1B \<Rightarrow> Some 0x1d
     | MMC_RSP_R2 \<Rightarrow> Some 0x07 | MMC_RSP_R3 \<Rightarrow> Some 0x01 | MMC_RSP_OTHER \<Rightarrow> None)"

definition cmd_type_of :: "mmc_cmd_kind \<Rightarrow> u8 option" where
  "cmd_type_of k = (case k of MMC_CMD_BC \<Rightarrow> Some 0x02 | MMC_CMD_BCR \<Rightarrow> Some 0x03 | MMC_CMD_AC \<Rightarrow> Some 0x00
     | MMC_CMD_ADTC \<Rightarrow> Some 0x01 | MMC_CMD_OTHER \<Rightarrow> None)"

abbreviation (input) GB_SDIO_RSP_NONE :: u8 where "GB_SDIO_RSP_NONE \<equiv> 0x00"
abbreviation (input) GB_SDIO_RSP_R2 :: u8 where "GB_SDIO_RSP_R2 \<equiv> 0x07"

definition resp_word :: "bytes \<Rightarrow> nat \<Rightarrow> u32" where
  "resp_word b i = le32_to_cpu (b ! (4 * i)) (b ! (4 * i + 1)) (b ! (4 * i + 2)) (b ! (4 * i + 3))"

definition gb_sdio_command :: "gb_sdio_host \<Rightarrow> mmc_command \<Rightarrow> int \<times> gb_sdio_host \<times> mmc_command" where
  "gb_sdio_command h c =
     (case cmd_flags_of (cmd_rsp c) of None \<Rightarrow> (- EINVAL, h, c\<lparr>cmd_error := - EINVAL\<rparr>)
      | Some cflags \<Rightarrow>
      case cmd_type_of (cmd_kind c) of None \<Rightarrow> (- EINVAL, h, c\<lparr>cmd_error := - EINVAL\<rparr>)
      | Some ctype \<Rightarrow>
      case gb_sync 0x04 ([ucast (opcode c), cflags, ctype] @ cpu_to_le32 (cmd_arg c)) 16 h of ((ret, resp), h1) \<Rightarrow>
        let c1 = (if ret < 0 \<or> cflags AND GB_SDIO_RSP_NONE \<noteq> 0 then c
                  else if cflags AND GB_SDIO_RSP_R2 \<noteq> 0 then c\<lparr>cmd_resp := map (resp_word resp) [0..<4]\<rparr>
                  else c\<lparr>cmd_resp := (cmd_resp c)[0 := resp_word resp 0]\<rparr>)
        in (ret, h1, c1\<lparr>cmd_error := ret\<rparr>))"

section \<open>Requests\<close>

text \<open>
  The body of gb_sdio_mrq_work behind the checks: the commands and data of the request in order, until one fails.
\<close>

definition mrq_body :: "(nat \<Rightarrow> bool) \<Rightarrow> gb_sdio_host \<Rightarrow> mmc_request \<Rightarrow> (gb_sdio_host \<times> mmc_request) option option" where
  "mrq_body stops h m =
     (case (case sbc m of None \<Rightarrow> (0, h, None) | Some c \<Rightarrow>
              (case gb_sdio_command h c of (ret, h1, c1) \<Rightarrow> (ret, h1, Some c1))) of (r1, h1, sbc1) \<Rightarrow>
      let m1 = m\<lparr>sbc := sbc1\<rparr> in
      if r1 < 0 then Some (Some (h1, m1))
      else case gb_sdio_command h1 (cmd m) of (r2, h2, c2) \<Rightarrow>
      let m2 = m1\<lparr>cmd := c2\<rparr> in
      if r2 < 0 then Some (Some (h2, m2))
      else case (case mdata m of None \<Rightarrow> Some (Some (0, h2, None)) | Some d \<Rightarrow>
                   map_option (map_option (\<lambda>(r, h, d). (r, h, Some d))) (gb_sdio_transfer stops h2 c2 d)) of
        None \<Rightarrow> None
      | Some None \<Rightarrow> Some None
      | Some (Some (r3, h3, d3)) \<Rightarrow>
      let m3 = m2\<lparr>mdata := d3\<rparr> in
      if r3 < 0 then Some (Some (h3, m3))
      else case stop m of None \<Rightarrow> Some (Some (h3, m3))
      | Some c \<Rightarrow> (case gb_sdio_command h3 c of (r4, h4, c4) \<Rightarrow> Some (Some (h4, m3\<lparr>stop := Some c4\<rparr>))))"

text \<open>
  gb_sdio_mrq_work. The mutex is taken first; a thread that finds it held waits for good if its holder has left.
\<close>

definition gb_sdio_mrq_work :: "(nat \<Rightarrow> bool) \<Rightarrow> gb_sdio_host \<Rightarrow> gb_sdio_host option option" where
  "gb_sdio_mrq_work stops h0 =
     (let h = h0\<lparr>mrqwork := False\<rparr> in
      if host_lock h then None
      else case mrq h of None \<Rightarrow> Some (Some h)
      | Some m \<Rightarrow>
          if removed h
          then Some (Some (h\<lparr>mrq := None, finished := finished h @ [m\<lparr>cmd := (cmd m)\<lparr>cmd_error := - ESHUTDOWN\<rparr>\<rparr>]\<rparr>))
          else case mrq_body stops h m of
            None \<Rightarrow> None
          | Some None \<Rightarrow> Some None
          | Some (Some (h1, m1)) \<Rightarrow> Some (Some (h1\<lparr>mrq := None, finished := finished h1 @ [m1]\<rparr>)))"

definition gb_mmc_request :: "gb_sdio_host \<Rightarrow> mmc_request \<Rightarrow> gb_sdio_host option" where
  "gb_mmc_request h m =
     (let h1 = (if opcode (cmd m) = MMC_STOP_TRANSMISSION then h\<lparr>xfer_stop := True\<rparr> else h) in
      if host_lock h1 then None
      else if removed h1
      then Some (h1\<lparr>mrq := None, finished := finished h1 @ [m\<lparr>cmd := (cmd m)\<lparr>cmd_error := - ESHUTDOWN\<rparr>\<rparr>]\<rparr>)
      else if \<not> card_present h1
      then Some (h1\<lparr>mrq := None, finished := finished h1 @ [m\<lparr>cmd := (cmd m)\<lparr>cmd_error := - ENOMEDIUM\<rparr>\<rparr>]\<rparr>)
      else Some (h1\<lparr>mrq := Some m, mrqwork := True\<rparr>))"

text \<open>struct gb_sdio_set_ios_request, filled in as gb_mmc_set_ios does.\<close>

definition ios_bytes :: "mmc_ios \<Rightarrow> bytes" where
  "ios_bytes i =
     cpu_to_le32 (ios_clock i) @ cpu_to_le32 (push_bit (ios_vdd i) 1) @
     [case ios_bus_mode i of MMC_BUSMODE_OPENDRAIN \<Rightarrow> 0x00 | _ \<Rightarrow> 0x01,
      case ios_power_mode i of MMC_POWER_UP \<Rightarrow> 0x01 | MMC_POWER_ON \<Rightarrow> 0x02 | MMC_POWER_UNDEFINED \<Rightarrow> 0x03 | _ \<Rightarrow> 0x00,
      case ios_bus_width i of MMC_BUS_WIDTH_1 \<Rightarrow> 0x00 | MMC_BUS_WIDTH_8 \<Rightarrow> 0x03 | _ \<Rightarrow> 0x02,
      case ios_timing i of MMC_TIMING_MMC_HS \<Rightarrow> 0x01 | MMC_TIMING_SD_HS \<Rightarrow> 0x02 | MMC_TIMING_UHS_SDR12 \<Rightarrow> 0x03
        | MMC_TIMING_UHS_SDR25 \<Rightarrow> 0x04 | MMC_TIMING_UHS_SDR50 \<Rightarrow> 0x05 | MMC_TIMING_UHS_SDR104 \<Rightarrow> 0x06
        | MMC_TIMING_UHS_DDR50 \<Rightarrow> 0x07 | MMC_TIMING_MMC_DDR52 \<Rightarrow> 0x08 | MMC_TIMING_MMC_HS200 \<Rightarrow> 0x09
        | MMC_TIMING_MMC_HS400 \<Rightarrow> 0x0a | _ \<Rightarrow> 0x00,
      case ios_signal_voltage i of MMC_SIGNAL_VOLTAGE_330 \<Rightarrow> 0x00 | MMC_SIGNAL_VOLTAGE_120 \<Rightarrow> 0x02 | _ \<Rightarrow> 0x01,
      case ios_drv_type i of MMC_SET_DRIVER_TYPE_A \<Rightarrow> 0x01 | MMC_SET_DRIVER_TYPE_C \<Rightarrow> 0x02 | MMC_SET_DRIVER_TYPE_D \<Rightarrow> 0x03 | _ \<Rightarrow> 0x00]"

definition gb_sdio_set_ios :: "gb_sdio_host \<Rightarrow> bytes \<Rightarrow> int \<times> gb_sdio_host" where
  "gb_sdio_set_ios h req = (case gb_sync 0x03 req 0 h of ((ret, _), h1) \<Rightarrow> (ret, h1))"

definition gb_mmc_set_ios :: "gb_sdio_host \<Rightarrow> mmc_ios \<Rightarrow> gb_sdio_host option" where
  "gb_mmc_set_ios h i =
     (if host_lock h then None
      else case gb_sdio_set_ios h (ios_bytes i) of (ret, h1) \<Rightarrow>
        Some (if ret < 0 then h1 else h1\<lparr>mmc := (mmc h1)\<lparr>mmc_ios_set := Some i\<rparr>\<rparr>))"

text \<open>gb_mmc_get_ro and gb_mmc_get_cd return with the mutex held when the host is being removed.\<close>

definition gb_mmc_get_ro :: "gb_sdio_host \<Rightarrow> (int \<times> gb_sdio_host) option" where
  "gb_mmc_get_ro h =
     (if host_lock h then None
      else if removed h then Some (- ESHUTDOWN, h\<lparr>host_lock := True\<rparr>)
      else Some (if read_only h then 1 else 0, h))"

definition gb_mmc_get_cd :: "gb_sdio_host \<Rightarrow> (int \<times> gb_sdio_host) option" where
  "gb_mmc_get_cd h =
     (if host_lock h then None
      else if removed h then Some (- ESHUTDOWN, h\<lparr>host_lock := True\<rparr>)
      else Some (if card_present h then 1 else 0, h))"

section \<open>Connections\<close>

definition blank_mmc :: mmc_host where
  "blank_mmc = \<lparr>caps = [], caps2 = [], max_blk_size = 0, max_blk_count = 0, max_segs = 0, max_seg_size = 0, max_req_size = 0,
     ocr_avail = 0, mmc_ios_set = None\<rparr>"

definition blank_host :: "class_env \<Rightarrow> gb_sdio_host" where
  "blank_host e = \<lparr>replies = replies e, ncalls = ncalls e, sent = sent e, mmc = blank_mmc, mrq = None, host_lock = False,
     data_max = 0, xfer_buffer = [], xfer_stop = False, mrqwork = False, queued_events = 0, removed = True, card_present = False,
     read_only = False, finished = [], detects = 0\<rparr>"

text \<open>
  gb_sdio_connection_init: \<open>mem\<close> and \<open>buf_mem\<close> are the two allocations, \<open>early\<close> the events that
  arrive before the host is added, \<open>add_ret\<close> the result of mmc_add_host. The host becomes the
  private data of the connection on success; the processing of early events always reports 0.
\<close>

definition gb_sdio_connection_init ::
  "class_env \<Rightarrow> size_t \<Rightarrow> bool \<Rightarrow> bool \<Rightarrow> u8 list \<Rightarrow> int \<Rightarrow> int \<times> gb_sdio_host option" where
  "gb_sdio_connection_init e pmax mem buf_mem early add_ret =
     (if \<not> mem then (- ENOMEM, None)
      else case gb_sdio_get_caps (blank_host e) pmax of (ret, h) \<Rightarrow>
        if ret < 0 then (ret, None)
        else
          let m = mmc h;
              h1 = h\<lparr>mmc := m\<lparr>max_segs := ucast (max_blk_count m), max_seg_size := max_blk_size m,
                               max_req_size := max_blk_size m * max_blk_count m\<rparr>\<rparr>
          in if \<not> buf_mem then (- ENOMEM, None)
          else
            let h2 = fold gb_queue_event early (h1\<lparr>xfer_buffer := replicate (unat pmax) 0\<rparr>)
            in if add_ret < 0 then (add_ret, None)
            else case gb_sdio_process_events (h2\<lparr>removed := False\<rparr>) (queued_events h2) of (ret, h3) \<Rightarrow>
              (ret, Some (h3\<lparr>queued_events := 0\<rparr>)))"

text \<open>
  gb_sdio_connection_exit: the mutex, then flush_workqueue runs the work that is still queued; what becomes of
  the requests in flight is the result.
\<close>

definition gb_sdio_connection_exit :: "(nat \<Rightarrow> bool) \<Rightarrow> gb_sdio_host option \<Rightarrow> mmc_request list option option" where
  "gb_sdio_connection_exit stops private =
     (case private of None \<Rightarrow> Some (Some [])
      | Some h \<Rightarrow>
          if host_lock h then None
          else
            let h1 = h\<lparr>removed := True\<rparr> in
            if mrqwork h1 then map_option (map_option finished) (gb_sdio_mrq_work stops h1) else Some (Some (finished h1)))"

end
