(* ===== verification/GB_SDIO_Props.thy ===== *)
theory GB_SDIO_Props
  imports GB_SDIO
begin

text \<open>
  What sdio.c promises: data is moved completely, in pieces that fit, and the loop that moves it ends when a block
  fits into a message; every request is finished once; early events leave the card state that processing them at once
  would leave. And where it fails: the loop without end on small connections, the stop that outlives its transfer,
  the mutex that is not released.
\<close>

section \<open>One piece of a transfer\<close>

text \<open>What no piece of a transfer touches.\<close>

definition host_frame :: "gb_sdio_host \<Rightarrow> size_t \<times> nat \<times> bool \<times> bool \<times> bool \<times> mmc_request option \<times> mmc_request list" where
  "host_frame h = (data_max h, length (xfer_buffer h), xfer_stop h, removed h, host_lock h, mrq h, finished h)"

text \<open>A host and data for which the loop makes progress.\<close>

definition sdio_fits :: "gb_sdio_host \<Rightarrow> mmc_data \<Rightarrow> bool" where
  "sdio_fits h d \<longleftrightarrow> 0 < unat (blksz d) \<and> unat (blksz d) \<le> unat (data_max h) \<and> unat (data_max h) \<le> 65535 \<and>
     unat (data_max h) + 5 \<le> length (xfer_buffer h)"



lemma unat_min_size: "unat (min a b) = min (unat a) (unat b)" for a b :: size_t
  by (simp add: min_def word_le_nat_alt)

lemma unat_u16_u32: "unat (ucast (w :: u16) :: u32) = unat w"
  using unat_le16_bound [of w] by (simp add: unsigned_ucast_eq take_bit_nat_eq_self)


text \<open>How many blocks a piece has on the wire.\<close>

definition piece_blocks :: "gb_sdio_host \<Rightarrow> mmc_data \<Rightarrow> size_t \<Rightarrow> u16" where
  "piece_blocks h d left = ucast (min left (data_max h) div ucast (blksz d))"

definition piece_len :: "gb_sdio_host \<Rightarrow> mmc_data \<Rightarrow> size_t \<Rightarrow> size_t" where
  "piece_len h d left = ucast (ucast (piece_blocks h d left) * blksz d :: u32)"


lemma length_transfer_header [simp]: "length (transfer_header d n) = 5"
  by (simp add: transfer_header_def)



section \<open>Whole transfers\<close>


lemma loop_ended:
  assumes "left \<noteq> 0" "transfer_turn (stops 0) h d left skip = Some (Ended ret1 h1 d1)"
  shows "transfer_loop stops ret h d left skip = Some (Some (ret1, h1, d1))"
  using assms by (subst transfer_loop.simps) simp

lemma turn_runs:
  assumes "\<not> xfer_stop h"
  shows "transfer_turn False h d left skip =
    (do { (ret, h1, d1) \<leftarrow> (if data_flags d AND MMC_DATA_READ \<noteq> 0 then gb_sdio_recv h d (piece_len h d left) (piece_blocks h d left) skip
            else do { (ret, h1) \<leftarrow> gb_sdio_send h d (piece_len h d left) (piece_blocks h d left) skip; Some (ret, h1, d) });
          if ret < 0 then Some (Ended ret h1 d1)
          else Some (Again ret h1 (d1\<lparr>bytes_xfered := bytes_xfered d1 + ucast (piece_len h d left)\<rparr>)
                 (left - piece_len h d left) (skip + unat (piece_len h d left))) })"
  unfolding transfer_turn_def Let_def piece_len_def piece_blocks_def by (simp only: if_False assms)











definition demo_env :: "bytes list \<Rightarrow> class_env" where
  "demo_env rs = \<lparr>replies = (\<lambda>i. (0, if i < length rs then rs ! i else [])), ncalls = 0, sent = []\<rparr>"


definition demo_cmd :: "u32 \<Rightarrow> mmc_command" where
  "demo_cmd n = \<lparr>opcode = n, cmd_arg = 0, cmd_rsp = MMC_RSP_R1, cmd_kind = MMC_CMD_ADTC, cmd_resp = [0, 0, 0, 0], cmd_error = 0\<rparr>"



section \<open>Small connections\<close>

text \<open>A turn that moves nothing, when a block does not fit and the module confirms that.\<close>

lemma empty_turn:
  assumes "unat (data_max h) < unat (blksz d)" "5 \<le> length (xfer_buffer h)" "\<not> xfer_stop h"
    and "replies h (ncalls h) = (0, [])"
  obtains h1 where "transfer_turn False h d left 0 = Some (Again 0 h1 d left 0)" "data_max h1 = data_max h"
    "length (xfer_buffer h1) = length (xfer_buffer h)" "xfer_stop h1 = xfer_stop h" "replies h1 = replies h" "ncalls h1 = ncalls h + 1"
proof -
  have q: "min (unat left) (unat (data_max h)) div unat (blksz d) = 0" using assms(1) by simp
  have "unat (min left (data_max h) div ucast (blksz d)) = 0" by (simp add: unat_div_distrib unat_min_size q)
  then have n: "piece_blocks h d left = 0" unfolding piece_blocks_def by (metis ucast_0 unat_eq_zero)
  then have l: "piece_len h d left = 0" by (simp add: piece_len_def)
  have b: "wr_bytes (xfer_buffer h) 0 (transfer_header d 0) = Some (transfer_header d 0 @ drop 5 (xfer_buffer h))"
    "wr_bytes (transfer_header d 0 @ drop 5 (xfer_buffer h)) 5 [] = Some (transfer_header d 0 @ drop 5 (xfer_buffer h))"
    "rd_bytes (transfer_header d 0 @ drop 5 (xfer_buffer h)) 0 5 = Some (transfer_header d 0)"
    using assms(2) by (simp_all add: wr_bytes_def rd_bytes_def)
  have z: "confirmed 0 0 = 0" by (simp add: confirmed_def)
  let ?h = "\<lambda>req buf. h\<lparr>ncalls := ncalls h + 1, sent := sent h @ [\<lparr>x_type = 5, x_req = req, x_ret = 0, x_resp = replicate 4 0\<rparr>], xfer_buffer := buf\<rparr>"
  have s: "gb_sdio_send h d 0 0 0 = Some (0, ?h (transfer_header d 0) (transfer_header d 0 @ drop 5 (xfer_buffer h)))"
    using b z assms(4) by (simp add: gb_sdio_send_def sg_out_def gb_sync_def Let_def nth_replicate)
  have r: "gb_sdio_recv h d 0 0 0 = Some (0, ?h (transfer_header d 0) (replicate 4 0 @ drop 4 (xfer_buffer h)), d)"
    using z assms(2,4) by (simp add: gb_sdio_recv_def gb_sync_def Let_def nth_replicate sg_in_def wr_bytes_def)
  show ?thesis
  proof (cases "data_flags d AND MMC_DATA_READ = 0")
    case True
    show ?thesis by (rule that [of "?h (transfer_header d 0) (transfer_header d 0 @ drop 5 (xfer_buffer h))"])
      (use True s assms(2) in \<open>simp_all add: turn_runs [OF assms(3)] n l\<close>)
  next
    case False
    show ?thesis by (rule that [of "?h (transfer_header d 0) (replicate 4 0 @ drop 4 (xfer_buffer h))"])
      (use False r assms(2) in \<open>simp_all add: turn_runs [OF assms(3)] n l\<close>)
  qed
qed

definition stalled :: "(nat \<Rightarrow> bool) \<Rightarrow> gb_sdio_host \<Rightarrow> mmc_data \<Rightarrow> size_t \<Rightarrow> nat \<Rightarrow> bool" where
  "stalled stops h d left skip \<longleftrightarrow> unat (data_max h) < unat (blksz d) \<and> 5 \<le> length (xfer_buffer h) \<and> \<not> xfer_stop h \<and> left \<noteq> 0 \<and>
    skip = 0 \<and> (\<forall>i \<ge> ncalls h. replies h i = (0, [])) \<and> (\<forall>i. \<not> stops i)"

lemma stalled_turn:
  assumes "stalled stops h d left skip"
  obtains h1 where "transfer_turn (stops 0) h d left skip = Some (Again 0 h1 d left skip)" "stalled (\<lambda>i. stops (Suc i)) h1 d left skip"
proof -
  from assms have a: "unat (data_max h) < unat (blksz d)" "5 \<le> length (xfer_buffer h)" "\<not> xfer_stop h" "replies h (ncalls h) = (0, [])"
    by (auto simp: stalled_def)
  obtain h1 where "transfer_turn False h d left 0 = Some (Again 0 h1 d left 0)" "data_max h1 = data_max h"
    "length (xfer_buffer h1) = length (xfer_buffer h)" "xfer_stop h1 = xfer_stop h" "replies h1 = replies h" "ncalls h1 = ncalls h + 1"
    by (rule empty_turn [OF a])
  then show ?thesis using that [of h1] assms by (auto simp: stalled_def)
qed

lemma loop_endless:
  assumes "transfer_loop stops ret h d left skip = Some y"
  shows "\<not> stalled stops h d left skip"
proof (rule transfer_loop.raw_induct [where P = "\<lambda>stops ret h d left skip y. \<not> stalled stops h d left skip", OF _ assms])
  fix f stops ret h d left skip y
  assume IH: "\<And>stops ret h d left skip y. f stops ret h d left skip = Some y \<Longrightarrow> \<not> stalled stops h d left skip"
    and eq: "(if left = 0 then Some (Some (ret, h, d))
      else case transfer_turn (stops 0) h d left skip of None \<Rightarrow> Some None
        | Some (Ended ret1 h1 d1) \<Rightarrow> Some (Some (ret1, h1, d1))
        | Some (Again ret1 h1 d1 left1 skip1) \<Rightarrow> f (\<lambda>i. stops (Suc i)) ret1 h1 d1 left1 skip1) = Some y"
  show "\<not> stalled stops h d left skip"
  proof
    assume s: "stalled stops h d left skip"
    obtain h1 where h1: "transfer_turn (stops 0) h d left skip = Some (Again 0 h1 d left skip)" "stalled (\<lambda>i. stops (Suc i)) h1 d left skip"
      by (rule stalled_turn [OF s])
    have "f (\<lambda>i. stops (Suc i)) 0 h1 d left skip = Some y" using eq h1(1) s by (simp add: stalled_def)
    then show False using IH h1(2) by blast
  qed
qed

lemma queue_events_frame: "\<exists>q. fold gb_queue_event es h = h\<lparr>queued_events := q\<rparr>"
proof (induction es arbitrary: h)
  case Nil
  have "h = h\<lparr>queued_events := queued_events h\<rparr>" by simp
  then show ?case by (metis fold_simps(1))
next
  case (Cons e es)
  obtain q where "gb_queue_event e h = h\<lparr>queued_events := q\<rparr>" by (simp add: gb_queue_event_def Let_def)
  then show ?case using Cons.IH [of "h\<lparr>queued_events := q\<rparr>"] by auto
qed

lemma process_events_frame:
  "gb_sdio_process_events h e = (ret, h1) \<Longrightarrow> ret = 0 \<and> host_frame h1 = host_frame h \<and> xfer_buffer h1 = xfer_buffer h \<and> mmc h1 = mmc h \<and>
     replies h1 = replies h \<and> ncalls h1 = ncalls h \<and> sent h1 = sent h"
  by (auto simp: gb_sdio_process_events_def Let_def host_frame_def split: if_splits)

lemma select_caps_iff: "x \<in> set (select_caps tab r) \<longleftrightarrow> (\<exists>b. (b, x) \<in> set tab \<and> r AND b \<noteq> 0)"
  by (force simp: select_caps_def)

lemma nonremovable_bit: "(b, MMC_CAP_NONREMOVABLE) \<in> set cap_table \<longleftrightarrow> b = 1"
  by (simp add: cap_table_def)

lemma caps_fields: "card_present (gb_sdio_set_host_caps h r) = (r AND 1 \<noteq> 0 \<or> card_present h)" 
    "MMC_CAP_NONREMOVABLE \<in> set (caps (mmc (gb_sdio_set_host_caps h r))) \<longleftrightarrow> r AND 1 \<noteq> 0"
    "\<exists>m p. gb_sdio_set_host_caps h r = h\<lparr>mmc := m, card_present := p\<rparr>"
proof -
  have "MMC_CAP_NONREMOVABLE \<in> set (select_caps cap_table r) \<longleftrightarrow> r AND 1 \<noteq> 0"
    by (simp add: select_caps_iff nonremovable_bit)
  then show "card_present (gb_sdio_set_host_caps h r) = (r AND 1 \<noteq> 0 \<or> card_present h)"
    "MMC_CAP_NONREMOVABLE \<in> set (caps (mmc (gb_sdio_set_host_caps h r))) \<longleftrightarrow> r AND 1 \<noteq> 0"
    by (simp_all add: gb_sdio_set_host_caps_def Let_def)
  show "\<exists>m p. gb_sdio_set_host_caps h r = h\<lparr>mmc := m, card_present := p\<rparr>"
  proof (cases "MMC_CAP_NONREMOVABLE \<in> set (select_caps cap_table r)")
    case False
    have "gb_sdio_set_host_caps h r = h\<lparr>mmc := mmc (gb_sdio_set_host_caps h r), card_present := card_present h\<rparr>"
      using False by (simp add: gb_sdio_set_host_caps_def Let_def)
    then show ?thesis by blast
  qed (auto simp: gb_sdio_set_host_caps_def Let_def)
qed

lemma get_caps_ok:
  assumes "gb_sdio_get_caps (blank_host e) pmax = (r, h1)" "\<not> r < 0"
  obtains bs where "data_max h1 = ucast (sdio_data_max pmax)"
    "max_blk_size (mmc h1) = rounddown_pow_of_two (max 512 (ucast (min bs (sdio_data_max pmax))))"
    "card_present h1 = (MMC_CAP_NONREMOVABLE \<in> set (caps (mmc h1)))"
    "queued_events h1 = 0" "\<not> xfer_stop h1" "\<not> host_lock h1" "mrq h1 = None" "\<not> mrqwork h1" "\<not> read_only h1"
proof -
  obtain ret resp h where g: "gb_sync 0x02 [] 12 (blank_host e) = ((ret, resp), h)" by (metis surj_pair)
  then have h: "queued_events h = 0" "\<not> xfer_stop h" "\<not> host_lock h" "mrq h = None" "\<not> mrqwork h" "\<not> read_only h" "\<not> card_present h"
    by (auto simp: gb_sync_def Let_def blank_host_def)
  let ?r = "le32_to_cpu (resp ! 0) (resp ! 1) (resp ! 2) (resp ! 3)"
  obtain mm pr where f: "gb_sdio_set_host_caps h ?r = h\<lparr>mmc := mm, card_present := pr\<rparr>" using caps_fields(3) by blast
  have c: "pr = (MMC_CAP_NONREMOVABLE \<in> set (caps mm))"
    using caps_fields(1) [of h ?r] caps_fields(2) [of h ?r] h(7) unfolding f by simp
  show ?thesis
    by (rule that [of "le16_to_cpu (resp ! 10) (resp ! 11)"])
      (use assms h c in \<open>auto simp: gb_sdio_get_caps_def g Let_def f [simplified]  split: if_splits\<close>)
qed

text \<open>What a host looks like before the early events are processed, and after.\<close>

lemma init_steps:
  assumes "gb_sdio_connection_init e pmax mem buf_mem early add_ret = (ret, Some h)"
  obtains h0 bs q where "gb_sdio_process_events (h0\<lparr>queued_events := q, removed := False\<rparr>) q = (ret, h\<lparr>queued_events := q\<rparr>)"
    "queued_events h = 0" "fold gb_queue_event early h0 = h0\<lparr>queued_events := q\<rparr>"
    "queued_events h0 = 0" "card_present h0 = (MMC_CAP_NONREMOVABLE \<in> set (caps (mmc h0)))" "data_max h0 = ucast (sdio_data_max pmax)"
    "max_blk_size (mmc h0) = rounddown_pow_of_two (max 512 (ucast (min bs (sdio_data_max pmax))))"
    "xfer_buffer h0 = replicate (unat pmax) 0" "\<not> xfer_stop h0" "\<not> host_lock h0" "mrq h0 = None" "\<not> mrqwork h0" "\<not> read_only h0"
proof -
  obtain r h1 where g: "gb_sdio_get_caps (blank_host e) pmax = (r, h1)" by (cases "gb_sdio_get_caps (blank_host e) pmax")
  have ok: "\<not> r < 0" "\<not> add_ret < 0" "mem" "buf_mem" using assms g by (auto simp: gb_sdio_connection_init_def Let_def split: if_splits)
  define m where "m = mmc h1"
  define h0 where "h0 = h1\<lparr>mmc := m\<lparr>max_segs := ucast (max_blk_count m), max_seg_size := max_blk_size m,
      max_req_size := max_blk_size m * max_blk_count m\<rparr>, xfer_buffer := replicate (unat pmax) 0\<rparr>"
  obtain q where q: "fold gb_queue_event early h0 = h0\<lparr>queued_events := q\<rparr>" using queue_events_frame by blast
  obtain r3 h3 where p: "gb_sdio_process_events (h0\<lparr>queued_events := q, removed := False\<rparr>) q = (r3, h3)"
    by (cases "gb_sdio_process_events (h0\<lparr>queued_events := q, removed := False\<rparr>) q")
  have init: "ret = r3" "h = h3\<lparr>queued_events := 0\<rparr>"
    using assms g ok p q unfolding gb_sdio_connection_init_def Let_def h0_def m_def by simp_all
  have "queued_events h3 = q" using p by (auto simp: gb_sdio_process_events_def Let_def split: if_splits)
  then have "h3 = h\<lparr>queued_events := q\<rparr>" using init by simp
  moreover obtain bs where "data_max h1 = ucast (sdio_data_max pmax)"
     "max_blk_size (mmc h1) = rounddown_pow_of_two (max 512 (ucast (min bs (sdio_data_max pmax))))"
     "card_present h1 = (MMC_CAP_NONREMOVABLE \<in> set (caps (mmc h1)))"
     "queued_events h1 = 0" "\<not> xfer_stop h1" "\<not> host_lock h1" "mrq h1 = None" "\<not> mrqwork h1" "\<not> read_only h1"
    by (rule get_caps_ok [OF g ok(1)])
  ultimately show ?thesis using that [of q h0 bs] p q init h0_def m_def by simp
qed

lemma init_fields:
  assumes "gb_sdio_connection_init e pmax mem buf_mem early add_ret = (ret, Some h)"
  obtains bs where "data_max h = ucast (sdio_data_max pmax)" "length (xfer_buffer h) = unat pmax" "\<not> xfer_stop h" "\<not> host_lock h"
    "mrq h = None" "\<not> removed h" "max_blk_size (mmc h) = rounddown_pow_of_two (max 512 (ucast (min bs (sdio_data_max pmax))))"
proof -
  obtain h0 bs q where i: "gb_sdio_process_events (h0\<lparr>queued_events := q, removed := False\<rparr>) q = (ret, h\<lparr>queued_events := q\<rparr>)"
    "data_max h0 = ucast (sdio_data_max pmax)" "xfer_buffer h0 = replicate (unat pmax) 0" "\<not> xfer_stop h0" "\<not> host_lock h0" "mrq h0 = None"
    "max_blk_size (mmc h0) = rounddown_pow_of_two (max 512 (ucast (min bs (sdio_data_max pmax))))"
    by (rule init_steps [OF assms]) blast
  show ?thesis using that [of bs] process_events_frame [OF i(1)] i(2-) by (simp add: host_frame_def)
qed

lemma unat_sdio_data_max: "5 \<le> unat pmax \<Longrightarrow> unat pmax \<le> 65535 \<Longrightarrow> unat (sdio_data_max pmax) = unat pmax - 5"
proof -
  assume a: "5 \<le> unat pmax" "unat pmax \<le> 65535"
  let ?d = "ucast (ucast pmax :: u16) :: size_t"
  have d: "unat ?d = unat pmax" unfolding unat_ucast_u16 using a(2) by (simp add: unsigned_ucast_eq take_bit_nat_eq_self)
  then have le: "5 \<le> ?d" "4 \<le> ?d" using a(1) by (simp_all add: word_le_nat_alt)
  have "unat (?d - 5) = unat pmax - 5" "unat (?d - 4) = unat pmax - 4" using unat_sub [OF le(1)] unat_sub [OF le(2)] d by simp_all
  then have "unat (min (?d - 5) (?d - 4)) = unat pmax - 5" by (simp add: unat_min_size)
  then have "unat (ucast (min (?d - 5) (?d - 4)) :: u16) = unat pmax - 5" using a(2) by (simp add: unsigned_ucast_eq take_bit_nat_eq_self)
  then show ?thesis by (simp add: sdio_data_max_def Let_def)
qed

lemma rounddown_le: "1 \<le> n \<Longrightarrow> rounddown_pow_of_two n \<le> n"
proof -
  assume n: "1 \<le> n"
  let ?l = "filter (\<lambda>p. p \<le> n) (map (\<lambda>i. push_bit i 1) [0..<32])"
  have "?l \<noteq> []" using n by (auto simp: filter_empty_conv intro!: bexI [of _ 0])
  then show ?thesis using last_in_set [of ?l] by (auto simp: rounddown_pow_of_two_def)
qed

text \<open>
  On a connection with messages of at least 517 bytes every transfer can make progress: after the set-up, any block size up to
  the one announced to the MMC layer fits into a message together with its header.
\<close>

theorem sdio_blocks_fit:
  assumes "gb_sdio_connection_init e pmax mem buf_mem early add_ret = (ret, Some h)"
    and "517 \<le> unat pmax" "unat pmax \<le> 65535" "0 < blksz d" "blksz d \<le> max_blk_size (mmc h)"
  shows "sdio_fits h d"
proof -
  obtain bs where i: "data_max h = ucast (sdio_data_max pmax)" "length (xfer_buffer h) = unat pmax"
    "max_blk_size (mmc h) = rounddown_pow_of_two (max 512 (ucast (min bs (sdio_data_max pmax))))"
    by (rule init_fields [OF assms(1)])
  have dm: "unat (sdio_data_max pmax) = unat pmax - 5" using unat_sdio_data_max assms(2,3) by simp
  let ?n = "max 512 (ucast (min bs (sdio_data_max pmax))) :: u32"
  have "unat (min bs (sdio_data_max pmax)) \<le> unat (sdio_data_max pmax)" by (simp add: min_def word_le_nat_alt)
  then have "unat ?n \<le> unat pmax - 5" using dm assms(2) by (auto simp: max_def unat_u16_u32)
  moreover have "1 \<le> ?n" by (simp add: max_def word_le_nat_alt)
  ultimately have "unat (max_blk_size (mmc h)) \<le> unat pmax - 5"
    using rounddown_le [of ?n] i(3) by (simp add: word_le_nat_alt)
  then have "unat (blksz d) \<le> unat pmax - 5" using assms(5) by (simp add: word_le_nat_alt)
  moreover have "0 < unat (blksz d)" using assms(4) by (simp add: word_less_nat_alt)
  ultimately show ?thesis using i dm assms(2,3) by (simp add: sdio_fits_def)
qed

text \<open>
  C31 On a connection with smaller messages a transfer can go on forever: the set-up announces blocks of 512 bytes although no block fits, and the
  transfer of a block to a module that confirms the empty pieces it is sent never returns.
\<close>

theorem sdio_small_messages_livelock:
  assumes "gb_sdio_connection_init e pmax mem buf_mem early add_ret = (ret, Some h)"
    and "5 \<le> unat pmax" "unat pmax < 517" "blksz d = max_blk_size (mmc h)" "blocks d = 1"
    and "\<forall>i \<ge> ncalls h. replies h i = (0, [])" "\<forall>i. \<not> stops i"
  shows "gb_sdio_transfer stops h c d = None"
proof -
  obtain bs where i: "data_max h = ucast (sdio_data_max pmax)" "length (xfer_buffer h) = unat pmax" "\<not> xfer_stop h"
    "max_blk_size (mmc h) = rounddown_pow_of_two (max 512 (ucast (min bs (sdio_data_max pmax))))"
    by (rule init_fields [OF assms(1)])
  have dm: "unat (sdio_data_max pmax) < 512" using unat_sdio_data_max assms(2,3) by simp
  then have "unat (ucast (min bs (sdio_data_max pmax)) :: u32) < 512" by (simp add: min_def unat_u16_u32 word_le_nat_alt)
  then have "max 512 (ucast (min bs (sdio_data_max pmax)) :: u32) = 512" by (simp add: max_def word_le_nat_alt)
  moreover have "rounddown_pow_of_two 512 = 512" by code_simp
  ultimately have b: "blksz d = 512" using i(4) assms(4) by simp
  have "stalled stops h d (ucast (blksz d * blocks d)) 0"
    using i dm b assms(2,5,6,7) by (simp add: stalled_def)
  then have "transfer_loop stops 0 h d (ucast (blksz d * blocks d)) 0 = None"
    using loop_endless [of stops 0 h d "ucast (blksz d * blocks d)" 0] by (cases "transfer_loop stops 0 h d (ucast (blksz d * blocks d)) 0") auto
  then show ?thesis using assms(5) by (simp add: gb_sdio_transfer_def)
qed

section \<open>Early events\<close>

definition card_after :: "u8 \<Rightarrow> bool \<Rightarrow> bool" where
  "card_after e p = (if e AND GB_SDIO_CARD_INSERTED \<noteq> 0 then True else if e AND GB_SDIO_CARD_REMOVED \<noteq> 0 then False else p)"

text \<open>An event reports an insertion or a removal, not both.\<close>

definition event_ok :: "u8 \<Rightarrow> bool" where
  "event_ok e \<longleftrightarrow> e AND GB_SDIO_CARD_INSERTED = 0 \<or> e AND GB_SDIO_CARD_REMOVED = 0"

lemmas event_bits = and_pow_nz [of _ 0, simplified] and_pow_nz [of _ 1, simplified]

lemma event_bits_0: "(e AND GB_SDIO_CARD_INSERTED = 0) = (\<not> bit e 0)" "(e AND GB_SDIO_CARD_REMOVED = 0) = (\<not> bit e (Suc 0))"
  using event_bits(1) [of e] event_bits(2) [of e] by auto

lemma queue_event_bits:
  "event_ok e \<Longrightarrow> bit (queued_events (gb_queue_event e h)) 0 = (bit e 0 \<or> bit (queued_events h) 0 \<and> \<not> bit e (Suc 0))"
  "event_ok e \<Longrightarrow> bit (queued_events (gb_queue_event e h)) (Suc 0) = (bit e (Suc 0) \<or> bit (queued_events h) (Suc 0) \<and> \<not> bit e 0)"
  unfolding gb_queue_event_def Let_def event_ok_def event_bits_0 event_bits by (auto simp: bit_simps bit_numeral_rec)

lemma queue_all:
  assumes "\<forall>e \<in> set es. event_ok e" "\<not> (bit (queued_events h) 0 \<and> bit (queued_events h) (Suc 0))"
  shows "let q = queued_events (fold gb_queue_event es h);
             p1 = (if bit (queued_events h) 0 then True else if bit (queued_events h) (Suc 0) then False else p)
         in \<not> (bit q 0 \<and> bit q (Suc 0)) \<and> fold card_after es p1 = (if bit q 0 then True else if bit q (Suc 0) then False else p)"
  using assms
proof (induction es arbitrary: h)
  case Nil
  then show ?case by (simp add: Let_def)
next
  case (Cons e es)
  have e: "event_ok e" using Cons.prems by simp
  let ?h = "gb_queue_event e h"
  let ?p = "\<lambda>h. if bit (queued_events h) 0 then True else if bit (queued_events h) (Suc 0) then False else p"
  note qb = queue_event_bits [OF e, of h]
  have ex: "\<not> (bit e 0 \<and> bit e (Suc 0))" using e unfolding event_ok_def event_bits_0 by blast
  have "card_after e (?p h) = ?p ?h" unfolding card_after_def event_bits using qb ex Cons.prems(2) by auto
  moreover have "\<not> (bit (queued_events ?h) 0 \<and> bit (queued_events ?h) (Suc 0))" using qb ex Cons.prems(2) by auto
  ultimately show ?case using Cons.IH [of ?h] Cons.prems(1) by simp
qed

lemma process_event_card:
  assumes "event_ok e"
  shows "card_present (snd (gb_sdio_process_events h e)) = (if mmc_card_is_removable h then card_after e (card_present h) else card_present h)"
    "mmc (snd (gb_sdio_process_events h e)) = mmc h"
  using assms by (auto simp: gb_sdio_process_events_def Let_def card_after_def event_ok_def mmc_card_is_removable_def split: if_splits)

lemma process_all_card:
  assumes "\<forall>e \<in> set es. event_ok e"
  shows "card_present (fold (\<lambda>e h. snd (gb_sdio_process_events h e)) es h) =
    (if mmc_card_is_removable h then fold card_after es (card_present h) else card_present h)"
  using assms
proof (induction es arbitrary: h)
  case (Cons e es)
  then have "event_ok e" by simp
  note pe = process_event_card [OF this, of h]
  then have "mmc_card_is_removable (snd (gb_sdio_process_events h e)) = mmc_card_is_removable h" by (simp add: mmc_card_is_removable_def)
  then show ?case using Cons pe(1) by simp
qed simp

text \<open>
  C29 Events that arrive early are not lost: whatever card events arrive before the host is added, if none of them reports an insertion and a
  removal at once, the card is afterwards as present as if each event had been processed when it arrived.
\<close>

theorem sdio_early_events:
  assumes "gb_sdio_connection_init e pmax mem buf_mem early add_ret = (ret, Some h)" "\<forall>ev \<in> set early. event_ok ev"
    and "mmc g = mmc h" "card_present g = (MMC_CAP_NONREMOVABLE \<in> set (caps (mmc g)))"
  shows "card_present h = card_present (fold (\<lambda>ev g. snd (gb_sdio_process_events g ev)) early g)"
proof -
  obtain h0 bs q where i: "gb_sdio_process_events (h0\<lparr>queued_events := q, removed := False\<rparr>) q = (ret, h\<lparr>queued_events := q\<rparr>)"
    "fold gb_queue_event early h0 = h0\<lparr>queued_events := q\<rparr>" "queued_events h0 = 0"
    "card_present h0 = (MMC_CAP_NONREMOVABLE \<in> set (caps (mmc h0)))"
    by (rule init_steps [OF assms(1)]) blast
  have m: "mmc h = mmc h0" using process_events_frame [OF i(1)] by simp
  have q: "\<not> (bit q 0 \<and> bit q (Suc 0))" "fold card_after early p = card_after q p" for p
    using queue_all [OF assms(2), of h0 p] i(2,3) unfolding card_after_def event_bits by (simp_all add: Let_def)
  have "event_ok q" using q(1) unfolding event_ok_def event_bits_0 by blast
  then have "card_present h = (if mmc_card_is_removable h0 then card_after q (card_present h0) else card_present h0)"
    using process_event_card(1) [of q "h0\<lparr>queued_events := q, removed := False\<rparr>"] i(1) by (simp add: mmc_card_is_removable_def)
  then show ?thesis unfolding process_all_card [OF assms(2)] q(2) using assms(3,4) i(4) m by (simp add: mmc_card_is_removable_def)
qed

section \<open>Requests\<close>

lemma command_frame:
  assumes "gb_sdio_command h c = (ret, h1, c1)"
  shows "host_frame h1 = host_frame h" "opcode c1 = opcode c" "cmd_error c1 = ret"
proof -
  have "host_frame h1 = host_frame h \<and> opcode c1 = opcode c \<and> cmd_error c1 = ret"
  proof (cases "cmd_flags_of (cmd_rsp c)")
    case (Some fl)
    show ?thesis
    proof (cases "cmd_type_of (cmd_kind c)")
      case (Some ty)
      obtain rt resp h2 where g: "gb_sync 0x04 ([ucast (opcode c), fl, ty] @ cpu_to_le32 (cmd_arg c)) 16 h = ((rt, resp), h2)" by (metis surj_pair)
      then have "host_frame h2 = host_frame h" by (auto simp: gb_sync_def Let_def host_frame_def)
      then show ?thesis using assms \<open>cmd_flags_of (cmd_rsp c) = Some fl\<close> Some g
        unfolding gb_sdio_command_def by (auto simp: Let_def split: if_splits)
    qed (use assms Some in \<open>auto simp: gb_sdio_command_def\<close>)
  qed (use assms in \<open>auto simp: gb_sdio_command_def\<close>)
  then show "host_frame h1 = host_frame h" "opcode c1 = opcode c" "cmd_error c1 = ret" by auto
qed






text \<open>
  Looking for a card while the host is removed stops everything: gb_mmc_get_cd and gb_mmc_get_ro return -ESHUTDOWN with
  the mutex held, after which no request, no work and no tear-down of the host ever gets on.
\<close>

theorem sdio_removed_deadlock:
  assumes "\<not> host_lock h" "removed h"
  shows "\<exists>h'. gb_mmc_get_cd h = Some (- ESHUTDOWN, h') \<and> gb_mmc_get_ro h = Some (- ESHUTDOWN, h') \<and>
    gb_mmc_request h' m = None \<and> gb_sdio_mrq_work stops h' = None \<and> gb_sdio_connection_exit stops (Some h') = None"
  using assms by (simp add: gb_mmc_get_cd_def gb_mmc_get_ro_def gb_mmc_request_def gb_sdio_mrq_work_def gb_sdio_connection_exit_def Let_def)

text \<open>
  A stop outlives its transfer: a STOP_TRANSMISSION request to an idle host leaves its mark, and the next transfer of data
  ends with -EINTR before it has moved a byte.
\<close>

theorem sdio_stale_stop:
  assumes "\<not> host_lock h" "\<not> removed h" "card_present h" "opcode (cmd m) = MMC_STOP_TRANSMISSION" "mdata m = None"
    and "blksz d * blocks d \<noteq> 0" "\<not> (single_op c \<and> 1 < blocks d)"
  shows "\<exists>h1 h2. gb_mmc_request h m = Some h1 \<and> gb_sdio_mrq_work stops h1 = Some (Some h2) \<and>
    gb_sdio_transfer stops' h2 c d = Some (Some (- EINTR, h2\<lparr>xfer_stop := False\<rparr>, d\<lparr>data_error := - EINTR\<rparr>))"
proof -
  let ?h1 = "h\<lparr>xfer_stop := True, mrq := Some m, mrqwork := True\<rparr>" and ?h = "h\<lparr>xfer_stop := True, mrq := Some m, mrqwork := False\<rparr>"
  have r: "gb_mmc_request h m = Some ?h1" using assms(1-4) by (simp add: gb_mmc_request_def)
  have "\<exists>h2 m1. mrq_body stops ?h m = Some (Some (h2, m1)) \<and> host_frame h2 = host_frame ?h"
  proof -
    obtain r1 h1 sbc1 where a: "(case sbc m of None \<Rightarrow> (0, ?h, None) | Some c \<Rightarrow> (case gb_sdio_command ?h c of (ret, h1, c1) \<Rightarrow> (ret, h1, Some c1))) = (r1, h1, sbc1)"
      by (metis surj_pair)
    have f1: "host_frame h1 = host_frame ?h" using a by (auto split: option.splits prod.splits dest: command_frame)
    obtain r2 h2 c2 where b: "gb_sdio_command h1 (cmd m) = (r2, h2, c2)" by (metis surj_pair)
    obtain r4 h4 c4 where e: "gb_sdio_command h2 (the (stop m)) = (r4, h4, c4)" by (metis surj_pair)
    show ?thesis
      unfolding mrq_body_def a prod.case Let_def b assms(5) option.case
      using f1 command_frame(1) [OF b] command_frame(1) [OF e] e by (auto split: option.splits)
  qed
  then obtain h2 m1 where b: "mrq_body stops ?h m = Some (Some (h2, m1))" "host_frame h2 = host_frame ?h" by blast
  let ?h2 = "h2\<lparr>mrq := None, finished := finished h2 @ [m1]\<rparr>"
  have w: "gb_sdio_mrq_work stops ?h1 = Some (Some ?h2)" using assms(1,2) b(1) by (simp add: gb_sdio_mrq_work_def)
  have "xfer_stop ?h2" using b(2) by (simp add: host_frame_def)
  then have "transfer_turn (stops' 0) ?h2 d (ucast (blksz d * blocks d)) 0 = Some (Ended (- EINTR) (?h2\<lparr>xfer_stop := False\<rparr>) d)"
    by (cases "stops' 0") (simp_all add: transfer_turn_def Let_def)
  moreover have "(ucast (blksz d * blocks d) :: size_t) \<noteq> 0" using assms(6) by (metis unat_eq_zero unat_ucast_u32)
  ultimately have "gb_sdio_transfer stops' ?h2 c d = Some (Some (- EINTR, ?h2\<lparr>xfer_stop := False\<rparr>, d\<lparr>data_error := - EINTR\<rparr>))"
    using assms(7) by (auto simp: gb_sdio_transfer_def loop_ended)
  then show ?thesis using r w by blast
qed

section \<open>Examples\<close>

lemma init_succeeds:
  assumes "fst (replies e (ncalls e)) = 0"
  obtains h where "gb_sdio_connection_init e pmax True True early 0 = (0, Some h)" "replies h = replies e" "ncalls h = ncalls e + 1"
proof -
  obtain resp h0 where g: "gb_sync 0x02 [] 12 (blank_host e) = ((0, resp), h0)" "replies h0 = replies e" "ncalls h0 = ncalls e + 1"
    using assms by (simp add: gb_sync_def Let_def blank_host_def)
  obtain mm pr where f: "gb_sdio_set_host_caps h0 (le32_to_cpu (resp ! 0) (resp ! 1) (resp ! 2) (resp ! 3)) = h0\<lparr>mmc := mm, card_present := pr\<rparr>"
    using caps_fields(3) by blast
  obtain h1 where c: "gb_sdio_get_caps (blank_host e) pmax = (0, h1)" "replies h1 = replies e" "ncalls h1 = ncalls e + 1"
    using g f by (simp add: gb_sdio_get_caps_def Let_def)
  define h2 where "h2 = h1\<lparr>mmc := (mmc h1)\<lparr>max_segs := ucast (max_blk_count (mmc h1)), max_seg_size := max_blk_size (mmc h1),
      max_req_size := max_blk_size (mmc h1) * max_blk_count (mmc h1)\<rparr>, xfer_buffer := replicate (unat pmax) 0\<rparr>"
  obtain q where q: "fold gb_queue_event early h2 = h2\<lparr>queued_events := q\<rparr>" using queue_events_frame by blast
  obtain r h3 where p: "gb_sdio_process_events (h2\<lparr>queued_events := q, removed := False\<rparr>) q = (r, h3)" by (metis surj_pair)
  note fr = process_events_frame [OF p]
  have "gb_sdio_connection_init e pmax True True early 0 = (0, Some (h3\<lparr>queued_events := 0\<rparr>))"
    using c(1) q p fr unfolding gb_sdio_connection_init_def Let_def h2_def by simp
  then show ?thesis using that [of "h3\<lparr>queued_events := 0\<rparr>"] fr c h2_def by simp
qed

definition block_data :: mmc_data where
  "block_data = \<lparr>blksz = 512, blocks = 1, data_flags = 0x200, sg = replicate 512 0, bytes_xfered = 0, data_error = 0\<rparr>"

lemma demo_env_replies: "replies (demo_env []) i = (0, [])" by (simp add: demo_env_def)

theorem sdio_blocks_fit_witness:
  "\<exists>h. gb_sdio_connection_init (demo_env []) 600 True True [] 0 = (0, Some h) \<and> sdio_fits h block_data"
proof -
  obtain h where i: "gb_sdio_connection_init (demo_env []) 600 True True [] 0 = (0, Some h)"
    by (rule init_succeeds [of "demo_env []"]) (simp_all add: demo_env_replies)
  obtain bs where "max_blk_size (mmc h) = rounddown_pow_of_two (max 512 (ucast (min bs (sdio_data_max 600))))" by (rule init_fields [OF i])
  moreover have "rounddown_pow_of_two n \<ge> 512" if "n \<ge> 512" for n
  proof -
    have "[0..<32] = [0..<9] @ [9] @ [10..<32]" by (simp add: upt_rec)
    then have "filter (\<lambda>p. p \<le> n) (map (\<lambda>i. push_bit i (1 :: u32)) [0..<32]) =
       filter (\<lambda>p. p \<le> n) (map (\<lambda>i. push_bit i 1) [0..<9]) @ (512 :: u32) # filter (\<lambda>p. p \<le> n) (map (\<lambda>i. push_bit i 1) [10..<32])"
      using that by (simp del: upt_Suc)
    moreover have "\<forall>p \<in> set (map (\<lambda>i. push_bit i (1 :: u32)) [10..<32]). 512 \<le> p" by code_simp
    ultimately show ?thesis unfolding rounddown_pow_of_two_def by (auto simp del: upt_Suc simp: last_append dest!: last_in_set)
  qed
  ultimately have "512 \<le> max_blk_size (mmc h)" by simp
  then have "sdio_fits h block_data" by (intro sdio_blocks_fit [OF i]) (simp_all add: block_data_def)
  then show ?thesis using i by blast
qed

theorem sdio_small_messages_livelock_witness:
  "\<exists>h. gb_sdio_connection_init (demo_env []) 100 True True [] 0 = (0, Some h) \<and>
     gb_sdio_transfer (\<lambda>_. False) h (demo_cmd 17) (block_data\<lparr>blksz := max_blk_size (mmc h)\<rparr>) = None"
proof -
  obtain h where i: "gb_sdio_connection_init (demo_env []) 100 True True [] 0 = (0, Some h)" "replies h = replies (demo_env [])"
    by (rule init_succeeds [of "demo_env []"]) (simp_all add: demo_env_replies)
  then have "gb_sdio_transfer (\<lambda>_. False) h (demo_cmd 17) (block_data\<lparr>blksz := max_blk_size (mmc h)\<rparr>) = None"
    by (intro sdio_small_messages_livelock [OF i(1)]) (simp_all add: block_data_def demo_env_replies)
  then show ?thesis using i(1) by blast
qed

theorem sdio_early_events_witness:
  "\<exists>h. gb_sdio_connection_init (demo_env []) 600 True True [1, 2, 1] 0 = (0, Some h) \<and>
     card_present h = card_present (fold (\<lambda>ev g. snd (gb_sdio_process_events g ev)) [1, 2, 1] (h\<lparr>card_present := MMC_CAP_NONREMOVABLE \<in> set (caps (mmc h))\<rparr>))"
proof -
  obtain h where i: "gb_sdio_connection_init (demo_env []) 600 True True [1, 2, 1] 0 = (0, Some h)"
    by (rule init_succeeds [of "demo_env []"]) (simp_all add: demo_env_replies)
  have ok: "\<forall>ev \<in> set [1, 2, 1]. event_ok ev" by (simp add: event_ok_def)
  show ?thesis using sdio_early_events [OF i ok, of "h\<lparr>card_present := MMC_CAP_NONREMOVABLE \<in> set (caps (mmc h))\<rparr>"] i by simp
qed


end
