(* ===== verification/GB_Raw.thy ===== *)
theory GB_Raw
  imports GB_Class
begin

text \<open>
  The raw class driver (raw.c): packets of the module are queued for a character device, whose read and write take and send
  whole packets. The queue is bounded in bytes. It refines a queue of packets: what is read is what was accepted, in order,
  nothing is lost or made up, and the count of bytes is exact.
\<close>

section \<open>Definitions\<close>

record raw_data =
  rlen :: u32
  rdata :: bytes

text \<open>struct gb_raw; the device number is its minor.\<close>

record gb_raw = class_env +
  raw_list :: "raw_data list"
  list_data :: u32
  raw_minor :: nat

abbreviation (input) E2BIG :: int where "E2BIG \<equiv> 7"
abbreviation (input) RAW_EFAULT :: int where "RAW_EFAULT \<equiv> 14"
abbreviation (input) MAX_PACKET_SIZE :: u64 where "MAX_PACKET_SIZE \<equiv> 8192"
abbreviation (input) MAX_DATA_SIZE :: u64 where "MAX_DATA_SIZE \<equiv> 65536"

text \<open>receive_data; \<open>mem\<close> says whether kmalloc succeeds.\<close>

definition receive_data :: "gb_raw \<Rightarrow> bool \<Rightarrow> u32 \<Rightarrow> bytes \<Rightarrow> (int \<times> gb_raw) option" where
  "receive_data raw mem len data =
     (if MAX_PACKET_SIZE < ucast len then Some (- EINVAL, raw)
      else if MAX_DATA_SIZE < ucast (list_data raw + len) then Some (- EINVAL, raw)
      else if \<not> mem then Some (- ENOMEM, raw)
      else do {
        d \<leftarrow> rd_bytes data 0 (unat len);
        Some (0, raw\<lparr>list_data := list_data raw + len, raw_list := raw_list raw @ [\<lparr>rlen = len, rdata = d\<rparr>]\<rparr>)
      })"

definition gb_raw_receive :: "gb_raw \<Rightarrow> bool \<Rightarrow> u8 \<Rightarrow> gb_operation \<Rightarrow> (int \<times> gb_raw) option" where
  "gb_raw_receive raw mem ty op =
     (if ty \<noteq> 0x02 then Some (- EINVAL, raw)
      else if payload_size (request op) < 4 then Some (- EINVAL, raw)
      else do {
        l \<leftarrow> rd_bytes (buffer (request op)) HDR_SIZE 4;
        let len = le32_to_cpu (l ! 0) (l ! 1) (l ! 2) (l ! 3);
        if len \<noteq> ucast (payload_size (request op) - 4) then Some (- EINVAL, raw)
        else if len = 0 then Some (- EINVAL, raw)
        else receive_data raw mem len (drop (HDR_SIZE + 4) (buffer (request op)))
      })"

text \<open>gb_raw_send: what copy_from_user brings in, \<open>None\<close> if the pointer is bad.\<close>

definition gb_raw_send :: "gb_raw \<Rightarrow> bool \<Rightarrow> u32 \<Rightarrow> bytes option \<Rightarrow> int \<times> gb_raw" where
  "gb_raw_send raw mem len user =
     (if \<not> mem then (- ENOMEM, raw)
      else case user of None \<Rightarrow> (- RAW_EFAULT, raw)
      | Some d \<Rightarrow> (case gb_sync 0x02 (cpu_to_le32 len @ take (unat len) d) 0 raw of ((ret, _), raw1) \<Rightarrow> (ret, raw1)))"

definition raw_write :: "gb_raw \<Rightarrow> bool \<Rightarrow> bytes option \<Rightarrow> size_t \<Rightarrow> int \<times> gb_raw" where
  "raw_write raw mem user count =
     (if count = 0 then (0, raw)
      else if MAX_PACKET_SIZE < count then (- E2BIG, raw)
      else case gb_raw_send raw mem (ucast count) user of (retval, raw1) \<Rightarrow>
        (if retval \<noteq> 0 then retval else int (unat count), raw1))"

text \<open>raw_read: the result, what was copied to the user, and the queue.\<close>

definition raw_read :: "gb_raw \<Rightarrow> size_t \<Rightarrow> bool \<Rightarrow> (int \<times> bytes \<times> gb_raw) option" where
  "raw_read raw count copy_ok =
     (case raw_list raw of [] \<Rightarrow> Some (0, [], raw)
      | r # rs \<Rightarrow>
          if count < ucast (rlen r) then Some (- ENOSPC, [], raw)
          else do {
            d \<leftarrow> rd_bytes (rdata r) 0 (unat (rlen r));
            Some (if \<not> copy_ok then (- RAW_EFAULT, [], raw)
                  else (sint (rlen r), d, raw\<lparr>raw_list := rs, list_data := list_data raw - rlen r\<rparr>))
          })"

text \<open>
  gb_raw_connection_init: the answers of the kernel are the allocation, the minor number, and the results of cdev_add and
  device_create; the device on success, and the minors in use.
\<close>

definition gb_raw_connection_init :: "class_env \<Rightarrow> nat set \<Rightarrow> bool \<Rightarrow> int \<Rightarrow> int \<Rightarrow> int \<Rightarrow> int \<times> gb_raw option \<times> nat set" where
  "gb_raw_connection_init e minors mem ida_ans cdev_ret dev_ret =
     (if \<not> mem then (- ENOMEM, None, minors)
      else case ida_simple_get ida_ans 0 0 minors of (minor, minors1) \<Rightarrow>
        if minor < 0 then (minor, None, minors1)
        else if cdev_ret \<noteq> 0 then (cdev_ret, None, ida_simple_remove (nat minor) minors1)
        else if dev_ret \<noteq> 0 then (dev_ret, None, ida_simple_remove (nat minor) minors1)
        else (0, Some \<lparr>replies = replies e, ncalls = ncalls e, sent = sent e, raw_list = [], list_data = 0, raw_minor = nat minor\<rparr>, minors1))"

definition gb_raw_connection_exit :: "gb_raw \<Rightarrow> nat set \<Rightarrow> nat set" where
  "gb_raw_connection_exit raw minors = ida_simple_remove (raw_minor raw) minors"

text \<open>raw_init and raw_exit: which of class, device region and protocol remain registered.\<close>

record raw_module =
  raw_class :: bool
  raw_chrdev :: bool
  raw_protocol :: bool

definition raw_init :: "int \<Rightarrow> int \<Rightarrow> int \<Rightarrow> raw_module \<Rightarrow> int \<times> raw_module" where
  "raw_init class_ret chrdev_ret reg_ret m =
     (if class_ret \<noteq> 0 then (class_ret, m)
      else let m1 = m\<lparr>raw_class := True\<rparr> in
      if chrdev_ret < 0 then (chrdev_ret, m1\<lparr>raw_class := False\<rparr>)
      else let m2 = m1\<lparr>raw_chrdev := True\<rparr> in
      if reg_ret \<noteq> 0 then (reg_ret, m2\<lparr>raw_chrdev := False, raw_class := False\<rparr>)
      else (0, m2\<lparr>raw_protocol := True\<rparr>))"

definition raw_exit :: "raw_module \<Rightarrow> raw_module" where
  "raw_exit m = m\<lparr>raw_protocol := False, raw_chrdev := False, raw_class := False\<rparr>"

section \<open>The queue\<close>

text \<open>
  The abstract queue: a locale for a bounded store of packets that is filled and emptied at its ends. \<open>put\<close> and \<open>get\<close> may
  refuse. A run of a queue that obeys the laws returns what was accepted, in order.
\<close>

locale packet_queue =
  fixes contents :: "'q \<Rightarrow> bytes list"
    and ok :: "'q \<Rightarrow> bool"
    and put :: "'q \<Rightarrow> 'i \<Rightarrow> (bytes list \<times> 'q) option"
    and get :: "'q \<Rightarrow> 'j \<Rightarrow> (bytes list \<times> 'q) option"
    and can_put :: "'i \<Rightarrow> bool"
  assumes put_law: "ok q \<Longrightarrow> can_put i \<Longrightarrow> \<exists>acc q'. put q i = Some (acc, q') \<and> ok q' \<and> contents q' = contents q @ acc"
    and get_law: "ok q \<Longrightarrow> \<exists>out q'. get q j = Some (out, q') \<and> ok q' \<and> contents q = out @ contents q'"
begin

text \<open>A run: what went in, what came out, and the queue.\<close>

fun qrun :: "'q \<Rightarrow> ('i + 'j) list \<Rightarrow> (bytes list \<times> bytes list \<times> 'q) option" where
  "qrun q [] = Some ([], [], q)"
| "qrun q (Inl i # es) = do { (acc, q1) \<leftarrow> put q i; (a, b, q2) \<leftarrow> qrun q1 es; Some (acc @ a, b, q2) }"
| "qrun q (Inr j # es) = do { (out, q1) \<leftarrow> get q j; (a, b, q2) \<leftarrow> qrun q1 es; Some (a, out @ b, q2) }"

lemma qrun_fifo:
  assumes "ok q" "\<forall>i. Inl i \<in> set es \<longrightarrow> can_put i"
  shows "\<exists>a b q'. qrun q es = Some (a, b, q') \<and> ok q' \<and> contents q @ a = b @ contents q'"
  using assms
proof (induction es arbitrary: q)
  case (Cons e es)
  show ?case
  proof (cases e)
    case (Inl i)
    obtain acc q1 where p: "put q i = Some (acc, q1)" "ok q1" "contents q1 = contents q @ acc"
      using put_law [OF Cons.prems(1), of i] Cons.prems(2) Inl by auto
    obtain a b q' where "qrun q1 es = Some (a, b, q')" "ok q'" "contents q1 @ a = b @ contents q'"
      using Cons.IH [OF p(2)] Cons.prems(2) by auto
    then show ?thesis using Inl p by auto
  next
    case (Inr j)
    obtain out q1 where p: "get q j = Some (out, q1)" "ok q1" "contents q = out @ contents q1" using get_law [OF Cons.prems(1)] by blast
    obtain a b q' where "qrun q1 es = Some (a, b, q')" "ok q'" "contents q1 @ a = b @ contents q'"
      using Cons.IH [OF p(2)] Cons.prems(2) by auto
    then show ?thesis using Inr p by auto
  qed
qed simp

end

text \<open>The driver: the queue is well-formed, and bounded in bytes.\<close>

definition raw_ok :: "gb_raw \<Rightarrow> bool" where
  "raw_ok raw \<longleftrightarrow> (\<forall>r \<in> set (raw_list raw). unat (rlen r) = length (rdata r) \<and> 0 < length (rdata r) \<and> length (rdata r) \<le> 8192) \<and>
     unat (list_data raw) = sum_list (map (length \<circ> rdata) (raw_list raw)) \<and> unat (list_data raw) \<le> 65536"

definition raw_packets :: "gb_raw \<Rightarrow> bytes list" where
  "raw_packets raw = map rdata (raw_list raw)"

text \<open>Both ends with what they let through.\<close>

definition raw_put :: "gb_raw \<Rightarrow> bool \<times> u8 \<times> gb_operation \<Rightarrow> (bytes list \<times> gb_raw) option" where
  "raw_put raw = (\<lambda>(mem, ty, op). do { (ret, raw1) \<leftarrow> gb_raw_receive raw mem ty op;
     Some (if ret = 0 then [drop (HDR_SIZE + 4) (buffer (request op))] else [], raw1) })"

definition raw_get :: "gb_raw \<Rightarrow> size_t \<times> bool \<Rightarrow> (bytes list \<times> gb_raw) option" where
  "raw_get raw = (\<lambda>(count, copy_ok). do { (ret, d, raw1) \<leftarrow> raw_read raw count copy_ok; Some (if 0 < ret then [d] else [], raw1) })"

lemma receive_data_ok:
  assumes "raw_ok raw" "len \<noteq> 0" "unat len \<le> length data"
  obtains ret raw1 where "receive_data raw mem len data = Some (ret, raw1)" "raw_ok raw1"
    "raw_packets raw1 = raw_packets raw @ (if ret = 0 then [take (unat len) data] else [])"
proof (cases "unat len \<le> 8192 \<and> unat (list_data raw) + unat len \<le> 65536 \<and> mem")
  case True
  have c: "\<not> MAX_PACKET_SIZE < ucast len" using True by (simp add: word_less_nat_alt)
  have u: "unat (list_data raw + len) = unat (list_data raw) + unat len" using True by (subst unat_add_lem [THEN iffD1]) auto
  then have l: "\<not> MAX_DATA_SIZE < ucast (list_data raw + len)" using True by (simp add: word_less_nat_alt)
  let ?r = "\<lparr>rlen = len, rdata = take (unat len) data\<rparr>"
  let ?raw = "raw\<lparr>list_data := list_data raw + len, raw_list := raw_list raw @ [?r]\<rparr>"
  have "receive_data raw mem len data = Some (0, ?raw)" using c l True assms(3) by (simp add: receive_data_def rd_bytes_def)
  moreover have "raw_ok ?raw" using assms True u unat_eq_zero [of len] by (auto simp: raw_ok_def)
  ultimately show ?thesis using that [of 0 ?raw] by (simp add: raw_packets_def)
next
  case False
  have "\<exists>ret. ret \<noteq> 0 \<and> receive_data raw mem len data = Some (ret, raw)"
  proof (cases "unat len \<le> 8192")
    case True
    have "unat (list_data raw + len) = unat (list_data raw) + unat len"
      using True assms(1) by (subst unat_add_lem [THEN iffD1]) (auto simp: raw_ok_def)
    then show ?thesis using False True by (auto simp: receive_data_def word_less_nat_alt)
  qed (simp add: receive_data_def word_less_nat_alt)
  then show ?thesis using that assms(1) by force
qed

text \<open>A request as the core hands it over: its size field has 16 bits.\<close>

definition raw_request :: "bool \<times> u8 \<times> gb_operation \<Rightarrow> bool" where
  "raw_request = (\<lambda>(mem, ty, op). msg_wf (request op) \<and> length (buffer (request op)) \<le> 65535)"

interpretation raw: packet_queue raw_packets raw_ok raw_put raw_get raw_request
proof
  fix raw :: gb_raw and i :: "bool \<times> u8 \<times> gb_operation"
  assume ok: "raw_ok raw" and wf: "raw_request i"
  obtain mem ty op where i: "i = (mem, ty, op)" by (cases i)
  let ?m = "request op"
  show "\<exists>acc raw1. raw_put raw i = Some (acc, raw1) \<and> raw_ok raw1 \<and> raw_packets raw1 = raw_packets raw @ acc"
  proof (cases "ty \<noteq> 0x02 \<or> payload_size ?m < 4")
    case True
    then show ?thesis using ok by (auto simp: i raw_put_def gb_raw_receive_def)
  next
    case False
    then have four: "4 \<le> unat (payload_size ?m)" by (simp add: word_less_nat_alt)
    have len: "length (buffer ?m) = 8 + unat (payload_size ?m)" and small: "unat (payload_size ?m) \<le> 65527"
      using wf by (auto simp: i raw_request_def msg_wf_def)
    let ?l = "take 4 (drop 8 (buffer ?m))"
    let ?n = "le32_to_cpu (?l ! 0) (?l ! 1) (?l ! 2) (?l ! 3)"
    have rd: "rd_bytes (buffer ?m) 8 4 = Some ?l" using len four by (simp add: rd_bytes_def)
    show ?thesis
    proof (cases "?n = ucast (payload_size ?m - 4) \<and> ?n \<noteq> 0")
      case True
      have "unat (payload_size ?m - 4) = unat (payload_size ?m) - 4" using unat_sub [of 4 "payload_size ?m"] four by (simp add: word_le_nat_alt)
      then have "unat (ucast (payload_size ?m - 4) :: u32) = unat (payload_size ?m) - 4"
        using small by (simp add: unsigned_ucast_eq take_bit_nat_eq_self)
      then have n: "unat ?n = length (drop 12 (buffer ?m))" using True len by simp
      obtain ret raw1 where r: "receive_data raw mem ?n (drop 12 (buffer ?m)) = Some (ret, raw1)" "raw_ok raw1"
        "raw_packets raw1 = raw_packets raw @ (if ret = 0 then [take (unat ?n) (drop 12 (buffer ?m))] else [])"
        by (rule receive_data_ok [OF ok, where len = ?n and data = "drop 12 (buffer ?m)" and mem = mem]) (use True n in auto)
      have "gb_raw_receive raw mem ty op = Some (ret, raw1)"
        using False True rd r(1) by (auto simp: gb_raw_receive_def Let_def)
      then show ?thesis using r(2,3) n by (auto simp: i raw_put_def)
    qed (use ok rd False in \<open>auto simp: i raw_put_def gb_raw_receive_def Let_def\<close>)
  qed
next
  fix raw :: gb_raw and j :: "size_t \<times> bool"
  assume ok: "raw_ok raw"
  obtain count copy_ok where j: "j = (count, copy_ok)" by (cases j)
  show "\<exists>out raw1. raw_get raw j = Some (out, raw1) \<and> raw_ok raw1 \<and> raw_packets raw = out @ raw_packets raw1"
  proof (cases "raw_list raw")
    case Nil
    then show ?thesis using ok by (simp add: j raw_get_def raw_read_def raw_packets_def)
  next
    case (Cons r rs)
    have r: "unat (rlen r) = length (rdata r)" "0 < length (rdata r)" "length (rdata r) \<le> 8192" using ok Cons by (auto simp: raw_ok_def)
    have rd: "rd_bytes (rdata r) 0 (unat (rlen r)) = Some (rdata r)" using r by (simp add: rd_bytes_def)
    show ?thesis
    proof (cases "count < ucast (rlen r) \<or> \<not> copy_ok")
      case True
      then have "raw_read raw count copy_ok = Some (if count < ucast (rlen r) then - ENOSPC else - RAW_EFAULT, [], raw)"
        using Cons rd by (auto simp: raw_read_def)
      then show ?thesis using ok by (simp add: j raw_get_def)
    next
      case False
      have "int (length (rdata r)) \<le> 8192" using r(3) by simp
      then have "uint (rlen r) < 2 ^ 31" using r(1) unfolding uint_nat by simp
      then have s: "0 < sint (rlen r)" using r(1,2) unfolding sint_uint
        by (subst signed_take_bit_int_eq_self) (auto simp: uint_nat)
      let ?raw = "raw\<lparr>raw_list := rs, list_data := list_data raw - rlen r\<rparr>"
      have "rlen r \<le> list_data raw" using ok Cons r(1) by (simp add: raw_ok_def word_le_nat_alt)
      then have "unat (list_data raw - rlen r) = unat (list_data raw) - length (rdata r)" using unat_sub r(1) by metis
      then have "raw_ok ?raw" using ok Cons by (auto simp: raw_ok_def)
      moreover have "raw_read raw count copy_ok = Some (sint (rlen r), rdata r, ?raw)" using False Cons rd by (simp add: raw_read_def)
      ultimately show ?thesis using s Cons by (simp add: j raw_get_def raw_packets_def)
    qed
  qed
qed

section \<open>Properties\<close>

text \<open>
  C32 The character device is a bounded queue of packets: for any sequence of requests of the module and reads of users, whatever is refused for its
  size, for lack of memory or of room, no step faults; what was accepted is what was read followed by what is queued, in order; and
  the queue holds as many bytes as it counts, at most 65536.
\<close>

theorem raw_refines_queue:
  assumes "raw_ok raw" "\<forall>i. Inl i \<in> set events \<longrightarrow> raw_request i"
  shows "\<exists>acc out raw'. raw.qrun raw events = Some (acc, out, raw') \<and> raw_packets raw @ acc = out @ raw_packets raw' \<and>
    unat (list_data raw') = sum_list (map length (raw_packets raw')) \<and> unat (list_data raw') \<le> 65536"
  using raw.qrun_fifo [OF assms] by (auto simp: raw_ok_def raw_packets_def)

definition demo_raw :: gb_raw where
  "demo_raw = \<lparr>replies = (\<lambda>_. (0, [])), ncalls = 0, sent = [], raw_list = [], list_data = 0, raw_minor = 0\<rparr>"

theorem raw_refines_queue_witness:
  "raw_ok demo_raw \<and>
   (\<exists>acc out raw'. raw.qrun demo_raw [Inl (True, 2, incoming 2 [2, 0, 0, 0, 65, 66]), Inr (10, True)] = Some (acc, out, raw') \<and>
      acc = out @ raw_packets raw')"
proof -
  have ok: "raw_ok demo_raw" by (simp add: raw_ok_def demo_raw_def)
  let ?es = "[Inl (True, 2, incoming 2 [2, 0, 0, 0, 65, 66]), Inr (10, True)] :: (bool \<times> u8 \<times> gb_operation + size_t \<times> bool) list"
  have rq: "\<forall>i. Inl i \<in> set ?es \<longrightarrow> raw_request i" by (simp add: raw_request_def msg_wf_def incoming_def)
  obtain acc out raw' where "raw.qrun demo_raw ?es = Some (acc, out, raw')" "raw_packets demo_raw @ acc = out @ raw_packets raw'"
    using raw_refines_queue [OF ok rq] by blast
  moreover have "raw_packets demo_raw = []" by (simp add: raw_packets_def demo_raw_def)
  ultimately show ?thesis using ok by (metis append_Nil)
qed

text \<open>
  What one side writes the other side reads: a write of up to 8192 bytes that the module accepts sends exactly one request, and
  the raw driver that receives this request with room and memory queues exactly the data, from where a read with a large enough buffer returns them.
\<close>

theorem raw_write_read_roundtrip:
  assumes "0 < length d" "length d \<le> 8192" "fst (replies w (ncalls w)) = 0" "raw_ok r" "raw_list r = []" "unat cnt \<ge> length d"
  shows "\<exists>w' x r1. raw_write w True (Some d) (of_nat (length d)) = (int (length d), w') \<and> sent w' = sent w @ [x] \<and>
    gb_raw_receive r True (x_type x) (incoming (x_type x) (x_req x)) = Some (0, r1) \<and>
    raw_read r1 cnt True = Some (int (length d), d, r)"
proof -
  let ?n = "of_nat (length d) :: u32" and ?c = "of_nat (length d) :: size_t"
  have n: "unat ?n = length d" "unat ?c = length d" using assms(2) by (simp_all add: unsigned_of_nat take_bit_nat_eq_self)
  have z: "?n \<noteq> 0" "?c \<noteq> 0" using n assms(1) by auto
  have cast: "(ucast ?c :: u32) = ?n" by (simp add: word_unat_eq_iff n unsigned_ucast_eq) (use assms(2) in \<open>simp add: take_bit_nat_eq_self\<close>)
  let ?x = "\<lparr>x_type = 0x02, x_req = cpu_to_le32 ?n @ d, x_ret = 0, x_resp = []\<rparr>"
  let ?w = "w\<lparr>ncalls := ncalls w + 1, sent := sent w @ [?x]\<rparr>"
  have "\<not> MAX_PACKET_SIZE < ?c" using n(2) assms(2) by (simp add: word_less_nat_alt)
  then have wr: "raw_write w True (Some d) ?c = (int (length d), ?w)"
    using z n assms(3) cast by (simp add: raw_write_def gb_raw_send_def gb_sync_def Let_def)
  let ?op = "incoming 0x02 (cpu_to_le32 ?n @ d)"
  have pay: "payload_size (request ?op) = of_nat (4 + length d)" "buffer (request ?op) = cpu_to_le16 (of_nat (12 + length d)) @ [1, 0, 2, 0, 0, 0] @ cpu_to_le32 ?n @ d"
    by (simp_all add: incoming_def)
  have p4: "unat (of_nat (4 + length d) :: size_t) = 4 + length d" using assms(2) by (simp del: of_nat_add add: unsigned_of_nat take_bit_nat_eq_self)
  then have ge: "\<not> (of_nat (4 + length d) :: size_t) < 4" by (simp add: word_less_nat_alt)
  have sub: "(of_nat (4 + length d) :: size_t) - 4 = ?c" by simp
  have hd: "rd_bytes (buffer (request ?op)) 8 4 = Some (cpu_to_le32 ?n)" by (simp add: pay rd_bytes_def cpu_to_le16_def)
  have dr: "drop 12 (buffer (request ?op)) = d" unfolding pay(2) by (simp add: cpu_to_le16_def cpu_to_le32_def)
  have ld: "list_data r = 0" using assms(4,5) by (simp add: raw_ok_def unat_eq_zero)
  let ?r1 = "r\<lparr>list_data := ?n, raw_list := [\<lparr>rlen = ?n, rdata = d\<rparr>]\<rparr>"
  have "\<not> MAX_PACKET_SIZE < ucast ?n" "\<not> MAX_DATA_SIZE < ucast ?n" using n(1) assms(2) by (simp_all add: word_less_nat_alt)
  then have rcv: "receive_data r True ?n d = Some (0, ?r1)" using assms(5) ld n(1) by (simp add: receive_data_def rd_bytes_def)
  have "gb_raw_receive r True 0x02 ?op = Some (0, ?r1)"
    unfolding gb_raw_receive_def hd bind.bind_lunit Let_def pay(1) sub cast using ge z(1) rcv dr by (simp add: cpu_to_le32_def)
  moreover have "raw_read ?r1 cnt True = Some (int (length d), d, r)"
  proof -
    have "\<not> cnt < ucast ?n" using n(1) assms(6) by (simp add: word_less_nat_alt)
    moreover have "sint ?n = int (length d)" using assms(2) by (simp add: signed_of_nat signed_take_bit_int_eq_self)
    moreover have "r\<lparr>raw_list := [], list_data := 0\<rparr> = r" using ld assms(5) by simp
    ultimately show ?thesis using n(1) by (simp add: raw_read_def rd_bytes_def)
  qed
  ultimately show ?thesis using wr by (intro exI [of _ ?w] exI [of _ ?x] exI [of _ ?r1]) simp
qed

theorem raw_write_read_roundtrip_witness:
  "\<exists>w' x r1. raw_write demo_raw True (Some [65, 66, 67]) 3 = (3, w') \<and> sent w' = [x] \<and>
    gb_raw_receive demo_raw True (x_type x) (incoming (x_type x) (x_req x)) = Some (0, r1) \<and> raw_read r1 100 True = Some (3, [65, 66, 67], demo_raw)"
proof -
  have "raw_ok demo_raw" "raw_list demo_raw = []" "fst (replies demo_raw (ncalls demo_raw)) = 0" "sent demo_raw = []"
    by (simp_all add: raw_ok_def demo_raw_def)
  then show ?thesis using raw_write_read_roundtrip [of "[65, 66, 67]" demo_raw demo_raw 100] by simp
qed

text \<open>
  Nothing keeps minor numbers inside the region of 256 that raw_init reserves: a connection is set up with whatever number the
  allocator picks.
\<close>

theorem raw_minor_outside_region:
  "gb_raw_connection_init e (insert 0 {1..299}) True 300 0 0 =
     (0, Some \<lparr>replies = replies e, ncalls = ncalls e, sent = sent e, raw_list = [], list_data = 0, raw_minor = 300\<rparr>, insert 300 (insert 0 {1..299}))"
  by (simp add: gb_raw_connection_init_def ida_simple_get_def)

text \<open>
  Raw connections give back what they take: a set-up that fails leaves the minors as they were, one that succeeds takes one that was free, and
  taking the connection down returns it; raw_init registers everything or, on any error, nothing, and raw_exit undoes it.
\<close>

theorem raw_balanced:
  "(case gb_raw_connection_init e minors mem ans cret dret of (ret, None, minors1) \<Rightarrow> minors1 = minors \<and> ret \<noteq> 0
     | (ret, Some raw, minors1) \<Rightarrow> ret = 0 \<and> raw_minor raw \<notin> minors \<and> raw_minor raw \<in> minors1 \<and> gb_raw_connection_exit raw minors1 = minors \<and> raw_ok raw) \<and>
   (case raw_init a b c \<lparr>raw_class = False, raw_chrdev = False, raw_protocol = False\<rparr> of (ret, m) \<Rightarrow>
     raw_class m = (ret = 0) \<and> raw_chrdev m = (ret = 0) \<and> raw_protocol m = (ret = 0) \<and>
     raw_exit m = \<lparr>raw_class = False, raw_chrdev = False, raw_protocol = False\<rparr>)"
proof -
  obtain minor minors1 where i: "ida_simple_get ans 0 0 minors = (minor, minors1)" by (cases "ida_simple_get ans 0 0 minors")
  note ok = ida_simple_get_ok [OF i] and fail = ida_simple_get_fail [OF i] and undo = ida_get_remove [OF i]
  have "case gb_raw_connection_init e minors mem ans cret dret of (ret, None, minors1) \<Rightarrow> minors1 = minors \<and> ret \<noteq> 0
     | (ret, Some raw, minors1) \<Rightarrow> ret = 0 \<and> raw_minor raw \<notin> minors \<and> raw_minor raw \<in> minors1 \<and> gb_raw_connection_exit raw minors1 = minors \<and> raw_ok raw"
    using ok fail undo by (auto simp: gb_raw_connection_init_def i gb_raw_connection_exit_def raw_ok_def not_less)
  then show ?thesis by (simp add: raw_init_def raw_exit_def Let_def)
qed

end
