(* ===== verification/GB_HID.thy ===== *)
theory GB_HID
  imports GB_Class
begin

text \<open>
  The HID class driver (hid.c): descriptors and reports of an input device, a buffer for the reports that are read at start,
  and the power of the module, which is on while the device is open.
\<close>

section \<open>State\<close>

record hid_report =
  rep_id :: u8
  rep_type :: u8
  rep_size :: u32

text \<open>The reports of one type, and whether they carry their number.\<close>

record hid_report_enum =
  numbered :: bool
  report_list :: "hid_report list"

text \<open>
  struct gb_hid with the parts of its hid_device that it uses; \<open>raw_events\<close> and \<open>input_reports\<close> are what was handed to the
  HID core by hid_report_raw_event and hid_input_report.
\<close>

record gb_hid = class_env +
  wReportDescLength :: u16
  hid_version :: u16
  hid_vendor :: u16
  hid_product :: u16
  hid_country :: u8
  hid_started :: bool
  bufsize :: u32
  inbuf :: "bytes option"
  hid_open :: int
  report_enum :: "u8 \<Rightarrow> hid_report_enum"
  raw_events :: "(u8 \<times> bytes) list"
  input_reports :: "bytes list"

abbreviation (input) HID_INPUT_REPORT :: u8 where "HID_INPUT_REPORT \<equiv> 0"
abbreviation (input) HID_OUTPUT_REPORT :: u8 where "HID_OUTPUT_REPORT \<equiv> 1"
abbreviation (input) HID_FEATURE_REPORT :: u8 where "HID_FEATURE_REPORT \<equiv> 2"
abbreviation (input) HID_MIN_BUFFER_SIZE :: u32 where "HID_MIN_BUFFER_SIZE \<equiv> 64"
abbreviation (input) HID_MAX_BUFFER_SIZE :: u32 where "HID_MAX_BUFFER_SIZE \<equiv> 4096"
abbreviation (input) HID_MAX_DESCRIPTOR_SIZE :: u32 where "HID_MAX_DESCRIPTOR_SIZE \<equiv> 4096"

section \<open>Requests\<close>

definition gb_hid_get_desc :: "gb_hid \<Rightarrow> int \<times> bytes \<times> gb_hid" where
  "gb_hid_get_desc g = (case gb_sync 0x02 [] 10 g of ((ret, d), g1) \<Rightarrow>
     (ret, d, if ret \<noteq> 0 then g1 else g1\<lparr>wReportDescLength := le16_to_cpu (d ! 1) (d ! 2)\<rparr>))"

definition gb_hid_get_report_desc :: "gb_hid \<Rightarrow> (int \<times> bytes) \<times> gb_hid" where
  "gb_hid_get_report_desc g = gb_sync 0x03 [] (unat (wReportDescLength g)) g"

definition gb_hid_set_power :: "gb_hid \<Rightarrow> u8 \<Rightarrow> int \<times> gb_hid" where
  "gb_hid_set_power g ty = (case gb_sync ty [] 0 g of ((ret, _), g1) \<Rightarrow> (ret, g1))"

definition gb_hid_get_report :: "gb_hid \<Rightarrow> u8 \<Rightarrow> u8 \<Rightarrow> nat \<Rightarrow> (int \<times> bytes) \<times> gb_hid" where
  "gb_hid_get_report g report_type report_id len = gb_sync 0x06 [report_type, report_id] len g"

text \<open>
  gb_hid_set_report: \<open>sizeof(*request) + len - 1\<close> is \<open>len + 1\<close>, as the structure has two bytes and no array.
\<close>

definition gb_hid_set_report :: "size_t \<Rightarrow> bool \<Rightarrow> gb_hid \<Rightarrow> u8 \<Rightarrow> u8 \<Rightarrow> bytes \<Rightarrow> nat \<Rightarrow> (int \<times> gb_hid) option" where
  "gb_hid_set_report bmax mem g report_type report_id buf len =
     (case fresh_request bmax mem (2 + of_nat len - 1) 0 of None \<Rightarrow> Some (- ENOMEM, g)
      | Some req \<Rightarrow> do {
          r1 \<leftarrow> wr_bytes req 0 [report_type];
          r2 \<leftarrow> wr_bytes r1 1 [report_id];
          b \<leftarrow> rd_bytes buf 0 len;
          r3 \<leftarrow> wr_bytes r2 2 b;
          (case gb_sync 0x07 r3 0 g of ((ret, _), g1) \<Rightarrow> Some (if ret \<noteq> 0 then ret else int len, g1))
        })"

definition gb_hid_irq_handler :: "gb_hid \<Rightarrow> u8 \<Rightarrow> gb_operation \<Rightarrow> (int \<times> gb_hid) option" where
  "gb_hid_irq_handler g ty op =
     (if ty \<noteq> 0x08 then Some (- EINVAL, g)
      else if hid_started g
      then do {
        r \<leftarrow> rd_bytes (buffer (request op)) HDR_SIZE (unat (payload_size (request op)));
        Some (0, g\<lparr>input_reports := input_reports g @ [r]\<rparr>)
      }
      else Some (0, g))"

section \<open>Buffers and reports\<close>

definition gb_hid_report_len :: "gb_hid \<Rightarrow> hid_report \<Rightarrow> u32" where
  "gb_hid_report_len g r = drop_bit 3 (rep_size r - 1) + 1 + (if numbered (report_enum g (rep_type r)) then 1 else 0)"

fun find_max :: "gb_hid \<Rightarrow> hid_report list \<Rightarrow> u32 \<Rightarrow> u32" where
  "find_max g [] mx = mx"
| "find_max g (r # rs) mx = find_max g rs (if mx < gb_hid_report_len g r then gb_hid_report_len g r else mx)"

definition gb_hid_find_max_report :: "gb_hid \<Rightarrow> u8 \<Rightarrow> u32 \<Rightarrow> u32" where
  "gb_hid_find_max_report g ty mx = find_max g (report_list (report_enum g ty)) mx"

definition gb_hid_free_buffers :: "gb_hid \<Rightarrow> gb_hid" where
  "gb_hid_free_buffers g = g\<lparr>inbuf := None, bufsize := 0\<rparr>"

definition gb_hid_alloc_buffers :: "gb_hid \<Rightarrow> bool \<Rightarrow> u32 \<Rightarrow> int \<times> gb_hid" where
  "gb_hid_alloc_buffers g mem sz =
     (if \<not> mem then (- ENOMEM, g\<lparr>inbuf := None\<rparr>)
      else (0, g\<lparr>inbuf := Some (replicate (unat sz) 0), bufsize := sz\<rparr>))"

text \<open>gb_hid_init_report: the response is copied into the buffer, whose size is not consulted.\<close>

definition gb_hid_init_report :: "hid_report \<Rightarrow> gb_hid \<Rightarrow> gb_hid option" where
  "gb_hid_init_report r g =
     (let sz = unat (gb_hid_report_len g r) in
      case gb_hid_get_report g (rep_type r) (rep_id r) sz of ((ret, resp), g1) \<Rightarrow>
        if ret \<noteq> 0 then Some g1
        else do {
          b \<leftarrow> inbuf g1;
          b1 \<leftarrow> wr_bytes b 0 resp;
          d \<leftarrow> rd_bytes b1 0 sz;
          Some (g1\<lparr>inbuf := Some b1, raw_events := raw_events g1 @ [(rep_type r, d)]\<rparr>)
        })"

fun init_all :: "hid_report list \<Rightarrow> gb_hid \<Rightarrow> gb_hid option" where
  "init_all [] g = Some g"
| "init_all (r # rs) g = do { g1 \<leftarrow> gb_hid_init_report r g; init_all rs g1 }"

definition gb_hid_init_reports :: "gb_hid \<Rightarrow> gb_hid option" where
  "gb_hid_init_reports g = do {
     g1 \<leftarrow> init_all (report_list (report_enum g HID_INPUT_REPORT)) g;
     init_all (report_list (report_enum g HID_FEATURE_REPORT)) g1
   }"

text \<open>The raw requests of the HID core; \<open>bmax\<close> and \<open>mem\<close> are for the operation.\<close>

definition hid_get_raw_report :: "gb_hid \<Rightarrow> u8 \<Rightarrow> nat \<Rightarrow> u8 \<Rightarrow> (int \<times> bytes) \<times> gb_hid" where
  "hid_get_raw_report g report_number count report_type =
     (if report_type = HID_OUTPUT_REPORT then ((- EINVAL, []), g)
      else case gb_hid_get_report g report_type report_number count of ((ret, resp), g1) \<Rightarrow>
        (if ret = 0 then (int count, resp) else (ret, []), g1))"

definition hid_output_raw_report :: "size_t \<Rightarrow> bool \<Rightarrow> gb_hid \<Rightarrow> bytes \<Rightarrow> nat \<Rightarrow> u8 \<Rightarrow> (int \<times> gb_hid) option" where
  "hid_output_raw_report bmax mem g buf len report_type = do {
     report_id \<leftarrow> rd8 buf 0;
     if report_type = HID_INPUT_REPORT then Some (- EINVAL, g)
     else do {
       let (buf1, len1) = (if report_id \<noteq> 0 then (drop 1 buf, len - 1) else (buf, len));
       (ret, g1) \<leftarrow> gb_hid_set_report bmax mem g report_type report_id buf1 len1;
       Some (0, g1)
     }
   }"

datatype hid_request = HID_REQ_GET_REPORT | HID_REQ_SET_REPORT | HID_REQ_OTHER

definition gb_hid_raw_request :: "size_t \<Rightarrow> bool \<Rightarrow> gb_hid \<Rightarrow> u8 \<Rightarrow> bytes \<Rightarrow> nat \<Rightarrow> u8 \<Rightarrow> hid_request \<Rightarrow> ((int \<times> bytes) \<times> gb_hid) option" where
  "gb_hid_raw_request bmax mem g reportnum buf len rtype reqtype =
     (case reqtype of
        HID_REQ_GET_REPORT \<Rightarrow> Some (hid_get_raw_report g reportnum len rtype)
      | HID_REQ_SET_REPORT \<Rightarrow> do {
          b0 \<leftarrow> rd8 buf 0;
          if b0 \<noteq> reportnum then Some ((- EINVAL, []), g)
          else do { (ret, g1) \<leftarrow> hid_output_raw_report bmax mem g buf len rtype; Some ((ret, []), g1) }
        }
      | HID_REQ_OTHER \<Rightarrow> Some ((- EIO, []), g))"

section \<open>Callbacks\<close>

text \<open>gb_hid_parse; the HID core parses the descriptor into \<open>enums\<close> or reports an error.\<close>

definition gb_hid_parse :: "gb_hid \<Rightarrow> bool \<Rightarrow> (bytes \<Rightarrow> int \<times> (u8 \<Rightarrow> hid_report_enum)) \<Rightarrow> int \<times> gb_hid" where
  "gb_hid_parse g mem parser =
     (let rsize = (ucast (wReportDescLength g) :: u32) in
      if rsize = 0 \<or> HID_MAX_DESCRIPTOR_SIZE < rsize then (- EINVAL, g)
      else if \<not> mem then (- ENOMEM, g)
      else case gb_hid_get_report_desc g of ((ret, rdesc), g1) \<Rightarrow>
        if ret \<noteq> 0 then (ret, g1)
        else case parser rdesc of (ret, enums) \<Rightarrow> (ret, if ret \<noteq> 0 then g1 else g1\<lparr>report_enum := enums\<rparr>))"

definition gb_hid_start :: "gb_hid \<Rightarrow> bool \<Rightarrow> bool \<Rightarrow> (int \<times> gb_hid) option" where
  "gb_hid_start g mem no_init =
     (let b1 = gb_hid_find_max_report g HID_INPUT_REPORT HID_MIN_BUFFER_SIZE;
          b2 = gb_hid_find_max_report g HID_OUTPUT_REPORT b1;
          b3 = gb_hid_find_max_report g HID_FEATURE_REPORT b2;
          sz = (if HID_MAX_BUFFER_SIZE < b3 then HID_MAX_BUFFER_SIZE else b3)
      in case gb_hid_alloc_buffers g mem sz of (ret, g1) \<Rightarrow>
        if ret \<noteq> 0 then Some (ret, g1)
        else if no_init then Some (0, g1)
        else do { g2 \<leftarrow> gb_hid_init_reports g1; Some (0, g2) })"

definition gb_hid_stop :: "gb_hid \<Rightarrow> gb_hid" where
  "gb_hid_stop g = gb_hid_free_buffers g"

definition gb_hid_open :: "gb_hid \<Rightarrow> int \<times> gb_hid" where
  "gb_hid_open g =
     (let g1 = g\<lparr>hid_open := hid_open g + 1\<rparr> in
      if hid_open g \<noteq> 0 then (0, g1)
      else case gb_hid_set_power g1 0x04 of (ret, g2) \<Rightarrow>
        (ret, if ret < 0 then g2\<lparr>hid_open := hid_open g2 - 1\<rparr> else g2\<lparr>hid_started := True\<rparr>))"

definition gb_hid_close :: "gb_hid \<Rightarrow> gb_hid" where
  "gb_hid_close g =
     (let g1 = g\<lparr>hid_open := hid_open g - 1\<rparr> in
      if hid_open g1 \<noteq> 0 then g1 else snd (gb_hid_set_power (g1\<lparr>hid_started := False\<rparr>) 0x05))"

datatype pm_hint = PM_HINT_FULLON | PM_HINT_NORMAL | PM_HINT_OTHER

definition gb_hid_power :: "gb_hid \<Rightarrow> pm_hint \<Rightarrow> int \<times> gb_hid" where
  "gb_hid_power g lvl = (case lvl of PM_HINT_FULLON \<Rightarrow> gb_hid_set_power g 0x04 | PM_HINT_NORMAL \<Rightarrow> gb_hid_set_power g 0x05
     | PM_HINT_OTHER \<Rightarrow> (0, g))"

definition gb_hid_init :: "gb_hid \<Rightarrow> int \<times> gb_hid" where
  "gb_hid_init g =
     (case gb_hid_get_desc g of (ret, d, g1) \<Rightarrow>
        if ret \<noteq> 0 then (ret, g1)
        else (0, g1\<lparr>hid_version := le16_to_cpu (d ! 3) (d ! 4), hid_vendor := le16_to_cpu (d ! 7) (d ! 8),
                    hid_product := le16_to_cpu (d ! 5) (d ! 6), hid_country := d ! 9\<rparr>))"

definition blank_hid :: "class_env \<Rightarrow> gb_hid" where
  "blank_hid e = \<lparr>replies = replies e, ncalls = ncalls e, sent = sent e, wReportDescLength = 0, hid_version = 0, hid_vendor = 0,
     hid_product = 0, hid_country = 0, hid_started = False, bufsize = 0, inbuf = None, hid_open = 0,
     report_enum = (\<lambda>_. \<lparr>numbered = False, report_list = []\<rparr>), raw_events = [], input_reports = []\<rparr>"

text \<open>gb_hid_connection_init: the two allocations and the result of hid_add_device.\<close>

definition gb_hid_connection_init :: "class_env \<Rightarrow> bool \<Rightarrow> int \<Rightarrow> int \<Rightarrow> int \<times> gb_hid option" where
  "gb_hid_connection_init e mem hid_ret add_ret =
     (if \<not> mem then (- ENOMEM, None)
      else if hid_ret \<noteq> 0 then (hid_ret, None)
      else case gb_hid_init (blank_hid e) of (ret, g) \<Rightarrow>
        if ret \<noteq> 0 then (ret, None)
        else if add_ret = 0 then (0, Some g) else (add_ret, None))"

end
