(* ===== verification/GB_HID_Props.thy ===== *)
theory GB_HID_Props
  imports GB_HID
begin

text \<open>
  What hid.c promises: the buffer for reports is as large as the largest report, up to 4096 bytes; the module is on and its
  input is passed on while the device is open. And where it fails: reports above the limit, empty reports,
  every report that is sent, and power hints.
\<close>

section \<open>Buffers\<close>

lemma find_max_start: "mx \<le> find_max g rs mx"
proof (induction rs arbitrary: mx)
  case (Cons a rs)
  have "mx \<le> (if mx < gb_hid_report_len g a then gb_hid_report_len g a else mx)" by auto
  also have "\<dots> \<le> find_max g rs \<dots>" by (rule Cons.IH)
  finally show ?case by simp
qed simp

lemma find_max_each: "r \<in> set rs \<Longrightarrow> gb_hid_report_len g r \<le> find_max g rs mx"
proof (induction rs arbitrary: mx)
  case (Cons a rs)
  have "gb_hid_report_len g a \<le> (if mx < gb_hid_report_len g a then gb_hid_report_len g a else mx)" by auto
  also have "\<dots> \<le> find_max g rs \<dots>" by (rule find_max_start)
  finally show ?case using Cons by auto
qed simp

lemmas find_max_ge = find_max_start find_max_each

lemma find_max_le: "mx \<le> b \<Longrightarrow> \<forall>r \<in> set rs. gb_hid_report_len g r \<le> b \<Longrightarrow> find_max g rs mx \<le> b"
  by (induction rs arbitrary: mx) simp_all

text \<open>The frame of reading reports.\<close>

definition hid_frame :: "gb_hid \<Rightarrow> (u8 \<Rightarrow> hid_report_enum) \<times> int \<times> bool" where
  "hid_frame g = (report_enum g, hid_open g, hid_started g)"

lemma report_len_frame: "hid_frame g1 = hid_frame g \<Longrightarrow> gb_hid_report_len g1 r = gb_hid_report_len g r"
  by (simp add: hid_frame_def gb_hid_report_len_def)

lemma init_report_ok:
  assumes "inbuf g = Some b" "unat (gb_hid_report_len g r) \<le> length b"
  obtains g1 b1 where "gb_hid_init_report r g = Some g1" "inbuf g1 = Some b1" "length b1 = length b" "hid_frame g1 = hid_frame g"
proof -
  let ?n = "unat (gb_hid_report_len g r)"
  obtain ret resp g1 where s: "gb_sync 0x06 [rep_type r, rep_id r] ?n g = ((ret, resp), g1)" by (metis surj_pair)
  then have g1: "length resp = ?n" "inbuf g1 = Some b" "hid_frame g1 = hid_frame g"
    using assms(1) by (auto simp: gb_sync_def Let_def hid_frame_def)
  show ?thesis
  proof (cases "ret = 0")
    case True
    let ?b = "resp @ drop ?n b"
    let ?g = "g1\<lparr>inbuf := Some ?b, raw_events := raw_events g1 @ [(rep_type r, resp)]\<rparr>"
    have "wr_bytes b 0 resp = Some ?b" "rd_bytes ?b 0 ?n = Some resp" using g1(1) assms(2) by (simp_all add: wr_bytes_def rd_bytes_def)
    then have "gb_hid_init_report r g = Some ?g" using s g1 True by (simp add: gb_hid_init_report_def gb_hid_get_report_def Let_def)
    then show ?thesis using that [of ?g ?b] g1 assms(2) by (simp add: hid_frame_def)
  next
    case False
    then have "gb_hid_init_report r g = Some g1" using s by (simp add: gb_hid_init_report_def gb_hid_get_report_def Let_def)
    then show ?thesis using that [of g1 b] g1 by simp
  qed
qed

lemma init_all_ok:
  assumes "inbuf g = Some b" "\<forall>r \<in> set rs. unat (gb_hid_report_len g r) \<le> length b"
  shows "\<exists>g1 b1. init_all rs g = Some g1 \<and> inbuf g1 = Some b1 \<and> length b1 = length b \<and> hid_frame g1 = hid_frame g"
  using assms
proof (induction rs arbitrary: g b)
  case (Cons r rs)
  obtain g1 b1 where i: "gb_hid_init_report r g = Some g1" "inbuf g1 = Some b1" "length b1 = length b" "hid_frame g1 = hid_frame g"
    using init_report_ok [OF Cons.prems(1)] Cons.prems(2) by (metis list.set_intros(1))
  have "\<forall>r \<in> set rs. unat (gb_hid_report_len g1 r) \<le> length b1" using Cons.prems(2) i(3) report_len_frame [OF i(4)] by simp
  from Cons.IH [OF i(2) this] show ?case using i by auto
qed simp

text \<open>
  C33 The report buffer is large enough for reports of up to 4096 bytes: if all reports of the device are, starting it does not
  fault, whatever the module answers, and leaves a buffer that holds the largest report; without memory it fails with -ENOMEM.
\<close>

theorem hid_start_fits:
  assumes "\<forall>ty \<in> {HID_INPUT_REPORT, HID_OUTPUT_REPORT, HID_FEATURE_REPORT}. \<forall>r \<in> set (report_list (report_enum g ty)).
     gb_hid_report_len g r \<le> HID_MAX_BUFFER_SIZE"
  shows "\<exists>g1. gb_hid_start g mem no_init = Some (if mem then 0 else - ENOMEM, g1) \<and>
    (if mem then \<exists>b. inbuf g1 = Some b \<and> 64 \<le> length b \<and> length b \<le> 4096 \<and>
      (\<forall>ty \<in> {HID_INPUT_REPORT, HID_OUTPUT_REPORT, HID_FEATURE_REPORT}. \<forall>r \<in> set (report_list (report_enum g ty)). unat (gb_hid_report_len g r) \<le> length b)
     else inbuf g1 = None)"
proof (cases mem)
  case True
  let ?i = "report_list (report_enum g HID_INPUT_REPORT)" and ?out = "report_list (report_enum g HID_OUTPUT_REPORT)"
    and ?f = "report_list (report_enum g HID_FEATURE_REPORT)"
  let ?b1 = "find_max g ?i 64" and ?b2 = "find_max g ?out (find_max g ?i 64)"
  let ?b3 = "find_max g ?f ?b2"
  have le: "?b3 \<le> 4096" using assms by (intro find_max_le) auto
  have ge: "64 \<le> ?b1" "?b1 \<le> ?b2" "?b2 \<le> ?b3" by (rule find_max_ge(1))+
  have all: "gb_hid_report_len g r \<le> ?b3" if "r \<in> set ?i \<or> r \<in> set ?out \<or> r \<in> set ?f" for r
    using that find_max_ge(2) [of r ?i g 64] find_max_ge(2) [of r ?out g ?b1] find_max_ge(2) [of r ?f g ?b2] ge by fastforce
  let ?g = "g\<lparr>inbuf := Some (replicate (unat ?b3) 0), bufsize := ?b3\<rparr>"
  have fr: "hid_frame ?g = hid_frame g" by (simp add: hid_frame_def)
  have l: "unat (gb_hid_report_len g r) \<le> unat ?b3" if "r \<in> set ?i \<or> r \<in> set ?out \<or> r \<in> set ?f" for r
    using all [OF that] by (simp add: word_le_nat_alt)
  have i1: "inbuf ?g = Some (replicate (unat ?b3) 0)" "\<forall>r \<in> set ?i. unat (gb_hid_report_len ?g r) \<le> length (replicate (unat ?b3) (0 :: u8))"
    using l report_len_frame [OF fr] by simp_all
  obtain g1 c1 where g1: "init_all ?i ?g = Some g1" "inbuf g1 = Some c1" "length c1 = unat ?b3" "hid_frame g1 = hid_frame g"
    using init_all_ok [OF i1] fr by auto
  have i2: "\<forall>r \<in> set ?f. unat (gb_hid_report_len g1 r) \<le> length c1" using l g1(3) report_len_frame [OF g1(4)] by simp
  obtain g2 c2 where g2: "init_all ?f g1 = Some g2" "inbuf g2 = Some c2" "length c2 = unat ?b3"
    using init_all_ok [OF g1(2) i2] g1(3) by auto
  have st: "gb_hid_start g mem no_init = Some (0, if no_init then ?g else g2)"
    using True le g1(1) g2(1) by (auto simp: gb_hid_start_def gb_hid_find_max_report_def gb_hid_alloc_buffers_def gb_hid_init_reports_def Let_def)
  have b3: "64 \<le> unat ?b3" "unat ?b3 \<le> 4096" using le ge by (simp_all add: word_le_nat_alt)
  show ?thesis using st True b3 l g2 by (cases no_init) auto
next
  case False
  then show ?thesis by (simp add: gb_hid_start_def gb_hid_alloc_buffers_def Let_def)
qed

definition demo_hid :: gb_hid where
  "demo_hid = (blank_hid \<lparr>replies = (\<lambda>_. (0, [])), ncalls = 0, sent = []\<rparr>)
     \<lparr>report_enum := (\<lambda>ty. if ty = 0 then \<lparr>numbered = True, report_list = [\<lparr>rep_id = 1, rep_type = 0, rep_size = 1000\<rparr>]\<rparr>
                      else \<lparr>numbered = False, report_list = []\<rparr>)\<rparr>"

theorem hid_start_fits_witness:
  "\<exists>g1 b. gb_hid_start demo_hid True False = Some (0, g1) \<and> inbuf g1 = Some b \<and> 126 \<le> length b"
proof -
  let ?r = "\<lparr>rep_id = 1, rep_type = 0, rep_size = 1000\<rparr>"
  have len: "gb_hid_report_len demo_hid ?r = 126" by (simp add: gb_hid_report_len_def demo_hid_def blank_hid_def)
  have rl: "report_list (report_enum demo_hid 0) = [?r]" "report_list (report_enum demo_hid 1) = []" "report_list (report_enum demo_hid 2) = []"
    by (simp_all add: demo_hid_def blank_hid_def)
  show ?thesis using hid_start_fits [of demo_hid True False] len rl by auto
qed

text \<open>A longer report runs over the end of the buffer as soon as the module answers.\<close>

theorem hid_long_report_faults:
  assumes "report_enum g HID_INPUT_REPORT = \<lparr>numbered = nb, report_list = [r]\<rparr>" "rep_type r = HID_INPUT_REPORT"
    and "HID_MAX_BUFFER_SIZE < gb_hid_report_len g r" "fst (replies g (ncalls g)) = 0"
  shows "gb_hid_start g True False = None"
proof -
  have m: "find_max g [r] 64 = gb_hid_report_len g r" using assms(3) by (simp add: word_less_nat_alt)
  let ?b3 = "find_max g (report_list (report_enum g HID_FEATURE_REPORT)) (find_max g (report_list (report_enum g HID_OUTPUT_REPORT)) (find_max g [r] 64))"
  have "gb_hid_report_len g r \<le> ?b3" using find_max_ge(1) order_trans m by metis
  then have b3: "HID_MAX_BUFFER_SIZE < ?b3" using assms(3) by (rule less_le_trans [rotated])
  let ?g = "g\<lparr>inbuf := Some (replicate 4096 0), bufsize := 4096\<rparr>"
  let ?n = "unat (gb_hid_report_len g r)"
  have n: "4096 < ?n" "gb_hid_report_len ?g r = gb_hid_report_len g r" using assms(3) by (simp_all add: word_less_nat_alt gb_hid_report_len_def)
  obtain resp g1 where g1: "gb_sync 0x06 [rep_type r, rep_id r] ?n ?g = ((0, resp), g1)" "length resp = ?n" "inbuf g1 = Some (replicate 4096 0)"
    using assms(4) by (simp add: gb_sync_def Let_def)
  then have "wr_bytes (replicate 4096 0) 0 resp = None" using n(1) by (simp add: wr_bytes_None_iff)
  then have "gb_hid_init_report r ?g = None" using n(2) g1 by (simp add: gb_hid_init_report_def gb_hid_get_report_def Let_def)
  then show ?thesis
    using b3 assms(1) by (simp add: gb_hid_start_def gb_hid_find_max_report_def gb_hid_alloc_buffers_def gb_hid_init_reports_def Let_def)
qed

section \<open>Reports that are sent\<close>

text \<open>
  A report that is sent overruns its request: gb_hid_set_report allocates one byte less than it fills, so whenever
  the operation can be created, the copy of the report ends one byte behind the request.
\<close>

theorem hid_set_report_overruns:
  assumes "fresh_request bmax mem (2 + of_nat len - 1) 0 \<noteq> None" "len < 9223372036854775808" "len \<le> length buf"
  shows "gb_hid_set_report bmax mem g report_type report_id buf len = None"
proof -
  obtain req where f: "fresh_request bmax mem (2 + of_nat len - 1) 0 = Some req" using assms(1) by blast
  have "(2 + of_nat len - 1 :: size_t) = of_nat (len + 1)" by simp
  then have "length req = len + 1" using f assms(2) unat_of_nat_u64 [of "len + 1"] by (auto simp: fresh_request_def split: if_splits)
  then have "wr_bytes r2 2 (take len buf) = None" if "wr_bytes req 0 [report_type] = Some r1" "wr_bytes r1 1 [report_id] = Some r2" for r1 r2
    using assms(3) wr_bytes_length [OF that(1)] wr_bytes_length [OF that(2)] by (simp add: wr_bytes_None_iff)
  moreover have "rd_bytes buf 0 len = Some (take len buf)" using assms(3) by (simp add: rd_bytes_def)
  ultimately show ?thesis unfolding gb_hid_set_report_def f option.case by (auto split: bind_splits)
qed

theorem hid_set_report_overruns_witness: "gb_hid_set_report 100 True demo_hid 1 0 [1, 2, 3] 3 = None"
  by (rule hid_set_report_overruns) (simp_all add: fresh_request_def)

text \<open>
  A report that cannot be sent is reported as sent: the result of the output path is 0 in any case.
\<close>

theorem hid_output_error_lost:
  "hid_output_raw_report bmax False g (0 # bs) len HID_OUTPUT_REPORT = Some (0, g)"
  by (simp add: hid_output_raw_report_def gb_hid_set_report_def fresh_request_def rd8_def)

section \<open>Power\<close>

datatype hid_event = HOpen | HClose | HIrq u8 gb_operation

fun hid_exec :: "gb_hid \<Rightarrow> hid_event \<Rightarrow> gb_hid option" where
  "hid_exec g HOpen = Some (snd (gb_hid_open g))"
| "hid_exec g HClose = Some (gb_hid_close g)"
| "hid_exec g (HIrq ty op) = map_option snd (gb_hid_irq_handler g ty op)"

text \<open>A close belongs to an open that succeeded; requests are well-formed.\<close>

fun hid_enabled :: "gb_hid \<Rightarrow> hid_event \<Rightarrow> bool" where
  "hid_enabled g HOpen = True"
| "hid_enabled g HClose = (0 < hid_open g)"
| "hid_enabled g (HIrq ty op) = msg_wf (request op)"

text \<open>The module: off after reset, and as it was last told.\<close>

definition hid_step :: "xfer \<Rightarrow> bool \<Rightarrow> bool" where
  "hid_step x on = (if x_ret x < 0 then on else if x_type x = 0x04 then True else if x_type x = 0x05 then False else on)"

definition hid_up :: "gb_hid \<Rightarrow> bool" where
  "hid_up g \<longleftrightarrow> hid_open g = 0 \<and> \<not> hid_started g \<and> fold hid_step (sent g) False = False"

definition hid_rel :: "gb_hid \<Rightarrow> bool \<Rightarrow> bool" where
  "hid_rel g on \<longleftrightarrow> 0 \<le> hid_open g \<and> hid_started g = (0 < hid_open g) \<and> (0 < hid_open g \<longrightarrow> on)"

lemma set_power_eq:
  "gb_hid_set_power g ty = (fst (replies g (ncalls g)), g\<lparr>ncalls := ncalls g + 1,
     sent := sent g @ [\<lparr>x_type = ty, x_req = [], x_ret = fst (replies g (ncalls g)), x_resp = []\<rparr>]\<rparr>)"
  by (simp add: gb_hid_set_power_def gb_sync_def Let_def)

interpretation hid: cached_module hid_up hid_enabled hid_exec sent hid_step "\<lambda>_. False" hid_rel
proof
  show "hid_up g \<Longrightarrow> hid_rel g (fold hid_step (sent g) False)" for g by (simp add: hid_up_def hid_rel_def)
next
  fix g on e
  assume r: "hid_rel g on" and en: "hid_enabled g e"
  show "\<exists>g' new. hid_exec g e = Some g' \<and> sent g' = sent g @ new \<and> False = False \<and> hid_rel g' (fold hid_step new on)"
  proof (cases e)
    case HOpen
    then show ?thesis using r by (auto simp: gb_hid_open_def set_power_eq Let_def hid_rel_def hid_step_def)
  next
    case HClose
    then show ?thesis using r en by (auto simp: gb_hid_close_def set_power_eq Let_def hid_rel_def hid_step_def)
  next
    case (HIrq ty op)
    then have "rd_bytes (buffer (request op)) HDR_SIZE (unat (payload_size (request op))) \<noteq> None"
      using en by (simp add: msg_wf_def rd_bytes_def)
    then show ?thesis using HIrq r by (auto simp: gb_hid_irq_handler_def hid_rel_def)
  qed
qed



text \<open>A power hint of one user switches the module off under another one that has the device open.\<close>

theorem hid_power_hint_switches_off:
  assumes "0 < hid_open g" "fst (replies g (ncalls g)) = 0"
  shows "case gb_hid_power g PM_HINT_NORMAL of (ret, g1) \<Rightarrow> ret = 0 \<and> hid_open g1 = hid_open g \<and> hid_started g1 = hid_started g \<and>
    \<not> fold hid_step (sent g1) on"
  using assms by (simp add: gb_hid_power_def set_power_eq hid_step_def)

end
