(* ===== verification/GB_Simple.thy ===== *)
theory GB_Simple
  imports GB_Class
begin

text \<open>
  The small class drivers: pulse width modulation (pwm.c), battery (battery.c), vibrator (vibrator.c) and the USB host controller (usb.c). Each
  call becomes one request; what can go wrong are ranges and conversions.
\<close>

section \<open>PWM\<close>

record gb_pwm_chip = class_env +
  pwm_max :: u8
  npwm :: u32

definition gb_pwm_count_operation :: "gb_pwm_chip \<Rightarrow> int \<times> gb_pwm_chip" where
  "gb_pwm_count_operation p =
     (case gb_sync 0x02 [] 1 p of ((ret, resp), p1) \<Rightarrow> if ret \<noteq> 0 then (ret, p1) else (0, p1\<lparr>pwm_max := resp ! 0\<rparr>))"

text \<open>A request for one of the channels, which is refused when there is no such channel.\<close>

definition pwm_op :: "u8 \<Rightarrow> bytes \<Rightarrow> gb_pwm_chip \<Rightarrow> u8 \<Rightarrow> int \<times> gb_pwm_chip" where
  "pwm_op ty args p which =
     (if pwm_max p < which then (- EINVAL, p)
      else case gb_sync ty ([which] @ args) 0 p of ((ret, _), p1) \<Rightarrow> (ret, p1))"

definition gb_pwm_activate_operation :: "gb_pwm_chip \<Rightarrow> u8 \<Rightarrow> int \<times> gb_pwm_chip" where
  "gb_pwm_activate_operation p which = pwm_op 0x03 [] p which"

definition gb_pwm_deactivate_operation :: "gb_pwm_chip \<Rightarrow> u8 \<Rightarrow> int \<times> gb_pwm_chip" where
  "gb_pwm_deactivate_operation p which = pwm_op 0x04 [] p which"

definition gb_pwm_config_operation :: "gb_pwm_chip \<Rightarrow> u8 \<Rightarrow> u32 \<Rightarrow> u32 \<Rightarrow> int \<times> gb_pwm_chip" where
  "gb_pwm_config_operation p which duty period = pwm_op 0x05 (cpu_to_le32 duty @ cpu_to_le32 period) p which"

definition gb_pwm_set_polarity_operation :: "gb_pwm_chip \<Rightarrow> u8 \<Rightarrow> u8 \<Rightarrow> int \<times> gb_pwm_chip" where
  "gb_pwm_set_polarity_operation p which polarity = pwm_op 0x06 [polarity] p which"

definition gb_pwm_enable_operation :: "gb_pwm_chip \<Rightarrow> u8 \<Rightarrow> int \<times> gb_pwm_chip" where
  "gb_pwm_enable_operation p which = pwm_op 0x07 [] p which"

definition gb_pwm_disable_operation :: "gb_pwm_chip \<Rightarrow> u8 \<Rightarrow> int \<times> gb_pwm_chip" where
  "gb_pwm_disable_operation p which = pwm_op 0x08 [] p which"

text \<open>The operations of the PWM core name a channel by an unsigned int, which becomes a byte.\<close>

definition gb_pwm_request :: "gb_pwm_chip \<Rightarrow> u32 \<Rightarrow> int \<times> gb_pwm_chip" where
  "gb_pwm_request p hwpwm = gb_pwm_activate_operation p (ucast hwpwm)"

definition gb_pwm_free :: "gb_pwm_chip \<Rightarrow> u32 \<Rightarrow> gb_pwm_chip" where
  "gb_pwm_free p hwpwm = snd (gb_pwm_deactivate_operation p (ucast hwpwm))"

definition gb_pwm_config :: "gb_pwm_chip \<Rightarrow> u32 \<Rightarrow> int \<Rightarrow> int \<Rightarrow> int \<times> gb_pwm_chip" where
  "gb_pwm_config p hwpwm duty_ns period_ns = gb_pwm_config_operation p (ucast hwpwm) (word_of_int duty_ns) (word_of_int period_ns)"

definition gb_pwm_set_polarity :: "gb_pwm_chip \<Rightarrow> u32 \<Rightarrow> bool \<Rightarrow> int \<times> gb_pwm_chip" where
  "gb_pwm_set_polarity p hwpwm inversed = gb_pwm_set_polarity_operation p (ucast hwpwm) (if inversed then 1 else 0)"

definition gb_pwm_enable :: "gb_pwm_chip \<Rightarrow> u32 \<Rightarrow> int \<times> gb_pwm_chip" where
  "gb_pwm_enable p hwpwm = gb_pwm_enable_operation p (ucast hwpwm)"

definition gb_pwm_disable :: "gb_pwm_chip \<Rightarrow> u32 \<Rightarrow> gb_pwm_chip" where
  "gb_pwm_disable p hwpwm = snd (gb_pwm_disable_operation p (ucast hwpwm))"

definition gb_pwm_connection_init :: "class_env \<Rightarrow> bool \<Rightarrow> int \<Rightarrow> int \<times> gb_pwm_chip option" where
  "gb_pwm_connection_init e mem add_ret =
     (if \<not> mem then (- ENOMEM, None)
      else case gb_pwm_count_operation \<lparr>replies = replies e, ncalls = ncalls e, sent = sent e, pwm_max = 0, npwm = 0\<rparr> of (ret, p) \<Rightarrow>
        if ret \<noteq> 0 then (ret, None)
        else if add_ret \<noteq> 0 then (add_ret, None)
        else (0, Some (p\<lparr>npwm := ucast (pwm_max p) + 1\<rparr>)))"

section \<open>Battery\<close>

datatype power_supply_property = POWER_SUPPLY_PROP_TECHNOLOGY | POWER_SUPPLY_PROP_STATUS | POWER_SUPPLY_PROP_VOLTAGE_MAX_DESIGN
  | POWER_SUPPLY_PROP_CAPACITY | POWER_SUPPLY_PROP_TEMP | POWER_SUPPLY_PROP_VOLTAGE_NOW | POWER_SUPPLY_PROP_OTHER

text \<open>A 32-bit value of the module, returned as an int.\<close>

definition battery_get32 :: "u8 \<Rightarrow> class_env \<Rightarrow> int \<times> class_env" where
  "battery_get32 ty gb = (case gb_sync ty [] 4 gb of ((retval, r), gb1) \<Rightarrow>
     (if retval \<noteq> 0 then retval else sint (le32_to_cpu (r ! 0) (r ! 1) (r ! 2) (r ! 3)), gb1))"

text \<open>The codes of the protocol (case labels) and of the power supply core (results): UNKNOWN, NiMH, LION, LIPO, LiFe, NiCd, LiMn.\<close>

definition map_tech :: "u32 \<Rightarrow> u32" where
  "map_tech t = (if t = 0x0001 then 1 else if t = 0x0002 then 2 else if t = 0x0003 then 3 else if t = 0x0004 then 4
     else if t = 0x0005 then 5 else if t = 0x0006 then 6 else 0)"

definition get_tech :: "class_env \<Rightarrow> int \<times> class_env" where
  "get_tech gb = (case gb_sync 0x02 [] 4 gb of ((retval, r), gb1) \<Rightarrow>
     (if retval \<noteq> 0 then retval else sint (map_tech (le32_to_cpu (r ! 0) (r ! 1) (r ! 2) (r ! 3))), gb1))"

text \<open>UNKNOWN, CHARGING, DISCHARGING, NOT CHARGING, FULL.\<close>

definition map_status :: "u16 \<Rightarrow> u16" where
  "map_status s = (if s = 0x0001 then 1 else if s = 0x0002 then 2 else if s = 0x0003 then 3 else if s = 0x0004 then 4 else 0)"

definition get_status :: "class_env \<Rightarrow> int \<times> class_env" where
  "get_status gb = (case gb_sync 0x03 [] 2 gb of ((retval, r), gb1) \<Rightarrow>
     (if retval \<noteq> 0 then retval else uint (map_status (le16_to_cpu (r ! 0) (r ! 1))), gb1))"

definition get_max_voltage :: "class_env \<Rightarrow> int \<times> class_env" where
  "get_max_voltage gb = battery_get32 0x04 gb"

definition get_percent_capacity :: "class_env \<Rightarrow> int \<times> class_env" where
  "get_percent_capacity gb = battery_get32 0x05 gb"

definition get_temp :: "class_env \<Rightarrow> int \<times> class_env" where
  "get_temp gb = battery_get32 0x06 gb"

definition get_voltage :: "class_env \<Rightarrow> int \<times> class_env" where
  "get_voltage gb = battery_get32 0x07 gb"

text \<open>The result, the value that is stored, and the state.\<close>

definition get_property :: "class_env \<Rightarrow> power_supply_property \<Rightarrow> int \<times> int option \<times> class_env" where
  "get_property gb psp =
     (let fin = (\<lambda>(v, gb1). (if v < 0 then v else 0, Some v, gb1)) in
      case psp of
        POWER_SUPPLY_PROP_TECHNOLOGY \<Rightarrow> fin (get_tech gb)
      | POWER_SUPPLY_PROP_STATUS \<Rightarrow> fin (get_status gb)
      | POWER_SUPPLY_PROP_VOLTAGE_MAX_DESIGN \<Rightarrow> fin (get_max_voltage gb)
      | POWER_SUPPLY_PROP_CAPACITY \<Rightarrow> fin (get_percent_capacity gb)
      | POWER_SUPPLY_PROP_TEMP \<Rightarrow> fin (get_temp gb)
      | POWER_SUPPLY_PROP_VOLTAGE_NOW \<Rightarrow> fin (get_voltage gb)
      | POWER_SUPPLY_PROP_OTHER \<Rightarrow> (- EINVAL, None, gb))"

definition gb_battery_connection_init :: "bool \<Rightarrow> int \<Rightarrow> int \<times> bool" where
  "gb_battery_connection_init mem register_ret =
     (if \<not> mem then (- ENOMEM, False) else (register_ret, register_ret = 0))"

section \<open>Vibrator\<close>

record gb_vibrator_device = class_env +
  vib_minor :: nat

definition turn_on :: "gb_vibrator_device \<Rightarrow> u16 \<Rightarrow> int \<times> gb_vibrator_device" where
  "turn_on v timeout_ms = (case gb_sync 0x02 (cpu_to_le16 timeout_ms) 0 v of ((ret, _), v1) \<Rightarrow> (ret, v1))"

definition turn_off :: "gb_vibrator_device \<Rightarrow> int \<times> gb_vibrator_device" where
  "turn_off v = (case gb_sync 0x03 [] 0 v of ((ret, _), v1) \<Rightarrow> (ret, v1))"

text \<open>timeout_store: \<open>val\<close> is what kstrtoul makes of the text, an error or an unsigned long; \<open>count\<close> its length.\<close>

definition timeout_store :: "gb_vibrator_device \<Rightarrow> int + u64 \<Rightarrow> nat \<Rightarrow> int \<times> gb_vibrator_device" where
  "timeout_store v val count =
     (case val of Inl err \<Rightarrow> (err, v)
      | Inr n \<Rightarrow> (case (if n \<noteq> 0 then turn_on v (ucast n) else turn_off v) of (retval, v1) \<Rightarrow>
          (if retval \<noteq> 0 then retval else int count, v1)))"

definition gb_vibrator_connection_init :: "class_env \<Rightarrow> nat set \<Rightarrow> bool \<Rightarrow> int \<Rightarrow> bool \<Rightarrow> int \<times> gb_vibrator_device option \<times> nat set" where
  "gb_vibrator_connection_init e minors mem ida_ans dev_ok =
     (if \<not> mem then (- ENOMEM, None, minors)
      else case ida_simple_get ida_ans 0 0 minors of (minor, minors1) \<Rightarrow>
        if minor < 0 then (minor, None, minors1)
        else if \<not> dev_ok then (- EINVAL, None, ida_simple_remove (nat minor) minors1)
        else (0, Some \<lparr>replies = replies e, ncalls = ncalls e, sent = sent e, vib_minor = nat minor\<rparr>, minors1))"

definition gb_vibrator_connection_exit :: "gb_vibrator_device \<Rightarrow> nat set \<Rightarrow> nat set" where
  "gb_vibrator_connection_exit v minors = ida_simple_remove (vib_minor v) minors"

text \<open>protocol_init registers the class and then the protocol; protocol_exit undoes both.\<close>

record vib_module =
  vib_class :: bool
  vib_protocol :: bool

definition protocol_init :: "int \<Rightarrow> int \<Rightarrow> vib_module \<Rightarrow> int \<times> vib_module" where
  "protocol_init class_ret reg_ret m =
     (if class_ret \<noteq> 0 then (class_ret, m)
      else (reg_ret, m\<lparr>vib_class := True, vib_protocol := reg_ret = 0\<rparr>))"

definition protocol_exit :: "vib_module \<Rightarrow> vib_module" where
  "protocol_exit m = m\<lparr>vib_protocol := False, vib_class := False\<rparr>"

section \<open>USB\<close>

record usb_hcd = class_env +
  hc_running :: bool

definition hcd_stop :: "usb_hcd \<Rightarrow> usb_hcd" where
  "hcd_stop h = snd (gb_sync 0x03 [] 0 h)"

definition hcd_start :: "usb_hcd \<Rightarrow> int \<times> usb_hcd" where
  "hcd_start h = (case gb_sync 0x02 [] 0 h of ((ret, _), h1) \<Rightarrow> if ret \<noteq> 0 then (ret, h1) else (0, h1\<lparr>hc_running := True\<rparr>))"

text \<open>hub_control: the response goes to \<open>buf\<close>.\<close>

definition hub_control :: "size_t \<Rightarrow> bool \<Rightarrow> usb_hcd \<Rightarrow> u16 \<Rightarrow> u16 \<Rightarrow> u16 \<Rightarrow> bytes \<Rightarrow> u16 \<Rightarrow> ((int \<times> bytes) \<times> usb_hcd) option" where
  "hub_control bmax mem h typeReq wValue wIndex buf wLength =
     (case fresh_request bmax mem 8 (ucast wLength) of None \<Rightarrow> Some ((- ENOMEM, buf), h)
      | Some req0 \<Rightarrow> do {
          req \<leftarrow> wr_bytes req0 0 (cpu_to_le16 typeReq @ cpu_to_le16 wValue @ cpu_to_le16 wIndex @ cpu_to_le16 wLength);
          (case gb_sync 0x04 req (unat wLength) h of ((ret, resp), h1) \<Rightarrow>
             if ret \<noteq> 0 then Some ((ret, buf), h1)
             else if wLength = 0 then Some ((0, buf), h1)
             else do { b \<leftarrow> wr_bytes buf 0 (take (unat wLength) resp); Some ((0, b), h1) })
        })"

text \<open>gb_usb_connection_init creates the controller and gives it up again, as the protocol is disabled.\<close>

definition gb_usb_connection_init :: "bool \<Rightarrow> int" where
  "gb_usb_connection_init mem = (if \<not> mem then - ENOMEM else - EPROTONOSUPPORT)"

section \<open>Properties\<close>

lemma unat_u8_u32: "unat (ucast (w :: u8) :: u32) = unat w"
  using unsigned_less [of w, where 'a = nat] by (simp add: unsigned_ucast_eq take_bit_nat_eq_self)

text \<open>
  PWM requests name the channel they are for: after the set-up the PWM core knows one channel more than the largest number of the module, up to 256,
  and each operation on one of them sends exactly one request, for that channel, whatever its number, with the values given.
\<close>

theorem pwm_channels_exact:
  assumes "gb_pwm_connection_init e mem add_ret = (0, Some p0)" "pwm_max p = pwm_max p0" "ch < npwm p0"
  shows "npwm p0 = ucast (pwm_max p0) + 1 \<and>
    (\<exists>ret p1. gb_pwm_config p ch duty period = (ret, p1) \<and> sent p1 = sent p @ [\<lparr>x_type = 0x05,
       x_req = [ucast ch] @ cpu_to_le32 (word_of_int duty) @ cpu_to_le32 (word_of_int period), x_ret = ret, x_resp = []\<rparr>]) \<and>
    (\<exists>ret p1. gb_pwm_enable p ch = (ret, p1) \<and> sent p1 = sent p @ [\<lparr>x_type = 0x07, x_req = [ucast ch], x_ret = ret, x_resp = []\<rparr>]) \<and>
    (\<exists>ret. sent (gb_pwm_disable p ch) = sent p @ [\<lparr>x_type = 0x08, x_req = [ucast ch], x_ret = ret, x_resp = []\<rparr>]) \<and>
    (ucast (ucast ch :: u8) :: u32) = ch"
proof -
  have n: "npwm p0 = ucast (pwm_max p0) + 1" using assms(1) by (auto simp: gb_pwm_connection_init_def split: if_splits prod.splits)
  have u: "unat (ucast (pwm_max p0) :: u32) = unat (pwm_max p0)" "unat (pwm_max p0) < 256"
    using unsigned_less [of "pwm_max p0", where 'a = nat] by (simp_all add: unsigned_ucast_eq take_bit_nat_eq_self)
  then have "unat (npwm p0) = unat (pwm_max p0) + 1" unfolding n by (subst unat_add_lem [THEN iffD1]) simp_all
  then have c: "unat ch \<le> unat (pwm_max p0)" using assms(3) by (simp add: word_less_nat_alt)
  then have b: "unat (ucast ch :: u8) = unat ch" using u(2) by (simp add: unsigned_ucast_eq take_bit_nat_eq_self)
  then have ok: "\<not> pwm_max p < ucast ch" using c assms(2) by (simp add: word_less_nat_alt)
  have "unat (ucast (ucast ch :: u8) :: u32) = unat ch" using b unfolding unat_u8_u32 .
  then have "(ucast (ucast ch :: u8) :: u32) = ch" by (simp only: word_unat_eq_iff)
  then show ?thesis using n ok
    by (simp add: gb_pwm_config_def gb_pwm_config_operation_def gb_pwm_enable_def gb_pwm_enable_operation_def gb_pwm_disable_def
        gb_pwm_disable_operation_def pwm_op_def gb_sync_def Let_def)
qed

theorem pwm_channels_exact_witness:
  "\<exists>p. gb_pwm_connection_init \<lparr>replies = (\<lambda>_. (0, [255])), ncalls = 0, sent = []\<rparr> True 0 = (0, Some p) \<and> npwm p = 256 \<and>
     (\<exists>ret p1. gb_pwm_enable p 255 = (ret, p1) \<and> sent p1 = sent p @ [\<lparr>x_type = 0x07, x_req = [255], x_ret = ret, x_resp = []\<rparr>])"
proof -
  obtain p where p: "gb_pwm_connection_init \<lparr>replies = (\<lambda>_. (0, [255])), ncalls = 0, sent = []\<rparr> True 0 = (0, Some p)" "npwm p = 256"
    by (simp add: gb_pwm_connection_init_def gb_pwm_count_operation_def gb_sync_def Let_def)
  then show ?thesis using pwm_channels_exact [OF p(1), of p 255] by auto
qed

text \<open>
  Battery values: the codes for technology and status are passed on as they are, unknown ones as unknown; a voltage, capacity or temperature that fits
  into 31 bits is reported as the module sent it. A value with the top bit set, such as a temperature below zero, is not reported but returned as if it were an error.
\<close>

theorem battery_values:
  assumes "replies gb (ncalls gb) = (0, cpu_to_le32 v)"
  shows "(\<exists>gb1. get_property gb POWER_SUPPLY_PROP_TECHNOLOGY = (0, Some (if unat v \<le> 6 then int (unat v) else 0), gb1)) \<and>
    (psp \<in> {POWER_SUPPLY_PROP_VOLTAGE_MAX_DESIGN, POWER_SUPPLY_PROP_CAPACITY, POWER_SUPPLY_PROP_TEMP, POWER_SUPPLY_PROP_VOLTAGE_NOW} \<longrightarrow>
     (\<exists>gb1. get_property gb psp = (if unat v < 2 ^ 31 then (0, Some (int (unat v)), gb1) else (sint v, Some (sint v), gb1)) \<and>
        (2 ^ 31 \<le> unat v \<longrightarrow> sint v < 0)))"
proof -
  have s: "sint v = (if unat v < 2 ^ 31 then int (unat v) else int (unat v) - 2 ^ 32)"
  proof -
    have "uint v div 2147483648 = 1" if "\<not> uint v < 2147483648"
      using that uint_lt2p [of v] by (intro int_div_pos_eq [of _ _ _ "uint v - 2147483648"]) auto
    then have "sint v = (if uint v < 2 ^ 31 then uint v else uint v - 2 ^ 32)"
      using uint_lt2p [of v] by (auto simp: sint_uint signed_take_bit_eq_take_bit_minus take_bit_int_eq_self bit_iff_odd)
    moreover have "(uint v < 2 ^ 31) = (unat v < 2 ^ 31)" by (simp add: unat_eq_nat_uint nat_less_iff del: nat_uint_eq)
    ultimately show ?thesis by simp
  qed
  have lt: "unat v < 2 ^ 32" using unsigned_less [of v, where 'a = nat] by simp
  have neg: "2 ^ 31 \<le> unat v \<longrightarrow> sint v < 0" using s uint_lt2p [of v] by (simp add: not_less)
  have t: "sint (map_tech v) = (if unat v \<le> 6 then int (unat v) else 0)"
  proof (cases "unat v \<le> 6")
    case True
    then consider "unat v = 0" | "unat v = 1" | "unat v = 2" | "unat v = 3" | "unat v = 4" | "unat v = 5" | "unat v = 6" by linarith
    then show ?thesis
      by cases (simp_all add: map_tech_def word_unat_eq_iff)
  next
    case False
    then show ?thesis by (simp add: map_tech_def word_unat_eq_iff)
  qed
  have r: "gb_sync ty [] 4 gb = ((0, cpu_to_le32 v), gb\<lparr>ncalls := ncalls gb + 1,
      sent := sent gb @ [\<lparr>x_type = ty, x_req = [], x_ret = 0, x_resp = cpu_to_le32 v\<rparr>]\<rparr>)" for ty
    using assms by (simp add: gb_sync_def Let_def)
  have w: "le32_to_cpu (cpu_to_le32 v ! 0) (cpu_to_le32 v ! 1) (cpu_to_le32 v ! 2) (cpu_to_le32 v ! 3) = v" by (simp add: cpu_to_le32_def)
  have b: "battery_get32 ty gb = (sint v, gb\<lparr>ncalls := ncalls gb + 1,
      sent := sent gb @ [\<lparr>x_type = ty, x_req = [], x_ret = 0, x_resp = cpu_to_le32 v\<rparr>]\<rparr>)" for ty
    unfolding battery_get32_def r prod.case w by simp
  have "\<exists>gb1. get_property gb POWER_SUPPLY_PROP_TECHNOLOGY = (0, Some (if unat v \<le> 6 then int (unat v) else 0), gb1)"
    unfolding get_property_def get_tech_def r prod.case w t by (simp add: Let_def)
  moreover have "\<exists>gb1. get_property gb psp = (if unat v < 2 ^ 31 then (0, Some (int (unat v)), gb1) else (sint v, Some (sint v), gb1))"
    if "psp \<in> {POWER_SUPPLY_PROP_VOLTAGE_MAX_DESIGN, POWER_SUPPLY_PROP_CAPACITY, POWER_SUPPLY_PROP_TEMP, POWER_SUPPLY_PROP_VOLTAGE_NOW}"
    using that b s neg by (cases "unat v < 2 ^ 31")
      (auto simp: get_property_def get_max_voltage_def get_percent_capacity_def get_temp_def get_voltage_def Let_def)
  ultimately show ?thesis using neg by auto
qed

theorem battery_values_witness:
  "\<exists>gb1. get_property \<lparr>replies = (\<lambda>_. (0, cpu_to_le32 (- 5))), ncalls = 0, sent = []\<rparr> POWER_SUPPLY_PROP_TEMP = (- 5, Some (- 5), gb1)"
proof -
  have "unat (- 5 :: u32) = 4294967291" "sint (- 5 :: u32) = - 5" by simp_all
  then show ?thesis using battery_values [of "\<lparr>replies = (\<lambda>_. (0, cpu_to_le32 (- 5))), ncalls = 0, sent = []\<rparr>" "- 5" POWER_SUPPLY_PROP_TEMP] by auto
qed

text \<open>
  The vibrator runs as long as it was told, up to 65535 milliseconds: a larger number is sent modulo 65536, so that 65536 asks for a
  timeout of zero; zero itself switches it off.
\<close>

theorem vibrator_timeout:
  "\<exists>ret v1. timeout_store v (Inr n) count = (if ret = 0 then int count else ret, v1) \<and>
     sent v1 = sent v @ [if n = 0 then \<lparr>x_type = 0x03, x_req = [], x_ret = ret, x_resp = []\<rparr>
       else \<lparr>x_type = 0x02, x_req = cpu_to_le16 (of_nat (unat n mod 65536)), x_ret = ret, x_resp = []\<rparr>]"
proof -
  have "(ucast n :: u16) = of_nat (unat n mod 65536)"
    by (simp add: word_unat_eq_iff unsigned_ucast_eq unsigned_of_nat take_bit_eq_mod)
  then show ?thesis by (simp add: timeout_store_def turn_on_def turn_off_def gb_sync_def Let_def)
qed

text \<open>When the protocol cannot be registered the class of the vibrator stays behind.\<close>

theorem vibrator_class_stays:
  "r \<noteq> 0 \<Longrightarrow> protocol_init 0 r \<lparr>vib_class = False, vib_protocol = False\<rparr> = (r, \<lparr>vib_class = True, vib_protocol = False\<rparr>)"
  by (simp add: protocol_init_def)

text \<open>
  A control request to the hub is sent as given; the answer has exactly the length asked for and reaches the caller's buffer, if it is that long.
\<close>

theorem hub_control_exact:
  assumes "unat wLength \<le> length buf" "unat wLength + 8 \<le> unat bmax" "16 \<le> unat bmax"
  shows "\<exists>ret resp h1. hub_control bmax True h typeReq wValue wIndex buf wLength =
      Some ((ret, if ret = 0 then resp @ drop (unat wLength) buf else buf), h1) \<and> length resp = unat wLength \<and>
    sent h1 = sent h @ [\<lparr>x_type = 0x04, x_req = cpu_to_le16 typeReq @ cpu_to_le16 wValue @ cpu_to_le16 wIndex @ cpu_to_le16 wLength, x_ret = ret, x_resp = resp\<rparr>]"
proof -
  have l: "(ucast wLength :: size_t) = of_nat (unat wLength)" by simp
  have "unat wLength < 65536" by (rule unat_le16_bound)
  then have f: "fresh_request bmax True 8 (ucast wLength) = Some (replicate 8 0)"
    using fresh_request_fits [of 8 bmax "unat wLength"] assms(2,3) by simp
  let ?q = "cpu_to_le16 typeReq @ cpu_to_le16 wValue @ cpu_to_le16 wIndex @ cpu_to_le16 wLength"
  have w: "wr_bytes (replicate 8 0) 0 ?q = Some ?q" by (simp add: wr_bytes_def)
  obtain ret resp h1 where s: "gb_sync 0x04 ?q (unat wLength) h = ((ret, resp), h1)" by (metis surj_pair)
  then have h1: "length resp = unat wLength" "sent h1 = sent h @ [\<lparr>x_type = 0x04, x_req = ?q, x_ret = ret, x_resp = resp\<rparr>]"
    by (auto simp: gb_sync_def Let_def)
  have z: "(wLength = 0) = (unat wLength = 0)" by (simp add: unat_eq_zero)
  have "hub_control bmax True h typeReq wValue wIndex buf wLength = Some ((ret, if ret = 0 then resp @ drop (unat wLength) buf else buf), h1)"
    unfolding hub_control_def f option.case w bind.bind_lunit s prod.case using h1(1) assms(1) z by (auto simp: wr_bytes_def)
  then show ?thesis using h1 by blast
qed

end
