(* ===== verification/GB_Light.thy ===== *)
theory GB_Light
  imports GB_Class
begin

text \<open>
  The lights class driver (light.c), in the configuration with flash LEDs, attribute groups and V4L2. A
  module has lights, a light has channels, and each channel is an LED of the kernel. Memory that the driver
  allocates is explicit: an address is a number, 0 is NULL, \<open>heap\<close> holds the strings and tables and \<open>arr\<close> the
  arrays of channels; addresses are not used twice, so that freeing a block twice or using it after it was
  freed is a fault (\<open>None\<close>). A \<open>led_classdev\<close> is part of its channel, so a pointer to one is the number of a channel
  of the same light. The answers to allocations and registrations come from the environment like those to requests.
\<close>

section \<open>State\<close>

record led_flash_setting =
  fmin :: u32
  fmax :: u32
  fstep :: u32
  fval :: u32

record led_classdev =
  led_name :: nat
  max_brightness :: u32
  brightness :: u32
  has_groups :: bool
  has_blink :: bool

record gb_channel =
  ch_id :: u8
  ch_flags :: u32
  color :: u32
  color_name :: nat
  fade_in :: u8
  fade_out :: u8
  mode :: u32
  mode_name :: nat
  attrs :: nat
  attr_group :: nat
  attr_groups :: nat
  led :: "nat option"
  cdev :: led_classdev
  cap_flash :: bool
  fled_brightness :: led_flash_setting
  fled_timeout :: led_flash_setting
  intensity_uA :: led_flash_setting
  timeout_us :: led_flash_setting
  ch_light :: "nat option"
  is_registered :: bool
  releasing :: bool
  strobe_state :: bool

record gb_light =
  l_id :: u8
  l_name :: nat
  channels_count :: u8
  channels :: nat
  has_flash :: bool
  v4l2_flash :: int

record v4l2_flash_config =
  torch_intensity :: led_flash_setting
  indicator_intensity :: led_flash_setting
  cfg_fled :: nat
  cfg_iled :: nat

text \<open>
  struct gb_lights with what it owns: \<open>leds\<close> are the registered LEDs (array and number of the channel), \<open>works\<close> those whose work is
  scheduled, \<open>subdevs\<close> the registered V4L2 devices.
\<close>

record gb_lights = class_env +
  lights_count :: u8
  lights :: "gb_light list option"
  heap :: "nat \<Rightarrow> bytes option"
  arr :: "nat \<Rightarrow> gb_channel list option"
  nextp :: nat
  leds :: "(nat \<times> nat) set"
  works :: "(nat \<times> nat) set"
  subdevs :: "int \<Rightarrow> v4l2_flash_config option"

abbreviation (input) GB_CHANNEL_MODE_FLASH :: u32 where "GB_CHANNEL_MODE_FLASH \<equiv> 0x100"
abbreviation (input) GB_CHANNEL_MODE_TORCH :: u32 where "GB_CHANNEL_MODE_TORCH \<equiv> 0x200"
abbreviation (input) GB_CHANNEL_MODE_INDICATOR :: u32 where "GB_CHANNEL_MODE_INDICATOR \<equiv> 0x400"
abbreviation (input) GB_LIGHT_CHANNEL_MULTICOLOR :: u32 where "GB_LIGHT_CHANNEL_MULTICOLOR \<equiv> 1"
abbreviation (input) GB_LIGHT_CHANNEL_FADER :: u32 where "GB_LIGHT_CHANNEL_FADER \<equiv> 2"
abbreviation (input) GB_LIGHT_CHANNEL_BLINK :: u32 where "GB_LIGHT_CHANNEL_BLINK \<equiv> 4"

abbreviation (input) EBUSY :: int where "EBUSY \<equiv> 16"

text \<open>A 32-bit field of a response, whose size the operation core has checked.\<close>

definition le32_at :: "bytes \<Rightarrow> nat \<Rightarrow> u32" where
  "le32_at b i = le32_to_cpu (b ! i) (b ! (i + 1)) (b ! (i + 2)) (b ! (i + 3))"

section \<open>Memory\<close>

definition kalloc :: "bytes \<Rightarrow> gb_lights \<Rightarrow> nat \<times> gb_lights" where
  "kalloc b g = (let (r, g1) = kcall g
                 in if r < 0 then (0, g1)
                    else (nextp g1, g1\<lparr>heap := (heap g1)(nextp g1 \<mapsto> b), nextp := nextp g1 + 1\<rparr>))"

definition kfree :: "nat \<Rightarrow> gb_lights \<Rightarrow> gb_lights option" where
  "kfree p g = (if p = 0 then Some g else if heap g p = None then None else Some (g\<lparr>heap := (heap g)(p := None)\<rparr>))"

definition kalloc_channels :: "nat \<Rightarrow> gb_channel \<Rightarrow> gb_lights \<Rightarrow> nat \<times> gb_lights" where
  "kalloc_channels n c g = (let (r, g1) = kcall g
                            in if r < 0 then (0, g1)
                               else (nextp g1, g1\<lparr>arr := (arr g1)(nextp g1 \<mapsto> replicate n c), nextp := nextp g1 + 1\<rparr>))"

definition kfree_channels :: "nat \<Rightarrow> gb_lights \<Rightarrow> gb_lights option" where
  "kfree_channels p g = (if p = 0 then Some g else if arr g p = None then None else Some (g\<lparr>arr := (arr g)(p := None)\<rparr>))"

text \<open>
  A string in a field of fixed size: \<open>strlen\<close> reads until it finds a NUL, also behind the field, while
  \<open>kstrndup\<close> stops at the size; \<open>%s\<close> of printk prints a NULL pointer as a word of its own.
\<close>

definition strlen_at :: "bytes \<Rightarrow> nat option" where
  "strlen_at b = (if 0 \<in> set b then Some (length (takeWhile (\<lambda>x. x \<noteq> 0) b)) else None)"

definition kstrndup :: "bytes \<Rightarrow> gb_lights \<Rightarrow> nat \<times> gb_lights" where
  "kstrndup b g = kalloc (takeWhile (\<lambda>x. x \<noteq> 0) b) g"

definition str_at :: "nat \<Rightarrow> gb_lights \<Rightarrow> bytes option" where
  "str_at p g = (if p = 0 then Some [40, 110, 117, 108, 108, 41] else heap g p)"

section \<open>Requests of a channel\<close>

definition is_channel_flash :: "gb_channel \<Rightarrow> bool" where
  "is_channel_flash c \<longleftrightarrow>
     mode c AND (GB_CHANNEL_MODE_FLASH OR GB_CHANNEL_MODE_TORCH OR GB_CHANNEL_MODE_INDICATOR) \<noteq> 0"

text \<open>get_channel_from_mode leaves its loop with the channel it looked at last.\<close>

fun get_channel_from_mode :: "gb_channel list \<Rightarrow> u32 \<Rightarrow> nat option" where
  "get_channel_from_mode [] m = None"
| "get_channel_from_mode [c] m = Some 0"
| "get_channel_from_mode (c # d # cs) m =
     (if mode c = m then Some 0 else map_option Suc (get_channel_from_mode (d # cs) m))"

definition get_ch :: "gb_lights \<Rightarrow> nat \<Rightarrow> nat \<Rightarrow> gb_channel option" where
  "get_ch g a i = (case arr g a of None \<Rightarrow> None | Some cs \<Rightarrow> if i < length cs then Some (cs ! i) else None)"

definition put_ch :: "gb_lights \<Rightarrow> nat \<Rightarrow> nat \<Rightarrow> gb_channel \<Rightarrow> gb_lights option" where
  "put_ch g a i c = (case arr g a of None \<Rightarrow> None
                     | Some cs \<Rightarrow> if i < length cs then Some (g\<lparr>arr := (arr g)(a \<mapsto> cs[i := c])\<rparr>) else None)"

definition light_id_of :: "gb_lights \<Rightarrow> gb_channel \<Rightarrow> u8 option" where
  "light_id_of g c = do {
     k \<leftarrow> ch_light c;
     ls \<leftarrow> lights g;
     if k < length ls then Some (l_id (ls ! k)) else None
   }"

definition flash_intensity_set :: "gb_lights \<Rightarrow> gb_channel \<Rightarrow> u32 \<Rightarrow> (int \<times> gb_lights) option" where
  "flash_intensity_set g c intensity = do {
     lid \<leftarrow> light_id_of g c;
     if releasing c then Some (- ESHUTDOWN, g)
     else (let ((ret, _), g1) = gb_sync 0x0B (lid # ch_id c # cpu_to_le32 intensity) 0 g in Some (ret, g1))
   }"

definition flash_brightness_set :: "gb_lights \<Rightarrow> gb_channel list \<Rightarrow> nat \<Rightarrow> (int \<times> gb_lights) option" where
  "flash_brightness_set g cs i = do {
     j \<leftarrow> (if mode (cs ! i) AND GB_CHANNEL_MODE_FLASH \<noteq> 0 then get_channel_from_mode cs GB_CHANNEL_MODE_TORCH else Some i);
     let c = cs ! j;
     k \<leftarrow> led c;
     flash_intensity_set g c (fmin (intensity_uA c) + fstep (intensity_uA c) * brightness (cdev (cs ! k)))
   }"

definition led_brightness_set :: "gb_lights \<Rightarrow> gb_channel list \<Rightarrow> nat \<Rightarrow> (int \<times> gb_lights) option" where
  "led_brightness_set g cs i = do {
     lid \<leftarrow> light_id_of g (cs ! i);
     k \<leftarrow> led (cs ! i);
     let ((ret, _), g1) = gb_sync 0x06 [lid, ch_id (cs ! i), ucast (brightness (cdev (cs ! k)))] 0 g;
     Some (ret, g1)
   }"

definition gb_lights_brightness_set :: "gb_lights \<Rightarrow> gb_channel list \<Rightarrow> nat \<Rightarrow> (int \<times> gb_lights) option" where
  "gb_lights_brightness_set g cs i =
     (if releasing (cs ! i) then Some (0, g)
      else if is_channel_flash (cs ! i) then flash_brightness_set g cs i
      else led_brightness_set g cs i)"

definition gb_brightness_set_work :: "gb_lights \<Rightarrow> nat \<Rightarrow> nat \<Rightarrow> gb_lights option" where
  "gb_brightness_set_work g a i = do {
     cs \<leftarrow> arr g a;
     if i < length cs then map_option snd (gb_lights_brightness_set g cs i) else None
   }"

definition gb_brightness_set_sync :: "gb_lights \<Rightarrow> nat \<Rightarrow> nat \<Rightarrow> u32 \<Rightarrow> (int \<times> gb_lights) option" where
  "gb_brightness_set_sync g a i v = do {
     c \<leftarrow> get_ch g a i;
     k \<leftarrow> led c;
     d \<leftarrow> get_ch g a k;
     g1 \<leftarrow> put_ch g a k (d\<lparr>cdev := (cdev d)\<lparr>brightness := v\<rparr>\<rparr>);
     cs \<leftarrow> arr g1 a;
     gb_lights_brightness_set g1 cs i
   }"

definition gb_brightness_set :: "gb_lights \<Rightarrow> nat \<Rightarrow> nat \<Rightarrow> u32 \<Rightarrow> gb_lights option" where
  "gb_brightness_set g a i v = do {
     c \<leftarrow> get_ch g a i;
     if releasing c then Some g
     else do {
       g1 \<leftarrow> put_ch g a i (c\<lparr>cdev := (cdev c)\<lparr>brightness := v\<rparr>\<rparr>);
       Some (g1\<lparr>works := insert (a, i) (works g1)\<rparr>)
     }
   }"

definition gb_brightness_get :: "gb_lights \<Rightarrow> nat \<Rightarrow> nat \<Rightarrow> u32 option" where
  "gb_brightness_get g a i = do { c \<leftarrow> get_ch g a i; k \<leftarrow> led c; d \<leftarrow> get_ch g a k; Some (brightness (cdev d)) }"

text \<open>A request for channel \<open>c\<close> that is refused while it is being released.\<close>

definition channel_op :: "u8 \<Rightarrow> bytes \<Rightarrow> nat \<Rightarrow> gb_lights \<Rightarrow> gb_channel \<Rightarrow> ((int \<times> bytes) \<times> gb_lights) option" where
  "channel_op ty body n g c = do {
     lid \<leftarrow> light_id_of g c;
     Some (if releasing c then ((- ESHUTDOWN, []), g) else gb_sync ty (lid # ch_id c # body) n g)
   }"

definition gb_blink_set :: "gb_lights \<Rightarrow> nat \<Rightarrow> nat \<Rightarrow> u64 \<Rightarrow> u64 \<Rightarrow> (int \<times> gb_lights) option" where
  "gb_blink_set g a i on_ms off_ms = do {
     c \<leftarrow> get_ch g a i;
     ((ret, _), g1) \<leftarrow> channel_op 0x07 (cpu_to_le16 (ucast on_ms) @ cpu_to_le16 (ucast off_ms)) 0 g c;
     Some (ret, g1)
   }"

definition gb_lights_fade_set :: "gb_lights \<Rightarrow> gb_channel \<Rightarrow> (int \<times> gb_lights) option" where
  "gb_lights_fade_set g c = do {
     ((ret, _), g1) \<leftarrow> channel_op 0x09 [fade_in c, fade_out c] 0 g c;
     Some (ret, g1)
   }"

definition gb_lights_color_set :: "gb_lights \<Rightarrow> gb_channel \<Rightarrow> u32 \<Rightarrow> (int \<times> gb_lights) option" where
  "gb_lights_color_set g c col = do {
     ((ret, _), g1) \<leftarrow> channel_op 0x08 (cpu_to_le32 col) 0 g c;
     Some (ret, g1)
   }"

text \<open>
  The attributes fade_in and fade_out are generated by one macro: \<open>inward\<close> selects the field. What kstrtou8 and
  kstrtou32 make of the text is an argument, and so is whether the LED core has disabled its attributes.
\<close>

definition fade_store :: "bool \<Rightarrow> bool \<Rightarrow> int + u8 \<Rightarrow> nat \<Rightarrow> gb_lights \<Rightarrow> nat \<Rightarrow> nat \<Rightarrow> (int \<times> gb_lights) option" where
  "fade_store inward disabled parsed n g a i = do {
     c \<leftarrow> get_ch g a i;
     if disabled then Some (- EBUSY, g)
     else case parsed of
       Inl err \<Rightarrow> Some (err, g)
     | Inr fade \<Rightarrow>
         if (if inward then fade_in c else fade_out c) = fade then Some (0, g)
         else do {
           let c1 = (if inward then c\<lparr>fade_in := fade\<rparr> else c\<lparr>fade_out := fade\<rparr>);
           g1 \<leftarrow> put_ch g a i c1;
           (ret, g2) \<leftarrow> gb_lights_fade_set g1 c1;
           Some (if ret < 0 then ret else int n, g2)
         }
   }"

definition color_store :: "bool \<Rightarrow> int + u32 \<Rightarrow> nat \<Rightarrow> gb_lights \<Rightarrow> nat \<Rightarrow> nat \<Rightarrow> (int \<times> gb_lights) option" where
  "color_store disabled parsed n g a i = do {
     c \<leftarrow> get_ch g a i;
     if disabled then Some (- EBUSY, g)
     else case parsed of
       Inl err \<Rightarrow> Some (err, g)
     | Inr col \<Rightarrow> do {
         (ret, g1) \<leftarrow> gb_lights_color_set g c col;
         if ret < 0 then Some (ret, g1)
         else do { g2 \<leftarrow> put_ch g1 a i (c\<lparr>color := col\<rparr>); Some (int n, g2) }
       }
   }"

section \<open>Operations of a flash LED\<close>

definition gb_lights_flash_intensity_set :: "gb_lights \<Rightarrow> nat \<Rightarrow> nat \<Rightarrow> u32 \<Rightarrow> (int \<times> gb_lights) option" where
  "gb_lights_flash_intensity_set g a i v = do {
     c \<leftarrow> get_ch g a i;
     (ret, g1) \<leftarrow> flash_intensity_set g c v;
     if ret < 0 then Some (ret, g1)
     else do { g2 \<leftarrow> put_ch g1 a i (c\<lparr>fled_brightness := (fled_brightness c)\<lparr>fval := v\<rparr>\<rparr>); Some (0, g2) }
   }"

definition gb_lights_flash_intensity_get :: "gb_lights \<Rightarrow> nat \<Rightarrow> nat \<Rightarrow> u32 option" where
  "gb_lights_flash_intensity_get g a i = map_option (\<lambda>c. fval (fled_brightness c)) (get_ch g a i)"

definition gb_lights_flash_strobe_set :: "gb_lights \<Rightarrow> nat \<Rightarrow> nat \<Rightarrow> bool \<Rightarrow> (int \<times> gb_lights) option" where
  "gb_lights_flash_strobe_set g a i v = do {
     c \<leftarrow> get_ch g a i;
     ((ret, _), g1) \<leftarrow> channel_op 0x0C [if v then 1 else 0] 0 g c;
     if ret < 0 then Some (ret, g1) else do { g2 \<leftarrow> put_ch g1 a i (c\<lparr>strobe_state := v\<rparr>); Some (0, g2) }
   }"

definition gb_lights_flash_strobe_get :: "gb_lights \<Rightarrow> nat \<Rightarrow> nat \<Rightarrow> bool option" where
  "gb_lights_flash_strobe_get g a i = map_option strobe_state (get_ch g a i)"

definition gb_lights_flash_timeout_set :: "gb_lights \<Rightarrow> nat \<Rightarrow> nat \<Rightarrow> u32 \<Rightarrow> (int \<times> gb_lights) option" where
  "gb_lights_flash_timeout_set g a i v = do {
     c \<leftarrow> get_ch g a i;
     ((ret, _), g1) \<leftarrow> channel_op 0x0D (cpu_to_le32 v) 0 g c;
     if ret < 0 then Some (ret, g1)
     else do { g2 \<leftarrow> put_ch g1 a i (c\<lparr>fled_timeout := (fled_timeout c)\<lparr>fval := v\<rparr>\<rparr>); Some (0, g2) }
   }"

definition gb_lights_flash_fault_get :: "gb_lights \<Rightarrow> nat \<Rightarrow> nat \<Rightarrow> ((int \<times> u32 option) \<times> gb_lights) option" where
  "gb_lights_flash_fault_get g a i = do {
     c \<leftarrow> get_ch g a i;
     ((ret, resp), g1) \<leftarrow> channel_op 0x0E [] 4 g c;
     Some (if ret < 0 then ((ret, None), g1) else ((0, Some (le32_at resp 0)), g1))
   }"

section \<open>Freeing a channel\<close>

text \<open>flush_work runs the work of the channel if it is still scheduled.\<close>

definition flush_work :: "nat \<Rightarrow> gb_channel list \<Rightarrow> nat \<Rightarrow> gb_lights \<Rightarrow> gb_lights option" where
  "flush_work a cs i g =
     (if (a, i) \<in> works g
      then map_option (\<lambda>(_, g1). g1\<lparr>works := works g1 - {(a, i)}\<rparr>) (gb_lights_brightness_set g cs i)
      else Some g)"

definition gb_lights_channel_free :: "nat \<Rightarrow> gb_channel list \<Rightarrow> nat \<Rightarrow> gb_lights \<Rightarrow> gb_lights option" where
  "gb_lights_channel_free a cs i g = do {
     g1 \<leftarrow> flush_work a cs i g;
     g2 \<leftarrow> kfree (attrs (cs ! i)) g1;
     g3 \<leftarrow> kfree (attr_group (cs ! i)) g2;
     g4 \<leftarrow> kfree (attr_groups (cs ! i)) g3;
     g5 \<leftarrow> kfree (color_name (cs ! i)) g4;
     kfree (mode_name (cs ! i)) g5
   }"

section \<open>Registering a channel\<close>

text \<open>
  The LED core walks the list of attributes of a group up to its NULL entry. A table of attributes
  is a block with one byte per pointer here: 1, 2 and 3 stand for color, fade_in and fade_out, 0 for NULL.
\<close>

definition read_groups :: "gb_channel \<Rightarrow> gb_lights \<Rightarrow> bytes option" where
  "read_groups c g =
     (if has_groups (cdev c)
      then do { b \<leftarrow> heap g (attrs c); if 0 \<in> set b then Some (takeWhile (\<lambda>x. x \<noteq> 0) b) else None }
      else Some [])"

definition led_classdev_register :: "nat \<Rightarrow> nat \<Rightarrow> gb_channel \<Rightarrow> gb_lights \<Rightarrow> (int \<times> gb_lights) option" where
  "led_classdev_register a i c g = do {
     _ \<leftarrow> read_groups c g;
     let (r, g1) = kcall g;
     Some (r, if r < 0 then g1 else g1\<lparr>leds := insert (a, i) (leds g1)\<rparr>)
   }"

definition torch_attach ::
    "nat \<Rightarrow> gb_channel list \<Rightarrow> nat \<Rightarrow> nat \<Rightarrow> gb_lights \<Rightarrow> (int \<times> gb_channel list \<times> gb_lights) option" where
  "torch_attach a cs i t g =
     (if mode (cs ! i) AND GB_CHANNEL_MODE_FLASH = 0 then Some (0, cs, g)
      else do {
        k \<leftarrow> led (cs ! i);
        kt \<leftarrow> led (cs ! t);
        let cs1 = cs[k := (cs ! k)\<lparr>cdev := (cdev (cs ! k))\<lparr>max_brightness := max_brightness (cdev (cs ! kt))\<rparr>\<rparr>];
        s1 \<leftarrow> str_at (led_name (cdev (cs1 ! k))) g;
        s2 \<leftarrow> str_at (mode_name (cs1 ! t)) g;
        let (p, g1) = kalloc (s1 @ [95] @ s2) g;
        if p = 0 then Some (- ENOMEM, cs1, g1)
        else do {
          g2 \<leftarrow> kfree (led_name (cdev (cs1 ! k))) g1;
          let cs2 = cs1[k := (cs1 ! k)\<lparr>cdev := (cdev (cs1 ! k))\<lparr>led_name := p\<rparr>\<rparr>];
          g3 \<leftarrow> gb_lights_channel_free a cs2 t g2;
          Some (0, cs2[t := (cs2 ! t)\<lparr>led := led (cs2 ! i)\<rparr>], g3)
        }
      })"

definition setting_of :: "led_flash_setting \<Rightarrow> led_flash_setting \<Rightarrow> led_flash_setting" where
  "setting_of src dst = dst\<lparr>fmin := fmin src, fmax := fmax src, fstep := fstep src\<rparr>"

definition flash_led_register ::
    "nat \<Rightarrow> gb_channel list \<Rightarrow> nat \<Rightarrow> gb_lights \<Rightarrow> (int \<times> gb_channel list \<times> gb_lights) option" where
  "flash_led_register a cs i g = do {
     let c = cs ! i;
     let c1 = c\<lparr>cap_flash := True, fled_brightness := setting_of (intensity_uA c) (fled_brightness c)\<rparr>;
     let c2 = (if mode c AND GB_CHANNEL_MODE_FLASH \<noteq> 0
               then c1\<lparr>fled_timeout := setting_of (timeout_us c) (fled_timeout c)\<rparr> else c1);
     let cs1 = cs[i := c2];
     (ret, cs2, g1) \<leftarrow> (case get_channel_from_mode cs1 GB_CHANNEL_MODE_TORCH of
                          None \<Rightarrow> Some (0, cs1, g)
                        | Some t \<Rightarrow> torch_attach a cs1 i t g);
     if ret < 0 then Some (ret, cs2[i := (cs2 ! i)\<lparr>led := None\<rparr>], g1)
     else do {
       (r, g2) \<leftarrow> led_classdev_register a i (cs2 ! i) g1;
       Some (if r < 0 then (r, cs2[i := (cs2 ! i)\<lparr>led := None\<rparr>], g2)
             else (0, cs2[i := (cs2 ! i)\<lparr>is_registered := True\<rparr>], g2))
     }
   }"

definition led_register ::
    "nat \<Rightarrow> gb_channel list \<Rightarrow> nat \<Rightarrow> gb_lights \<Rightarrow> (int \<times> gb_channel list \<times> gb_lights) option" where
  "led_register a cs i g = do {
     (r, g1) \<leftarrow> led_classdev_register a i (cs ! i) g;
     Some (r, if r < 0 then cs[i := (cs ! i)\<lparr>led := None\<rparr>] else cs[i := (cs ! i)\<lparr>is_registered := True\<rparr>], g1)
   }"

definition gb_lights_channel_register ::
    "nat \<Rightarrow> gb_channel list \<Rightarrow> nat \<Rightarrow> gb_lights \<Rightarrow> (int \<times> gb_channel list \<times> gb_lights) option" where
  "gb_lights_channel_register a cs i g =
     (if \<not> is_channel_flash (cs ! i) then led_register a cs i g
      else if mode (cs ! i) AND GB_CHANNEL_MODE_TORCH = 0 then flash_led_register a cs i g
      else Some (0, cs, g))"

fun register_channels ::
    "nat \<Rightarrow> nat list \<Rightarrow> gb_channel list \<Rightarrow> gb_lights \<Rightarrow> (int \<times> gb_channel list \<times> gb_lights) option" where
  "register_channels a [] cs g = Some (0, cs, g)"
| "register_channels a (i # is) cs g = do {
     (ret, cs1, g1) \<leftarrow> gb_lights_channel_register a cs i g;
     if ret < 0 then Some (ret, cs1, g1) else register_channels a is cs1 g1
   }"

text \<open>Both ways to unregister leave alone what is not registered; only the plain one clears the pointer.\<close>

definition gb_lights_channel_unregister :: "nat \<Rightarrow> nat \<Rightarrow> gb_channel \<Rightarrow> gb_lights \<Rightarrow> gb_channel \<times> gb_lights" where
  "gb_lights_channel_unregister a i c g =
     (if \<not> is_registered c then (c, g)
      else (let g1 = g\<lparr>leds := leds g - {(a, i)}\<rparr>
            in (if \<not> is_channel_flash c \<or> mode c AND GB_CHANNEL_MODE_TORCH \<noteq> 0 then c\<lparr>led := None\<rparr> else c, g1)))"

section \<open>Configuration\<close>

text \<open>
  kcalloc allots one attribute structure (two pointers) for each flag, while the table gets one pointer
  for the colour and two for fading.
\<close>

definition channel_attr_groups_set :: "gb_channel \<Rightarrow> gb_lights \<Rightarrow> (int \<times> gb_channel \<times> gb_lights) option" where
  "channel_attr_groups_set c g =
     (let multi = ch_flags c AND GB_LIGHT_CHANNEL_MULTICOLOR \<noteq> 0;
          fader = ch_flags c AND GB_LIGHT_CHANNEL_FADER \<noteq> 0;
          n = (if multi then 1 else 0) + (if fader then 1 else 0 :: nat)
      in if n = 0 then Some (0, c, g)
         else let (p1, g1) = kalloc (replicate (2 * n) 0) g; c1 = c\<lparr>attrs := p1\<rparr>
         in if p1 = 0 then Some (- ENOMEM, c1, g1)
         else let (p2, g2) = kalloc [] g1; c2 = c1\<lparr>attr_group := p2\<rparr>
         in if p2 = 0 then Some (- ENOMEM, c2, g2)
         else let (p3, g3) = kalloc [] g2; c3 = c2\<lparr>attr_groups := p3\<rparr>
         in if p3 = 0 then Some (- ENOMEM, c3, g3)
         else do {
           b \<leftarrow> heap g3 p1;
           b1 \<leftarrow> wr_bytes b 0 ((if multi then [1] else []) @ (if fader then [2, 3] else []));
           Some (0, c3\<lparr>cdev := (cdev c3)\<lparr>has_groups := True\<rparr>\<rparr>, g3\<lparr>heap := (heap g3)(p1 \<mapsto> b1)\<rparr>)
         })"

definition gb_lights_led_operations_set :: "gb_channel \<Rightarrow> gb_channel" where
  "gb_lights_led_operations_set c =
     (if ch_flags c AND GB_LIGHT_CHANNEL_BLINK \<noteq> 0 then c\<lparr>cdev := (cdev c)\<lparr>has_blink := True\<rparr>\<rparr> else c)"

text \<open>The division of the source traps when the module reports a step of 0.\<close>

definition gb_lights_channel_flash_config :: "u8 \<Rightarrow> gb_channel \<Rightarrow> gb_lights \<Rightarrow> (int \<times> gb_channel \<times> gb_lights) option" where
  "gb_lights_channel_flash_config lid c g =
     (let ((ret, conf), g1) = gb_sync 0x05 [lid, ch_id c] 24 g
      in if ret < 0 then Some (ret, c, g1)
         else let fset = (intensity_uA c)\<lparr>fmin := le32_at conf 0, fmax := le32_at conf 4, fstep := le32_at conf 8\<rparr>
         in if fstep fset = 0 then None
         else let c1 = c\<lparr>intensity_uA := fset,
                         cdev := (cdev c)\<lparr>max_brightness := (fmax fset - fmin fset) div fstep fset\<rparr>\<rparr>;
                  c2 = (if mode c AND GB_CHANNEL_MODE_FLASH \<noteq> 0
                        then c1\<lparr>timeout_us := (timeout_us c)\<lparr>fmin := le32_at conf 12, fmax := le32_at conf 16, fstep := le32_at conf 20\<rparr>\<rparr>
                        else c1)
         in Some (0, c2, g1))"

definition gb_lights_channel_config ::
    "nat \<Rightarrow> gb_light \<Rightarrow> gb_channel \<Rightarrow> gb_lights \<Rightarrow> (int \<times> gb_channel \<times> gb_light \<times> gb_lights) option" where
  "gb_lights_channel_config k l c g =
     (let ((ret, conf), g1) = gb_sync 0x04 [l_id l, ch_id c] 77 g
      in if ret < 0 then Some (ret, c, l, g1)
      else let (p1, g2) = kstrndup (take 32 (drop 9 conf)) g1;
               c1 = c\<lparr>ch_light := Some k, mode := le32_at conf 41, ch_flags := le32_at conf 1, color := le32_at conf 5,
                      color_name := p1\<rparr>
      in if p1 = 0 then Some (- ENOMEM, c1, l, g2)
      else let (p2, g3) = kstrndup (take 32 (drop 45 conf)) g2; c2 = c1\<lparr>mode_name := p2\<rparr>
      in if p2 = 0 then Some (- ENOMEM, c2, l, g3)
      else do {
        let c3 = c2\<lparr>led := Some (unat (ch_id c))\<rparr>;
        s1 \<leftarrow> str_at (l_name l) g3;
        s2 \<leftarrow> str_at p1 g3;
        s3 \<leftarrow> str_at p2 g3;
        let (p3, g4) = kalloc (s1 @ [58] @ s2 @ [58] @ s3) g3;
        if p3 = 0 then Some (- ENOMEM, c3, l, g4)
        else do {
          let c4 = c3\<lparr>cdev := (cdev c3)\<lparr>led_name := p3, max_brightness := ucast (conf ! 0)\<rparr>\<rparr>;
          (r, c5, g5) \<leftarrow> channel_attr_groups_set c4 g4;
          if r < 0 then Some (r, c5, l, g5)
          else let c6 = gb_lights_led_operations_set c5
          in if \<not> is_channel_flash c6 then Some (r, c6, l, g5)
          else do {
            (r2, c7, g6) \<leftarrow> gb_lights_channel_flash_config (l_id l) c6 g5;
            Some (r2, c7, l\<lparr>has_flash := True\<rparr>, g6)
          }
        }
      })"

fun config_channels ::
    "nat \<Rightarrow> nat \<Rightarrow> gb_light \<Rightarrow> gb_channel list \<Rightarrow> gb_lights \<Rightarrow> (int \<times> gb_channel list \<times> gb_light \<times> gb_lights) option" where
  "config_channels k i l [] g = Some (0, [], l, g)"
| "config_channels k i l (c # cs) g = do {
     (ret, c1, l1, g1) \<leftarrow> gb_lights_channel_config k l (c\<lparr>ch_id := of_nat i\<rparr>) g;
     if ret < 0 then Some (ret, c1 # cs, l1, g1)
     else do {
       (ret2, cs2, l2, g2) \<leftarrow> config_channels k (Suc i) l1 cs g1;
       Some (ret2, c1 # cs2, l2, g2)
     }
   }"

definition channel_v4l2_config :: "led_flash_setting \<Rightarrow> led_flash_setting" where
  "channel_v4l2_config s = s\<lparr>fval := fmax s\<rparr>"

text \<open>A light has channels, so that none of the three searches returns NULL.\<close>

definition gb_lights_light_v4l2_register ::
    "gb_light \<Rightarrow> gb_channel list \<Rightarrow> gb_lights \<Rightarrow> (int \<times> gb_light \<times> gb_lights) option" where
  "gb_lights_light_v4l2_register l cs g =
     (let (p, g1) = kalloc [] g
      in if p = 0 then Some (- ENOMEM, l, g1)
      else do {
        torch \<leftarrow> get_channel_from_mode cs GB_CHANNEL_MODE_TORCH;
        ind \<leftarrow> get_channel_from_mode cs GB_CHANNEL_MODE_INDICATOR;
        fl \<leftarrow> get_channel_from_mode cs GB_CHANNEL_MODE_FLASH;
        _ \<leftarrow> str_at (l_name l) g1;
        let cfg = \<lparr>torch_intensity = channel_v4l2_config (intensity_uA (cs ! torch)),
                   indicator_intensity = channel_v4l2_config (intensity_uA (cs ! ind)), cfg_fled = fl, cfg_iled = ind\<rparr>;
        let (r, g2) = kcall g1;
        if r > 0 then Some (0, l\<lparr>v4l2_flash := int (nextp g2)\<rparr>,
                            g2\<lparr>subdevs := (subdevs g2)(int (nextp g2) \<mapsto> cfg), nextp := nextp g2 + 1\<rparr>)
        else do { g3 \<leftarrow> kfree p g2; Some (r, l\<lparr>v4l2_flash := r\<rparr>, g3) }
      })"

definition gb_lights_light_v4l2_unregister :: "gb_light \<Rightarrow> gb_lights \<Rightarrow> gb_lights option" where
  "gb_lights_light_v4l2_unregister l g =
     (if v4l2_flash l \<le> 0 then Some g
      else case subdevs g (v4l2_flash l) of None \<Rightarrow> None
           | Some _ \<Rightarrow> Some (g\<lparr>subdevs := (subdevs g)(v4l2_flash l := None)\<rparr>))"

definition put_light :: "nat \<Rightarrow> gb_light \<Rightarrow> gb_lights \<Rightarrow> gb_lights" where
  "put_light k l g = g\<lparr>lights := map_option (\<lambda>ls. ls[k := l]) (lights g)\<rparr>"

definition blank_setting :: led_flash_setting where
  "blank_setting = \<lparr>fmin = 0, fmax = 0, fstep = 0, fval = 0\<rparr>"

definition blank_channel :: gb_channel where
  "blank_channel = \<lparr>ch_id = 0, ch_flags = 0, color = 0, color_name = 0, fade_in = 0, fade_out = 0, mode = 0, mode_name = 0,
     attrs = 0, attr_group = 0, attr_groups = 0, led = None,
     cdev = \<lparr>led_name = 0, max_brightness = 0, brightness = 0, has_groups = False, has_blink = False\<rparr>, cap_flash = False,
     fled_brightness = blank_setting, fled_timeout = blank_setting, intensity_uA = blank_setting, timeout_us = blank_setting,
     ch_light = None, is_registered = False, releasing = False, strobe_state = False\<rparr>"

definition blank_light :: gb_light where
  "blank_light = \<lparr>l_id = 0, l_name = 0, channels_count = 0, channels = 0, has_flash = False, v4l2_flash = 0\<rparr>"

text \<open>
  gb_lights_light_config for light \<open>k\<close>, whose structure is \<open>l\<close>: the result, the new structure and the new state. The array of channels
  is written back whenever the function returns.
\<close>

definition gb_lights_light_config ::
    "nat \<Rightarrow> gb_light \<Rightarrow> gb_lights \<Rightarrow> (int \<times> gb_light \<times> gb_lights) option" where
  "gb_lights_light_config k l g =
     (let l0 = l\<lparr>l_id := of_nat k\<rparr>;
          ((ret, conf), g1) = gb_sync 0x03 [of_nat k] 33 g
      in if ret < 0 then Some (ret, l0, g1)
      else if conf ! 0 = 0 then Some (- EINVAL, l0, g1)
      else do {
        len \<leftarrow> strlen_at (drop 1 conf);
        if len = 0 then Some (- EINVAL, l0, g1)
        else let (p1, g2) = kstrndup (drop 1 conf) g1;
                 (p2, g3) = kalloc_channels (unat (conf ! 0)) blank_channel g2;
                 l1 = l0\<lparr>channels_count := conf ! 0, l_name := p1, channels := p2\<rparr>
        in if p2 = 0 then Some (- ENOMEM, l1, g3)
        else do {
          (r1, cs1, l2, g4) \<leftarrow> config_channels k 0 l1 (replicate (unat (conf ! 0)) blank_channel) g3;
          if r1 < 0 then Some (r1, l2, g4\<lparr>arr := (arr g4)(p2 \<mapsto> cs1)\<rparr>)
          else do {
            (r2, cs2, g5) \<leftarrow> register_channels p2 [0..<unat (conf ! 0)] cs1 g4;
            let g6 = g5\<lparr>arr := (arr g5)(p2 \<mapsto> cs2)\<rparr>;
            if r2 < 0 then Some (r2, l2, g6)
            else if has_flash l2 then gb_lights_light_v4l2_register l2 cs2 g6
            else Some (0, l2, g6)
          }
        }
      })"

section \<open>Release\<close>

definition gb_lights_channel_release :: "nat \<Rightarrow> nat \<Rightarrow> gb_lights \<Rightarrow> gb_lights option" where
  "gb_lights_channel_release a i g =
     (if a = 0 \<and> i = 0 then Some g
      else do {
        c \<leftarrow> get_ch g a i;
        let (c1, g1) = gb_lights_channel_unregister a i (c\<lparr>releasing := True\<rparr>) g;
        g2 \<leftarrow> put_ch g1 a i c1;
        cs \<leftarrow> arr g2 a;
        gb_lights_channel_free a cs i g2
      })"

fun release_channels :: "nat \<Rightarrow> nat list \<Rightarrow> gb_lights \<Rightarrow> gb_lights option" where
  "release_channels a [] g = Some g"
| "release_channels a (i # is) g = do { g1 \<leftarrow> gb_lights_channel_release a i g; release_channels a is g1 }"

definition gb_lights_light_release :: "gb_light \<Rightarrow> gb_lights \<Rightarrow> (gb_light \<times> gb_lights) option" where
  "gb_lights_light_release l g = do {
     g1 \<leftarrow> (if has_flash l then gb_lights_light_v4l2_unregister l g else Some g);
     g2 \<leftarrow> release_channels (channels l) [0..<unat (channels_count l)] g1;
     g3 \<leftarrow> kfree_channels (channels l) g2;
     g4 \<leftarrow> kfree (l_name l) g3;
     Some (l\<lparr>channels_count := 0\<rparr>, g4)
   }"

fun release_lights :: "gb_light list \<Rightarrow> gb_lights \<Rightarrow> gb_lights option" where
  "release_lights [] g = Some g"
| "release_lights (l # ls) g = do { (_, g1) \<leftarrow> gb_lights_light_release l g; release_lights ls g1 }"

definition gb_lights_release :: "gb_lights \<Rightarrow> gb_lights option" where
  "gb_lights_release g =
     (case lights g of None \<Rightarrow> Some g
      | Some ls \<Rightarrow> map_option (\<lambda>g1. g1\<lparr>lights := None\<rparr>) (release_lights ls g))"

section \<open>The connection\<close>

definition gb_lights_get_count :: "gb_lights \<Rightarrow> int \<times> gb_lights" where
  "gb_lights_get_count g =
     (let ((ret, resp), g1) = gb_sync 0x02 [] 1 g
      in if ret < 0 then (ret, g1)
         else if resp ! 0 = 0 then (- EINVAL, g1)
         else (0, g1\<lparr>lights_count := resp ! 0\<rparr>))"

fun config_lights :: "nat list \<Rightarrow> gb_lights \<Rightarrow> (int \<times> gb_lights) option" where
  "config_lights [] g = Some (0, g)"
| "config_lights (k # ks) g = do {
     ls \<leftarrow> lights g;
     (ret, l, g1) \<leftarrow> gb_lights_light_config k (ls ! k) g;
     let g2 = put_light k l g1;
     if ret < 0 then Some (ret, g2) else config_lights ks g2
   }"

definition gb_lights_setup :: "gb_lights \<Rightarrow> (int \<times> gb_lights) option" where
  "gb_lights_setup g =
     (let (ret, g1) = gb_lights_get_count g
      in if ret < 0 then Some (ret, g1)
         else let (r, g2) = kcall g1
         in if r < 0 then Some (- ENOMEM, g2)
         else config_lights [0..<unat (lights_count g2)]
                (g2\<lparr>lights := Some (replicate (unat (lights_count g2)) blank_light)\<rparr>))"

definition gb_lights_event_recv :: "gb_lights \<Rightarrow> u8 \<Rightarrow> gb_operation \<Rightarrow> (int \<times> gb_lights) option" where
  "gb_lights_event_recv g ty op =
     (if ty \<noteq> 0x0A then Some (- EINVAL, g)
      else if payload_size (request op) < 2 then Some (- EINVAL, g)
      else do {
        light_id \<leftarrow> rd8 (buffer (request op)) HDR_SIZE;
        event \<leftarrow> rd8 (buffer (request op)) (HDR_SIZE + 1);
        if light_id \<ge> lights_count g then Some (- EINVAL, g)
        else if event AND 1 = 0 then Some (0, g)
        else do {
          ls \<leftarrow> lights g;
          let k = unat light_id;
          (l1, g1) \<leftarrow> gb_lights_light_release (ls ! k) g;
          (ret, l2, g2) \<leftarrow> gb_lights_light_config k l1 g1;
          if ret < 0 then do { (l3, g3) \<leftarrow> gb_lights_light_release l2 g2; Some (ret, put_light k l3 g3) }
          else Some (ret, put_light k l2 g2)
        }
      })"

definition new_lights :: "class_env \<Rightarrow> gb_lights" where
  "new_lights e = class_env.extend e
     \<lparr>lights_count = 0, lights = None, heap = (\<lambda>_. None), arr = (\<lambda>_. None), nextp = 1, leds = {}, works = {},
      subdevs = (\<lambda>_. None)\<rparr>"

text \<open>What is left of the state when initialisation fails is what the driver has not given back.\<close>

definition gb_lights_connection_init :: "class_env \<Rightarrow> bool \<Rightarrow> (int \<times> gb_lights) option" where
  "gb_lights_connection_init e mem =
     (if \<not> mem then Some (- ENOMEM, new_lights e)
      else do {
        (ret, g) \<leftarrow> gb_lights_setup (new_lights e);
        if ret < 0 then map_option (Pair ret) (gb_lights_release g) else Some (0, g)
      })"

definition gb_lights_connection_exit :: "gb_lights \<Rightarrow> gb_lights option" where
  "gb_lights_connection_exit g = gb_lights_release g"

end
