(* ===== verification/GB_Light_Inv.thy ===== *)
theory GB_Light_Inv
  imports GB_Light "HOL-Library.Multiset"
begin

text \<open>
  What light.c does to its memory: which blocks the configuration of a light allocates, which LEDs it registers, and that
  releasing a light without flash LEDs gives back what it uses and nothing else. The invariant of a light says that its blocks can be freed
  and that each registered LED is one of its channels.
\<close>

section \<open>Allocation\<close>

text \<open>\<open>allocs g ps g'\<close>: on the way from \<open>g\<close> to \<open>g'\<close> the blocks \<open>ps\<close> were allocated, where 0 is none, and nothing else happened to the memory.\<close>

definition rest :: "gb_lights \<Rightarrow> _" where
  "rest g = (lights_count g, lights g, arr g, leds g, works g, subdevs g)"

definition allocs :: "gb_lights \<Rightarrow> nat list \<Rightarrow> gb_lights \<Rightarrow> bool" where
  "allocs g ps g' \<longleftrightarrow> nextp g \<le> nextp g' \<and> rest g' = rest g \<and> distinct (filter (\<lambda>p. p \<noteq> 0) ps) \<and>
     (\<forall>p \<in> set ps. p \<noteq> 0 \<longrightarrow> nextp g \<le> p \<and> p < nextp g' \<and> heap g' p \<noteq> None) \<and> (\<forall>p < nextp g. heap g' p = heap g p)"

lemma allocs_trans:
  assumes "allocs g ps g1" "allocs g1 qs g2"
  shows "allocs g (ps @ qs) g2"
  unfolding allocs_def
proof (intro conjI ballI allI impI)
  have "set (filter (\<lambda>p. p \<noteq> 0) ps) \<inter> set (filter (\<lambda>p. p \<noteq> 0) qs) = {}" using assms by (fastforce simp: allocs_def)
  then show "distinct (filter (\<lambda>p. p \<noteq> 0) (ps @ qs))" using assms by (auto simp: allocs_def)
next
  fix p assume p: "p \<in> set (ps @ qs)" "p \<noteq> 0"
  show "nextp g \<le> p" using assms p by (fastforce simp: allocs_def)
  show "p < nextp g2" using assms p by (fastforce simp: allocs_def)
  show "heap g2 p \<noteq> None" using assms p by (fastforce simp: allocs_def)
qed (use assms in \<open>auto simp: allocs_def\<close>)

lemma allocs_refl: "allocs g [] g"
  by (simp add: allocs_def)

lemma allocs_kalloc: "kalloc b g = (p, g') \<Longrightarrow> 0 < nextp g \<Longrightarrow> allocs g [p] g'"
  by (auto simp: kalloc_def kcall_def allocs_def rest_def Let_def split: if_splits)

lemma allocs_sync: "gb_sync ty req n g = (r, g') \<Longrightarrow> allocs g [] g'"
  by (auto simp: gb_sync_def allocs_def rest_def Let_def)

lemma allocs_kcall: "kcall g = (r, g') \<Longrightarrow> allocs g [] g'"
  by (auto simp: kcall_def allocs_def rest_def)

lemma allocs_pos: "allocs g ps g' \<Longrightarrow> 0 < nextp g \<Longrightarrow> 0 < nextp g'"
  by (simp add: allocs_def)

lemma allocs_none: "allocs g ps g' \<Longrightarrow> \<forall>q \<in> set qs. q = 0 \<Longrightarrow> allocs g (ps @ qs) g'"
  by (auto simp: allocs_def filter_empty_conv)

lemma allocs_none': "allocs g ps g' \<Longrightarrow> \<forall>q \<in> set qs. q = 0 \<Longrightarrow> allocs g (qs @ ps) g'"
  by (auto simp: allocs_def filter_empty_conv)

lemma allocs_perm:
  assumes "allocs g ps g'" "mset ps = mset qs"
  shows "allocs g qs g'"
proof -
  have "mset (filter (\<lambda>p. p \<noteq> 0) ps) = mset (filter (\<lambda>p. p \<noteq> 0) qs)" using assms(2) by simp
  then have "distinct (filter (\<lambda>p. p \<noteq> 0) ps) = distinct (filter (\<lambda>p. p \<noteq> 0) qs)" by (rule mset_eq_imp_distinct_iff)
  then show ?thesis using assms mset_eq_setD [OF assms(2)] by (simp add: allocs_def)
qed

section \<open>Configuring a channel\<close>

text \<open>The blocks of a channel that are freed with it, in that order, and with the name of the LED, which is not.\<close>

definition blocks :: "gb_channel \<Rightarrow> nat list" where
  "blocks c = [attrs c, attr_group c, attr_groups c, color_name c, mode_name c]"

definition unused :: "gb_channel \<Rightarrow> bool" where
  "unused c \<longleftrightarrow> \<not> is_registered c \<and> \<not> releasing c"

lemma attr_groups_set_effect:
  assumes "channel_attr_groups_set c g = Some (r, c', g')" "0 < nextp g" "attrs c = 0" "attr_group c = 0" "attr_groups c = 0"
  shows "\<exists>hg p1 p2 p3. c' = c\<lparr>attrs := p1, attr_group := p2, attr_groups := p3, cdev := (cdev c)\<lparr>has_groups := hg\<rparr>\<rparr> \<and> allocs g [p1, p2, p3] g'"
    (is "\<exists>hg p1 p2 p3. ?P hg p1 p2 p3")
proof -
  define n where "n = (if ch_flags c AND 1 \<noteq> 0 then 1 else 0) + (if ch_flags c AND 2 \<noteq> 0 then 1 else 0 :: nat)"
  obtain p1 g1 where k1: "kalloc (replicate (2 * n) 0) g = (p1, g1)" by (metis surj_pair)
  obtain p2 g2 where k2: "kalloc [] g1 = (p2, g2)" by (metis surj_pair)
  obtain p3 g3 where k3: "kalloc [] g2 = (p3, g3)" by (metis surj_pair)
  have a1: "allocs g [p1] g1" using allocs_kalloc [OF k1 assms(2)] .
  have a12: "allocs g [p1, p2] g2" using allocs_trans [OF a1 allocs_kalloc [OF k2 allocs_pos [OF a1 assms(2)]]] by simp
  have a123: "allocs g [p1, p2, p3] g3" using allocs_trans [OF a12 allocs_kalloc [OF k3 allocs_pos [OF a12 assms(2)]]] by simp
  have fill: "allocs g [p1, p2, p3] (g3\<lparr>heap := (heap g3)(p1 \<mapsto> b)\<rparr>)" if "p1 \<noteq> 0" for b
    using a123 that by (auto simp: allocs_def rest_def)
  have zero: "c = c\<lparr>attrs := 0, attr_group := 0, attr_groups := 0, cdev := (cdev c)\<lparr>has_groups := has_groups (cdev c)\<rparr>\<rparr>" using assms(3-5) by simp
  note u = assms(1) [unfolded channel_attr_groups_set_def Let_def n_def [symmetric] k1 k2 k3 prod.case]
  consider "n = 0" | "n \<noteq> 0" "p1 = 0" | "n \<noteq> 0" "p1 \<noteq> 0" "p2 = 0" | "n \<noteq> 0" "p1 \<noteq> 0" "p2 \<noteq> 0" "p3 = 0"
    | "n \<noteq> 0" "p1 \<noteq> 0" "p2 \<noteq> 0" "p3 \<noteq> 0" by blast
  then show ?thesis
  proof cases
    case 1
    then have "c' = c" "g' = g" using u by simp_all
    then have "?P (has_groups (cdev c)) 0 0 0" using zero allocs_none [OF allocs_refl, of "[0, 0, 0]" g] by simp
    then show ?thesis by blast
  next
    case 2
    then have "c' = c\<lparr>attrs := p1\<rparr>" "g' = g1" using u by simp_all
    then have "?P (has_groups (cdev c)) p1 0 0" using assms(3-5) allocs_none [OF a1, of "[0, 0]"] by simp
    then show ?thesis by blast
  next
    case 3
    then have "c' = c\<lparr>attrs := p1, attr_group := p2\<rparr>" "g' = g2" using u by simp_all
    then have "?P (has_groups (cdev c)) p1 p2 0" using assms(3-5) allocs_none [OF a12, of "[0]"] by simp
    then show ?thesis by blast
  next
    case 4
    then have "c' = c\<lparr>attrs := p1, attr_group := p2, attr_groups := p3\<rparr>" "g' = g3" using u by simp_all
    then have "?P (has_groups (cdev c)) p1 p2 p3" using a123 by simp
    then show ?thesis by blast
  next
    case 5
    then obtain b where "c' = c\<lparr>attrs := p1, attr_group := p2, attr_groups := p3, cdev := (cdev c)\<lparr>has_groups := True\<rparr>\<rparr>"
        "g' = g3\<lparr>heap := (heap g3)(p1 \<mapsto> b)\<rparr>" using u by (auto split: bind_splits)
    then have "?P True p1 p2 p3" using fill 5 by simp
    then show ?thesis by blast
  qed
qed

definition all_blocks :: "gb_channel \<Rightarrow> nat list" where
  "all_blocks c = led_name (cdev c) # blocks c"

lemma flash_config_effect:
  assumes "gb_lights_channel_flash_config lid c g = Some (r, c', g')"
  shows "allocs g [] g'" "all_blocks c' = all_blocks c" "unused c' = unused c" "ch_id c' = ch_id c" "ch_light c' = ch_light c" "led c' = led c"
    "mode c' = mode c"
proof -
  obtain ret conf g1 where s: "gb_sync 0x05 [lid, ch_id c] 24 g = ((ret, conf), g1)" by (metis surj_pair)
  note u = assms [unfolded gb_lights_channel_flash_config_def Let_def s prod.case]
  have "g' = g1" using u by (simp split: if_splits)
  then show "allocs g [] g'" using allocs_sync [OF s] by simp
  show "all_blocks c' = all_blocks c" "unused c' = unused c" "ch_id c' = ch_id c" "ch_light c' = ch_light c" "led c' = led c" "mode c' = mode c"
    using u by (auto simp: all_blocks_def blocks_def unused_def split: if_splits)
qed

text \<open>What is known of a channel when its configuration has returned \<open>ret\<close>.\<close>

definition configured :: "nat \<Rightarrow> nat \<Rightarrow> gb_channel \<Rightarrow> bool" where
  "configured k i c \<longleftrightarrow> color_name c \<noteq> 0 \<and> ch_id c = of_nat i \<and> ch_light c = Some k \<and> led c = Some (unat (of_nat i :: u8))"

text \<open>The end of the configuration of a channel, once it has its names.\<close>

lemma config_tail:
  assumes "do {
      (r, c5, g5) \<leftarrow> channel_attr_groups_set c g;
      if r < 0 then Some (r, c5, l, g5)
      else let c6 = gb_lights_led_operations_set c5
      in if \<not> is_channel_flash c6 then Some (r, c6, l, g5)
      else do { (r2, c7, g6) \<leftarrow> gb_lights_channel_flash_config (l_id l) c6 g5; Some (r2, c7, l\<lparr>has_flash := True\<rparr>, g6) }
    } = Some (ret, c', l', g')"
    and pre: "0 < nextp g" "attrs c = 0" "attr_group c = 0" "attr_groups c = 0" "unused c" "configured k i c"
  shows "\<exists>q1 q2 q3. allocs g [q1, q2, q3] g' \<and> all_blocks c' = [led_name (cdev c), q1, q2, q3, color_name c, mode_name c] \<and> unused c' \<and>
    configured k i c' \<and> l' = l\<lparr>has_flash := has_flash l'\<rparr> \<and> (has_flash l \<longrightarrow> has_flash l') \<and> (0 \<le> ret \<and> is_channel_flash c' \<longrightarrow> has_flash l')"
proof -
  obtain r c5 g5 where g5: "channel_attr_groups_set c g = Some (r, c5, g5)" using assms(1) by (auto split: bind_splits)
  obtain hg q1 q2 q3 where c5: "c5 = c\<lparr>attrs := q1, attr_group := q2, attr_groups := q3, cdev := (cdev c)\<lparr>has_groups := hg\<rparr>\<rparr>"
    and q: "allocs g [q1, q2, q3] g5"
    using attr_groups_set_effect [OF g5 pre(1-4)] by blast
  define c6 where "c6 = gb_lights_led_operations_set c5"
  let ?b = "[led_name (cdev c), q1, q2, q3, color_name c, mode_name c]"
  have c6: "all_blocks c6 = ?b" "unused c6" "configured k i c6" "is_channel_flash c6 = is_channel_flash c5" "all_blocks c5 = ?b" "unused c5" "configured k i c5"
    using pre(5,6) by (simp_all add: c6_def c5 gb_lights_led_operations_set_def all_blocks_def blocks_def unused_def configured_def is_channel_flash_def)
  note u = assms(1) [unfolded g5 bind.bind_lunit prod.case Let_def c6_def [symmetric]]
  show ?thesis
  proof (cases "r < 0 \<or> \<not> is_channel_flash c6")
    case True
    then have "c' = c5 \<or> c' = c6" "l' = l" "g' = g5" "0 \<le> ret \<Longrightarrow> \<not> is_channel_flash c'" using u by (auto split: if_splits)
    then show ?thesis using q c6 by auto
  next
    case False
    then obtain r7 c7 g6 where f: "gb_lights_channel_flash_config (l_id l) c6 g5 = Some (r7, c7, g6)"
      and res: "c' = c7" "l' = l\<lparr>has_flash := True\<rparr>" "g' = g6" using u by (auto split: bind_splits)
    have "configured k i c7" using c6(3) flash_config_effect [OF f] by (simp add: configured_def all_blocks_def blocks_def)
    moreover have "allocs g [q1, q2, q3] g6" using allocs_trans [OF q flash_config_effect(1) [OF f]] by simp
    ultimately show ?thesis using flash_config_effect(2,3) [OF f] c6(1,2) res by auto
  qed
qed

lemma channel_config_effect:
  assumes "gb_lights_channel_config k l c g = Some (ret, c', l', g')" "0 < nextp g" "c = blank_channel\<lparr>ch_id := of_nat i\<rparr>"
  shows "allocs g (all_blocks c') g' \<and> unused c' \<and> l' = l\<lparr>has_flash := has_flash l'\<rparr> \<and> (has_flash l \<longrightarrow> has_flash l') \<and>
    (0 \<le> ret \<longrightarrow> configured k i c' \<and> (is_channel_flash c' \<longrightarrow> has_flash l'))"
proof -
  obtain r conf g1 where s: "gb_sync 0x04 [l_id l, ch_id c] 77 g = ((r, conf), g1)" by (metis surj_pair)
  obtain p1 g2 where k1: "kstrndup (take 32 (drop 9 conf)) g1 = (p1, g2)" by (metis surj_pair)
  obtain p2 g3 where k2: "kstrndup (take 32 (drop 45 conf)) g2 = (p2, g3)" by (metis surj_pair)
  have a0: "allocs g [] g1" by (rule allocs_sync [OF s])
  have a1: "allocs g [p1] g2"
    using allocs_trans [OF a0 allocs_kalloc [OF k1 [unfolded kstrndup_def] allocs_pos [OF a0 assms(2)]]] by simp
  have a2: "allocs g [p1, p2] g3"
    using allocs_trans [OF a1 allocs_kalloc [OF k2 [unfolded kstrndup_def] allocs_pos [OF a1 assms(2)]]] by simp
  note u = assms(1) [unfolded gb_lights_channel_config_def Let_def s k1 k2 prod.case]
  have blank: "all_blocks blank_channel = [0, 0, 0, 0, 0, 0]" "unused blank_channel" "has_groups (cdev blank_channel) = False"
    by (simp_all add: blank_channel_def all_blocks_def blocks_def unused_def)
  consider "r < 0" | "0 \<le> r" "p1 = 0" | "0 \<le> r" "p1 \<noteq> 0" "p2 = 0" | "0 \<le> r" "p1 \<noteq> 0" "p2 \<noteq> 0" by linarith
  then show ?thesis
  proof cases
    case 1
    then have "c' = c" "l' = l" "g' = g1" "ret = r" using u by simp_all
    then show ?thesis using 1 a0 allocs_none [OF a0, of "[0, 0, 0, 0, 0, 0]"] assms(3) by (simp add: all_blocks_def blocks_def blank_channel_def unused_def)
  next
    case 2
    then have "g' = g2" "l' = l" "ret = - ENOMEM" "all_blocks c' = [0, 0, 0, 0, 0, 0]" "unused c'"
      using u assms(3) by (auto simp: all_blocks_def blocks_def blank_channel_def unused_def)
    then show ?thesis using allocs_none [OF a1, of "[0, 0, 0, 0, 0]"] 2(2) by simp
  next
    case 3
    then have "g' = g3" "l' = l" "ret = - ENOMEM" "all_blocks c' = [0, 0, 0, 0, p1, 0]" "unused c'"
      using u assms(3) by (auto simp: all_blocks_def blocks_def blank_channel_def unused_def)
    then show ?thesis using allocs_none' [OF a2, of "[0, 0, 0, 0]"] 3(3) by simp
  next
    case 4
    define c3 where "c3 = c\<lparr>ch_light := Some k, mode := le32_at conf 41, ch_flags := le32_at conf 1, color := le32_at conf 5,
                      color_name := p1, mode_name := p2, led := Some (unat (ch_id c))\<rparr>"
    obtain s1 s2 s3 where str: "str_at (l_name l) g3 = Some s1" "str_at p1 g3 = Some s2" "str_at p2 g3 = Some s3"
      using u 4 by (auto split: bind_splits)
    obtain p3 g4 where k3: "kalloc (s1 @ [58] @ s2 @ [58] @ s3) g3 = (p3, g4)" by (metis surj_pair)
    have a3: "allocs g [p1, p2, p3] g4" using allocs_trans [OF a2 allocs_kalloc [OF k3 allocs_pos [OF a2 assms(2)]]] by simp
    have c3: "color_name c3 = p1" "mode_name c3 = p2" "attrs c3 = 0" "attr_group c3 = 0" "attr_groups c3 = 0" "led_name (cdev c3) = 0" "unused c3"
      "configured k i c3"
      using assms(3) 4 by (simp_all add: c3_def blank_channel_def unused_def configured_def)
    show ?thesis
    proof (cases "p3 = 0")
      case True
      then have "c' = c3" "l' = l" "g' = g4" "ret = - ENOMEM" using u 4 str k3 by (simp_all add: c3_def)
      then show ?thesis using c3 allocs_perm [OF allocs_none [OF a3, of "[0, 0, 0]"], of "[p3, 0, 0, 0, p1, p2]"] True by (simp add: all_blocks_def blocks_def)
    next
      case False
      let ?c4 = "c3\<lparr>cdev := (cdev c3)\<lparr>led_name := p3, max_brightness := ucast (conf ! 0)\<rparr>\<rparr>"
      have c4: "attrs ?c4 = 0" "attr_group ?c4 = 0" "attr_groups ?c4 = 0" "unused ?c4" "configured k i ?c4"
        using c3 by (simp_all add: unused_def configured_def)
      note tail = config_tail [OF _ allocs_pos [OF a3 assms(2)] c4, of l ret c' l' g', unfolded Let_def]
      obtain q1 q2 q3 where "allocs g4 [q1, q2, q3] g'" "all_blocks c' = [p3, q1, q2, q3, p1, p2]" "unused c'" "configured k i c'"
        "l' = l\<lparr>has_flash := has_flash l'\<rparr>" "has_flash l \<longrightarrow> has_flash l'" "0 \<le> ret \<and> is_channel_flash c' \<longrightarrow> has_flash l'"
        using tail u 4 str k3 False c3 by (auto simp: c3_def)
      then show ?thesis using allocs_perm [OF allocs_trans [OF a3], of "[q1, q2, q3]" g' "[p3, q1, q2, q3, p1, p2]"] by simp
    qed
  qed
qed

lemma blank_blocks: "all_blocks blank_channel = [0, 0, 0, 0, 0, 0]" "unused blank_channel"
  by (simp_all add: blank_channel_def all_blocks_def blocks_def unused_def)

lemma config_channels_effect:
  assumes "config_channels k i l (replicate n blank_channel) g = Some (ret, cs', l', g')" "0 < nextp g"
  shows "allocs g (concat (map all_blocks cs')) g' \<and> length cs' = n \<and> (\<forall>c \<in> set cs'. unused c) \<and>
    l' = l\<lparr>has_flash := has_flash l'\<rparr> \<and> (has_flash l \<longrightarrow> has_flash l') \<and>
    (0 \<le> ret \<longrightarrow> (\<forall>j < n. configured k (i + j) (cs' ! j) \<and> (is_channel_flash (cs' ! j) \<longrightarrow> has_flash l')))"
  using assms
proof (induction n arbitrary: i l g ret cs' l' g')
  case 0
  then show ?case by (simp add: allocs_refl)
next
  case (Suc n)
  obtain r1 c1 l1 g1 where c1: "gb_lights_channel_config k l (blank_channel\<lparr>ch_id := of_nat i\<rparr>) g = Some (r1, c1, l1, g1)"
    using Suc.prems(1) by (auto split: bind_splits)
  note e1 = channel_config_effect [OF c1 Suc.prems(2) refl]
  show ?case
  proof (cases "r1 < 0")
    case True
    then have r: "cs' = c1 # replicate n blank_channel" "l' = l1" "g' = g1" "ret = r1" using Suc.prems(1) c1 by simp_all
    have "allocs g (all_blocks c1 @ concat (replicate n [0, 0, 0, 0, 0, 0])) g1" using e1 by (intro allocs_none) auto
    then show ?thesis using e1 r True by (auto simp: blank_blocks)
  next
    case False
    then obtain cs2 where c2: "config_channels k (Suc i) l1 (replicate n blank_channel) g1 = Some (ret, cs2, l', g')" and cs': "cs' = c1 # cs2"
      using Suc.prems(1) c1 by (auto split: bind_splits)
    note e2 = Suc.IH [OF c2 allocs_pos [OF conjunct1 [OF e1] Suc.prems(2)]]
    have "allocs g (concat (map all_blocks cs')) g'" using allocs_trans [OF conjunct1 [OF e1] conjunct1 [OF e2]] cs' by simp
    moreover have "configured k (i + j) (cs' ! j) \<and> (is_channel_flash (cs' ! j) \<longrightarrow> has_flash l')" if "0 \<le> ret" "j < Suc n" for j
      using that e1 e2 cs' False by (cases j) auto
    moreover have "l' = l\<lparr>has_flash := has_flash l'\<rparr>" using e1 e2 by (metis gb_light.fold_congs(5) gb_light.surjective gb_light.update_convs(5))
    ultimately show ?thesis using e1 e2 cs' by simp
  qed
qed

section \<open>Registering\<close>

text \<open>What registering leaves as it is.\<close>

definition still :: "gb_lights \<Rightarrow> gb_lights \<Rightarrow> bool" where
  "still g g' \<longleftrightarrow> heap g' = heap g \<and> nextp g' = nextp g \<and> arr g' = arr g \<and> works g' = works g \<and> subdevs g' = subdevs g \<and>
     lights g' = lights g \<and> lights_count g' = lights_count g"

definition same_channel :: "gb_channel \<Rightarrow> gb_channel \<Rightarrow> bool" where
  "same_channel c c' \<longleftrightarrow> all_blocks c' = all_blocks c \<and> mode c' = mode c \<and> ch_id c' = ch_id c \<and> ch_light c' = ch_light c \<and> releasing c' = releasing c"

lemma same_channel_refl: "same_channel c c"
  by (simp add: same_channel_def)

definition torch :: "gb_channel \<Rightarrow> bool" where
  "torch c \<longleftrightarrow> mode c AND 0x200 \<noteq> 0"

lemma led_classdev_register_effect:
  assumes "led_classdev_register a i c g = Some (r, g')"
  shows "still g g'" "leds g' = leds g \<union> (if r < 0 then {} else {(a, i)})"
  using assms by (auto simp: led_classdev_register_def kcall_def still_def Let_def split: bind_splits if_splits)

lemma channel_register_effect:
  assumes "gb_lights_channel_register a cs i g = Some (ret, cs', g')" "i < length cs" "mode (cs ! i) AND 0x100 = 0" "unused (cs ! i)"
  shows "\<exists>c'. cs' = cs[i := c'] \<and> same_channel (cs ! i) c' \<and> still g g' \<and> leds g' = leds g \<union> (if is_registered c' then {(a, i)} else {}) \<and>
    (0 \<le> ret \<longrightarrow> led c' = led (cs ! i) \<and> (is_registered c' \<or> torch c'))"
proof -
  let ?c = "cs ! i"
  let ?f = "?c\<lparr>cap_flash := True, fled_brightness := setting_of (intensity_uA ?c) (fled_brightness ?c)\<rparr>"
  consider (plain) "\<not> is_channel_flash ?c" | (torch) "is_channel_flash ?c" "torch ?c" | (flash) "is_channel_flash ?c" "\<not> torch ?c" by blast
  then show ?thesis
  proof cases
    case plain
    then obtain r where r: "led_classdev_register a i ?c g = Some (r, g')" and cs': "ret = r"
        "cs' = (if r < 0 then cs[i := ?c\<lparr>led := None\<rparr>] else cs[i := ?c\<lparr>is_registered := True\<rparr>])"
      using assms(1) by (auto simp: gb_lights_channel_register_def led_register_def split: bind_splits)
    show ?thesis using led_classdev_register_effect [OF r] cs' assms(4)
      by (intro exI [of _ "if r < 0 then ?c\<lparr>led := None\<rparr> else ?c\<lparr>is_registered := True\<rparr>"])
        (auto simp: same_channel_def all_blocks_def blocks_def unused_def)
  next
    case torch
    then have "cs' = cs" "g' = g" using assms(1) by (simp_all add: gb_lights_channel_register_def torch_def)
    then show ?thesis using torch assms(4) by (intro exI [of _ ?c]) (simp add: same_channel_def still_def unused_def)
  next
    case flash
    have att: "(case get_channel_from_mode (cs[i := ?f]) 0x200 of None \<Rightarrow> Some (0, cs[i := ?f], g) | Some t \<Rightarrow> torch_attach a (cs[i := ?f]) i t g)
        = Some (0, cs[i := ?f], g)"
      using assms(2,3) by (auto simp: torch_attach_def split: option.splits)
    then have "flash_led_register a cs i g = do {
        (r, g2) \<leftarrow> led_classdev_register a i ?f g;
        Some (if r < 0 then (r, cs[i := ?f\<lparr>led := None\<rparr>], g2) else (0, cs[i := ?f\<lparr>is_registered := True\<rparr>], g2)) }"
      using assms(2,3) by (simp add: flash_led_register_def Let_def cong: if_cong)
    then obtain r where r: "led_classdev_register a i ?f g = Some (r, g')"
      and cs': "cs' = (if r < 0 then cs[i := ?f\<lparr>led := None\<rparr>] else cs[i := ?f\<lparr>is_registered := True\<rparr>])" "r < 0 \<longrightarrow> ret = r"
      using flash assms(1) by (auto simp: gb_lights_channel_register_def torch_def split: bind_splits if_splits)
    show ?thesis using led_classdev_register_effect [OF r] cs' assms(4)
      by (intro exI [of _ "if r < 0 then ?f\<lparr>led := None\<rparr> else ?f\<lparr>is_registered := True\<rparr>"])
        (auto simp: same_channel_def all_blocks_def blocks_def unused_def)
  qed
qed

lemma register_channels_effect:
  assumes "register_channels a is cs g = Some (ret, cs', g')" "distinct is"
    "\<forall>i \<in> set is. i < length cs \<and> mode (cs ! i) AND 0x100 = 0 \<and> unused (cs ! i)"
  shows "length cs' = length cs \<and> still g g' \<and> (\<forall>j. j \<notin> set is \<longrightarrow> cs' ! j = cs ! j) \<and> (\<forall>j \<in> set is. same_channel (cs ! j) (cs' ! j)) \<and>
    leds g' = leds g \<union> {(a, j) | j. j \<in> set is \<and> is_registered (cs' ! j)} \<and>
    (0 \<le> ret \<longrightarrow> (\<forall>j \<in> set is. led (cs' ! j) = led (cs ! j) \<and> (is_registered (cs' ! j) \<or> torch (cs' ! j))))"
  using assms
proof (induction "is" arbitrary: cs g)
  case Nil
  then show ?case by (simp add: still_def)
next
  case (Cons i "is")
  obtain r1 cs1 g1 where r1: "gb_lights_channel_register a cs i g = Some (r1, cs1, g1)" using Cons.prems(1) by (auto split: bind_splits)
  obtain c1 where c1: "cs1 = cs[i := c1]" "same_channel (cs ! i) c1" "still g g1" "leds g1 = leds g \<union> (if is_registered c1 then {(a, i)} else {})"
    "0 \<le> r1 \<longrightarrow> led c1 = led (cs ! i) \<and> (is_registered c1 \<or> torch c1)"
    using channel_register_effect [OF r1] Cons.prems(3) by auto
  have other: "i \<noteq> j" if "j \<in> set is" for j using that Cons.prems(2) by auto
  show ?case
  proof (cases "r1 < 0")
    case True
    then have res: "cs' = cs1" "g' = g1" "ret = r1" using Cons.prems(1) r1 by simp_all
    have "\<forall>j \<in> set is. \<not> is_registered (cs' ! j) \<and> cs' ! j = cs ! j" using other res c1(1) Cons.prems(3) by (auto simp: unused_def)
    then show ?thesis using True res c1 Cons.prems(3) by (auto simp: same_channel_refl)
  next
    case False
    then have r2: "register_channels a is cs1 g1 = Some (ret, cs', g')" using Cons.prems(1) r1 by simp
    have pre: "\<forall>i \<in> set is. i < length cs1 \<and> mode (cs1 ! i) AND 0x100 = 0 \<and> unused (cs1 ! i)"
      using Cons.prems(3) other c1(1) by auto
    note e2 = Cons.IH [OF r2 _ pre]
    have ii: "cs' ! i = c1" using e2 Cons.prems(2,3) c1(1) by auto
    have "\<forall>j \<in> set is. cs1 ! j = cs ! j" using other c1(1) by auto
    then show ?thesis using e2 ii c1 Cons.prems(2,3) False by (auto simp: still_def)
  qed
qed

section \<open>Release\<close>

fun kfree_all :: "nat list \<Rightarrow> gb_lights \<Rightarrow> gb_lights option" where
  "kfree_all [] g = Some g"
| "kfree_all (p # ps) g = do { g1 \<leftarrow> kfree p g; kfree_all ps g1 }"

text \<open>A list of blocks that can be freed: allocated, and no block twice.\<close>

definition freeable :: "gb_lights \<Rightarrow> nat list \<Rightarrow> bool" where
  "freeable g ps \<longleftrightarrow> distinct (filter (\<lambda>p. p \<noteq> 0) ps) \<and> (\<forall>p \<in> set ps. p \<noteq> 0 \<longrightarrow> heap g p \<noteq> None)"

definition without :: "nat list \<Rightarrow> (nat \<Rightarrow> bytes option) \<Rightarrow> nat \<Rightarrow> bytes option" where
  "without ps h = (\<lambda>p. if p \<noteq> 0 \<and> p \<in> set ps then None else h p)"

lemma without_append: "without qs (without ps h) = without (ps @ qs) h"
  by (auto simp: without_def)

lemma kfree_all_fun: "kfree_all [] = Some" "kfree_all (p # ps) = (\<lambda>g. do { g1 \<leftarrow> kfree p g; kfree_all ps g1 })"
  by auto

lemma kfree_all_ok: "freeable g ps \<Longrightarrow> kfree_all ps g = Some (g\<lparr>heap := without ps (heap g)\<rparr>)"
proof (induction ps arbitrary: g)
  case (Cons p ps)
  show ?case
  proof (cases "p = 0")
    case True
    then have "without (p # ps) (heap g) = without ps (heap g)" by (auto simp: without_def)
    then show ?thesis using Cons True by (simp add: kfree_def freeable_def)
  next
    case False
    then have "freeable (g\<lparr>heap := (heap g)(p := None)\<rparr>) ps" using Cons.prems by (auto simp: freeable_def)
    moreover have "without ps ((heap g)(p := None)) = without (p # ps) (heap g)" using False by (auto simp: without_def)
    ultimately show ?thesis using Cons.IH [of "g\<lparr>heap := (heap g)(p := None)\<rparr>"] Cons.prems False by (simp add: kfree_def freeable_def del: fun_upd_apply)
  qed
qed (simp add: without_def)

lemma freeable_append:
  "freeable g (ps @ qs) \<longleftrightarrow> freeable g ps \<and> freeable (g\<lparr>heap := without ps (heap g)\<rparr>) qs"
  by (auto simp: freeable_def without_def)

lemma freeable_heap: "heap g' = heap g \<Longrightarrow> freeable g' ps = freeable g ps"
  by (simp add: freeable_def)

lemma channel_free_releasing:
  assumes "releasing (cs ! i)" "freeable g (blocks (cs ! i))"
  shows "gb_lights_channel_free a cs i g = Some (g\<lparr>works := works g - {(a, i)}, heap := without (blocks (cs ! i)) (heap g)\<rparr>)"
proof -
  have "gb_lights_channel_free a cs i g = kfree_all (blocks (cs ! i)) (g\<lparr>works := works g - {(a, i)}\<rparr>)"
    using assms(1) by (cases "(a, i) \<in> works g")
      (simp_all add: gb_lights_channel_free_def flush_work_def gb_lights_brightness_set_def blocks_def kfree_all_fun del: kfree_all.simps)
  moreover have "freeable (g\<lparr>works := works g - {(a, i)}\<rparr>) (blocks (cs ! i))" using assms(2) by (simp add: freeable_def)
  ultimately show ?thesis by (simp add: kfree_all_ok)
qed

text \<open>Releasing channels \<open>is\<close> of the array at \<open>a\<close>.\<close>

lemma channel_release_effect:
  assumes "arr g a = Some cs" "i < length cs" "a \<noteq> 0" "freeable g (blocks (cs ! i))"
  shows "\<exists>c'. same_channel ((cs ! i)\<lparr>releasing := True\<rparr>) c' \<and> gb_lights_channel_release a i g = Some (g\<lparr>works := works g - {(a, i)},
    heap := without (blocks (cs ! i)) (heap g), arr := (arr g)(a \<mapsto> cs[i := c']),
    leds := leds g - (if is_registered (cs ! i) then {(a, i)} else {})\<rparr>)"
proof -
  let ?c = "(cs ! i)\<lparr>releasing := True\<rparr>"
  obtain c1 g1 where u: "gb_lights_channel_unregister a i ?c g = (c1, g1)" by (metis surj_pair)
  then have c1: "same_channel ?c c1" "releasing c1" "blocks c1 = blocks (cs ! i)"
    and g1: "g1 = g\<lparr>leds := leds g - (if is_registered (cs ! i) then {(a, i)} else {})\<rparr>"
    by (auto simp: gb_lights_channel_unregister_def same_channel_def all_blocks_def blocks_def Let_def split: if_splits)
  let ?g2 = "g1\<lparr>arr := (arr g1)(a \<mapsto> cs[i := c1])\<rparr>"
  have "gb_lights_channel_release a i g = gb_lights_channel_free a (cs[i := c1]) i ?g2"
    using assms(1-3) u g1 by (simp add: gb_lights_channel_release_def get_ch_def put_ch_def)
  moreover have "freeable ?g2 (blocks c1)" using assms(4) g1 c1(3) by (simp add: freeable_def)
  ultimately have "gb_lights_channel_release a i g = Some (?g2\<lparr>works := works ?g2 - {(a, i)}, heap := without (blocks c1) (heap ?g2)\<rparr>)"
    using channel_free_releasing [of "cs[i := c1]" i ?g2 a] c1(2) assms(2) by simp
  then show ?thesis using c1 g1 by (intro exI [of _ c1]) simp
qed

lemma release_channels_effect:
  assumes "arr g a = Some cs" "\<forall>i \<in> set is. i < length cs" "a \<noteq> 0" "distinct is" "freeable g (concat (map (\<lambda>i. blocks (cs ! i)) is))"
  shows "\<exists>cs'. length cs' = length cs \<and> release_channels a is g = Some (g\<lparr>works := works g - {a} \<times> set is,
    heap := without (concat (map (\<lambda>i. blocks (cs ! i)) is)) (heap g), arr := (arr g)(a \<mapsto> cs'),
    leds := leds g - {(a, i) | i. i \<in> set is \<and> is_registered (cs ! i)}\<rparr>)"
  using assms
proof (induction "is" arbitrary: g cs)
  case Nil
  then have "arr g = (arr g)(a \<mapsto> cs)" by auto
  moreover have "heap g = without [] (heap g)" by (simp add: without_def)
  ultimately show ?case by (intro exI [of _ cs]) simp
next
  case (Cons i "is")
  let ?rest = "concat (map (\<lambda>i. blocks (cs ! i)) is)"
  have f: "freeable g (blocks (cs ! i))" "freeable (g\<lparr>heap := without (blocks (cs ! i)) (heap g)\<rparr>) ?rest"
    using Cons.prems(5) by (simp_all add: freeable_append)
  obtain c' where c': "gb_lights_channel_release a i g = Some (g\<lparr>works := works g - {(a, i)}, heap := without (blocks (cs ! i)) (heap g),
      arr := (arr g)(a \<mapsto> cs[i := c']), leds := leds g - (if is_registered (cs ! i) then {(a, i)} else {})\<rparr>)"
    using channel_release_effect [OF Cons.prems(1) _ Cons.prems(3) f(1)] Cons.prems(2) by auto
  define g1 where "g1 = g\<lparr>works := works g - {(a, i)}, heap := without (blocks (cs ! i)) (heap g),
      arr := (arr g)(a \<mapsto> cs[i := c']), leds := leds g - (if is_registered (cs ! i) then {(a, i)} else {})\<rparr>"
  have same: "cs[i := c'] ! j = cs ! j" if "j \<in> set is" for j using that Cons.prems(4) by (cases "i = j") auto
  then have map: "map (\<lambda>j. blocks (cs[i := c'] ! j)) is = map (\<lambda>j. blocks (cs ! j)) is" by simp
  have "freeable g1 (concat (map (\<lambda>j. blocks (cs[i := c'] ! j)) is))" using f(2) unfolding map by (simp add: g1_def freeable_def)
  moreover have g1: "arr g1 a = Some (cs[i := c'])" by (simp add: g1_def)
  ultimately obtain cs' where cs': "length cs' = length cs" "release_channels a is g1 = Some (g1\<lparr>works := works g1 - {a} \<times> set is,
      heap := without ?rest (heap g1), arr := (arr g1)(a \<mapsto> cs'),
      leds := leds g1 - {(a, j) | j. j \<in> set is \<and> is_registered (cs[i := c'] ! j)}\<rparr>)"
    using Cons.IH [OF g1 _ Cons.prems(3)] Cons.prems(2,4) unfolding map by (auto simp del: fun_upd_apply)
  have l: "leds g1 - {(a, j) | j. j \<in> set is \<and> is_registered (cs[i := c'] ! j)} = leds g - {(a, j) | j. j \<in> set (i # is) \<and> is_registered (cs ! j)}"
    using same by (auto simp: g1_def)
  have w: "works g1 - {a} \<times> set is = works g - {a} \<times> set (i # is)" by (auto simp: g1_def)
  have "release_channels a (i # is) g = release_channels a is g1" using c' by (simp add: g1_def)
  then show ?case using cs' l w by (intro exI [of _ cs']) (simp add: g1_def without_append del: fun_upd_apply)
qed

section \<open>A light\<close>

definition chans :: "gb_lights \<Rightarrow> gb_light \<Rightarrow> gb_channel list" where
  "chans g l = (case arr g (channels l) of None \<Rightarrow> [] | Some cs \<Rightarrow> cs)"

definition light_blocks :: "gb_lights \<Rightarrow> gb_light \<Rightarrow> nat list" where
  "light_blocks g l = concat (map blocks (chans g l)) @ [l_name l]"

text \<open>The addresses a light uses, and that they can be given back: no block twice, none freed already, no LED left without its channel.\<close>

definition foot :: "gb_lights \<Rightarrow> gb_light \<Rightarrow> nat set" where
  "foot g l = {p. p \<noteq> 0 \<and> (p \<in> set (light_blocks g l) \<or> p = channels l \<or> (has_flash l \<and> int p = v4l2_flash l))}"

definition ok_chans :: "gb_lights \<Rightarrow> gb_light \<Rightarrow> bool" where
  "ok_chans g l \<longleftrightarrow>
     (if channels l = 0 then arr g 0 = None \<and> channels_count l \<le> 1
      else arr g (channels l) \<noteq> None \<and> length (chans g l) = unat (channels_count l)) \<and>
     (\<forall>i. (channels l, i) \<in> leds g \<longrightarrow> i < length (chans g l) \<and> is_registered (chans g l ! i))"

definition ok_light :: "gb_lights \<Rightarrow> gb_light \<Rightarrow> bool" where
  "ok_light g l \<longleftrightarrow> freeable g (light_blocks g l) \<and> ok_chans g l \<and>
     (has_flash l \<and> 0 < v4l2_flash l \<longrightarrow> subdevs g (v4l2_flash l) \<noteq> None)"

text \<open>Two states agree on a set of addresses.\<close>

definition agree :: "nat set \<Rightarrow> gb_lights \<Rightarrow> gb_lights \<Rightarrow> bool" where
  "agree A g g' \<longleftrightarrow> (\<forall>p \<in> A. heap g' p = heap g p \<and> arr g' p = arr g p \<and> subdevs g' (int p) = subdevs g (int p) \<and>
     (\<forall>i. (p, i) \<in> leds g' \<longleftrightarrow> (p, i) \<in> leds g))"

lemma agree_trans: "agree A g g1 \<Longrightarrow> agree B g1 g2 \<Longrightarrow> C \<subseteq> A \<Longrightarrow> C \<subseteq> B \<Longrightarrow> agree C g g2"
  by (simp add: agree_def subset_eq)

lemma foot_agree:
  assumes "agree (foot g l) g g'" "arr g' 0 = arr g 0"
  shows "chans g' l = chans g l" "foot g' l = foot g l"
proof -
  have "arr g' (channels l) = arr g (channels l)" using assms by (cases "channels l = 0") (auto simp: agree_def foot_def)
  then show "chans g' l = chans g l" by (simp add: chans_def)
  then show "foot g' l = foot g l" by (simp add: foot_def light_blocks_def)
qed

lemma ok_light_agree:
  assumes "ok_light g l" "agree (foot g l) g g'" "arr g' 0 = arr g 0" "\<forall>i. (0, i) \<notin> leds g'"
  shows "ok_light g' l"
proof -
  have c: "chans g' l = chans g l" and b: "light_blocks g' l = light_blocks g l"
    using foot_agree [OF assms(2,3)] by (simp_all add: light_blocks_def)
  have "heap g' p = heap g p" if "p \<in> set (light_blocks g l)" "p \<noteq> 0" for p
    using assms(2) that by (auto simp: agree_def foot_def)
  then have "freeable g' (light_blocks g' l)" using assms(1) b by (auto simp: ok_light_def freeable_def)
  moreover have "subdevs g' (v4l2_flash l) = subdevs g (v4l2_flash l)" if v: "has_flash l" "0 < v4l2_flash l"
  proof -
    have "nat (v4l2_flash l) \<in> foot g l" using v by (simp add: foot_def)
    then have "subdevs g' (int (nat (v4l2_flash l))) = subdevs g (int (nat (v4l2_flash l)))" using assms(2) unfolding agree_def by blast
    then show ?thesis using v(2) by simp
  qed
  moreover have "arr g' (channels l) = arr g (channels l)" "channels l \<noteq> 0 \<Longrightarrow> (channels l, i) \<in> leds g' \<longleftrightarrow> (channels l, i) \<in> leds g" for i
    using assms(2,3) by (cases "channels l = 0"; auto simp: agree_def foot_def)+
  ultimately show ?thesis using assms(1,3,4) c by (cases "channels l = 0") (auto simp: ok_light_def ok_chans_def)
qed

text \<open>Releasing a light gives back what it uses, and only that.\<close>

lemma map_nth_concat: "concat (map (\<lambda>i. blocks (cs ! i)) [0..<length cs]) = concat (map blocks cs)"
  by (metis (no_types, lifting) map_nth list.map_comp comp_def map_eq_conv)

lemma release_v4l2:
  assumes "has_flash l \<and> 0 < v4l2_flash l \<longrightarrow> subdevs g (v4l2_flash l) \<noteq> None"
  shows "(if has_flash l then gb_lights_light_v4l2_unregister l g else Some g) =
    Some (g\<lparr>subdevs := (\<lambda>d. if has_flash l \<and> 0 < d \<and> d = v4l2_flash l then None else subdevs g d)\<rparr>)"
proof (cases "has_flash l \<and> 0 < v4l2_flash l")
  case True
  then have "(\<lambda>d. if has_flash l \<and> 0 < d \<and> d = v4l2_flash l then None else subdevs g d) = (subdevs g)(v4l2_flash l := None)" by auto
  then show ?thesis using True assms by (auto simp: gb_lights_light_v4l2_unregister_def)
next
  case False
  then have "(\<lambda>d. if has_flash l \<and> 0 < d \<and> d = v4l2_flash l then None else subdevs g d) = subdevs g" by auto
  then show ?thesis using False by (auto simp: gb_lights_light_v4l2_unregister_def)
qed

lemma release_all_channels:
  assumes "ok_chans g l" "freeable g (concat (map blocks (chans g l)))"
  shows "\<exists>cs'. release_channels (channels l) [0..<unat (channels_count l)] g = Some (g\<lparr>works := works g - {channels l} \<times> {..<length (chans g l)},
    heap := without (concat (map blocks (chans g l))) (heap g), arr := (if channels l = 0 then arr g else (arr g)(channels l \<mapsto> cs')),
    leds := {x \<in> leds g. fst x \<noteq> channels l}\<rparr>)"
proof (cases "channels l = 0")
  case True
  then have "unat (channels_count l) \<le> 1" "chans g l = []" "\<forall>i. (0, i) \<notin> leds g"
    using assms(1) by (auto simp: ok_chans_def word_le_nat_alt chans_def)
  moreover from this(3) have "{x \<in> leds g. fst x \<noteq> 0} = leds g" by (metis (mono_tags, lifting) Collect_cong Collect_mem_eq prod.collapse)
  moreover have "release_channels 0 [0..<unat (channels_count l)] g = Some g"
    using calculation(1) by (cases "unat (channels_count l)") (auto simp: gb_lights_channel_release_def)
  ultimately show ?thesis using True by (simp add: without_def)
next
  case False
  then have cs: "arr g (channels l) = Some (chans g l)" "length (chans g l) = unat (channels_count l)"
    and reg: "(channels l, i) \<in> leds g \<Longrightarrow> i < length (chans g l) \<and> is_registered (chans g l ! i)" for i
    using assms(1) by (auto simp: ok_chans_def chans_def)
  have "leds g - {(channels l, i) | i. i \<in> set [0..<length (chans g l)] \<and> is_registered (chans g l ! i)} = {x \<in> leds g. fst x \<noteq> channels l}"
    using reg by auto
  moreover note release_channels_effect [OF cs(1) _ False distinct_upt, of 0 "length (chans g l)", unfolded map_nth_concat, OF _ assms(2)]
  ultimately show ?thesis using False unfolding cs(2) [symmetric] by (auto simp: atLeast0LessThan simp del: fun_upd_apply)
qed

lemma light_release_effect:
  assumes "ok_light g l"
  shows "\<exists>g'. gb_lights_light_release l g = Some (l\<lparr>channels_count := 0\<rparr>, g') \<and> agree (- foot g l) g g' \<and>
    (\<forall>p \<in> set (light_blocks g l). p \<noteq> 0 \<longrightarrow> heap g' p = None) \<and> arr g' = (if channels l = 0 then arr g else (arr g)(channels l := None)) \<and>
    leds g' = {x \<in> leds g. fst x \<noteq> channels l} \<and> nextp g' = nextp g \<and> lights g' = lights g \<and> lights_count g' = lights_count g \<and>
    sent g' = sent g \<and> ncalls g' = ncalls g \<and> replies g' = replies g \<and>
    works g' = works g - {channels l} \<times> {..<length (chans g l)}"
proof -
  let ?b = "concat (map blocks (chans g l))"
  define g1 where "g1 = g\<lparr>subdevs := (\<lambda>d. if has_flash l \<and> 0 < d \<and> d = v4l2_flash l then None else subdevs g d)\<rparr>"
  have f: "freeable g ?b" "freeable (g\<lparr>heap := without ?b (heap g)\<rparr>) [l_name l]"
    using assms by (simp_all add: ok_light_def light_blocks_def freeable_append)
  have v: "(if has_flash l then gb_lights_light_v4l2_unregister l g else Some g) = Some g1"
    unfolding g1_def using assms by (intro release_v4l2) (simp add: ok_light_def)
  have same: "chans (g\<lparr>subdevs := d\<rparr>) l = chans g l" for d by (simp add: chans_def)
  then have g1: "chans g1 l = chans g l" "freeable g1 ?b" "ok_chans g1 l" using f(1) assms by (simp_all add: g1_def freeable_def ok_light_def ok_chans_def)
  obtain cs' where r: "release_channels (channels l) [0..<unat (channels_count l)] g1 = Some (g1\<lparr>works := works g1 - {channels l} \<times> {..<length (chans g l)},
      heap := without ?b (heap g1), arr := (if channels l = 0 then arr g1 else (arr g1)(channels l \<mapsto> cs')), leds := {x \<in> leds g1. fst x \<noteq> channels l}\<rparr>)"
    using release_all_channels [OF g1(3)] g1(1,2) by auto
  define g2 where "g2 = g1\<lparr>works := works g1 - {channels l} \<times> {..<length (chans g l)},
      heap := without ?b (heap g1), arr := (if channels l = 0 then arr g1 else (arr g1)(channels l \<mapsto> cs')), leds := {x \<in> leds g1. fst x \<noteq> channels l}\<rparr>"
  define g3 where "g3 = (if channels l = 0 then g2 else g2\<lparr>arr := (arr g2)(channels l := None)\<rparr>)"
  have k: "kfree_channels (channels l) g2 = Some g3" by (auto simp: kfree_channels_def g3_def g2_def)
  have "freeable g3 [l_name l]" using f(2) by (simp add: freeable_def g3_def g2_def g1_def)
  then have n: "kfree (l_name l) g3 = Some (g3\<lparr>heap := without [l_name l] (heap g3)\<rparr>)" using kfree_all_ok [of g3 "[l_name l]"] by (simp add: kfree_all_fun del: kfree_all.simps)
  have h: "without [l_name l] (heap g3) = without (light_blocks g l) (heap g)" by (simp add: g3_def g2_def g1_def without_append light_blocks_def)
  let ?g = "g3\<lparr>heap := without (light_blocks g l) (heap g)\<rparr>"
  have "gb_lights_light_release l g = Some (l\<lparr>channels_count := 0\<rparr>, ?g)"
    using v r k n h by (simp add: gb_lights_light_release_def g2_def)
  moreover have "channels l = 0 \<Longrightarrow> (0, i) \<notin> leds g" for i using assms by (auto simp: ok_light_def ok_chans_def chans_def)
  then have "agree (- foot g l) g ?g" by (auto simp: agree_def foot_def without_def g3_def g2_def g1_def)
  moreover have "\<forall>p \<in> set (light_blocks g l). p \<noteq> 0 \<longrightarrow> heap ?g p = None" by (simp add: without_def)
  ultimately show ?thesis by (intro exI [of _ ?g]) (auto simp: g3_def g2_def g1_def)
qed

section \<open>Configuring a light\<close>

text \<open>Registering a channel, of whatever kind, keeps the modes and the names of all channels of the light.\<close>

definition labels :: "gb_channel list \<Rightarrow> (u32 \<times> nat \<times> nat) list" where
  "labels cs = map (\<lambda>c. (mode c, color_name c, mode_name c)) cs"

lemma labels_upd: "(mode c, color_name c, mode_name c) = (mode (cs ! i), color_name (cs ! i), mode_name (cs ! i)) \<Longrightarrow> labels (cs[i := c]) = labels cs"
  by (cases "i < length cs") (auto simp: labels_def nth_list_update intro!: nth_equalityI)

lemma labels_length: "labels cs' = labels cs \<Longrightarrow> length cs' = length cs"
  by (drule arg_cong [where f = length]) (simp add: labels_def)

lemma labels_nth:
  assumes "labels cs' = labels cs" "i < length cs"
  shows "mode (cs' ! i) = mode (cs ! i) \<and> color_name (cs' ! i) = color_name (cs ! i) \<and> mode_name (cs' ! i) = mode_name (cs ! i)"
proof -
  have "labels cs' ! i = labels cs ! i" using assms(1) by simp
  then show ?thesis using assms(2) labels_length [OF assms(1)] by (simp add: labels_def)
qed

lemma torch_attach_labels: "torch_attach a cs i t g = Some (r, cs', g') \<Longrightarrow> labels cs' = labels cs"
  by (auto simp: torch_attach_def Let_def labels_upd simp del: list_update_overwrite split: if_splits bind_splits prod.splits)

lemma flash_led_register_labels: "flash_led_register a cs i g = Some (r, cs', g') \<Longrightarrow> labels cs' = labels cs"
  by (auto simp: flash_led_register_def Let_def labels_upd simp del: list_update_overwrite split: if_splits bind_splits option.splits prod.splits dest!: torch_attach_labels)

lemma channel_register_labels: "gb_lights_channel_register a cs i g = Some (r, cs', g') \<Longrightarrow> labels cs' = labels cs"
  by (auto simp: gb_lights_channel_register_def led_register_def labels_upd split: if_splits bind_splits dest!: flash_led_register_labels)

lemma register_channels_labels: "register_channels a is cs g = Some (r, cs', g') \<Longrightarrow> labels cs' = labels cs"
proof (induction "is" arbitrary: cs g)
  case (Cons i "is")
  then show ?case by (auto split: bind_splits if_splits dest!: channel_register_labels)
qed simp

text \<open>Addresses are handed out from \<open>nextp\<close> on, and only channels of existing arrays are registered.\<close>

definition below :: "gb_lights \<Rightarrow> bool" where
  "below g \<longleftrightarrow> 0 < nextp g \<and> arr g 0 = None \<and> (\<forall>a i. (a, i) \<in> leds g \<longrightarrow> 0 < a \<and> a < nextp g)"

text \<open>A light that has never been configured, and one that is in use.\<close>

definition clean :: "gb_light \<Rightarrow> bool" where
  "clean l \<longleftrightarrow> channels l = 0 \<and> channels_count l = 0 \<and> l_name l = 0 \<and> v4l2_flash l \<le> 0"

definition live_light :: "gb_lights \<Rightarrow> nat \<Rightarrow> gb_light \<Rightarrow> bool" where
  "live_light g k l \<longleftrightarrow> channels l \<noteq> 0 \<and> l_id l = of_nat k \<and> (\<forall>j < length (chans g l). configured k j (chans g l ! j) \<and> \<not> releasing (chans g l ! j) \<and>
     (torch (chans g l ! j) \<or> (channels l, j) \<in> leds g))"

definition grown :: "gb_lights \<Rightarrow> gb_lights \<Rightarrow> bool" where
  "grown g g' \<longleftrightarrow> agree {..<nextp g} g g' \<and> nextp g \<le> nextp g' \<and> below g' \<and> works g' = works g \<and> lights g' = lights g \<and> lights_count g' = lights_count g"

lemma grown_trans: "grown g g1 \<Longrightarrow> grown g1 g2 \<Longrightarrow> grown g g2"
  unfolding grown_def by (auto intro: agree_trans)

lemma allocs_grown: "allocs g ps g' \<Longrightarrow> below g \<Longrightarrow> grown g g'"
  by (fastforce simp: allocs_def grown_def below_def agree_def rest_def)

text \<open>The V4L2 device of a light.\<close>

lemma v4l2_register_effect:
  assumes "gb_lights_light_v4l2_register l cs g = Some (ret, l', g')" "below g"
  shows "grown g g' \<and> leds g' = leds g \<and> arr g' = arr g \<and> l' = l\<lparr>v4l2_flash := v4l2_flash l'\<rparr> \<and> (\<forall>p < nextp g. heap g' p = heap g p) \<and>
    (0 < v4l2_flash l' \<longrightarrow> (l' = l \<and> ret < 0) \<or> (int (nextp g) \<le> v4l2_flash l' \<and> v4l2_flash l' < int (nextp g') \<and> subdevs g' (v4l2_flash l') \<noteq> None))"
proof -
  obtain p g1 where k: "kalloc [] g = (p, g1)" by (metis surj_pair)
  have a: "allocs g [p] g1" using assms(2) by (intro allocs_kalloc [OF k]) (simp add: below_def)
  obtain r g2 where c: "kcall g1 = (r, g2)" by (metis surj_pair)
  have a2: "allocs g [p] g2" using allocs_trans [OF a allocs_kcall [OF c]] by simp
  note u = assms(1) [unfolded gb_lights_light_v4l2_register_def Let_def k c prod.case]
  have up: "heap g2 q = heap g q" "rest g2 = rest g" "nextp g \<le> nextp g2" if "q < nextp g" for q using a2 that by (auto simp: allocs_def)
  consider (nomem) "p = 0" "ret = - ENOMEM" "l' = l" "g' = g1"
    | (ok) cfg where "r > 0" "l' = l\<lparr>v4l2_flash := int (nextp g2)\<rparr>" "g' = g2\<lparr>subdevs := (subdevs g2)(int (nextp g2) \<mapsto> cfg), nextp := nextp g2 + 1\<rparr>"
    | (fail) "p \<noteq> 0" "r \<le> 0" "l' = l\<lparr>v4l2_flash := r\<rparr>" "kfree p g2 = Some g'"
    using u by (auto split: if_splits bind_splits)
  then show ?thesis
  proof cases
    case nomem
    then show ?thesis using allocs_grown [OF a assms(2)] a by (auto simp: allocs_def rest_def)
  next
    case ok
    have "grown g g2" by (rule allocs_grown [OF a2 assms(2)])
    moreover have "grown g2 g'" using \<open>grown g g2\<close> ok(3) by (fastforce simp: grown_def agree_def below_def)
    ultimately show ?thesis using grown_trans a2 ok by (auto simp: allocs_def rest_def)
  next
    case fail
    have g': "g' = g2\<lparr>heap := (heap g2)(p := None)\<rparr>" using fail(1,4) by (auto simp: kfree_def split: if_splits)
    have "nextp g \<le> p" using a fail(1) by (simp add: allocs_def)
    then have "grown g g'" using allocs_grown [OF a2 assms(2)] g' by (auto simp: grown_def agree_def below_def)
    then show ?thesis using a2 g' fail \<open>nextp g \<le> p\<close> by (auto simp: allocs_def rest_def)
  qed
qed

text \<open>The ways through the configuration of a light.\<close>

definition array_at :: "gb_lights \<Rightarrow> nat \<Rightarrow> gb_channel list \<Rightarrow> gb_lights \<Rightarrow> bool" where
  "array_at g p cs g' \<longleftrightarrow> p = nextp g \<and> nextp g' = Suc p \<and> heap g' = heap g \<and> arr g' = (arr g)(p \<mapsto> cs) \<and> leds g' = leds g \<and>
     works g' = works g \<and> subdevs g' = subdevs g \<and> lights g' = lights g \<and> lights_count g' = lights_count g"

definition finish_config :: "nat \<Rightarrow> nat \<Rightarrow> int \<Rightarrow> gb_channel list \<Rightarrow> gb_light \<Rightarrow> gb_lights \<Rightarrow> (int \<times> gb_light \<times> gb_lights) option" where
  "finish_config p n r cs l g =
     (if r < 0 then Some (r, l, g\<lparr>arr := (arr g)(p \<mapsto> cs)\<rparr>)
      else do {
        (r2, cs2, g5) \<leftarrow> register_channels p [0..<n] cs g;
        let g6 = g5\<lparr>arr := (arr g5)(p \<mapsto> cs2)\<rparr>;
        if r2 < 0 then Some (r2, l, g6)
        else if has_flash l then gb_lights_light_v4l2_register l cs2 g6
        else Some (0, l, g6)
      })"

lemma v4l2_register_arr:
  "gb_lights_light_v4l2_register l cs g = Some (ret, l', g') \<Longrightarrow> arr g' = arr g \<and> channels l' = channels l"
  by (auto simp: gb_lights_light_v4l2_register_def kalloc_def kcall_def kfree_def Let_def split: if_splits bind_splits)

lemma light_config_cases:
  assumes "gb_lights_light_config k l g = Some (ret, l', g')" "0 < nextp g"
  obtains (early) "ret < 0" "l' = l\<lparr>l_id := of_nat k\<rparr>" "allocs g [] g'"
  | (nomem) n p1 where "ret < 0" "l' = l\<lparr>l_id := of_nat k, channels_count := n, l_name := p1, channels := 0\<rparr>" "allocs g [p1] g'"
  | (full) n p1 p2 g2 g3 r1 cs1 l2 g4 where "allocs g [p1] g2" "array_at g2 p2 (replicate (unat n) blank_channel) g3"
      "config_channels k 0 (l\<lparr>l_id := of_nat k, channels_count := n, l_name := p1, channels := p2\<rparr>) (replicate (unat n) blank_channel) g3 = Some (r1, cs1, l2, g4)"
      "finish_config p2 (unat n) r1 cs1 l2 g4 = Some (ret, l', g')"
proof -
  obtain r conf g1 where s: "gb_sync 0x03 [of_nat k] 33 g = ((r, conf), g1)" by (metis surj_pair)
  obtain p1 g2 where k1: "kstrndup (drop 1 conf) g1 = (p1, g2)" by (metis surj_pair)
  obtain p2 g3 where k2: "kalloc_channels (unat (conf ! 0)) blank_channel g2 = (p2, g3)" by (metis surj_pair)
  have a1: "allocs g [] g1" by (rule allocs_sync [OF s])
  have a2: "allocs g [p1] g2"
    using allocs_trans [OF a1 allocs_kalloc [OF k1 [unfolded kstrndup_def] allocs_pos [OF a1 assms(2)]]] by simp
  have p2: "p2 = 0 \<Longrightarrow> allocs g2 [] g3" "p2 \<noteq> 0 \<Longrightarrow> array_at g2 p2 (replicate (unat (conf ! 0)) blank_channel) g3"
    using k2 allocs_pos [OF a2 assms(2)] by (auto simp: kalloc_channels_def kcall_def allocs_def rest_def array_at_def Let_def split: if_splits)
  note u = assms(1) [unfolded gb_lights_light_config_def Let_def s k1 k2 prod.case]
  show ?thesis
  proof (cases "r < 0 \<or> conf ! 0 = 0 \<or> strlen_at (drop 1 conf) = Some 0")
    case True
    then have "ret < 0" "l' = l\<lparr>l_id := of_nat k\<rparr>" "g' = g1" using u by (auto split: if_splits)
    then show ?thesis using early a1 by simp
  next
    case False
    then obtain n where n: "strlen_at (drop 1 conf) = Some n" "n \<noteq> 0" using u by (auto split: bind_splits)
    show ?thesis
    proof (cases "p2 = 0")
      case True
      then have "ret < 0" "l' = l\<lparr>l_id := of_nat k, channels_count := conf ! 0, l_name := p1, channels := 0\<rparr>" "g' = g3" using u False n by auto
      then show ?thesis using nomem allocs_trans [OF a2 p2(1) [OF True]] by simp
    next
      case c: False
      let ?l1 = "l\<lparr>l_id := of_nat k, channels_count := conf ! 0, l_name := p1, channels := p2\<rparr>"
      obtain x where x: "config_channels k 0 ?l1 (replicate (unat (conf ! 0)) blank_channel) g3 = Some x"
        using u c False n by (cases "config_channels k 0 ?l1 (replicate (unat (conf ! 0)) blank_channel) g3") simp_all
      obtain r1 cs1 l2 g4 where x4: "x = (r1, cs1, l2, g4)" by (metis surj_pair)
      have "finish_config p2 (unat (conf ! 0)) r1 cs1 l2 g4 = Some (ret, l', g')"
        unfolding finish_config_def Let_def using u c False n x x4 by simp
      then have "config_channels k 0 ?l1 (replicate (unat (conf ! 0)) blank_channel) g3 = Some (r1, cs1, l2, g4)"
        "finish_config p2 (unat (conf ! 0)) r1 cs1 l2 g4 = Some (ret, l', g')" using x x4 by simp_all
      then show ?thesis using full [OF a2 p2(2) [OF c]] by simp
    qed
  qed
qed

lemma distinct_blocks: "distinct (filter P (concat (map all_blocks cs))) \<Longrightarrow> distinct (filter P (concat (map blocks cs)))"
  by (induction cs) (auto simp: all_blocks_def split: if_splits)

lemma array_at_below:
  assumes "array_at g p cs g'" "below g"
  shows "grown g g'" "0 < p"
  using assms by (auto simp: array_at_def below_def grown_def agree_def)

text \<open>The end of a configuration without flash LEDs.\<close>

lemma finish_config_effect:
  assumes "finish_config p n r cs l g = Some (ret, l', g')" "0 < p" "p < nextp g" "below g" "\<forall>i. (p, i) \<notin> leds g"
    "length cs = n" "\<forall>c \<in> set cs. unused c" "\<forall>c \<in> set (chans g' l'). mode c AND 0x100 = 0" "channels l = p"
  shows "\<exists>cs'. arr g' = (arr g)(p \<mapsto> cs') \<and> length cs' = n \<and> (\<forall>j < n. same_channel (cs ! j) (cs' ! j)) \<and>
    (\<forall>q < nextp g. heap g' q = heap g q) \<and> l' = l\<lparr>v4l2_flash := v4l2_flash l'\<rparr> \<and> nextp g \<le> nextp g' \<and> below g' \<and>
    leds g' = leds g \<union> {(p, i) | i. i < n \<and> is_registered (cs' ! i)} \<and> agree ({..<nextp g} - {p}) g g' \<and> lights g' = lights g \<and> works g' = works g \<and>
    lights_count g' = lights_count g \<and> (0 \<le> ret \<longrightarrow> 0 \<le> r \<and> (\<forall>j < n. led (cs' ! j) = led (cs ! j) \<and> (torch (cs' ! j) \<or> is_registered (cs' ! j)))) \<and>
    (has_flash l \<and> 0 < v4l2_flash l' \<longrightarrow> (l' = l \<and> ret < 0) \<or> (int (nextp g) \<le> v4l2_flash l' \<and> v4l2_flash l' < int (nextp g') \<and> subdevs g' (v4l2_flash l') \<noteq> None))"
proof (cases "r < 0")
  case True
  then have "ret = r" "l' = l" "g' = g\<lparr>arr := (arr g)(p \<mapsto> cs)\<rparr>" using assms(1) by (simp_all add: finish_config_def)
  then show ?thesis using True assms by (auto simp: unused_def agree_def below_def same_channel_refl)
next
  case False
  obtain r2 cs2 g5 where r2: "register_channels p [0..<n] cs g = Some (r2, cs2, g5)"
    using assms(1) False by (auto simp: finish_config_def split: bind_splits)
  define g6 where "g6 = g5\<lparr>arr := (arr g5)(p \<mapsto> cs2)\<rparr>"
  have fin: "(if r2 < 0 then Some (r2, l, g6) else if has_flash l then gb_lights_light_v4l2_register l cs2 g6 else Some (0, l, g6)) = Some (ret, l', g')"
    unfolding g6_def using assms(1) False r2 by (simp add: finish_config_def Let_def split del: if_split)
  have lab: "labels cs2 = labels cs" by (rule register_channels_labels [OF r2])
  have "arr g' p = Some cs2" "channels l' = p"
    using fin v4l2_register_arr [of l cs2 g6 ret l' g'] assms(9) by (auto simp: g6_def split: if_splits)
  then have "\<forall>c \<in> set cs2. mode c AND 0x100 = 0" using assms(8) by (simp add: chans_def)
  then have nf: "mode (cs ! i) AND 0x100 = 0" if "i < n" for i
    using labels_nth [OF lab] labels_length [OF lab] that assms(6) by (metis nth_mem)
  have e: "length cs2 = n" "still g g5" "\<And>j. j < n \<Longrightarrow> same_channel (cs ! j) (cs2 ! j)"
      "leds g5 = leds g \<union> {(p, j) | j. j < n \<and> is_registered (cs2 ! j)}"
      "\<And>j. 0 \<le> r2 \<Longrightarrow> j < n \<Longrightarrow> led (cs2 ! j) = led (cs ! j) \<and> (torch (cs2 ! j) \<or> is_registered (cs2 ! j))"
    using register_channels_effect [OF r2 distinct_upt] nf assms(6,7) by auto
  have b6: "below g6" using assms(2-4) e(2,4) by (auto simp: below_def still_def g6_def)
  have r: "arr g' = arr g6" "l' = l\<lparr>v4l2_flash := v4l2_flash l'\<rparr>" "grown g6 g'" "leds g' = leds g6" "\<And>q. q < nextp g6 \<Longrightarrow> heap g' q = heap g6 q"
      "has_flash l \<Longrightarrow> 0 < v4l2_flash l' \<Longrightarrow> (l' = l \<and> ret < 0) \<or> (int (nextp g6) \<le> v4l2_flash l' \<and> v4l2_flash l' < int (nextp g') \<and> subdevs g' (v4l2_flash l') \<noteq> None)"
      "0 \<le> ret \<Longrightarrow> 0 \<le> r2"
    using fin v4l2_register_effect [of l cs2 g6 ret l' g'] b6 by (auto simp: grown_def agree_def split: if_splits)
  have g: "nextp g6 = nextp g" "heap g6 = heap g" "subdevs g6 = subdevs g" "works g6 = works g" "lights g6 = lights g" "lights_count g6 = lights_count g"
      "leds g6 = leds g5" "arr g6 = (arr g)(p \<mapsto> cs2)"
    using e(2) by (simp_all add: still_def g6_def)
  have "agree ({..<nextp g} - {p}) g g6" using g e(4) by (auto simp: agree_def)
  then have ag: "agree ({..<nextp g} - {p}) g g'" by (rule agree_trans) (use r(3) g in \<open>auto simp: grown_def\<close>)
  have ld: "leds g' = leds g \<union> {(p, i) | i. i < n \<and> is_registered (cs2 ! i)}" using r(4) g(7) e(4) by auto
  show ?thesis
    using r g e ag ld False assms(6) by (intro exI [of _ cs2]) (auto simp: grown_def simp del: fun_upd_apply)
qed

definition fits :: "gb_lights \<Rightarrow> gb_light \<Rightarrow> gb_lights \<Rightarrow> bool" where
  "fits g l g' \<longleftrightarrow> ok_light g' l \<and> foot g' l \<subseteq> {nextp g..<nextp g'} \<and> grown g g' \<and>
     (\<forall>a i. (a, i) \<in> leds g' \<longrightarrow> (a, i) \<in> leds g \<or> a = channels l) \<and> (\<forall>a. arr g' a \<noteq> None \<longrightarrow> arr g a \<noteq> None \<or> a = channels l)"

lemma clean_fits:
  assumes "allocs g [p] g'" "below g" "clean l" "n \<le> 1"
  shows "fits g (l\<lparr>l_id := i, channels_count := n, l_name := p, channels := 0\<rparr>) g'"
proof -
  have "grown g g'" by (rule allocs_grown [OF assms(1,2)])
  moreover from this have "arr g' 0 = None" "\<forall>i. (0, i) \<notin> leds g'" by (auto simp: grown_def below_def)
  ultimately show ?thesis using assms
    by (auto simp: fits_def ok_light_def ok_chans_def foot_def light_blocks_def chans_def freeable_def allocs_def clean_def rest_def)
qed

lemma light_config_full:
  assumes a: "allocs g [p1] g2" and b: "array_at g2 p2 (replicate (unat n) blank_channel) g3"
    and c: "config_channels k 0 (l\<lparr>l_id := i, channels_count := n, l_name := p1, channels := p2\<rparr>) (replicate (unat n) blank_channel) g3 = Some (r1, cs1, l2, g4)"
    and d: "finish_config p2 (unat n) r1 cs1 l2 g4 = Some (ret, l', g')"
    and "below g" "0 \<le> ret \<or> v4l2_flash l \<le> 0" "\<forall>c \<in> set (chans g' l'). mode c AND 0x100 = 0"
  shows "fits g l' g' \<and> (0 \<le> ret \<longrightarrow> i = of_nat k \<longrightarrow> live_light g' k l')"
proof -
  have g2: "grown g g2" by (rule allocs_grown [OF a assms(5)])
  have g3: "grown g2 g3" "0 < p2" using array_at_below [OF b] g2 by (simp_all add: grown_def)
  then have "below g3" by (simp add: grown_def)
  then have pos: "0 < nextp g3" by (simp add: below_def)
  note e = config_channels_effect [OF c pos]
  have g4: "grown g3 g4" using allocs_grown [OF _ \<open>below g3\<close>] e by blast
  have gg4: "grown g g4" using g2 g3(1) g4 grown_trans by blast
  have l2: "channels l2 = p2" "l_name l2 = p1" "channels_count l2 = n" "v4l2_flash l2 = v4l2_flash l" "l_id l2 = i"
    using e by (metis gb_light.select_convs gb_light.surjective gb_light.update_convs)+
  have nx: "nextp g \<le> nextp g2" "p2 = nextp g2" "nextp g3 = Suc p2" "nextp g3 \<le> nextp g4" using g2 b g4 by (simp_all add: grown_def array_at_def)
  have same4: "leds g4 = leds g" "arr g4 = (arr g)(p2 \<mapsto> replicate (unat n) blank_channel)" using a b e by (auto simp: allocs_def rest_def array_at_def)
  then have nl: "\<forall>i. (p2, i) \<notin> leds g4" using assms(5) nx by (fastforce simp: below_def)
  obtain cs' where f: "arr g' = (arr g4)(p2 \<mapsto> cs')" "length cs' = unat n" "\<forall>j < unat n. same_channel (cs1 ! j) (cs' ! j)"
      "\<forall>q < nextp g4. heap g' q = heap g4 q" "l' = l2\<lparr>v4l2_flash := v4l2_flash l'\<rparr>" "nextp g4 \<le> nextp g'" "below g'"
      "leds g' = leds g4 \<union> {(p2, i) | i. i < unat n \<and> is_registered (cs' ! i)}" "agree ({..<nextp g4} - {p2}) g4 g'"
      "lights g' = lights g4" "works g' = works g4" "lights_count g' = lights_count g4"
      "0 \<le> ret \<longrightarrow> 0 \<le> r1 \<and> (\<forall>j < unat n. led (cs' ! j) = led (cs1 ! j) \<and> (torch (cs' ! j) \<or> is_registered (cs' ! j)))"
      "has_flash l2 \<and> 0 < v4l2_flash l' \<longrightarrow> (l' = l2 \<and> ret < 0) \<or> (int (nextp g4) \<le> v4l2_flash l' \<and> v4l2_flash l' < int (nextp g') \<and> subdevs g' (v4l2_flash l') \<noteq> None)"
    using finish_config_effect [OF d g3(2) _ _ nl _ _ assms(7) l2(1)] nx e gg4 by (auto simp: grown_def simp del: fun_upd_apply)
  have l': "channels l' = p2" "l_name l' = p1" "channels_count l' = n" "l_id l' = i" "has_flash l' = has_flash l2"
    using f(5) l2 by (metis gb_light.select_convs gb_light.surjective gb_light.update_convs)+
  have ch: "chans g' l' = cs'" using l'(1) f(1) by (simp add: chans_def)
  have "map blocks cs' = map blocks cs1" using f(2,3) e by (intro nth_equalityI) (auto simp: same_channel_def all_blocks_def)
  then have bl: "light_blocks g' l' = concat (map blocks cs1) @ [p1]" using ch l'(2) by (simp add: light_blocks_def)
  have new: "\<forall>q \<in> set (concat (map blocks cs1)). q \<noteq> 0 \<longrightarrow> nextp g3 \<le> q \<and> q < nextp g4 \<and> heap g4 q \<noteq> None"
    "distinct (filter (\<lambda>p. p \<noteq> 0) (concat (map blocks cs1)))"
    using e distinct_blocks by (auto simp: allocs_def all_blocks_def)
  have p1: "p1 \<noteq> 0 \<longrightarrow> nextp g \<le> p1 \<and> p1 < nextp g2 \<and> heap g4 p1 \<noteq> None"
    using a b e nx by (auto simp: allocs_def array_at_def)
  have fresh: "p1 \<noteq> 0 \<Longrightarrow> p1 \<notin> set (concat (map blocks cs1))" using new(1) p1 nx by force
  have live: "heap g' q \<noteq> None" if "q \<in> set (concat (map blocks cs1) @ [p1])" "q \<noteq> 0" for q
    using that new(1) p1 nx f(4) by (metis UnE empty_iff insert_iff le_less_trans less_Suc_eq_le list.set(1) list.set(2) nat_less_le order_less_le_trans set_append)
  have "freeable g' (light_blocks g' l')" unfolding freeable_def bl using new(2) fresh live by auto
  moreover have "ok_chans g' l'" using l' g3(2) f(1,2,8) ch nl by (auto simp: ok_chans_def)
  moreover have sd: "has_flash l' \<and> 0 < v4l2_flash l' \<longrightarrow> int (nextp g4) \<le> v4l2_flash l' \<and> v4l2_flash l' < int (nextp g') \<and> subdevs g' (v4l2_flash l') \<noteq> None"
    using f(14) l'(5) l2(4) assms(6) by auto
  ultimately have "ok_light g' l'" by (simp add: ok_light_def)
  moreover have "foot g' l' \<subseteq> {nextp g..<nextp g'}" using new(1) p1 sd bl l'(1) nx f(6) by (fastforce simp: foot_def)
  moreover have "agree {..<nextp g} g g'" using gg4 by (intro agree_trans [OF _ f(9)]) (use nx in \<open>auto simp: grown_def\<close>)
  then have "grown g g'" using f gg4 by (simp add: grown_def)
  moreover have "live_light g' k l'" if r: "0 \<le> ret" "i = of_nat k"
  proof -
    have "configured k j (cs1 ! j) \<and> unused (cs1 ! j)" if "j < unat n" for j using e f(13) r(1) that by auto
    then have "configured k j (cs' ! j) \<and> \<not> releasing (cs' ! j) \<and> (torch (cs' ! j) \<or> (p2, j) \<in> leds g')" if "j < unat n" for j
      using f(3,8,13) r(1) that by (auto simp: same_channel_def all_blocks_def blocks_def configured_def unused_def)
    then show ?thesis using ch f(2) l' g3(2) r(2) by (simp add: live_light_def)
  qed
  moreover have "(\<forall>a i. (a, i) \<in> leds g' \<longrightarrow> (a, i) \<in> leds g \<or> a = channels l') \<and> (\<forall>a. arr g' a \<noteq> None \<longrightarrow> arr g a \<noteq> None \<or> a = channels l')"
    using f(1,8) same4 l'(1) by (auto split: if_splits)
  ultimately show ?thesis by (simp add: fits_def)
qed

lemma light_config_effect:
  assumes "gb_lights_light_config k l g = Some (ret, l', g')" "below g" "\<forall>c \<in> set (chans g' l'). mode c AND 0x100 = 0"
    and "0 \<le> ret \<or> clean l \<and> (channels l' = 0 \<longrightarrow> channels_count l' \<le> 1)"
  shows "fits g l' g' \<and> (0 \<le> ret \<longrightarrow> live_light g' k l')"
proof -
  have "0 < nextp g" using assms(2) by (simp add: below_def)
  from assms(1) this show ?thesis
  proof (cases rule: light_config_cases)
    case early
    have "allocs g [0] g'" using allocs_none [OF early(3), of "[0]"] by simp
    moreover have "clean l" using early(1) assms(4) by simp
    moreover from this have "l' = l\<lparr>l_id := of_nat k, channels_count := 0, l_name := 0, channels := 0\<rparr>" using early(2) by (simp add: clean_def)
    ultimately show ?thesis using clean_fits [OF _ assms(2), of 0 g' l 0 "of_nat k"] early(1) by simp
  next
    case (nomem n p1)
    then show ?thesis using clean_fits [OF nomem(3) assms(2), of l n "of_nat k"] assms(4) by auto
  next
    case (full n p1 p2 g2 g3 r1 cs1 l2 g4)
    then show ?thesis using light_config_full [OF full assms(2) _ assms(3)] assms(4) by (auto simp: clean_def)
  qed
qed

end
