(* ===== verification/GB_Light_Props.thy ===== *)
theory GB_Light_Props
  imports GB_Light_Inv GB_Machine
begin

text \<open>
  What light.c promises: the requests name the light and the channel they are for; memory and LEDs of the lights are kept
  apart and given back. And where it fails: flash LEDs, whose memory is freed twice, and configurations the module withdraws.
\<close>

section \<open>The lights of a connection\<close>

text \<open>
  The lights other than \<open>k\<close> can be released, do not share memory, and own every array of channels and every LED; with
  all lights, there is no exception.
\<close>

definition owns_but :: "nat option \<Rightarrow> gb_lights \<Rightarrow> gb_light list \<Rightarrow> bool" where
  "owns_but k g ls \<longleftrightarrow> below g \<and> (\<forall>i < length ls. Some i \<noteq> k \<longrightarrow> ok_light g (ls ! i) \<and> foot g (ls ! i) \<subseteq> {..<nextp g}) \<and>
     (\<forall>i < length ls. \<forall>j < length ls. Some i \<noteq> k \<and> Some j \<noteq> k \<and> i \<noteq> j \<longrightarrow> foot g (ls ! i) \<inter> foot g (ls ! j) = {}) \<and>
     (\<forall>a. arr g a \<noteq> None \<or> (\<exists>i. (a, i) \<in> leds g) \<longrightarrow> (\<exists>i < length ls. Some i \<noteq> k \<and> channels (ls ! i) = a))"

abbreviation owns :: "gb_lights \<Rightarrow> gb_light list \<Rightarrow> bool" where
  "owns \<equiv> owns_but None"

lemma owns_ok: "owns g ls \<Longrightarrow> k < length ls \<Longrightarrow> ok_light g (ls ! k)"
  by (simp add: owns_but_def)

text \<open>A light that was not configured owns nothing; one that is released owns nothing any more.\<close>

lemma owns_clean: "owns g ls \<Longrightarrow> k < length ls \<Longrightarrow> clean (ls ! k) \<Longrightarrow> owns_but (Some k) g ls"
proof -
  assume o: "owns g ls" and k: "k < length ls" "clean (ls ! k)"
  have "channels (ls ! i) = a \<Longrightarrow> arr g a \<noteq> None \<or> (\<exists>j. (a, j) \<in> leds g) \<Longrightarrow> i \<noteq> k" for a i
    using o k(2) by (auto simp: owns_but_def clean_def below_def)
  then have "\<exists>i < length ls. Some i \<noteq> Some k \<and> channels (ls ! i) = a" if "arr g a \<noteq> None \<or> (\<exists>i. (a, i) \<in> leds g)" for a
    using that o unfolding owns_but_def by (metis option.inject)
  then show "owns_but (Some k) g ls" using o unfolding owns_but_def by (simp del: not_None_eq)
qed

lemma owns_release:
  assumes "owns g ls" "k < length ls"
  shows "\<exists>g'. gb_lights_light_release (ls ! k) g = Some ((ls ! k)\<lparr>channels_count := 0\<rparr>, g') \<and> owns_but (Some k) g' ls \<and>
    (\<forall>i < length ls. i \<noteq> k \<longrightarrow> chans g' (ls ! i) = chans g (ls ! i) \<and> foot g' (ls ! i) = foot g (ls ! i)) \<and>
    leds g' = {x \<in> leds g. fst x \<noteq> channels (ls ! k)} \<and> lights g' = lights g \<and> lights_count g' = lights_count g \<and>
    sent g' = sent g \<and> ncalls g' = ncalls g \<and> replies g' = replies g \<and>
    works g' = works g - {channels (ls ! k)} \<times> {..<length (chans g (ls ! k))}"
proof -
  let ?l = "ls ! k"
  have ok: "ok_light g ?l" by (rule owns_ok [OF assms])
  obtain g' where g': "gb_lights_light_release ?l g = Some (?l\<lparr>channels_count := 0\<rparr>, g')" "agree (- foot g ?l) g g'"
      "arr g' = (if channels ?l = 0 then arr g else (arr g)(channels ?l := None))" "leds g' = {x \<in> leds g. fst x \<noteq> channels ?l}" "nextp g' = nextp g"
      "lights g' = lights g" "lights_count g' = lights_count g" "sent g' = sent g" "ncalls g' = ncalls g" "replies g' = replies g"
      "works g' = works g - {channels ?l} \<times> {..<length (chans g ?l)}"
    using light_release_effect [OF ok] by blast
  have o: "below g" "\<And>i. i < length ls \<Longrightarrow> ok_light g (ls ! i) \<and> foot g (ls ! i) \<subseteq> {..<nextp g}"
      "\<And>i j. i < length ls \<Longrightarrow> j < length ls \<Longrightarrow> i \<noteq> j \<Longrightarrow> foot g (ls ! i) \<inter> foot g (ls ! j) = {}"
      "\<And>a i. arr g a \<noteq> None \<or> (a, i) \<in> leds g \<Longrightarrow> \<exists>i < length ls. channels (ls ! i) = a"
    using assms(1) by (auto simp: owns_but_def)
  have a0: "arr g' 0 = arr g 0" using g'(3) by simp
  have b: "below g'" using o(1) g'(4,5) a0 by (auto simp: below_def)
  have ag: "agree (foot g (ls ! i)) g g'" if "i < length ls" "i \<noteq> k" for i
    using g'(2) o(3) [OF that(1) assms(2) that(2)] by (auto simp: agree_def)
  have nz: "\<forall>i. (0, i) \<notin> leds g'" using b by (auto simp: below_def)
  have others: "ok_light g' (ls ! i) \<and> foot g' (ls ! i) = foot g (ls ! i) \<and> chans g' (ls ! i) = chans g (ls ! i)" if "i < length ls" "i \<noteq> k" for i
    using ok_light_agree [OF _ ag [OF that] a0 nz] foot_agree [OF ag [OF that] a0] o(2) [OF that(1)] by blast
  have own: "\<exists>i < length ls. i \<noteq> k \<and> channels (ls ! i) = a" if a: "arr g' a \<noteq> None \<or> (\<exists>i. (a, i) \<in> leds g')" for a
  proof -
    have "a \<noteq> 0" using a b by (metis below_def less_irrefl)
    then have "a \<noteq> channels ?l" "arr g a \<noteq> None \<or> (\<exists>i. (a, i) \<in> leds g)" using a g'(3,4) by (auto split: if_splits)
    then show ?thesis using o(4) by metis
  qed
  have "owns_but (Some k) g' ls" using b others o own g'(5) by (auto simp: owns_but_def)
  then show ?thesis using g' others by auto
qed

lemma owns_replace:
  assumes "owns_but (Some k) g ls" "fits g l g'" "k < length ls"
  shows "owns g' (ls[k := l])" "\<And>i. i < length ls \<Longrightarrow> i \<noteq> k \<Longrightarrow> chans g' (ls ! i) = chans g (ls ! i)"
proof -
  have o: "below g" "\<And>i. i < length ls \<Longrightarrow> i \<noteq> k \<Longrightarrow> ok_light g (ls ! i) \<and> foot g (ls ! i) \<subseteq> {..<nextp g}"
      "\<And>i j. i < length ls \<Longrightarrow> j < length ls \<Longrightarrow> i \<noteq> k \<Longrightarrow> j \<noteq> k \<Longrightarrow> i \<noteq> j \<Longrightarrow> foot g (ls ! i) \<inter> foot g (ls ! j) = {}"
    using assms(1) by (auto simp: owns_but_def)
  have own: "\<exists>i < length ls. i \<noteq> k \<and> channels (ls ! i) = a" if "arr g a \<noteq> None \<or> (\<exists>i. (a, i) \<in> leds g)" for a
    using assms(1) that unfolding owns_but_def by (metis option.inject)
  have f: "ok_light g' l" "foot g' l \<subseteq> {nextp g..<nextp g'}" "agree {..<nextp g} g g'" "nextp g \<le> nextp g'" "below g'"
      "\<And>a i. (a, i) \<in> leds g' \<Longrightarrow> (a, i) \<in> leds g \<or> a = channels l" "\<And>a. arr g' a \<noteq> None \<Longrightarrow> arr g a \<noteq> None \<or> a = channels l"
    using assms(2) unfolding fits_def grown_def by blast+
  have a0: "arr g' 0 = arr g 0" using o(1) f(5) by (simp add: below_def)
  have nz: "\<forall>i. (0, i) \<notin> leds g'" using f(5) by (auto simp: below_def)
  have ag: "agree (foot g (ls ! i)) g g'" if "i < length ls" "i \<noteq> k" for i using f(3) o(2) [OF that] by (auto simp: agree_def)
  have others: "ok_light g' (ls ! i)" "foot g' (ls ! i) = foot g (ls ! i)" "chans g' (ls ! i) = chans g (ls ! i)" if "i < length ls" "i \<noteq> k" for i
    using ok_light_agree [OF _ ag [OF that] a0 nz] foot_agree [OF ag [OF that] a0] o(2) [OF that] by blast+
  show "i < length ls \<Longrightarrow> i \<noteq> k \<Longrightarrow> chans g' (ls ! i) = chans g (ls ! i)" for i by (rule others(3))
  let ?ls = "ls[k := l]"
  have el: "?ls ! i = (if i = k then l else ls ! i)" if "i < length ls" for i using that by simp
  have fl: "foot g' (ls ! i) \<subseteq> {..<nextp g}" if "i < length ls" "i \<noteq> k" for i using o(2) [OF that] others(2) [OF that] by simp
  have dis: "foot g' (?ls ! i) \<inter> foot g' (?ls ! j) = {}" if ij: "i < length ls" "j < length ls" "i \<noteq> j" for i j
  proof -
    have "foot g' l \<inter> foot g' (ls ! m) = {}" if "m < length ls" "m \<noteq> k" for m using fl [OF that] f(2) by fastforce
    then show ?thesis using ij el others(2) o(3) by (cases "i = k"; cases "j = k") auto
  qed
  have each: "ok_light g' (?ls ! i) \<and> foot g' (?ls ! i) \<subseteq> {..<nextp g'}" if "i < length ls" for i
    using that el f(1,2,4) others(1) fl [OF that] by (cases "i = k") auto
  have "\<exists>i < length ls. channels (?ls ! i) = a" if "arr g' a \<noteq> None \<or> (\<exists>i. (a, i) \<in> leds g')" for a
  proof (cases "a = channels l")
    case True
    then show ?thesis using assms(3) by auto
  next
    case False
    then have "arr g a \<noteq> None \<or> (\<exists>i. (a, i) \<in> leds g)" using that f(6,7) by blast
    then show ?thesis using own el by metis
  qed
  then show "owns g' (ls[k := l])" using f(5) each dis unfolding owns_but_def by (simp del: not_None_eq)
qed

section \<open>Memory in general\<close>

text \<open>Whatever the channels are: a block that was freed stays freed, and arrays of other lights are left alone.\<close>

definition keeps :: "gb_lights \<Rightarrow> gb_lights \<Rightarrow> bool" where
  "keeps g g' \<longleftrightarrow> arr g' = arr g \<and> lights g' = lights g \<and> lights_count g' = lights_count g \<and> nextp g \<le> nextp g' \<and> (\<forall>p < nextp g. heap g p = None \<longrightarrow> heap g' p = None)"

lemma keeps_refl: "keeps g g"
  by (simp add: keeps_def)

lemma keeps_trans: "keeps g g1 \<Longrightarrow> keeps g1 g2 \<Longrightarrow> keeps g g2"
  by (auto simp: keeps_def)

lemma keeps_allocs: "allocs g ps g' \<Longrightarrow> keeps g g'"
  by (auto simp: allocs_def keeps_def rest_def)

lemma keeps_kfree: "kfree p g = Some g' \<Longrightarrow> keeps g g'"
  by (auto simp: kfree_def keeps_def split: if_splits)

lemma keeps_brightness: "gb_lights_brightness_set g cs i = Some (r, g') \<Longrightarrow> keeps g g'"
  by (auto simp: gb_lights_brightness_set_def flash_brightness_set_def led_brightness_set_def flash_intensity_set_def gb_sync_def keeps_def Let_def
      split: if_splits bind_splits)

lemma keeps_flush_work: "flush_work a cs i g = Some g' \<Longrightarrow> keeps g g'"
  by (auto simp: flush_work_def keeps_def split: if_splits dest!: keeps_brightness)

lemma keeps_free: "gb_lights_channel_free a cs i g = Some g' \<Longrightarrow> keeps g g'"
  by (auto simp: gb_lights_channel_free_def split: bind_splits dest!: keeps_flush_work keeps_kfree) (meson keeps_trans)+

lemma keeps_kalloc: "kalloc b g = (p, g') \<Longrightarrow> keeps g g'"
  by (auto simp: kalloc_def kcall_def keeps_def Let_def split: if_splits)

lemma keeps_attach: "torch_attach a cs i t g = Some (r, cs', g') \<Longrightarrow> keeps g g'"
  by (auto simp: torch_attach_def Let_def keeps_refl split: if_splits bind_splits prod.splits dest!: keeps_kalloc keeps_kfree keeps_free) (meson keeps_trans)+

lemma keeps_led_register: "led_classdev_register a i c g = Some (r, g') \<Longrightarrow> keeps g g'"
  using led_classdev_register_effect(1) [of a i c g r g'] by (simp add: still_def keeps_def)

lemma keeps_register: "gb_lights_channel_register a cs i g = Some (r, cs', g') \<Longrightarrow> keeps g g'"
  by (auto simp: gb_lights_channel_register_def flash_led_register_def led_register_def Let_def keeps_refl
      split: if_splits bind_splits option.splits dest!: keeps_attach keeps_led_register) (meson keeps_trans)+

lemma keeps_register_channels: "register_channels a is cs g = Some (r, cs', g') \<Longrightarrow> keeps g g'"
proof (induction "is" arbitrary: cs g)
  case (Cons i "is")
  then show ?case by (auto split: bind_splits if_splits dest!: keeps_register) (meson keeps_trans)+
qed (simp add: keeps_refl)

lemma v4l2_register_count:
  "gb_lights_light_v4l2_register l cs g = Some (ret, l', g') \<Longrightarrow> channels_count l' = channels_count l"
  by (auto simp: gb_lights_light_v4l2_register_def Let_def split: if_splits bind_splits prod.splits)

lemma keeps_v4l2: "gb_lights_light_v4l2_register l cs g = Some (r, l', g') \<Longrightarrow> keeps g g'"
  by (auto simp: gb_lights_light_v4l2_register_def kalloc_def kcall_def kfree_def keeps_def Let_def split: if_splits bind_splits)

lemma keeps_finish:
  assumes "finish_config p n r cs l g = Some (ret, l', g')"
  shows "nextp g \<le> nextp g' \<and> (\<forall>q. q \<noteq> p \<longrightarrow> arr g' q = arr g q) \<and> (\<forall>q < nextp g. heap g q = None \<longrightarrow> heap g' q = None) \<and> channels l' = channels l \<and>
    lights g' = lights g \<and> lights_count g' = lights_count g"
proof (cases "r < 0")
  case True
  then show ?thesis using assms by (auto simp: finish_config_def)
next
  case False
  then obtain r2 cs2 g5 where r2: "register_channels p [0..<n] cs g = Some (r2, cs2, g5)"
    and fin: "(if r2 < 0 then Some (r2, l, g5\<lparr>arr := (arr g5)(p \<mapsto> cs2)\<rparr>) else if has_flash l then gb_lights_light_v4l2_register l cs2 (g5\<lparr>arr := (arr g5)(p \<mapsto> cs2)\<rparr>)
      else Some (0, l, g5\<lparr>arr := (arr g5)(p \<mapsto> cs2)\<rparr>)) = Some (ret, l', g')"
    using assms by (auto simp: finish_config_def Let_def split: bind_splits)
  have "keeps (g5\<lparr>arr := (arr g5)(p \<mapsto> cs2)\<rparr>) g'" "channels l' = channels l"
    using fin keeps_v4l2 v4l2_register_arr by (auto simp: keeps_refl split: if_splits)
  then show ?thesis using keeps_register_channels [OF r2] by (auto simp: keeps_def)
qed

lemma light_config_frame:
  assumes "gb_lights_light_config k l g = Some (ret, l', g')" "0 < nextp g"
  shows "nextp g \<le> nextp g'" "\<And>q. q < nextp g \<Longrightarrow> arr g' q = arr g q" "clean l \<Longrightarrow> channels l' < nextp g'" "0 < nextp g'"
    "lights g' = lights g" "lights_count g' = lights_count g"
proof -
  have "nextp g \<le> nextp g' \<and> (\<forall>q < nextp g. arr g' q = arr g q) \<and> (clean l \<longrightarrow> channels l' < nextp g') \<and>
      lights g' = lights g \<and> lights_count g' = lights_count g"
    using assms
  proof (cases rule: light_config_cases)
    case early
    then show ?thesis using assms(2) by (auto simp: allocs_def rest_def clean_def)
  next
    case (nomem n p1)
    then show ?thesis using assms(2) by (auto simp: allocs_def rest_def)
  next
    case (full n p1 p2 g2 g3 r1 cs1 l2 g4)
    have "0 < nextp g3" using full(2) by (simp add: array_at_def)
    note e = config_channels_effect [OF full(3) this]
    have "channels l2 = p2" using e by (metis gb_light.select_convs(4) gb_light.surjective gb_light.update_convs(4,5))
    moreover have "nextp g3 \<le> nextp g4" "arr g4 = arr g3" "lights g4 = lights g3" "lights_count g4 = lights_count g3" using e by (auto simp: allocs_def rest_def)
    moreover have "nextp g \<le> nextp g2" "arr g2 = arr g" "lights g2 = lights g" "lights_count g2 = lights_count g" using full(1) by (auto simp: allocs_def rest_def)
    ultimately show ?thesis using keeps_finish [OF full(4)] full(2) by (auto simp: array_at_def)
  qed
  then show "nextp g \<le> nextp g'" "\<And>q. q < nextp g \<Longrightarrow> arr g' q = arr g q" "clean l \<Longrightarrow> channels l' < nextp g'" "0 < nextp g'"
      "lights g' = lights g" "lights_count g' = lights_count g"
    using assms(2) by auto
qed

section \<open>Setting up a connection\<close>

lemma put_light_simps [simp]:
  "nextp (put_light k l g) = nextp g" "arr (put_light k l g) = arr g" "heap (put_light k l g) = heap g" "leds (put_light k l g) = leds g"
  "works (put_light k l g) = works g" "subdevs (put_light k l g) = subdevs g" "lights_count (put_light k l g) = lights_count g"
  "lights (put_light k l g) = map_option (\<lambda>ls. ls[k := l]) (lights g)"
  by (simp_all add: put_light_def)

lemma put_light_cong [simp]:
  "chans (put_light k l g) m = chans g m" "foot (put_light k l g) m = foot g m" "ok_light (put_light k l g) m = ok_light g m"
  "owns_but x (put_light k l g) ls = owns_but x g ls" "below (put_light k l g) = below g" "live_light (put_light k l g) j m = live_light g j m"
  by (simp_all add: chans_def foot_def light_blocks_def ok_light_def freeable_def ok_chans_def owns_but_def below_def live_light_def)

lemma config_lights_frame:
  assumes "config_lights ks g = Some (ret, g')" "lights g = Some ls" "0 < nextp g"
  shows "\<exists>ls'. lights g' = Some ls' \<and> length ls' = length ls \<and> (\<forall>j. j \<notin> set ks \<longrightarrow> ls' ! j = ls ! j) \<and> (\<forall>q < nextp g. arr g' q = arr g q) \<and>
    lights_count g' = lights_count g"
  using assms
proof (induction ks arbitrary: g ls)
  case (Cons k ks)
  obtain r l g1 where c: "gb_lights_light_config k (ls ! k) g = Some (r, l, g1)" using Cons.prems(1,2) by (auto split: bind_splits)
  note f = light_config_frame [OF c Cons.prems(3)]
  have l2: "lights (put_light k l g1) = Some (ls[k := l])" using f(5) Cons.prems(2) by simp
  show ?case
  proof (cases "r < 0")
    case True
    then have "g' = put_light k l g1" using Cons.prems(1,2) c by simp
    then show ?thesis using l2 f by auto
  next
    case False
    then have "config_lights ks (put_light k l g1) = Some (ret, g')" using Cons.prems(1,2) c by simp
    from Cons.IH [OF this l2] show ?thesis using f by auto
  qed
qed simp

text \<open>No channel has the flash mode, and no light was left with a count of channels that do not exist.\<close>

definition no_flash :: "gb_lights \<Rightarrow> gb_light \<Rightarrow> bool" where
  "no_flash g l \<longleftrightarrow> (\<forall>c \<in> set (chans g l). mode c AND 0x100 = 0) \<and> (channels l = 0 \<longrightarrow> channels_count l \<le> 1)"

lemma config_lights_owns:
  assumes "config_lights ks g = Some (ret, g')" "lights g = Some ls" "owns g ls" "distinct ks" "\<forall>k \<in> set ks. k < length ls \<and> clean (ls ! k)"
    and "lights g' = Some ls'" "\<forall>l \<in> set ls'. no_flash g' l"
  shows "owns g' ls' \<and> agree {..<nextp g} g g' \<and> works g' = works g \<and> (0 \<le> ret \<longrightarrow> (\<forall>k \<in> set ks. live_light g' k (ls' ! k)))"
  using assms(1-5)
proof (induction ks arbitrary: g ls)
  case Nil
  then show ?case using assms(6) by (simp add: agree_def)
next
  case (Cons k ks)
  have pos: "0 < nextp g" using Cons.prems(3) by (simp add: owns_but_def below_def)
  have k: "k < length ls" "clean (ls ! k)" "k \<notin> set ks" "distinct ks" using Cons.prems(4,5) by auto
  obtain r l g1 where c: "gb_lights_light_config k (ls ! k) g = Some (r, l, g1)" using Cons.prems(1,2) by (auto split: bind_splits)
  note f = light_config_frame [OF c pos]
  let ?g2 = "put_light k l g1" and ?ls = "ls[k := l]"
  have l2: "lights ?g2 = Some ?ls" using f(5) Cons.prems(2) by simp
  have rest: "if r < 0 then ret = r \<and> g' = ?g2 else config_lights ks ?g2 = Some (ret, g')" using Cons.prems(1,2) c by auto
  have end': "ls' ! k = l" "length ls' = length ls" "\<forall>q < nextp g1. arr g' q = arr g1 q"
  proof -
    show "ls' ! k = l" "length ls' = length ls" "\<forall>q < nextp g1. arr g' q = arr g1 q"
      using rest l2 assms(6) config_lights_frame [of ks ?g2 ret g' ?ls] k f(4) by (auto split: if_splits)
  qed
  have "chans g' l = chans g1 l" using end'(3) f(3) [OF k(2)] by (simp add: chans_def)
  moreover have "no_flash g' l" using assms(7) end' k(1) by (metis nth_mem)
  ultimately have nf: "\<forall>c \<in> set (chans g1 l). mode c AND 0x100 = 0" "channels l = 0 \<longrightarrow> channels_count l \<le> 1" by (simp_all add: no_flash_def)
  have b: "below g" using Cons.prems(3) by (simp add: owns_but_def)
  have fit: "fits g l g1" "0 \<le> r \<longrightarrow> live_light g1 k l" using light_config_effect [OF c b nf(1)] k(2) nf(2) by auto
  have o: "owns ?g2 ?ls" using owns_replace(1) [OF owns_clean [OF Cons.prems(3) k(1,2)] fit(1) k(1)] by simp
  show ?case
  proof (cases "r < 0")
    case True
    then show ?thesis using rest o l2 assms(6) fit(1) by (auto simp: fits_def grown_def agree_def)
  next
    case False
    then have run: "config_lights ks ?g2 = Some (ret, g')" using rest by simp
    have cl: "\<forall>j \<in> set ks. j < length ?ls \<and> clean (?ls ! j)" using Cons.prems(5) k(3) by (auto simp: nth_list_update)
    note ih = Cons.IH [OF run l2 o k(4) cl]
    have "live_light g' k l" using fit(2) False ih f(3) [OF k(2)] \<open>chans g' l = chans g1 l\<close> by (auto simp: live_light_def agree_def)
    moreover have "agree {..<nextp g} g ?g2" "agree {..<nextp g1} ?g2 g'" using fit(1) ih by (simp_all add: fits_def grown_def agree_def)
    then have "agree {..<nextp g} g g'" by (rule agree_trans) (use f(1) in auto)
    ultimately show ?thesis using ih end' fit(1) by (auto simp: fits_def grown_def)
  qed
qed

section \<open>Flash LEDs\<close>

lemma free_dead:
  assumes "color_name (cs ! i) = p" "p \<noteq> 0" "p < nextp g" "heap g p = None"
  shows "gb_lights_channel_free a cs i g = None"
proof (rule ccontr)
  assume "gb_lights_channel_free a cs i g \<noteq> None"
  then obtain g1 g2 g3 g4 where c: "flush_work a cs i g = Some g1" "kfree (attrs (cs ! i)) g1 = Some g2" "kfree (attr_group (cs ! i)) g2 = Some g3"
      "kfree (attr_groups (cs ! i)) g3 = Some g4" "kfree p g4 \<noteq> None"
    using assms(1) by (auto simp: gb_lights_channel_free_def split: bind_splits)
  have "keeps g g4" using keeps_flush_work [OF c(1)] c(2-4) [THEN keeps_kfree] by (meson keeps_trans)
  then show False using assms(2-4) c(5) by (simp add: keeps_def kfree_def)
qed

lemma freed_dead:
  assumes "gb_lights_channel_free a cs i g = Some g'" "color_name (cs ! i) \<noteq> 0"
  shows "heap g' (color_name (cs ! i)) = None"
  using assms by (auto simp: gb_lights_channel_free_def kfree_def split: bind_splits if_splits)

lemma get_channel_from_mode_some: "cs \<noteq> [] \<Longrightarrow> \<exists>t. get_channel_from_mode cs m = Some t \<and> t < length cs"
  by (induction cs m rule: get_channel_from_mode.induct) auto

text \<open>Registering a flash LED frees the names of some channel.\<close>

definition dead :: "gb_channel list \<Rightarrow> gb_lights \<Rightarrow> bool" where
  "dead cs g \<longleftrightarrow> (\<exists>t < length cs. color_name (cs ! t) \<noteq> 0 \<and> color_name (cs ! t) < nextp g \<and> heap g (color_name (cs ! t)) = None)"

lemma dead_keeps: "dead cs g \<Longrightarrow> keeps g g' \<Longrightarrow> labels cs' = labels cs \<Longrightarrow> dead cs' g'"
  unfolding dead_def keeps_def by (metis labels_length labels_nth order_less_le_trans)

lemma attach_dead:
  assumes "torch_attach a cs i t g = Some (r, cs', g')" "0 \<le> r" "mode (cs ! i) AND 0x100 \<noteq> 0" "t < length cs"
    "color_name (cs ! t) \<noteq> 0" "color_name (cs ! t) < nextp g"
  shows "dead cs' g'"
proof -
  obtain cs2 g2 k x where f: "gb_lights_channel_free a cs2 t g2 = Some g'" "cs' = cs2[t := x]" "color_name x = color_name (cs2 ! t)" "labels cs2 = labels cs"
    using assms(1-3) by (auto simp: torch_attach_def Let_def labels_upd simp del: list_update_overwrite split: if_splits bind_splits prod.splits)
  have c: "color_name (cs2 ! t) = color_name (cs ! t)" "length cs2 = length cs" using labels_nth [OF f(4) assms(4)] labels_length [OF f(4)] by simp_all
  have "nextp g \<le> nextp g'" using keeps_attach [OF assms(1)] by (simp add: keeps_def)
  then show ?thesis using freed_dead [OF f(1)] f(2,3) c assms(4-6) unfolding dead_def by (intro exI [of _ t]) auto
qed

lemma flash_bits: "m AND 0x100 \<noteq> 0 \<Longrightarrow> m AND (0x100 OR 0x200 OR 0x400) \<noteq> 0" for m :: u32
proof -
  assume "m AND 0x100 \<noteq> 0"
  moreover have "m AND 0x100 = (m AND 0x700) AND 0x100" by (simp add: and.assoc)
  ultimately show ?thesis by auto
qed

lemma flash_register_dead:
  assumes "gb_lights_channel_register a cs i g = Some (r, cs', g')" "0 \<le> r" "mode (cs ! i) AND 0x100 \<noteq> 0" "mode (cs ! i) AND 0x200 = 0"
    "i < length cs" "\<forall>c \<in> set cs. color_name c \<noteq> 0 \<and> color_name c < nextp g"
  shows "dead cs' g'"
proof -
  have fl: "is_channel_flash (cs ! i)" using flash_bits [OF assms(3)] by (simp add: is_channel_flash_def)
  have u: "flash_led_register a cs i g = Some (r, cs', g')" using assms(1,4) fl by (simp add: gb_lights_channel_register_def)
  define x where "x = (cs ! i)\<lparr>cap_flash := True, fled_brightness := setting_of (intensity_uA (cs ! i)) (fled_brightness (cs ! i)),
    fled_timeout := setting_of (timeout_us (cs ! i)) (fled_timeout (cs ! i))\<rparr>"
  let ?cs = "cs[i := x]"
  have lab: "labels ?cs = labels cs" by (rule labels_upd) (simp add: x_def)
  obtain t where t: "get_channel_from_mode ?cs 0x200 = Some t" "t < length cs"
    using get_channel_from_mode_some [of ?cs "0x200"] assms(5) by (cases "cs = []") auto
  obtain r1 cs1 g1 where a: "torch_attach a ?cs i t g = Some (r1, cs1, g1)" and r1: "0 \<le> r1"
    and lr: "\<exists>r2. led_classdev_register a i (cs1 ! i) g1 = Some (r2, g')" and cs': "labels cs' = labels cs1"
    using u assms(2,3) t(1) by (auto simp: flash_led_register_def Let_def x_def [symmetric] labels_upd split: bind_splits if_splits)
  have "color_name (?cs ! t) = color_name (cs ! t)" "mode (?cs ! i) = mode (cs ! i)" using labels_nth [OF lab t(2)] assms(5) by (simp_all add: x_def)
  then have "dead cs1 g1" using attach_dead [OF a r1] assms(3,6) t(2) by simp
  then show ?thesis using dead_keeps [OF _ _ cs'] keeps_led_register lr by blast
qed

lemma register_channels_dead:
  assumes "register_channels a is cs g = Some (r, cs', g')" "0 \<le> r"
    "dead cs g \<or> (\<forall>c \<in> set cs. color_name c \<noteq> 0 \<and> color_name c < nextp g) \<and> (\<exists>i \<in> set is. i < length cs \<and> mode (cs ! i) AND 0x100 \<noteq> 0 \<and> mode (cs ! i) AND 0x200 = 0)"
  shows "dead cs' g'"
  using assms
proof (induction "is" arbitrary: cs g)
  case (Cons j "is")
  obtain r1 cs1 g1 where c: "gb_lights_channel_register a cs j g = Some (r1, cs1, g1)" using Cons.prems(1) by (auto split: bind_splits)
  then have rest: "register_channels a is cs1 g1 = Some (r, cs', g')" "0 \<le> r1" using Cons.prems(1,2) by (auto split: if_splits)
  note lab = channel_register_labels [OF c] and kp = keeps_register [OF c]
  have names: "\<forall>c \<in> set cs1. color_name c \<noteq> 0 \<and> color_name c < nextp g1" if "\<forall>c \<in> set cs. color_name c \<noteq> 0 \<and> color_name c < nextp g"
    using that labels_nth [OF lab] labels_length [OF lab] kp unfolding keeps_def by (metis in_set_conv_nth order_less_le_trans)
  have "dead cs1 g1 \<or> (\<forall>c \<in> set cs1. color_name c \<noteq> 0 \<and> color_name c < nextp g1) \<and>
      (\<exists>i \<in> set is. i < length cs1 \<and> mode (cs1 ! i) AND 0x100 \<noteq> 0 \<and> mode (cs1 ! i) AND 0x200 = 0)"
    using Cons.prems(3) names dead_keeps [OF _ kp lab] flash_register_dead [OF c rest(2)] labels_nth [OF lab] labels_length [OF lab] by fastforce
  then show ?case using Cons.IH [OF rest(1) Cons.prems(2)] by blast
qed simp

lemma release_dead:
  assumes "arr g a = Some cs" "a \<noteq> 0" "\<forall>i \<in> set is. i < length cs" "t \<in> set is" "color_name (cs ! t) \<noteq> 0"
    "color_name (cs ! t) < nextp g" "heap g (color_name (cs ! t)) = None"
  shows "release_channels a is g = None"
  using assms(1,3-7)
proof (induction "is" arbitrary: g cs)
    case (Cons i "is")
    obtain c1 g1 where u: "gb_lights_channel_unregister a i ((cs ! i)\<lparr>releasing := True\<rparr>) g = (c1, g1)" by (metis surj_pair)
    let ?cs = "cs[i := c1]" and ?g = "g1\<lparr>arr := (arr g1)(a \<mapsto> cs[i := c1])\<rparr>"
    have g1: "arr g1 = arr g" "heap g1 = heap g" "nextp g1 = nextp g" "color_name c1 = color_name (cs ! i)"
      using u by (auto simp: gb_lights_channel_unregister_def Let_def split: if_splits)
    have r: "gb_lights_channel_release a i g = gb_lights_channel_free a ?cs i ?g"
      using Cons.prems(1,2) u g1 assms(2) by (simp add: gb_lights_channel_release_def get_ch_def put_ch_def)
    have col: "color_name (?cs ! t) = color_name (cs ! t)" using g1(4) by (cases "i = t"; cases "i < length cs") (auto simp: list_update_beyond)
    show ?case
    proof (cases "gb_lights_channel_release a i g")
      case (Some g2)
      then have k: "keeps ?g g2" using r keeps_free by simp
      have "i \<noteq> t" using Some r free_dead [of ?cs i "color_name (cs ! t)" ?g a] col g1 Cons.prems by auto
      then have "release_channels a is g2 = None"
        using Cons.IH [of g2 ?cs] k col g1 Cons.prems by (simp add: keeps_def)
      then show ?thesis using Some by simp
    qed simp
qed simp

text \<open>After a successful configuration with a flash LED, a name of a channel is gone.\<close>

lemma flash_config_dead:
  assumes "gb_lights_light_config k l g = Some (ret, l', g')" "0 \<le> ret" "0 < nextp g"
    and "\<exists>c \<in> set (chans g' l'). mode c AND 0x100 \<noteq> 0 \<and> mode c AND 0x200 = 0"
  shows "\<exists>cs. arr g' (channels l') = Some cs \<and> channels l' \<noteq> 0 \<and> length cs = unat (channels_count l') \<and> dead cs g'"
proof -
  from assms(1,3) obtain n p1 p2 g2 g3 r1 cs1 l2 g4 where a: "allocs g [p1] g2" and b: "array_at g2 p2 (replicate (unat n) blank_channel) g3"
    and c: "config_channels k 0 (l\<lparr>l_id := of_nat k, channels_count := n, l_name := p1, channels := p2\<rparr>) (replicate (unat n) blank_channel) g3 = Some (r1, cs1, l2, g4)"
    and d: "finish_config p2 (unat n) r1 cs1 l2 g4 = Some (ret, l', g')"
    using assms(2) by (cases rule: light_config_cases) auto
  have "0 < nextp g3" using b by (simp add: array_at_def)
  note e = config_channels_effect [OF c this]
  have p2: "0 < p2" using b a assms(3) by (simp add: array_at_def allocs_def)
  have r1: "0 \<le> r1" using d assms(2) by (auto simp: finish_config_def split: if_splits)
  then obtain r2 cs2 g5 where r2: "register_channels p2 [0..<unat n] cs1 g4 = Some (r2, cs2, g5)" "0 \<le> r2"
    and fin: "(if has_flash l2 then gb_lights_light_v4l2_register l2 cs2 (g5\<lparr>arr := (arr g5)(p2 \<mapsto> cs2)\<rparr>) else Some (0, l2, g5\<lparr>arr := (arr g5)(p2 \<mapsto> cs2)\<rparr>)) = Some (ret, l', g')"
    using d assms(2) by (auto simp: finish_config_def Let_def split: bind_splits if_splits)
  have k: "keeps (g5\<lparr>arr := (arr g5)(p2 \<mapsto> cs2)\<rparr>) g'" using fin keeps_v4l2 by (auto simp: keeps_refl split: if_splits)
  have ch: "channels l2 = p2" "channels_count l2 = n" using e by (metis gb_light.select_convs gb_light.surjective gb_light.update_convs)+
  have l': "channels l' = p2" "channels_count l' = n" using fin ch v4l2_register_count by (auto split: if_splits dest!: v4l2_register_arr)
  have arr: "arr g' p2 = Some cs2" using k by (simp add: keeps_def)
  have lab: "labels cs2 = labels cs1" by (rule register_channels_labels [OF r2(1)])
  have len: "length cs2 = unat n" "length cs1 = unat n" using labels_length [OF lab] e by auto
  have "\<exists>i \<in> set [0..<unat n]. i < length cs1 \<and> mode (cs1 ! i) AND 0x100 \<noteq> 0 \<and> mode (cs1 ! i) AND 0x200 = 0"
    using assms(4) arr l'(1) len labels_nth [OF lab] by (fastforce simp: chans_def in_set_conv_nth)
  moreover have "color_name c \<noteq> 0" if "c \<in> set cs1" for c using e r1 that by (auto simp: configured_def in_set_conv_nth)
  then have "\<forall>c \<in> set cs1. color_name c \<noteq> 0 \<and> color_name c < nextp g4" using e by (auto simp: allocs_def all_blocks_def blocks_def)
  ultimately have "dead cs2 g5" using register_channels_dead [OF r2] by blast
  then have "dead cs2 g'" using k unfolding dead_def keeps_def by fastforce
  then show ?thesis using arr l' p2 len by auto
qed

text \<open>
  C25 A light with a flash LED cannot be given back: when its configuration has succeeded and one of its channels has the flash mode (and not the torch
  mode), releasing it frees a block that registering the LED has already freed, whatever the other channels are, so that unplugging the module,
  or a configuration event, corrupts memory.
\<close>

theorem lights_flash_double_free:
  assumes "gb_lights_light_config k l g = Some (ret, l', g')" "0 \<le> ret" "0 < nextp g"
    and "\<exists>c \<in> set (chans g' l'). mode c AND GB_CHANNEL_MODE_FLASH \<noteq> 0 \<and> mode c AND GB_CHANNEL_MODE_TORCH = 0"
  shows "gb_lights_light_release l' g' = None"
proof -
  obtain cs where cs: "arr g' (channels l') = Some cs" "channels l' \<noteq> 0" "length cs = unat (channels_count l')" "dead cs g'"
    using flash_config_dead [OF assms] by blast
  then obtain t where t: "t < length cs" "color_name (cs ! t) \<noteq> 0" "color_name (cs ! t) < nextp g'" "heap g' (color_name (cs ! t)) = None"
    by (auto simp: dead_def)
  have "release_channels (channels l') [0..<unat (channels_count l')] g1 = None" if "arr g1 = arr g'" "heap g1 = heap g'" "nextp g1 = nextp g'" for g1
    using release_dead [of g1 "channels l'" cs "[0..<length cs]" t] that cs t by simp
  then show ?thesis by (auto simp: gb_lights_light_release_def gb_lights_light_v4l2_unregister_def split: bind_splits if_splits option.splits)
qed

text \<open>
  A module with one light that has one channel of a given mode and flags: its answers, with those of the kernel in between. The name of the light and those of the
  channel are one letter long.
\<close>

definition name32 :: "u8 \<Rightarrow> bytes" where
  "name32 c = c # replicate 31 0"

definition demo_env :: "u32 \<Rightarrow> u32 \<Rightarrow> class_env" where
  "demo_env m f = \<lparr>replies = (\<lambda>n. if n = 0 then (0, 1 # name32 108)
     else if n = 3 then (0, [10] @ cpu_to_le32 f @ cpu_to_le32 0 @ name32 114 @ cpu_to_le32 m @ name32 109)
     else if n = 7 then (0, cpu_to_le32 100 @ cpu_to_le32 1000 @ cpu_to_le32 100 @ cpu_to_le32 0 @ cpu_to_le32 10 @ cpu_to_le32 1)
     else (0, [])), ncalls = 0, sent = []\<rparr>"

lemma demo_flash:
  "case gb_lights_light_config 0 blank_light (new_lights (demo_env 0x100 0)) of None \<Rightarrow> False
   | Some (ret, l, g) \<Rightarrow> 0 \<le> ret \<and> (\<exists>c \<in> set (chans g l). mode c AND 0x100 \<noteq> 0 \<and> mode c AND 0x200 = 0)"
  by code_simp

theorem lights_flash_double_free_witness:
  "\<exists>ret l g. gb_lights_light_config 0 blank_light (new_lights (demo_env 0x100 0)) = Some (ret, l, g) \<and> gb_lights_light_release l g = None"
proof -
  obtain ret l g where c: "gb_lights_light_config 0 blank_light (new_lights (demo_env 0x100 0)) = Some (ret, l, g)" "0 \<le> ret"
      "\<exists>c \<in> set (chans g l). mode c AND 0x100 \<noteq> 0 \<and> mode c AND 0x200 = 0"
    using demo_flash by (auto split: option.splits)
  have "0 < nextp (new_lights (demo_env 0x100 0))" by (simp add: new_lights_def demo_env_def class_env.defs)
  then show ?thesis using lights_flash_double_free [OF c(1,2) _ c(3)] c(1) by blast
qed

section \<open>Events\<close>

lemma incoming_event:
  "\<not> payload_size (request (incoming ty [lid, ev])) < 2" "rd8 (buffer (request (incoming ty [lid, ev]))) HDR_SIZE = Some lid"
  "rd8 (buffer (request (incoming ty [lid, ev]))) (HDR_SIZE + 1) = Some ev"
  by (simp_all add: incoming_def rd8_def cpu_to_le16_def)

text \<open>The effect of a configuration event once it has been checked.\<close>

definition reconfigure :: "gb_lights \<Rightarrow> nat \<Rightarrow> (int \<times> gb_lights) option" where
  "reconfigure g k = do {
     ls \<leftarrow> lights g;
     (l1, g1) \<leftarrow> gb_lights_light_release (ls ! k) g;
     (ret, l2, g2) \<leftarrow> gb_lights_light_config k l1 g1;
     if ret < 0 then do { (l3, g3) \<leftarrow> gb_lights_light_release l2 g2; Some (ret, put_light k l3 g3) }
     else Some (ret, put_light k l2 g2)
   }"

lemma event_recv_incoming:
  "gb_lights_event_recv g 0x0A (incoming 0x0A [lid, ev]) =
     (if lights_count g \<le> lid then Some (- EINVAL, g) else if ev AND 1 = 0 then Some (0, g) else reconfigure g (unat lid))"
  unfolding gb_lights_event_recv_def incoming_event bind.bind_lunit reconfigure_def Let_def using incoming_event(1) [of "0x0A" lid ev] by simp

text \<open>
  C26 A module that announces a new configuration of a light and then refuses to tell it makes the driver free the channels of the light twice.
\<close>

theorem lights_refused_reconfig_faults:
  assumes "lights g = Some ls" "unat lid < length ls" "lid < lights_count g" "ok_light g (ls ! unat lid)" "channels (ls ! unat lid) \<noteq> 0"
    and "ev AND 1 \<noteq> 0" "fst (replies g (ncalls g)) < 0"
  shows "gb_lights_event_recv g 0x0A (incoming 0x0A [lid, ev]) = None"
proof -
  let ?l = "ls ! unat lid" and ?k = "unat lid"
  obtain g1 where g1: "gb_lights_light_release ?l g = Some (?l\<lparr>channels_count := 0\<rparr>, g1)"
      "arr g1 = (arr g)(channels ?l := None)" "ncalls g1 = ncalls g" "replies g1 = replies g"
    using light_release_effect [OF assms(4)] assms(5) by auto
  obtain ret conf g2 where s: "gb_sync 0x03 [of_nat ?k] 33 g1 = ((ret, conf), g2)" by (metis surj_pair)
  then have r: "ret < 0" "arr g2 = arr g1" using assms(7) g1(3,4) by (auto simp: gb_sync_def Let_def)
  let ?l2 = "?l\<lparr>channels_count := 0, l_id := of_nat ?k\<rparr>"
  have c: "gb_lights_light_config ?k (?l\<lparr>channels_count := 0\<rparr>) g1 = Some (ret, ?l2, g2)"
    using s r(1) by (simp add: gb_lights_light_config_def)
  have "gb_lights_light_release ?l2 g2 = None"
    using r(2) g1(2) assms(5) by (auto simp: gb_lights_light_release_def gb_lights_light_v4l2_unregister_def kfree_channels_def split: bind_splits option.splits)
  then have "reconfigure g ?k = None" using assms(1) g1(1) c r(1) by (simp add: reconfigure_def)
  then show ?thesis using assms(3,6) by (simp add: event_recv_incoming not_le)
qed

section \<open>Runs without flash LEDs\<close>

lemma owns_tl: "owns_but (Some 0) g (l # ls) \<Longrightarrow> owns g ls"
proof -
  assume o: "owns_but (Some 0) g (l # ls)"
  have o1: "\<forall>i < Suc (length ls). i \<noteq> 0 \<longrightarrow> ok_light g ((l # ls) ! i) \<and> foot g ((l # ls) ! i) \<subseteq> {..<nextp g}"
    "\<forall>i < Suc (length ls). \<forall>j < Suc (length ls). i \<noteq> 0 \<and> j \<noteq> 0 \<and> i \<noteq> j \<longrightarrow> foot g ((l # ls) ! i) \<inter> foot g ((l # ls) ! j) = {}"
    using o by (simp_all add: owns_but_def)
  have each: "ok_light g (ls ! i) \<and> foot g (ls ! i) \<subseteq> {..<nextp g}" if "i < length ls" for i
    using o1(1) [THEN spec, of "Suc i"] that by simp
  have dis: "foot g (ls ! i) \<inter> foot g (ls ! j) = {}" if "i < length ls" "j < length ls" "i \<noteq> j" for i j
    using o1(2) [THEN spec, THEN mp, THEN spec, of "Suc i" "Suc j"] that by simp
  have own: "\<exists>i < length ls. channels (ls ! i) = a" if a: "arr g a \<noteq> None \<or> (\<exists>i. (a, i) \<in> leds g)" for a
  proof -
    obtain i where "i < length (l # ls)" "Some i \<noteq> Some 0" "channels ((l # ls) ! i) = a" using o a unfolding owns_but_def by blast
    then show ?thesis by (cases i) auto
  qed
  have "below g" using o by (simp add: owns_but_def)
  then show ?thesis unfolding owns_but_def using each dis own by (simp del: not_None_eq)
qed

lemma release_lights_owns: "owns g ls \<Longrightarrow> \<exists>g'. release_lights ls g = Some g' \<and> leds g' = {} \<and> (\<forall>a. arr g' a = None) \<and> sent g' = sent g"
proof (induction ls arbitrary: g)
  case Nil
  then have "arr g a = None" "(a, i) \<notin> leds g" for a i by (fastforce simp: owns_but_def)+
  then show ?case by auto
next
  case (Cons l ls)
  obtain g1 where g1: "gb_lights_light_release l g = Some (l\<lparr>channels_count := 0\<rparr>, g1)" "owns_but (Some 0) g1 (l # ls)" "sent g1 = sent g"
    using owns_release [OF Cons.prems, of 0] by auto
  show ?case using Cons.IH [OF owns_tl [OF g1(2)]] g1(1,3) by auto
qed

definition lights_ok :: "gb_lights \<Rightarrow> bool" where
  "lights_ok g \<longleftrightarrow> (case lights g of None \<Rightarrow> False
     | Some ls \<Rightarrow> length ls = unat (lights_count g) \<and> owns g ls \<and> (\<forall>k < length ls. live_light g k (ls ! k)) \<and> works g \<subseteq> leds g)"

text \<open>What the callbacks may change.\<close>

definition similar :: "gb_channel \<Rightarrow> gb_channel \<Rightarrow> bool" where
  "similar c c' \<longleftrightarrow> same_channel c c' \<and> is_registered c' = is_registered c \<and> led c' = led c"

definition alike :: "gb_lights \<Rightarrow> gb_lights \<Rightarrow> bool" where
  "alike g g' \<longleftrightarrow> heap g' = heap g \<and> leds g' = leds g \<and> nextp g' = nextp g \<and> subdevs g' = subdevs g \<and> lights g' = lights g \<and>
     lights_count g' = lights_count g \<and> works g' \<subseteq> leds g \<and> (\<forall>a. rel_option (list_all2 similar) (arr g a) (arr g' a))"

lemma similar_refl: "similar c c"
  by (simp add: similar_def same_channel_def)

lemma similar_list_refl: "list_all2 similar cs cs"
  by (simp add: list.rel_refl similar_refl)

lemma similar_arr_refl: "rel_option (list_all2 similar) x x"
  by (simp add: option.rel_refl similar_list_refl)

lemma alike_chans:
  assumes "alike g g'"
  shows "list_all2 similar (chans g l) (chans g' l)" "arr g' a = None \<longleftrightarrow> arr g a = None"
proof -
  have r: "rel_option (list_all2 similar) (arr g a) (arr g' a)" for a using assms by (simp add: alike_def)
  show "arr g' a = None \<longleftrightarrow> arr g a = None" using r [of a] by (metis option.rel_distinct(1,2) option.exhaust)
  show "list_all2 similar (chans g l) (chans g' l)" using r [of "channels l"] by (auto simp: chans_def elim!: option.rel_cases)
qed

lemma alike_blocks:
  assumes "alike g g'"
  shows "light_blocks g' l = light_blocks g l" "foot g' l = foot g l"
proof -
  have l: "list_all2 similar (chans g l) (chans g' l)" by (rule alike_chans(1) [OF assms])
  have "map blocks (chans g' l) = map blocks (chans g l)"
    using list_all2_lengthD [OF l] list_all2_nthD [OF l] by (intro nth_equalityI) (auto simp: similar_def same_channel_def all_blocks_def)
  then show "light_blocks g' l = light_blocks g l" by (simp add: light_blocks_def)
  then show "foot g' l = foot g l" by (simp add: foot_def)
qed

lemma alike_ok_light: "alike g g' \<Longrightarrow> ok_light g l \<Longrightarrow> ok_light g' l"
proof -
  assume a: "alike g g'" and o: "ok_light g l"
  note l = alike_chans(1) [OF a, of l] and n = alike_chans(2) [OF a]
  have "i < length (chans g l) \<Longrightarrow> is_registered (chans g' l ! i) = is_registered (chans g l ! i)" for i
    using list_all2_nthD [OF l] by (auto simp: similar_def)
  moreover have "leds g' = leds g" "heap g' = heap g" "subdevs g' = subdevs g" using a by (simp_all add: alike_def)
  ultimately show ?thesis using o alike_blocks(1) [OF a] list_all2_lengthD [OF l] n
    unfolding ok_light_def ok_chans_def freeable_def by (simp del: not_None_eq split: if_splits)
qed

lemma alike_trans: "alike g g1 \<Longrightarrow> alike g1 g2 \<Longrightarrow> alike g g2"
proof -
  assume a: "alike g g1" "alike g1 g2"
  have "similar x z" if "similar x y" "similar y z" for x y z using that by (simp add: similar_def same_channel_def)
  then have "rel_option (list_all2 similar) (arr g p) (arr g2 p)" for p
    using a unfolding alike_def by (metis (no_types, lifting) list.rel_transp option.rel_transp transpD transpI)
  then show ?thesis using a by (simp add: alike_def)
qed

lemma lights_ok_alike:
  assumes "lights_ok g" "alike g g'"
  shows "lights_ok g'"
proof -
  have e: "leds g' = leds g" "nextp g' = nextp g" "lights g' = lights g" "lights_count g' = lights_count g" "works g' \<subseteq> leds g'" using assms(2) by (auto simp: alike_def)
  obtain ls where ls: "lights g = Some ls" "length ls = unat (lights_count g)" "owns g ls" "\<forall>k < length ls. live_light g k (ls ! k)"
    using assms(1) by (auto simp: lights_ok_def split: option.splits)
  note n = alike_chans(2) [OF assms(2)] and b = alike_blocks(2) [OF assms(2)] and okl = alike_ok_light [OF assms(2)]
  have bl: "below g'" using ls(3) e(1,2) n by (simp add: owns_but_def below_def)
  have "owns g' ls" using ls(3) e(1,2) n b okl bl unfolding owns_but_def by (simp del: not_None_eq)
  moreover have "live_light g' k l" if "live_light g k l" for k l
    using that e(1) list_all2_lengthD [OF alike_chans(1) [OF assms(2), of l]] list_all2_nthD [OF alike_chans(1) [OF assms(2), of l]]
    by (auto simp: live_light_def similar_def same_channel_def configured_def all_blocks_def blocks_def torch_def)
  ultimately show ?thesis using ls e by (simp add: lights_ok_def)
qed

text \<open>The channels of a registered LED.\<close>

lemma registered_channel:
  assumes "lights_ok g" "(a, i) \<in> leds g"
  obtains cs k where "arr g a = Some cs" "i < length cs"
    "\<And>j. j < length cs \<Longrightarrow> led (cs ! j) = Some j \<and> light_id_of g (cs ! j) = Some (of_nat k) \<and> \<not> releasing (cs ! j)"
proof -
  obtain ls where ls: "lights g = Some ls" "owns g ls" "\<forall>k < length ls. live_light g k (ls ! k)"
    using assms(1) by (auto simp: lights_ok_def split: option.splits)
  obtain k where k: "k < length ls" "channels (ls ! k) = a" using ls(2) assms(2) unfolding owns_but_def by blast
  have live: "live_light g k (ls ! k)" using ls(3) k(1) by simp
  then have "a \<noteq> 0" using k(2) by (simp add: live_light_def)
  then have cs: "arr g a = Some (chans g (ls ! k))" "length (chans g (ls ! k)) = unat (channels_count (ls ! k))" "i < length (chans g (ls ! k))"
    using owns_ok [OF ls(2) k(1)] k(2) assms(2) by (auto simp: ok_light_def ok_chans_def chans_def)
  have "j < 256" if "j < length (chans g (ls ! k))" for j using that cs(2) unsigned_less [of "channels_count (ls ! k)", where 'a = nat] by simp
  then have "led (chans g (ls ! k) ! j) = Some j \<and> light_id_of g (chans g (ls ! k) ! j) = Some (of_nat k) \<and> \<not> releasing (chans g (ls ! k) ! j)"
    if "j < length (chans g (ls ! k))" for j
    using live that ls(1) k(1) by (simp add: live_light_def configured_def light_id_of_def unat_of_nat take_bit_nat_eq_self unsigned_of_nat)
  then show ?thesis using that cs by blast
qed

lemma alike_sync: "gb_sync ty req n g = (r, g') \<Longrightarrow> works g \<subseteq> leds g \<Longrightarrow> alike g g'"
  by (auto simp: gb_sync_def alike_def Let_def similar_arr_refl)

lemma alike_refl: "works g \<subseteq> leds g \<Longrightarrow> alike g g"
  by (simp add: alike_def similar_arr_refl)

lemma list_all2_upd: "list_all2 P xs ys \<Longrightarrow> P (xs ! i) y \<Longrightarrow> list_all2 P xs (ys[i := y])"
  by (cases "i < length ys") (auto simp: list_all2_conv_all_nth nth_list_update)

lemma put_ch_alike:
  assumes "alike g g1" "arr g a = Some cs" "i < length cs" "similar (cs ! i) c"
  shows "\<exists>g2. put_ch g1 a i c = Some g2 \<and> alike g g2"
proof -
  have "rel_option (list_all2 similar) (Some cs) (arr g1 a)" using assms(1,2) by (metis alike_def)
  then obtain cs1 where cs1: "arr g1 a = Some cs1" "list_all2 similar cs cs1" by (auto simp: option_rel_Some1)
  then have "list_all2 similar cs (cs1[i := c])" "i < length cs1" using list_all2_upd assms(3,4) list_all2_lengthD by fastforce+
  then show ?thesis using assms(1,2) cs1 by (auto simp: put_ch_def alike_def)
qed

text \<open>A callback of an LED that works on channel \<open>c\<close> and then stores a similar one.\<close>

lemma store_alike:
  assumes "alike g g1" "arr g a = Some cs" "i < length cs" "similar (cs ! i) c"
  shows "\<exists>g'. (if ret < 0 then Some (ret, g1) else do { g2 \<leftarrow> put_ch g1 a i c; Some (r0, g2) }) = Some (if ret < 0 then ret else r0, g') \<and> alike g g'"
  using put_ch_alike [OF assms] assms(1) by auto

lemma brightness_alike:
  assumes "i < length cs" "works g \<subseteq> leds g"
    and "\<And>j. j < length cs \<Longrightarrow> led (cs ! j) = Some j \<and> light_id_of g (cs ! j) = Some lid \<and> \<not> releasing (cs ! j)"
  shows "\<exists>r g'. gb_lights_brightness_set g cs i = Some (r, g') \<and> alike g g'"
proof -
  have fi: "\<exists>r g'. flash_intensity_set g (cs ! j) v = Some (r, g') \<and> alike g g'" if "j < length cs" for j v
  proof -
    obtain x g1 where s: "gb_sync 0x0B (lid # ch_id (cs ! j) # cpu_to_le32 v) 0 g = (x, g1)" by (metis surj_pair)
    then show ?thesis using assms(3) [OF that] alike_sync [OF s assms(2)] by (cases x) (simp add: flash_intensity_set_def)
  qed
  have "\<exists>r g'. flash_brightness_set g cs i = Some (r, g') \<and> alike g g'"
  proof -
    have "cs \<noteq> []" using assms(1) by auto
    then obtain t where t: "get_channel_from_mode cs 0x200 = Some t" "t < length cs" using get_channel_from_mode_some by blast
    show ?thesis using fi [OF t(2)] fi [OF assms(1)] assms(3) [OF t(2)] assms(3) [OF assms(1)] t(1) by (simp add: flash_brightness_set_def Let_def)
  qed
  moreover have "\<exists>r g'. led_brightness_set g cs i = Some (r, g') \<and> alike g g'"
  proof -
    obtain x g1 where s: "gb_sync 0x06 [lid, ch_id (cs ! i), ucast (brightness (cdev (cs ! i)))] 0 g = (x, g1)" by (metis surj_pair)
    then show ?thesis using assms(3) [OF assms(1)] alike_sync [OF s assms(2)] by (cases x) (simp add: led_brightness_set_def)
  qed
  ultimately show ?thesis using assms(3) [OF assms(1)] by (simp add: gb_lights_brightness_set_def)
qed

datatype light_event =
    Brightness nat nat u32 | Brightness_Sync nat nat u32 | Work nat nat
  | Blink nat nat u64 u64 | Fade bool bool "int + u8" nat nat nat | Color bool "int + u32" nat nat nat
  | Intensity nat nat u32 | Strobe nat nat bool | Timeout nat nat u32 | Fault nat nat
  | Config u8 u8

text \<open>
  Callbacks arrive for registered LEDs, work runs when it is scheduled. A configuration event is allowed when the module then tells a configuration without flash LEDs that
  the driver can set up; that releasing the old one does not fault is part of what is proved.
\<close>

definition accepted :: "gb_lights \<Rightarrow> nat \<Rightarrow> bool" where
  "accepted g k = (case lights g of None \<Rightarrow> False | Some ls \<Rightarrow>
     (case gb_lights_light_release (ls ! k) g of None \<Rightarrow> True
      | Some (l1, g1) \<Rightarrow> (case gb_lights_light_config k l1 g1 of None \<Rightarrow> False | Some (ret, l2, g2) \<Rightarrow> 0 \<le> ret \<and> no_flash g2 l2)))"

fun lights_enabled :: "gb_lights \<Rightarrow> light_event \<Rightarrow> bool" where
  "lights_enabled g (Brightness a i v) = ((a, i) \<in> leds g)"
| "lights_enabled g (Brightness_Sync a i v) = ((a, i) \<in> leds g)"
| "lights_enabled g (Work a i) = ((a, i) \<in> works g)"
| "lights_enabled g (Blink a i x y) = ((a, i) \<in> leds g)"
| "lights_enabled g (Fade d x p n a i) = ((a, i) \<in> leds g)"
| "lights_enabled g (Color x p n a i) = ((a, i) \<in> leds g)"
| "lights_enabled g (Intensity a i v) = ((a, i) \<in> leds g)"
| "lights_enabled g (Strobe a i v) = ((a, i) \<in> leds g)"
| "lights_enabled g (Timeout a i v) = ((a, i) \<in> leds g)"
| "lights_enabled g (Fault a i) = ((a, i) \<in> leds g)"
| "lights_enabled g (Config lid ev) = (lid < lights_count g \<and> ev AND 1 \<noteq> 0 \<longrightarrow> accepted g (unat lid))"

fun lights_exec :: "gb_lights \<Rightarrow> light_event \<Rightarrow> gb_lights option" where
  "lights_exec g (Brightness a i v) = gb_brightness_set g a i v"
| "lights_exec g (Brightness_Sync a i v) = map_option snd (gb_brightness_set_sync g a i v)"
| "lights_exec g (Work a i) = gb_brightness_set_work (g\<lparr>works := works g - {(a, i)}\<rparr>) a i"
| "lights_exec g (Blink a i x y) = map_option snd (gb_blink_set g a i x y)"
| "lights_exec g (Fade d x p n a i) = map_option snd (fade_store d x p n g a i)"
| "lights_exec g (Color x p n a i) = map_option snd (color_store x p n g a i)"
| "lights_exec g (Intensity a i v) = map_option snd (gb_lights_flash_intensity_set g a i v)"
| "lights_exec g (Strobe a i v) = map_option snd (gb_lights_flash_strobe_set g a i v)"
| "lights_exec g (Timeout a i v) = map_option snd (gb_lights_flash_timeout_set g a i v)"
| "lights_exec g (Fault a i) = map_option snd (gb_lights_flash_fault_get g a i)"
| "lights_exec g (Config lid ev) = map_option snd (gb_lights_event_recv g 0x0A (incoming 0x0A [lid, ev]))"

definition usable :: "gb_lights \<Rightarrow> nat \<Rightarrow> nat \<Rightarrow> gb_channel list \<Rightarrow> u8 \<Rightarrow> bool" where
  "usable g a i cs lid \<longleftrightarrow> arr g a = Some cs \<and> i < length cs \<and> works g \<subseteq> leds g \<and> (a, i) \<in> leds g \<and>
     (\<forall>j < length cs. led (cs ! j) = Some j \<and> light_id_of g (cs ! j) = Some lid \<and> \<not> releasing (cs ! j))"

lemma usable_get: "usable g a i cs lid \<Longrightarrow> get_ch g a i = Some (cs ! i)"
  by (simp add: usable_def get_ch_def)

lemma usable_alike: "usable g a i cs lid \<Longrightarrow> alike g g"
  by (simp add: usable_def alike_refl)

lemma alike_then_sync: "alike g g1 \<Longrightarrow> gb_sync ty req n g1 = (x, g2) \<Longrightarrow> alike g g2"
  by (auto simp: gb_sync_def alike_def Let_def)

lemma channel_op_alike:
  assumes "usable g a i cs lid" "alike g g1" "ch_light c = ch_light (cs ! i)" "releasing c = releasing (cs ! i)"
  shows "\<exists>ret resp g2. channel_op ty body n g1 c = Some ((ret, resp), g2) \<and> alike g g2"
proof -
  have "light_id_of g1 c = light_id_of g (cs ! i)" using assms(2,3) by (simp add: light_id_of_def alike_def)
  then have id: "light_id_of g1 c = Some lid" "\<not> releasing c" using assms(1,4) by (simp_all add: usable_def)
  obtain ret resp g2 where s: "gb_sync ty (lid # ch_id c # body) n g1 = ((ret, resp), g2)" by (metis surj_pair)
  then show ?thesis using id alike_then_sync [OF assms(2) s] by (simp add: channel_op_def)
qed

lemma op_alike: "usable g a i cs lid \<Longrightarrow> \<exists>ret resp g2. channel_op ty body n g (cs ! i) = Some ((ret, resp), g2) \<and> alike g g2"
  by (rule channel_op_alike [OF _ usable_alike refl refl])

lemma stored_alike:
  assumes "usable g a i cs lid" "alike g g1" "similar (cs ! i) c"
  shows "\<exists>g'. (if ret < 0 then Some (ret, g1) else do { g2 \<leftarrow> put_ch g1 a i c; Some (r0, g2) }) = Some (if ret < 0 then ret else r0, g') \<and> alike g g'"
proof -
  obtain g2 where "put_ch g1 a i c = Some g2" "alike g g2" using put_ch_alike [OF assms(2) _ _ assms(3), of a] assms(1) by (auto simp: usable_def)
  then show ?thesis using assms(2) by auto
qed

lemma similar_fields:
  "similar c (c\<lparr>fade_in := x\<rparr>)" "similar c (c\<lparr>fade_out := x\<rparr>)" "similar c (c\<lparr>color := y\<rparr>)" "similar c (c\<lparr>strobe_state := b\<rparr>)"
  "similar c (c\<lparr>fled_brightness := s\<rparr>)" "similar c (c\<lparr>fled_timeout := s\<rparr>)" "similar c (c\<lparr>cdev := (cdev c)\<lparr>brightness := y\<rparr>\<rparr>)"
  by (simp_all add: similar_def same_channel_def all_blocks_def blocks_def)

lemma blink_alike: "usable g a i cs lid \<Longrightarrow> \<exists>r g'. gb_blink_set g a i x y = Some (r, g') \<and> alike g g'"
  using op_alike [of g a i cs lid, where ty = "0x07" and body = "cpu_to_le16 (ucast x) @ cpu_to_le16 (ucast y)" and n = 0] by (auto simp: gb_blink_set_def usable_get)

lemma fade_alike: "usable g a i cs lid \<Longrightarrow> \<exists>r g'. fade_store d x p n g a i = Some (r, g') \<and> alike g g'"
proof -
  assume u: "usable g a i cs lid"
  have al: "alike g g" by (rule usable_alike [OF u])
  show ?thesis
  proof (cases "x \<or> (\<exists>err. p = Inl err) \<or> (\<exists>v. p = Inr v \<and> (if d then fade_in (cs ! i) else fade_out (cs ! i)) = v)")
    case True
    then show ?thesis using al by (auto simp: fade_store_def usable_get [OF u])
  next
    case False
    then obtain v where v: "p = Inr v" by (cases p) auto
    define c where "c = (if d then (cs ! i)\<lparr>fade_in := v\<rparr> else (cs ! i)\<lparr>fade_out := v\<rparr>)"
    have c: "similar (cs ! i) c" "ch_light c = ch_light (cs ! i)" "releasing c = releasing (cs ! i)" by (simp_all add: c_def similar_fields)
    then obtain g1 where g1: "put_ch g a i c = Some g1" "alike g g1" using put_ch_alike [OF al, of a cs i c] u by (auto simp: usable_def)
    obtain ret resp g2 where "channel_op 0x09 [fade_in c, fade_out c] 0 g1 c = Some ((ret, resp), g2)" "alike g g2"
      using channel_op_alike [OF u g1(2) c(2,3)] by blast
    then show ?thesis using False v g1(1) unfolding c_def by (simp add: fade_store_def usable_get [OF u] gb_lights_fade_set_def Let_def)
  qed
qed

lemma color_alike: "usable g a i cs lid \<Longrightarrow> \<exists>r g'. color_store x p n g a i = Some (r, g') \<and> alike g g'"
proof -
  assume u: "usable g a i cs lid"
  show ?thesis
  proof (cases "\<not> x \<and> (\<exists>v. p = Inr v)")
    case True
    then obtain v where v: "p = Inr v" by blast
    obtain ret resp g1 where o: "channel_op 0x08 (cpu_to_le32 v) 0 g (cs ! i) = Some ((ret, resp), g1)" "alike g g1" using op_alike [OF u] by blast
    show ?thesis using stored_alike [OF u o(2) similar_fields(3) [where y = v], of ret "int n"] o(1) True v
      by (auto simp: color_store_def usable_get [OF u] gb_lights_color_set_def split: if_splits)
  next
    case False
    then show ?thesis using usable_alike [OF u] by (cases p) (auto simp: color_store_def usable_get [OF u])
  qed
qed

lemma intensity_alike: "usable g a i cs lid \<Longrightarrow> \<exists>r g'. gb_lights_flash_intensity_set g a i v = Some (r, g') \<and> alike g g'"
proof -
  assume u: "usable g a i cs lid"
  obtain ret resp g1 where o: "channel_op 0x0B (cpu_to_le32 v) 0 g (cs ! i) = Some ((ret, resp), g1)" "alike g g1" using op_alike [OF u] by blast
  have "flash_intensity_set g (cs ! i) v = Some (ret, g1)"
    using o(1) u by (auto simp: channel_op_def flash_intensity_set_def usable_def Let_def split: prod.splits)
  then show ?thesis
    using stored_alike [OF u o(2) similar_fields(5) [where s = "(fled_brightness (cs ! i))\<lparr>fval := v\<rparr>"], of ret 0]
    by (auto simp: gb_lights_flash_intensity_set_def usable_get [OF u] split: if_splits)
qed

lemma strobe_alike: "usable g a i cs lid \<Longrightarrow> \<exists>r g'. gb_lights_flash_strobe_set g a i v = Some (r, g') \<and> alike g g'"
proof -
  assume u: "usable g a i cs lid"
  obtain ret resp g1 where o: "channel_op 0x0C [if v then 1 else 0] 0 g (cs ! i) = Some ((ret, resp), g1)" "alike g g1" using op_alike [OF u] by blast
  show ?thesis using stored_alike [OF u o(2) similar_fields(4) [where b = v], of ret 0] o(1)
    by (auto simp: gb_lights_flash_strobe_set_def usable_get [OF u] split: if_splits)
qed

lemma timeout_alike: "usable g a i cs lid \<Longrightarrow> \<exists>r g'. gb_lights_flash_timeout_set g a i v = Some (r, g') \<and> alike g g'"
proof -
  assume u: "usable g a i cs lid"
  obtain ret resp g1 where o: "channel_op 0x0D (cpu_to_le32 v) 0 g (cs ! i) = Some ((ret, resp), g1)" "alike g g1" using op_alike [OF u] by blast
  show ?thesis using stored_alike [OF u o(2) similar_fields(6) [where s = "(fled_timeout (cs ! i))\<lparr>fval := v\<rparr>"], of ret 0] o(1)
    by (auto simp: gb_lights_flash_timeout_set_def usable_get [OF u] split: if_splits)
qed

lemma fault_alike: "usable g a i cs lid \<Longrightarrow> \<exists>r g'. gb_lights_flash_fault_get g a i = Some (r, g') \<and> alike g g'"
proof -
  assume u: "usable g a i cs lid"
  obtain ret resp g1 where "channel_op 0x0E [] 4 g (cs ! i) = Some ((ret, resp), g1)" "alike g g1" using op_alike [OF u] by blast
  then show ?thesis by (auto simp: gb_lights_flash_fault_get_def usable_get [OF u])
qed

lemma usable_brightness:
  assumes "usable g a i cs lid"
  shows "\<exists>g'. gb_brightness_set g a i v = Some g' \<and> alike g g'"
proof -
  let ?c = "(cs ! i)\<lparr>cdev := (cdev (cs ! i))\<lparr>brightness := v\<rparr>\<rparr>"
  obtain g1 where g1: "put_ch g a i ?c = Some g1" "alike g g1"
    using put_ch_alike [OF usable_alike [OF assms], of a cs i ?c] assms similar_fields(7) by (auto simp: usable_def)
  then have "alike g (g1\<lparr>works := insert (a, i) (works g1)\<rparr>)" using assms by (simp add: alike_def usable_def)
  then show ?thesis using g1(1) assms by (simp add: gb_brightness_set_def usable_get [OF assms]) (simp add: usable_def)
qed

lemma sync_alike:
  assumes "usable g a i cs lid"
  shows "\<exists>r g'. gb_brightness_set_sync g a i v = Some (r, g') \<and> alike g g'"
proof -
  let ?c = "(cs ! i)\<lparr>cdev := (cdev (cs ! i))\<lparr>brightness := v\<rparr>\<rparr>"
  have i: "arr g a = Some cs" "i < length cs" "led (cs ! i) = Some i" using assms by (simp_all add: usable_def)
  define g1 where "g1 = g\<lparr>arr := (arr g)(a \<mapsto> cs[i := ?c])\<rparr>"
  have p: "put_ch g a i ?c = Some g1" using i by (simp add: put_ch_def g1_def)
  have al: "alike g g1" using put_ch_alike [OF usable_alike [OF assms] i(1,2) similar_fields(7) [where y = v]] p by auto
  have each: "led (cs[i := ?c] ! j) = Some j \<and> light_id_of g1 (cs[i := ?c] ! j) = Some lid \<and> \<not> releasing (cs[i := ?c] ! j)" if "j < length (cs[i := ?c])" for j
    using that assms by (cases "i = j") (auto simp: usable_def light_id_of_def g1_def)
  have "works g1 \<subseteq> leds g1" using assms by (simp add: g1_def usable_def)
  then obtain r g2 where b: "gb_lights_brightness_set g1 (cs[i := ?c]) i = Some (r, g2)" "alike g1 g2"
    using brightness_alike [of i "cs[i := ?c]" g1 lid] i(2) each by auto
  have "gb_brightness_set_sync g a i v = Some (r, g2)"
    using p b(1) i by (simp add: gb_brightness_set_sync_def usable_get [OF assms]) (simp add: g1_def)
  then show ?thesis using alike_trans [OF al b(2)] by blast
qed

lemma work_alike:
  assumes "usable g a i cs lid"
  shows "\<exists>g'. gb_brightness_set_work (g\<lparr>works := works g - {(a, i)}\<rparr>) a i = Some g' \<and> alike g g'"
proof -
  let ?g = "g\<lparr>works := works g - {(a, i)}\<rparr>"
  have w: "works ?g \<subseteq> leds ?g" "i < length cs" "arr g a = Some cs" using assms by (auto simp: usable_def)
  have each: "led (cs ! j) = Some j \<and> light_id_of ?g (cs ! j) = Some lid \<and> \<not> releasing (cs ! j)" if "j < length cs" for j
    using assms that by (simp add: usable_def light_id_of_def)
  obtain r g1 where b: "gb_lights_brightness_set ?g cs i = Some (r, g1)" "alike ?g g1" using brightness_alike [OF w(2,1) each] by blast
  then have "alike g g1" using w by (simp add: alike_def)
  then show ?thesis using b(1) w by (simp add: gb_brightness_set_work_def)
qed

lemma callback_alike:
  assumes "lights_ok g" "lights_enabled g e" "\<And>lid ev. e \<noteq> Config lid ev"
  shows "\<exists>g'. lights_exec g e = Some g' \<and> alike g g'"
proof -
  have w: "works g \<subseteq> leds g" using assms(1) by (auto simp: lights_ok_def split: option.splits)
  have u: "\<exists>cs lid. usable g a i cs lid" if ai: "(a, i) \<in> leds g" for a i
    using registered_channel [OF assms(1) ai] w ai unfolding usable_def by metis
  show ?thesis
  proof (cases e)
    case (Brightness a i v)
    then show ?thesis using u [of a i] assms(2) usable_brightness by fastforce
  next
    case (Brightness_Sync a i v)
    then show ?thesis using u [of a i] assms(2) sync_alike by fastforce
  next
    case (Work a i)
    then show ?thesis using u [of a i] assms(2) w work_alike by fastforce
  next
    case (Blink a i x y)
    then show ?thesis using u [of a i] assms(2) blink_alike by fastforce
  next
    case (Fade d x p n a i)
    then show ?thesis using u [of a i] assms(2) fade_alike by fastforce
  next
    case (Color x p n a i)
    then show ?thesis using u [of a i] assms(2) color_alike by fastforce
  next
    case (Intensity a i v)
    then show ?thesis using u [of a i] assms(2) intensity_alike by fastforce
  next
    case (Strobe a i v)
    then show ?thesis using u [of a i] assms(2) strobe_alike by fastforce
  next
    case (Timeout a i v)
    then show ?thesis using u [of a i] assms(2) timeout_alike by fastforce
  next
    case (Fault a i)
    then show ?thesis using u [of a i] assms(2) fault_alike by fastforce
  qed (use assms(3) in blast)
qed

lemma reconfigure_ok:
  assumes "lights_ok g" "k < unat (lights_count g)" "accepted g k"
  shows "\<exists>ret g'. reconfigure g k = Some (ret, g') \<and> lights_ok g'"
proof -
  obtain ls where ls: "lights g = Some ls" "length ls = unat (lights_count g)" "owns g ls" "\<forall>k < length ls. live_light g k (ls ! k)" "works g \<subseteq> leds g"
    using assms(1) by (auto simp: lights_ok_def split: option.splits)
  let ?l = "ls ! k"
  have k: "k < length ls" using ls(2) assms(2) by simp
  obtain g1 where g1: "gb_lights_light_release ?l g = Some (?l\<lparr>channels_count := 0\<rparr>, g1)" "owns_but (Some k) g1 ls"
      "\<forall>i < length ls. i \<noteq> k \<longrightarrow> chans g1 (ls ! i) = chans g (ls ! i) \<and> foot g1 (ls ! i) = foot g (ls ! i)" "leds g1 = {x \<in> leds g. fst x \<noteq> channels ?l}"
      "lights g1 = lights g" "lights_count g1 = lights_count g" "works g1 = works g - {channels ?l} \<times> {..<length (chans g ?l)}"
    using owns_release [OF ls(3) k] by (elim exE conjE) (rule that)
  have b1: "below g1" using g1(2) by (simp add: owns_but_def)
  obtain ret l2 g2 where c: "gb_lights_light_config k (?l\<lparr>channels_count := 0\<rparr>) g1 = Some (ret, l2, g2)" "0 \<le> ret" "no_flash g2 l2"
    using assms(3) ls(1) g1(1) by (auto simp: accepted_def split: option.splits)
  have f: "fits g1 l2 g2" "live_light g2 k l2" using light_config_effect [OF c(1) b1] c(2,3) by (auto simp: no_flash_def)
  then have gr: "agree {..<nextp g1} g1 g2" "works g2 = works g1" "lights g2 = lights g1" "lights_count g2 = lights_count g1" by (simp_all add: fits_def grown_def)
  note o = owns_replace [OF g1(2) f(1) k]
  have live: "live_light g2 j (ls ! j)" if j: "j < length ls" "j \<noteq> k" for j
  proof -
    have lj: "live_light g j (ls ! j)" using ls(4) j by simp
    have "channels (ls ! j) \<in> foot g (ls ! j)" using lj by (simp add: live_light_def foot_def)
    moreover have "foot g (ls ! j) \<inter> foot g ?l = {}" using ls(3) j k by (simp add: owns_but_def)
    moreover have "channels ?l \<in> foot g ?l" using ls(4) k by (simp add: live_light_def foot_def)
    ultimately have ne: "channels (ls ! j) \<noteq> channels ?l" by auto
    have "foot g1 (ls ! j) \<subseteq> {..<nextp g1}" using g1(2) j by (simp add: owns_but_def)
    then have "channels (ls ! j) < nextp g1" using lj by (auto simp: live_light_def foot_def)
    then have "(channels (ls ! j), i) \<in> leds g2 \<longleftrightarrow> (channels (ls ! j), i) \<in> leds g" for i
      using gr(1) g1(4) ne by (auto simp: agree_def)
    then show ?thesis using lj o(2) [OF j] g1(3) j by (simp add: live_light_def)
  qed
  have "works g1 \<subseteq> leds g1" using g1(4,7) ls(5) owns_ok [OF ls(3) k] by (auto simp: ok_light_def ok_chans_def)
  moreover have "leds g1 \<subseteq> leds g2" using gr(1) b1 by (auto simp: agree_def below_def)
  ultimately have w: "works g2 \<subseteq> leds g2" using gr(2) by auto
  have "lights_ok (put_light k l2 g2)"
    using ls(1,2) g1(5,6) gr(3,4) o(1) live f(2) k w by (auto simp: lights_ok_def nth_list_update)
  then show ?thesis using ls(1) g1(1) c by (simp add: reconfigure_def)
qed

lemma event_step:
  assumes "lights_ok g" "lights_enabled g e"
  shows "\<exists>g'. lights_exec g e = Some g' \<and> lights_ok g'"
proof (cases "\<exists>lid ev. e = Config lid ev")
  case True
  then obtain lid ev where e: "e = Config lid ev" by blast
  show ?thesis
  proof (cases "lid < lights_count g \<and> ev AND 1 \<noteq> 0")
    case True
    then have "accepted g (unat lid)" "unat lid < unat (lights_count g)" using assms(2) e by (simp_all add: word_less_nat_alt)
    then obtain ret g' where "reconfigure g (unat lid) = Some (ret, g')" "lights_ok g'" using reconfigure_ok [OF assms(1)] by blast
    then show ?thesis using True e by (simp add: event_recv_incoming not_le [symmetric])
  next
    case False
    then show ?thesis using assms(1) e by (auto simp: event_recv_incoming not_less)
  qed
next
  case False
  then show ?thesis using callback_alike [OF assms] lights_ok_alike [OF assms(1)] by blast
qed

definition lights_init :: "gb_lights \<Rightarrow> bool" where
  "lights_init g \<longleftrightarrow> (\<exists>e. gb_lights_connection_init e True = Some (0, g)) \<and> (\<forall>l \<in> set (the (lights g)). no_flash g l)"

lemma setup_ok:
  assumes "gb_lights_setup (new_lights e) = Some (ret, g)" "0 \<le> ret" "\<forall>l \<in> set (the (lights g)). no_flash g l"
  shows "lights_ok g"
proof -
  obtain r g1 where g1: "gb_lights_get_count (new_lights e) = (r, g1)" by (metis surj_pair)
  obtain r2 g2 where g2: "kcall g1 = (r2, g2)" by (metis surj_pair)
  let ?n = "unat (lights_count g2)"
  define g3 where "g3 = g2\<lparr>lights := Some (replicate ?n blank_light)\<rparr>"
  have run: "config_lights [0..<?n] g3 = Some (ret, g)"
    using assms(1,2) g1 g2 by (auto simp: gb_lights_setup_def g3_def split: if_splits)
  have new: "heap g3 = (\<lambda>_. None)" "arr g3 = (\<lambda>_. None)" "nextp g3 = 1" "leds g3 = {}" "works g3 = {}" "lights g3 = Some (replicate ?n blank_light)"
      "lights_count g3 = lights_count g2"
    using g1 g2 by (auto simp: g3_def gb_lights_get_count_def gb_sync_def kcall_def new_lights_def class_env.defs Let_def split: if_splits)
  have bl: "ok_light g3 blank_light" "foot g3 blank_light = {}" "clean blank_light"
    using new by (auto simp: ok_light_def ok_chans_def foot_def light_blocks_def chans_def freeable_def blank_light_def clean_def)
  have o: "owns g3 (replicate ?n blank_light)" using new bl by (simp add: owns_but_def below_def)
  obtain ls' where ls': "lights g = Some ls'" "length ls' = ?n" "lights_count g = lights_count g3"
    using config_lights_frame [OF run new(6)] new(3) by auto
  have "owns g ls' \<and> agree {..<nextp g3} g3 g \<and> works g = works g3 \<and> (0 \<le> ret \<longrightarrow> (\<forall>k \<in> set [0..<?n]. live_light g k (ls' ! k)))"
    using ls'(1) assms(3) bl(3) by (intro config_lights_owns [OF run new(6) o]) simp_all
  then show ?thesis using ls' new(5,7) assms(2) by (simp add: lights_ok_def)
qed

interpretation lights: safe_machine lights_init lights_enabled lights_exec lights_ok
proof
  show "lights_ok g" if i: "lights_init g" for g
  proof -
    obtain e where "gb_lights_connection_init e True = Some (0, g)" and nf: "\<forall>l \<in> set (the (lights g)). no_flash g l" using i by (auto simp: lights_init_def)
    then obtain ret where "gb_lights_setup (new_lights e) = Some (ret, g)" "0 \<le> ret"
      by (auto simp: gb_lights_connection_init_def split: bind_splits if_splits)
    then show ?thesis using setup_ok nf by blast
  qed
qed (rule event_step)

text \<open>
  C24 Lights without flash LEDs are safe: after every run of LED callbacks, scheduled work and accepted reconfigurations, each further such event completes without touching
  freed memory, each LED that is registered is a channel of a light in use, and removing the connection succeeds, unregisters every LED, frees every array
  of channels and sends nothing to the module.
\<close>

theorem lights_safe:
  assumes "reach lights_init lights_enabled lights_exec g"
  shows "(\<forall>e. lights_enabled g e \<longrightarrow> lights_exec g e \<noteq> None) \<and>
    (\<exists>ls. lights g = Some ls \<and> (\<forall>a i. (a, i) \<in> leds g \<longrightarrow> (\<exists>l \<in> set ls. channels l = a \<and> i < unat (channels_count l)))) \<and>
    (\<exists>g'. gb_lights_connection_exit g = Some g' \<and> leds g' = {} \<and> (\<forall>a. arr g' a = None) \<and> sent g' = sent g)"
proof (intro conjI)
  have ok: "lights_ok g" by (rule lights.reach_inv [OF assms])
  show "\<forall>e. lights_enabled g e \<longrightarrow> lights_exec g e \<noteq> None" using lights.reach_no_fault [OF assms] by blast
  obtain ls where ls: "lights g = Some ls" "owns g ls" using ok by (auto simp: lights_ok_def split: option.splits)
  have "\<exists>l \<in> set ls. channels l = a \<and> i < unat (channels_count l)" if ai: "(a, i) \<in> leds g" for a i
  proof -
    obtain k where k: "k < length ls" "channels (ls ! k) = a" using ls(2) ai unfolding owns_but_def by blast
    have "0 < a" using ls(2) ai by (auto simp: owns_but_def below_def)
    then have "i < unat (channels_count (ls ! k))" using owns_ok [OF ls(2) k(1)] k(2) ai by (auto simp: ok_light_def ok_chans_def)
    then show ?thesis using k by (metis nth_mem)
  qed
  then show "\<exists>ls. lights g = Some ls \<and> (\<forall>a i. (a, i) \<in> leds g \<longrightarrow> (\<exists>l \<in> set ls. channels l = a \<and> i < unat (channels_count l)))" using ls(1) by blast
  obtain g' where "release_lights ls g = Some g'" "leds g' = {}" "\<forall>a. arr g' a = None" "sent g' = sent g" using release_lights_owns [OF ls(2)] by blast
  then show "\<exists>g'. gb_lights_connection_exit g = Some g' \<and> leds g' = {} \<and> (\<forall>a. arr g' a = None) \<and> sent g' = sent g"
    using ls(1) by (simp add: gb_lights_connection_exit_def gb_lights_release_def)
qed

lemma case_SomeD: "(case x of None \<Rightarrow> False | Some y \<Rightarrow> P y) \<Longrightarrow> \<exists>y. x = Some y \<and> P y"
  by (cases x) auto

text \<open>A module with one light whose only channel is plain, multicoloured and can fade.\<close>

definition plain_env :: class_env where
  "plain_env = \<lparr>replies = (\<lambda>n. if n = 0 then (0, [1]) else if n = 1 then (0, []) else replies (demo_env 1 3) (n - 2)), ncalls = 0, sent = []\<rparr>"

definition plain_lights :: gb_lights where
  "plain_lights = snd (the (gb_lights_connection_init plain_env True))"

lemma plain_lights_init: "lights_init plain_lights \<and> (2, 0) \<in> leds plain_lights"
proof -
  have "case gb_lights_connection_init plain_env True of None \<Rightarrow> False
    | Some (ret, g) \<Rightarrow> ret = 0 \<and> (\<forall>l \<in> set (the (lights g)). no_flash g l) \<and> (2, 0) \<in> leds g" by code_simp
  then show ?thesis by (auto simp: lights_init_def plain_lights_def split: option.splits)
qed

theorem lights_safe_witness:
  "(\<exists>g1. run lights_enabled lights_exec plain_lights [Brightness 2 0 5, Work 2 0, Color False (Inr 255) 4 2 0] = Some g1 \<and>
     map x_type (drop 2 (sent g1)) = [0x04, 0x06, 0x08]) \<and>
   (\<exists>g'. gb_lights_connection_exit plain_lights = Some g' \<and> leds g' = {})"
proof
  show "\<exists>g'. gb_lights_connection_exit plain_lights = Some g' \<and> leds g' = {}"
    using lights_safe [OF reach_init, of plain_lights] plain_lights_init by blast
  have "case run lights_enabled lights_exec plain_lights [Brightness 2 0 5, Work 2 0, Color False (Inr 255) 4 2 0] of None \<Rightarrow> False
    | Some g1 \<Rightarrow> map x_type (drop 2 (sent g1)) = [0x04, 0x06, 0x08]" by code_simp
  then show "\<exists>g1. run lights_enabled lights_exec plain_lights [Brightness 2 0 5, Work 2 0, Color False (Inr 255) 4 2 0] = Some g1 \<and>
     map x_type (drop 2 (sent g1)) = [0x04, 0x06, 0x08]" by (rule case_SomeD)
qed

theorem lights_refused_reconfig_faults_witness:
  "gb_lights_event_recv (plain_lights\<lparr>replies := (\<lambda>_. (- 5, []))\<rparr>) 0x0A (incoming 0x0A [0, 1]) = None"
proof -
  let ?g = "plain_lights\<lparr>replies := (\<lambda>_. (- 5, []))\<rparr>"
  have ok: "lights_ok plain_lights" using lights.init_inv plain_lights_init by blast
  have one: "lights_count plain_lights = 1" by code_simp
  obtain ls where ls: "lights plain_lights = Some ls" "length ls = 1" "ok_light plain_lights (ls ! 0)" "live_light plain_lights 0 (ls ! 0)"
    using ok one owns_ok by (auto simp: lights_ok_def split: option.splits)
  have "\<forall>i. (0, i) \<notin> leds ?g" using ok by (auto simp: lights_ok_def owns_but_def below_def split: option.splits)
  then have "ok_light ?g (ls ! 0)" using ok_light_agree [OF ls(3), of ?g] by (simp add: agree_def)
  moreover have "channels (ls ! 0) \<noteq> 0" using ls(4) by (simp add: live_light_def)
  ultimately show ?thesis using lights_refused_reconfig_faults [of ?g ls 0 1] ls(1,2) one by simp
qed




text \<open>
  A channel that can fade but is not multicoloured has a table of attributes without a NULL entry at its end: the LED core reads beyond the table when the channel is registered.
\<close>

theorem lights_fader_table_overread:
  assumes "channel_attr_groups_set c g = Some (0, c', g')" "ch_flags c AND GB_LIGHT_CHANNEL_MULTICOLOR = 0" "ch_flags c AND GB_LIGHT_CHANNEL_FADER \<noteq> 0" "0 < nextp g"
  shows "led_classdev_register a i c' g' = None"
proof -
  obtain p1 g1 where k1: "kalloc [0, 0] g = (p1, g1)" by (metis surj_pair)
  obtain p2 g2 where k2: "kalloc [] g1 = (p2, g2)" by (metis surj_pair)
  obtain p3 g3 where k3: "kalloc [] g2 = (p3, g3)" by (metis surj_pair)
  have h: "p1 \<noteq> 0 \<Longrightarrow> heap g3 p1 = Some [0, 0]" using k1 k2 k3 by (auto simp: kalloc_def kcall_def Let_def split: if_splits)
  have "replicate (2 * (0 + 1)) 0 = [0 :: u8, 0]" by (simp add: numeral_2_eq_2)
  then have "attrs c' = p1 \<and> has_groups (cdev c') \<and> heap g' p1 = Some [2, 3]"
    using assms(1-3) k1 k2 k3 h by (auto simp: channel_attr_groups_set_def wr_bytes_def Let_def split: if_splits)
  then show ?thesis by (simp add: led_classdev_register_def read_groups_def)
qed

end
