(* ===== verification/GB_Audio.thy ===== *)
theory GB_Audio
  imports GB_Class
begin

text \<open>
  The audio class driver (audio.c, audio-gb-cmds.c, audio-pcm.c, audio-dai.c, audio.h). A bundle has a management and a
  data connection that share one gb_snd, found by the bundle id. While a stream plays, a timer queues
  work every millisecond, and each work sends one message from the ring buffer of the stream. The code that
  USE_RT5645 selects is compiled out.
\<close>

section \<open>Data\<close>

text \<open>struct gb_i2s_mgmt_configuration, its fields in the byte order of the host.\<close>

record i2s_configuration =
  sample_frequency :: u32
  num_channels :: u8
  bytes_per_channel :: u8
  byte_order :: u8
  cfg_pad :: u8
  spatial_locations :: u32
  ll_protocol :: u32
  ll_mclk_role :: u8
  ll_bclk_role :: u8
  ll_wclk_role :: u8
  ll_wclk_polarity :: u8
  ll_wclk_change_edge :: u8
  ll_wclk_tx_edge :: u8
  ll_wclk_rx_edge :: u8
  ll_data_offset :: u8

definition cfg_bytes :: "i2s_configuration \<Rightarrow> bytes" where
  "cfg_bytes c = cpu_to_le32 (sample_frequency c) @
     [num_channels c, bytes_per_channel c, byte_order c, cfg_pad c] @
     cpu_to_le32 (spatial_locations c) @ cpu_to_le32 (ll_protocol c) @
     [ll_mclk_role c, ll_bclk_role c, ll_wclk_role c, ll_wclk_polarity c,
      ll_wclk_change_edge c, ll_wclk_tx_edge c, ll_wclk_rx_edge c, ll_data_offset c]"

definition cfg_of :: "bytes \<Rightarrow> i2s_configuration option" where
  "cfg_of b = (if length b < 24 then None else Some
     \<lparr>sample_frequency = le32_to_cpu (b ! 0) (b ! 1) (b ! 2) (b ! 3),
      num_channels = b ! 4, bytes_per_channel = b ! 5, byte_order = b ! 6, cfg_pad = b ! 7,
      spatial_locations = le32_to_cpu (b ! 8) (b ! 9) (b ! 10) (b ! 11),
      ll_protocol = le32_to_cpu (b ! 12) (b ! 13) (b ! 14) (b ! 15),
      ll_mclk_role = b ! 16, ll_bclk_role = b ! 17, ll_wclk_role = b ! 18, ll_wclk_polarity = b ! 19,
      ll_wclk_change_edge = b ! 20, ll_wclk_tx_edge = b ! 21, ll_wclk_rx_edge = b ! 22, ll_data_offset = b ! 23\<rparr>)"

text \<open>
  The fields of struct gb_connection the driver uses, and the part of a playing substream with its runtime
  that it reads: the ring buffer, its size and the size of a period in frames, and the bits of a frame.
\<close>

record audio_conn =
  ac_bundle :: int
  ac_cport :: u16
  ac_private :: "nat option"

record pcm_substream =
  dma_area :: bytes
  buffer_size :: u64
  period_size :: u64
  frame_bits :: u32
  rt_private :: "nat option"

text \<open>A pointer as platform_device_register_simple returns it.\<close>

datatype dev_ptr = Null | Err int | Ptr nat

text \<open>
  struct gb_snd. The two embedded platform devices are the registered devices \<open>Card\<close> and \<open>Cpu_dai\<close> of its address;
  \<open>work_pending\<close> and \<open>timer_on\<close> say whether the work is queued and the timer armed, \<open>elapsed\<close> counts the
  calls of snd_pcm_period_elapsed.
\<close>

record gb_snd =
  snd_codec :: dev_ptr
  simple_card_info :: "nat option"
  mgmt_connection :: "nat option"
  i2s_tx_connection :: "nat option"
  i2s_configs :: "bytes option"
  send_data_req_buf :: "bytes option"
  send_data_sample_count :: u64
  gb_bundle_id :: int
  snd_device_count :: int
  substream :: "nat option"
  running :: bool
  cport_active :: bool
  workqueue :: bool
  work_pending :: bool
  timer_on :: bool
  hwptr_done :: u32
  transfer_done :: u32
  elapsed :: nat

definition blank_snd :: "int \<Rightarrow> int \<Rightarrow> gb_snd" where
  "blank_snd n b = \<lparr>snd_codec = Null, simple_card_info = None, mgmt_connection = None, i2s_tx_connection = None,
     i2s_configs = None, send_data_req_buf = None, send_data_sample_count = 0, gb_bundle_id = b, snd_device_count = n,
     substream = None, running = False, cport_active = False, workqueue = False, work_pending = False,
     timer_on = False, hwptr_done = 0, transfer_done = 0, elapsed = 0\<rparr>"

datatype dev = Card nat | Cpu_dai nat | Simple nat

text \<open>
  The state of the driver: the gb_snd objects and the list of them, the connections and substreams of the kernel, the
  registered platform devices, the card information objects in use, the ALSA components and platforms, the
  workqueues, and for each request that was sent the connection it went to.
\<close>

record audio = class_env +
  snds :: "nat \<Rightarrow> gb_snd option"
  snd_next :: nat
  gb_snd_list :: "nat list"
  device_count :: int
  aconns :: "nat \<Rightarrow> audio_conn option"
  streams :: "nat \<Rightarrow> pcm_substream option"
  live_devs :: "dev set"
  card_infos :: "nat set"
  components :: "nat set"
  platforms :: "nat set"
  workqueues :: nat
  via :: "nat list"

definition put_snd :: "nat \<Rightarrow> gb_snd \<Rightarrow> audio \<Rightarrow> audio" where
  "put_snd a s w = w\<lparr>snds := (snds w)(a \<mapsto> s)\<rparr>"

definition put_conn :: "nat \<Rightarrow> audio_conn \<Rightarrow> audio \<Rightarrow> audio" where
  "put_conn c k w = w\<lparr>aconns := (aconns w)(c \<mapsto> k)\<rparr>"

section \<open>Commands\<close>

text \<open>gb_operation_sync on a connection, which has to exist.\<close>

definition sync_on :: "nat option \<Rightarrow> u8 \<Rightarrow> bytes \<Rightarrow> nat \<Rightarrow> audio \<Rightarrow> ((int \<times> bytes) \<times> audio) option" where
  "sync_on conn ty req n w = do {
     c \<leftarrow> conn;
     _ \<leftarrow> aconns w c;
     Some (case gb_sync ty req n w of (r, w1) \<Rightarrow> (r, w1\<lparr>via := via w1 @ [c]\<rparr>))
   }"

definition gb_i2s_mgmt_activate_cport :: "nat option \<Rightarrow> u16 \<Rightarrow> audio \<Rightarrow> (int \<times> audio) option" where
  "gb_i2s_mgmt_activate_cport conn cport w = do { ((ret, _), w1) \<leftarrow> sync_on conn 0x07 (cpu_to_le16 cport) 0 w; Some (ret, w1) }"

definition gb_i2s_mgmt_deactivate_cport :: "nat option \<Rightarrow> u16 \<Rightarrow> audio \<Rightarrow> (int \<times> audio) option" where
  "gb_i2s_mgmt_deactivate_cport conn cport w = do { ((ret, _), w1) \<leftarrow> sync_on conn 0x08 (cpu_to_le16 cport) 0 w; Some (ret, w1) }"

definition gb_i2s_mgmt_get_supported_configurations :: "nat option \<Rightarrow> nat \<Rightarrow> audio \<Rightarrow> ((int \<times> bytes) \<times> audio) option" where
  "gb_i2s_mgmt_get_supported_configurations conn sz w = sync_on conn 0x02 [] sz w"

definition gb_i2s_mgmt_set_configuration :: "nat option \<Rightarrow> i2s_configuration \<Rightarrow> audio \<Rightarrow> (int \<times> audio) option" where
  "gb_i2s_mgmt_set_configuration conn cfg w = do { ((ret, _), w1) \<leftarrow> sync_on conn 0x03 (cfg_bytes cfg) 0 w; Some (ret, w1) }"

definition gb_i2s_mgmt_set_samples_per_message :: "nat option \<Rightarrow> u16 \<Rightarrow> audio \<Rightarrow> (int \<times> audio) option" where
  "gb_i2s_mgmt_set_samples_per_message conn k w = do { ((ret, _), w1) \<leftarrow> sync_on conn 0x04 (cpu_to_le16 k) 0 w; Some (ret, w1) }"

abbreviation (input) CONFIG_COUNT_MAX :: nat where "CONFIG_COUNT_MAX \<equiv> 20"
abbreviation (input) CFGS_SIZE :: nat where "CFGS_SIZE \<equiv> 484"

text \<open>kzalloc answers NULL when the kernel's answer is negative.\<close>

definition gb_i2s_mgmt_get_cfgs :: "nat \<Rightarrow> nat \<Rightarrow> audio \<Rightarrow> (int \<times> audio) option" where
  "gb_i2s_mgmt_get_cfgs a conn w = (case kcall w of (mem, w1) \<Rightarrow>
     if mem < 0 then Some (- ENOMEM, w1)
     else do {
       ((ret, resp), w2) \<leftarrow> gb_i2s_mgmt_get_supported_configurations (Some conn) CFGS_SIZE w1;
       if ret \<noteq> 0 then Some (ret, w2)
       else do { s \<leftarrow> snds w2 a; Some (0, put_snd a (s\<lparr>i2s_configs := Some resp\<rparr>) w2) }
     })"

definition gb_i2s_mgmt_free_cfgs :: "nat \<Rightarrow> audio \<Rightarrow> audio option" where
  "gb_i2s_mgmt_free_cfgs a w = do { s \<leftarrow> snds w a; Some (put_snd a (s\<lparr>i2s_configs := None\<rparr>) w) }"

text \<open>The condition of the search loop of gb_i2s_mgmt_set_cfg, and the loop, which looks at all places of the table.\<close>

definition cfg_suits :: "int \<Rightarrow> int \<Rightarrow> int \<Rightarrow> u8 \<Rightarrow> i2s_configuration \<Rightarrow> bool" where
  "cfg_suits rate chans bpc order c \<longleftrightarrow>
     sample_frequency c = of_int rate \<and> uint (num_channels c) = chans \<and> uint (bytes_per_channel c) = bpc \<and>
     byte_order c AND order \<noteq> 0 \<and> ll_protocol c AND 2 \<noteq> 0 \<and>
     ll_mclk_role c AND 1 \<noteq> 0 \<and> ll_bclk_role c AND 1 \<noteq> 0 \<and> ll_wclk_role c AND 1 \<noteq> 0 \<and>
     ll_wclk_polarity c AND 1 \<noteq> 0 \<and> ll_wclk_change_edge c AND 2 \<noteq> 0 \<and>
     ll_wclk_tx_edge c AND 1 \<noteq> 0 \<and> ll_wclk_rx_edge c AND 2 \<noteq> 0 \<and> ll_data_offset c = 1"

fun cfg_search :: "(i2s_configuration \<Rightarrow> bool) \<Rightarrow> nat \<Rightarrow> bytes \<Rightarrow> i2s_configuration option option" where
  "cfg_search suits 0 b = Some None"
| "cfg_search suits (Suc k) b = do { c \<leftarrow> cfg_of b; if suits c then Some (Some c) else cfg_search suits k (drop 24 b) }"

definition chosen_cfg :: "u8 \<Rightarrow> i2s_configuration \<Rightarrow> i2s_configuration" where
  "chosen_cfg order c = c\<lparr>byte_order := order, ll_protocol := 2, ll_mclk_role := 1, ll_bclk_role := 1, ll_wclk_role := 1,
     ll_wclk_polarity := 1, ll_wclk_change_edge := 2, ll_wclk_tx_edge := 1, ll_wclk_rx_edge := 2\<rparr>"

definition gb_i2s_mgmt_set_cfg :: "nat \<Rightarrow> int \<Rightarrow> int \<Rightarrow> int \<Rightarrow> bool \<Rightarrow> audio \<Rightarrow> (int \<times> audio) option" where
  "gb_i2s_mgmt_set_cfg a rate chans bpc is_le w =
     (let order = (if 1 < bpc then if is_le then 4 else 2 else 1) in do {
        s \<leftarrow> snds w a;
        b \<leftarrow> i2s_configs s;
        found \<leftarrow> cfg_search (cfg_suits rate chans bpc order) CONFIG_COUNT_MAX (drop 4 b);
        (case found of None \<Rightarrow> Some (- EINVAL, w)
         | Some c \<Rightarrow> gb_i2s_mgmt_set_configuration (mgmt_connection s) (chosen_cfg order c) w)
      })"

abbreviation (input) MAX_SEND_DATA_LEN :: nat where "MAX_SEND_DATA_LEN \<equiv> 192"
abbreviation (input) SEND_DATA_BUF_LEN :: nat where "SEND_DATA_BUF_LEN \<equiv> 200"

text \<open>
  The loop that fills up a message: \<open>data[len] = data[len - SAMPLE_SIZE]\<close> for the \<open>k\<close> bytes from \<open>len\<close> on. data starts 8
  bytes into the request, so that the index stays inside the request also where \<open>len\<close> is below SAMPLE_SIZE.
\<close>

fun pad_data :: "nat \<Rightarrow> nat \<Rightarrow> bytes \<Rightarrow> bytes option" where
  "pad_data 0 len buf = Some buf"
| "pad_data (Suc k) len buf = do {
     b \<leftarrow> rd8 buf (4 + len);
     buf1 \<leftarrow> wr_bytes buf (8 + len) [b];
     pad_data k (Suc len) buf1
   }"

text \<open>gb_i2s_send_data; \<open>src\<close> is what the source address points to, and the request buffer keeps its contents.\<close>

definition gb_i2s_send_data :: "nat option \<Rightarrow> nat \<Rightarrow> bytes \<Rightarrow> u64 \<Rightarrow> u32 \<Rightarrow> audio \<Rightarrow> (int \<times> audio) option" where
  "gb_i2s_send_data conn a src len sample_num w = do {
     s \<leftarrow> snds w a;
     buf \<leftarrow> send_data_req_buf s;
     buf1 \<leftarrow> wr_bytes buf 0 (cpu_to_le32 sample_num);
     d \<leftarrow> rd_bytes src 0 (unat len);
     buf2 \<leftarrow> wr_bytes buf1 8 d;
     buf3 \<leftarrow> pad_data (MAX_SEND_DATA_LEN - unat len) (unat len) buf2;
     buf4 \<leftarrow> wr_bytes buf3 4 (cpu_to_le32 (if len < 192 then 192 else ucast len));
     req \<leftarrow> rd_bytes buf4 0 SEND_DATA_BUF_LEN;
     ((ret, _), w1) \<leftarrow> sync_on conn 0x02 req 0 (put_snd a (s\<lparr>send_data_req_buf := Some buf4\<rparr>) w);
     Some (ret, w1)
   }"

section \<open>The PCM device\<close>

text \<open>pcm_queue_work on the workqueue of the device, which may be NULL.\<close>

definition pcm_queue_work :: "gb_snd \<Rightarrow> gb_snd option" where
  "pcm_queue_work s = (if workqueue s then Some (s\<lparr>work_pending := True\<rparr>) else None)"

text \<open>
  The first part of gb_pcm_work: switching the cport of the module on or off. The flag says whether the work
  goes on with data.
\<close>

definition pcm_switch :: "nat \<Rightarrow> audio \<Rightarrow> (bool \<times> audio) option" where
  "pcm_switch a w = do {
     s \<leftarrow> snds w a;
     if \<not> running s then
       (if cport_active s then do {
          tx \<leftarrow> i2s_tx_connection s;
          k \<leftarrow> aconns w tx;
          (ret, w1) \<leftarrow> gb_i2s_mgmt_deactivate_cport (mgmt_connection s) (ac_cport k) w;
          s1 \<leftarrow> snds w1 a;
          Some (False, put_snd a (s1\<lparr>cport_active := False, send_data_sample_count := 0\<rparr>) w1)
        } else Some (False, w))
     else if \<not> cport_active s then do {
       tx \<leftarrow> i2s_tx_connection s;
       k \<leftarrow> aconns w tx;
       (ret, w1) \<leftarrow> gb_i2s_mgmt_activate_cport (mgmt_connection s) (ac_cport k) w;
       s1 \<leftarrow> snds w1 a;
       Some (True, put_snd a (s1\<lparr>cport_active := True\<rparr>) w1)
     } else Some (True, w)
   }"

text \<open>How many bytes the next message takes from the ring buffer: a long, compared and limited as one.\<close>

definition pcm_len :: "pcm_substream \<Rightarrow> gb_snd \<Rightarrow> u64" where
  "pcm_len rt s = (let left = (buffer_size rt * ucast (frame_bits rt)) div 8 - scast (hwptr_done s)
                   in if sint left < 192 then left else 192)"

text \<open>
  The accounting of gb_pcm_work behind the transfer. The variable period_elapsed is only set when a period is
  complete; \<open>junk\<close> is what it holds otherwise. A frame of less than 8 bits divides by 0.
\<close>

definition pcm_account :: "bool \<Rightarrow> pcm_substream \<Rightarrow> u64 \<Rightarrow> gb_snd \<Rightarrow> gb_snd option" where
  "pcm_account junk rt len s =
     (let stride = drop_bit 3 (frame_bits rt) in
      if stride = 0 then None
      else
        let s1 = s\<lparr>send_data_sample_count := send_data_sample_count s + 48\<rparr>;
            oldptr = hwptr_done s1;
            p1 = (ucast ((scast oldptr :: u64) + len) :: u32);
            bytes = buffer_size rt * ucast stride;
            p2 = (if bytes \<le> (scast p1 :: u64) then ucast ((scast p1 :: u64) - bytes) else p1);
            frames = (ucast ((len + ucast (oldptr mod stride)) div ucast stride) :: u32);
            t1 = transfer_done s1 + frames;
            wrap = (period_size rt \<le> (scast t1 :: u64));
            t2 = (if wrap then ucast ((scast t1 :: u64) - period_size rt) else t1)
        in Some (s1\<lparr>hwptr_done := p2, transfer_done := t2, elapsed := elapsed s1 + (if wrap \<or> junk then 1 else 0)\<rparr>))"

definition gb_pcm_work :: "bool \<Rightarrow> nat \<Rightarrow> audio \<Rightarrow> audio option" where
  "gb_pcm_work junk a w0 = do {
     s0 \<leftarrow> snds w0 a;
     let w = put_snd a (s0\<lparr>work_pending := False\<rparr>) w0;
     st \<leftarrow> substream s0;
     rt \<leftarrow> streams w st;
     (go, w1) \<leftarrow> pcm_switch a w;
     if \<not> go then Some w1
     else do {
       s \<leftarrow> snds w1 a;
       let len = pcm_len rt s;
       if sint (hwptr_done s) < 0 \<or> length (dma_area rt) < unat (hwptr_done s) then None else do {
         (ret, w2) \<leftarrow> gb_i2s_send_data (i2s_tx_connection s) a (drop (unat (hwptr_done s)) (dma_area rt)) len
                       (ucast (send_data_sample_count s)) w1;
         s2 \<leftarrow> snds w2 a;
         s3 \<leftarrow> pcm_account junk rt len s2;
         Some (put_snd a s3 w2)
       }
     }
   }"

definition gb_pcm_timer_function :: "nat \<Rightarrow> audio \<Rightarrow> audio option" where
  "gb_pcm_timer_function a w = do {
     s \<leftarrow> snds w a;
     if \<not> running s then Some (put_snd a (s\<lparr>timer_on := False\<rparr>) w)
     else do { s1 \<leftarrow> pcm_queue_work s; Some (put_snd a (s1\<lparr>timer_on := True\<rparr>) w) }
   }"

definition gb_pcm_hrtimer_start :: "nat \<Rightarrow> audio \<Rightarrow> audio option" where
  "gb_pcm_hrtimer_start a w = do {
     s \<leftarrow> snds w a;
     s1 \<leftarrow> pcm_queue_work (s\<lparr>running := True\<rparr>);
     Some (put_snd a (s1\<lparr>timer_on := True\<rparr>) w)
   }"

definition gb_pcm_hrtimer_stop :: "nat \<Rightarrow> audio \<Rightarrow> audio option" where
  "gb_pcm_hrtimer_stop a w = do {
     s \<leftarrow> snds w a;
     s1 \<leftarrow> pcm_queue_work (s\<lparr>running := False, timer_on := False\<rparr>);
     Some (put_snd a s1 w)
   }"

definition gb_pcm_hrtimer_init :: "nat \<Rightarrow> audio \<Rightarrow> (int \<times> audio) option" where
  "gb_pcm_hrtimer_init a w = (case kcall w of (ans, w1) \<Rightarrow> do {
     s \<leftarrow> snds w1 a;
     let s1 = s\<lparr>timer_on := False, running := False, workqueue := 0 \<le> ans\<rparr>;
     if ans < 0 then Some (- ENOMEM, put_snd a s1 w1)
     else Some (0, (put_snd a (s1\<lparr>work_pending := False\<rparr>) w1)\<lparr>workqueues := workqueues w1 + 1\<rparr>)
   })"

definition gb_pcm_pointer :: "nat \<Rightarrow> nat \<Rightarrow> audio \<Rightarrow> u32 option" where
  "gb_pcm_pointer a st w = do {
     s \<leftarrow> snds w a;
     rt \<leftarrow> streams w st;
     let stride = drop_bit 3 (frame_bits rt);
     if stride = 0 then None else Some (hwptr_done s div stride)
   }"

definition gb_pcm_prepare :: "nat \<Rightarrow> audio \<Rightarrow> (int \<times> audio) option" where
  "gb_pcm_prepare a w = do { s \<leftarrow> snds w a; Some (0, put_snd a (s\<lparr>hwptr_done := 0, transfer_done := 0\<rparr>) w) }"

text \<open>gb_pcm_open of the substream \<open>st\<close>: the last two answers are those of the constraints.\<close>

definition gb_pcm_open :: "nat \<Rightarrow> nat \<Rightarrow> audio \<Rightarrow> (int \<times> audio) option" where
  "gb_pcm_open a st w = do {
     rt \<leftarrow> streams w st;
     s \<leftarrow> snds w a;
     let w1 = (put_snd a (s\<lparr>substream := Some st\<rparr>) w)\<lparr>streams := (streams w)(st \<mapsto> rt\<lparr>rt_private := Some a\<rparr>)\<rparr>;
     (ret, w2) \<leftarrow> gb_pcm_hrtimer_init a w1;
     if ret \<noteq> 0 then Some (ret, w2)
     else (case kcall w2 of (ret1, w3) \<Rightarrow>
       if ret1 < 0 then Some (ret1, w3) else Some (kcall w3))
   }"

definition gb_pcm_close :: "nat \<Rightarrow> audio \<Rightarrow> (int \<times> audio) option" where
  "gb_pcm_close st w = do { rt \<leftarrow> streams w st; Some (0, w\<lparr>streams := (streams w)(st \<mapsto> rt\<lparr>rt_private := None\<rparr>)\<rparr>) }"

text \<open>gb_pcm_hw_params; \<open>width\<close> and \<open>is_le\<close> describe the format, the last answer is that of snd_pcm_lib_malloc_pages.\<close>

definition gb_pcm_hw_params :: "nat \<Rightarrow> int \<Rightarrow> int \<Rightarrow> int \<Rightarrow> bool \<Rightarrow> audio \<Rightarrow> (int \<times> audio) option" where
  "gb_pcm_hw_params a rate chans width is_le w = do {
     (ret, w1) \<leftarrow> gb_i2s_mgmt_set_cfg a rate chans (width div 8) is_le w;
     Some (if ret \<noteq> 0 then (ret, w1) else kcall w1)
   }"

definition gb_pcm_hw_free :: "audio \<Rightarrow> int \<times> audio" where
  "gb_pcm_hw_free w = kcall w"

datatype trigger = TRIGGER_START | TRIGGER_STOP | TRIGGER_OTHER

definition gb_dai_trigger :: "nat \<Rightarrow> trigger \<Rightarrow> audio \<Rightarrow> (int \<times> audio) option" where
  "gb_dai_trigger a cmd w = (case cmd of
     TRIGGER_START \<Rightarrow> do { w1 \<leftarrow> gb_pcm_hrtimer_start a w; Some (0, w1) }
   | TRIGGER_STOP \<Rightarrow> do { w1 \<leftarrow> gb_pcm_hrtimer_stop a w; Some (0, w1) }
   | TRIGGER_OTHER \<Rightarrow> Some (- EINVAL, w))"

text \<open>The probe and remove functions of the two platform drivers.\<close>

definition gb_plat_probe :: "nat \<Rightarrow> audio \<Rightarrow> int \<times> audio" where
  "gb_plat_probe a w = (case kcall w of (ret, w1) \<Rightarrow> (ret, if ret = 0 then w1\<lparr>components := insert a (components w1)\<rparr> else w1))"

definition gb_plat_remove :: "nat \<Rightarrow> audio \<Rightarrow> int \<times> audio" where
  "gb_plat_remove a w = (0, w\<lparr>components := components w - {a}\<rparr>)"

definition gb_soc_platform_probe :: "nat \<Rightarrow> audio \<Rightarrow> int \<times> audio" where
  "gb_soc_platform_probe d w = (case kcall w of (ret, w1) \<Rightarrow> (ret, if ret = 0 then w1\<lparr>platforms := insert d (platforms w1)\<rparr> else w1))"

definition gb_soc_platform_remove :: "nat \<Rightarrow> audio \<Rightarrow> int \<times> audio" where
  "gb_soc_platform_remove d w = (0, w\<lparr>platforms := platforms w - {d}\<rparr>)"

section \<open>Devices and connections\<close>

fun find_snd :: "(nat \<Rightarrow> gb_snd option) \<Rightarrow> int \<Rightarrow> nat list \<Rightarrow> nat option option" where
  "find_snd st b [] = Some None"
| "find_snd st b (a # as) = do { s \<leftarrow> st a; if gb_bundle_id s = b then Some (Some a) else find_snd st b as }"

definition gb_find_snd :: "int \<Rightarrow> audio \<Rightarrow> nat option option" where
  "gb_find_snd b w = find_snd (snds w) b (gb_snd_list w)"

definition gb_get_snd :: "int \<Rightarrow> audio \<Rightarrow> (nat option \<times> audio) option" where
  "gb_get_snd b w = do {
     found \<leftarrow> gb_find_snd b w;
     Some (case found of Some a \<Rightarrow> (Some a, w)
       | None \<Rightarrow> (case kcall w of (mem, w1) \<Rightarrow>
           if mem < 0 then (None, w1)
           else let a = snd_next w1
                in (Some a, w1\<lparr>snds := (snds w1)(a \<mapsto> blank_snd (device_count w1) b), snd_next := a + 1,
                     device_count := device_count w1 + 1, gb_snd_list := a # gb_snd_list w1\<rparr>)))
   }"

definition gb_free_snd :: "nat \<Rightarrow> audio \<Rightarrow> audio option" where
  "gb_free_snd a w = do {
     s \<leftarrow> snds w a;
     Some (if i2s_tx_connection s = None \<and> mgmt_connection s = None
           then w\<lparr>gb_snd_list := remove1 a (gb_snd_list w), snds := (snds w)(a := None)\<rparr>
           else w)
   }"

definition platform_device_register_simple :: "audio \<Rightarrow> dev_ptr \<times> audio" where
  "platform_device_register_simple w = (case kcall w of (ans, w1) \<Rightarrow>
     if ans = 0 then (Null, w1) else if ans < 0 then (Err ans, w1)
     else (Ptr (ncalls w1), w1\<lparr>live_devs := insert (Simple (ncalls w1)) (live_devs w1)\<rparr>))"

text \<open>Registering a device structure that is registered, or unregistering one that is not, corrupts the lists of the kernel.\<close>

definition platform_device_register :: "dev \<Rightarrow> audio \<Rightarrow> (int \<times> audio) option" where
  "platform_device_register d w =
     (if d \<in> live_devs w then None
      else case kcall w of (ret, w1) \<Rightarrow> Some (ret, if ret = 0 then w1\<lparr>live_devs := insert d (live_devs w1)\<rparr> else w1))"

definition unregister_dev :: "dev \<Rightarrow> audio \<Rightarrow> audio option" where
  "unregister_dev d w = (if d \<in> live_devs w then Some (w\<lparr>live_devs := live_devs w - {d}\<rparr>) else None)"

definition platform_device_unregister :: "dev_ptr \<Rightarrow> audio \<Rightarrow> audio option" where
  "platform_device_unregister p w = (case p of Null \<Rightarrow> Some w | Err e \<Rightarrow> None | Ptr d \<Rightarrow> unregister_dev (Simple d) w)"

text \<open>setup_card_info; the strings it prints into the object have no influence on the driver.\<close>

definition setup_card_info :: "audio \<Rightarrow> nat option \<times> audio" where
  "setup_card_info w = (case kcall w of (mem, w1) \<Rightarrow>
     if mem < 0 then (None, w1) else (Some (ncalls w1), w1\<lparr>card_infos := insert (ncalls w1) (card_infos w1)\<rparr>))"

definition free_card_info :: "nat option \<Rightarrow> audio \<Rightarrow> audio option" where
  "free_card_info ci w = do {
     i \<leftarrow> ci;
     if i \<in> card_infos w then Some (w\<lparr>card_infos := card_infos w - {i}\<rparr>) else None
   }"

text \<open>The labels of gb_i2s_transmitter_connection_init.\<close>

definition tx_out :: "nat \<Rightarrow> int \<Rightarrow> audio \<Rightarrow> (int \<times> audio) option" where
  "tx_out a ret w = do { w1 \<leftarrow> gb_free_snd a w; Some (ret, w1) }"

definition tx_out_dai :: "nat \<Rightarrow> dev_ptr \<Rightarrow> int \<Rightarrow> audio \<Rightarrow> (int \<times> audio) option" where
  "tx_out_dai a codec ret w = do { w1 \<leftarrow> platform_device_unregister codec w; tx_out a ret w1 }"

definition tx_out_card :: "nat \<Rightarrow> dev_ptr \<Rightarrow> int \<Rightarrow> audio \<Rightarrow> (int \<times> audio) option" where
  "tx_out_card a codec ret w = do { w1 \<leftarrow> unregister_dev (Cpu_dai a) w; tx_out_dai a codec ret w1 }"

definition gb_i2s_transmitter_connection_init :: "nat \<Rightarrow> audio \<Rightarrow> (int \<times> audio) option" where
  "gb_i2s_transmitter_connection_init c w = do {
     k \<leftarrow> aconns w c;
     (sp, w1) \<leftarrow> gb_get_snd (ac_bundle k) w;
     (case sp of None \<Rightarrow> Some (- ENOMEM, w1)
      | Some a \<Rightarrow>
         (case platform_device_register_simple w1 of (codec, w2) \<Rightarrow>
          if codec = Null then tx_out a (- ENOMEM) w2
          else case platform_device_register_simple w2 of (dai, w3) \<Rightarrow>
          if dai = Null then tx_out a (- ENOMEM) w3
          else case setup_card_info w3 of (ci, w4) \<Rightarrow>
          if ci = None then tx_out a (- ENOMEM) w4
          else do {
            s \<leftarrow> snds w4 a;
            let w5 = put_conn c (k\<lparr>ac_private := Some a\<rparr>)
                       (put_snd a (s\<lparr>simple_card_info := ci, snd_codec := codec, i2s_tx_connection := Some c\<rparr>) w4);
            (ret, w6) \<leftarrow> platform_device_register (Cpu_dai a) w5;
            if ret \<noteq> 0 then tx_out_dai a codec ret w6
            else do {
              (ret1, w7) \<leftarrow> platform_device_register (Card a) w6;
              if ret1 \<noteq> 0 then tx_out_card a codec ret1 w7 else Some (0, w7)
            }
          }))
   }"

definition gb_i2s_transmitter_connection_exit :: "nat \<Rightarrow> audio \<Rightarrow> audio option" where
  "gb_i2s_transmitter_connection_exit c w = do {
     k \<leftarrow> aconns w c;
     a \<leftarrow> ac_private k;
     s \<leftarrow> snds w a;
     w1 \<leftarrow> unregister_dev (Card a) w;
     w2 \<leftarrow> unregister_dev (Cpu_dai a) w1;
     w3 \<leftarrow> platform_device_unregister (snd_codec s) w2;
     w4 \<leftarrow> free_card_info (simple_card_info s) w3;
     gb_free_snd a (put_snd a (s\<lparr>i2s_tx_connection := None\<rparr>) w4)
   }"

definition gb_i2s_mgmt_connection_init :: "nat \<Rightarrow> audio \<Rightarrow> (int \<times> audio) option" where
  "gb_i2s_mgmt_connection_init c w = do {
     k \<leftarrow> aconns w c;
     (sp, w1) \<leftarrow> gb_get_snd (ac_bundle k) w;
     (case sp of None \<Rightarrow> Some (- ENOMEM, w1)
      | Some a \<Rightarrow> do {
          s \<leftarrow> snds w1 a;
          let w2 = put_conn c (k\<lparr>ac_private := Some a\<rparr>) (put_snd a (s\<lparr>mgmt_connection := Some c\<rparr>) w1);
          (ret, w3) \<leftarrow> gb_i2s_mgmt_get_cfgs a c w2;
          if ret \<noteq> 0 then tx_out a ret w3
          else do {
            (ret1, w4) \<leftarrow> gb_i2s_mgmt_set_samples_per_message (Some c) 48 w3;
            if ret1 \<noteq> 0 then do { w5 \<leftarrow> gb_i2s_mgmt_free_cfgs a w4; tx_out a ret1 w5 }
            else case kcall w4 of (mem, w5) \<Rightarrow> do {
              s5 \<leftarrow> snds w5 a;
              let w6 = put_snd a (s5\<lparr>send_data_req_buf := if mem < 0 then None else Some (replicate SEND_DATA_BUF_LEN 0)\<rparr>) w5;
              if mem < 0 then do { w7 \<leftarrow> gb_i2s_mgmt_free_cfgs a w6; tx_out a (- ENOMEM) w7 }
              else Some (0, w6)
            }
          }
        })
   }"

definition gb_i2s_mgmt_connection_exit :: "nat \<Rightarrow> audio \<Rightarrow> audio option" where
  "gb_i2s_mgmt_connection_exit c w = do {
     k \<leftarrow> aconns w c;
     a \<leftarrow> ac_private k;
     w1 \<leftarrow> gb_i2s_mgmt_free_cfgs a w;
     s \<leftarrow> snds w1 a;
     gb_free_snd a (put_snd a (s\<lparr>send_data_req_buf := None, mgmt_connection := None\<rparr>) w1)
   }"

text \<open>gb_i2s_mgmt_report_event_recv: the known events are only printed.\<close>

definition gb_i2s_mgmt_report_event_recv :: "u8 \<Rightarrow> gb_operation \<Rightarrow> int option" where
  "gb_i2s_mgmt_report_event_recv ty op =
     (if ty \<noteq> 0x09 then Some (- EINVAL)
      else if payload_size (request op) < 1 then Some (- EINVAL)
      else do {
        ev \<leftarrow> rd8 (buffer (request op)) HDR_SIZE;
        Some (if 1 \<le> ev \<and> ev \<le> 0x0a then 0 else - EINVAL)
      })"

interpretation i2s_cfg: wire_format 24 cfg_bytes cfg_of
  by unfold_locales (auto simp: cfg_bytes_def cfg_of_def cpu_to_le32_def nth_append)

end
