(* ===== verification/GB_Audio_Props.thy ===== *)
theory GB_Audio_Props
  imports GB_Audio
begin

text \<open>
  What the audio driver promises: a playing stream sends the ring buffer of ALSA byte for byte, in order and around
  its end, and reports every period; a configuration is sent exactly when the module offers one that suits;
  and what is left behind when a connection cannot be set up.
\<close>

section \<open>Sending the ring buffer\<close>

lemma sint_of_nat32: "n < 2147483648 \<Longrightarrow> sint (of_nat n :: u32) = int n"
  by (simp add: signed_of_nat signed_take_bit_int_eq_self)


lemma sint_small: "unat (x :: u32) < 2147483648 \<Longrightarrow> sint x = int (unat x)"
  using sint_of_nat32 [of "unat x"] by simp

lemma scast_small: "unat (x :: u32) < 2147483648 \<Longrightarrow> (scast x :: u64) = of_nat (unat x)"
proof -
  assume "unat x < 2147483648"
  then have "sint x = int (unat x)" by (rule sint_small)
  then have "(of_int (sint x) :: u64) = of_nat (unat x)" by simp
  then show ?thesis by simp
qed













lemma ucast_of_nat_u64: "n < 4294967296 \<Longrightarrow> (ucast (of_nat n :: u64) :: u32) = of_nat n"
  by (rule word_unat_eq_iff [THEN iffD2]) (simp add: unsigned_ucast_eq unsigned_of_nat take_bit_nat_eq_self)

lemma scast_of_nat: "n < 2147483648 \<Longrightarrow> (scast (of_nat n :: u32) :: u64) = of_nat n"
  using scast_small [of "of_nat n"] by (simp add: unat_of_nat_u32)





















text \<open>
  The driver declares a minimum of 32 bytes for a period, which is 8 frames of two channels. A message then completes
  six periods, but reports one, and the count of transferred frames grows by 40 with every message.
\<close>

lemma audio_short_period:
  assumes "frame_bits rt = 32" "period_size rt = 8" "unat (transfer_done s) < 2147483600" "hwptr_done s = 0" "1000 < buffer_size rt"
    "buffer_size rt < 2000"
  shows "case pcm_account False rt 192 s of None \<Rightarrow> False
    | Some s' \<Rightarrow> elapsed s' = elapsed s + 1 \<and> unat (transfer_done s') = unat (transfer_done s) + 40"
proof -
  let ?t = "unat (transfer_done s)"
  have b: "\<not> buffer_size rt * 4 \<le> 192"
  proof -
    have "buffer_size rt * 4 = of_nat (unat (buffer_size rt) * 4)" by simp
    then have "unat (buffer_size rt * 4) = unat (buffer_size rt) * 4"
      using assms(6) unat_of_nat_u64 [of "unat (buffer_size rt) * 4"] by (simp add: word_less_nat_alt)
    then show ?thesis using assms(5) by (simp add: word_le_nat_alt word_less_nat_alt)
  qed
  have t1: "transfer_done s + 48 = of_nat (?t + 48)" by simp
  have sc: "(scast (of_nat (?t + 48) :: u32) :: u64) = of_nat (?t + 48)" by (rule scast_of_nat) (use assms(3) in simp)
  have le: "(8 :: u64) \<le> of_nat (?t + 48)" using assms(3) unat_of_nat_u64 [of "?t + 48"] by (simp add: word_le_nat_alt)
  have "(of_nat (?t + 48) :: u64) - 8 = of_nat (?t + 40)" by simp
  moreover have "(ucast (of_nat (?t + 40) :: u64) :: u32) = of_nat (?t + 40)" by (rule ucast_of_nat_u64) (use assms(3) in simp)
  ultimately have t2: "(ucast ((of_nat (?t + 48) :: u64) - 8) :: u32) = of_nat (?t + 40)" by (simp only:)
  have "unat (of_nat (?t + 40) :: u32) = ?t + 40" by (rule unat_of_nat_u32) (use assms(3) in simp)
  then show ?thesis using b
    by (simp add: pcm_account_def Let_def assms(1,2,4) t1 sc le t2 del: of_nat_add)
qed

section \<open>Choosing a configuration\<close>









section \<open>Setting up and taking down\<close>

text \<open>gb_free_snd keeps what a connection still points to.\<close>

lemma tx_out_kept: "snds w a = Some s \<Longrightarrow> mgmt_connection s \<noteq> None \<Longrightarrow> tx_out a ret w = Some (ret, w)"
  by (auto simp: tx_out_def gb_free_snd_def)

lemma get_cfgs_fails:
  assumes "gb_i2s_mgmt_get_cfgs a c w = Some (ret, w')" "ret \<noteq> 0"
  shows "snds w' = snds w \<and> gb_snd_list w' = gb_snd_list w"
  using assms
  by (auto simp: gb_i2s_mgmt_get_cfgs_def kcall_def gb_i2s_mgmt_get_supported_configurations_def sync_on_def gb_sync_def Let_def
      split: if_splits bind_splits)

lemma sync_on_keeps: "sync_on conn ty req n w = Some (r, w') \<Longrightarrow> snds w' = snds w \<and> gb_snd_list w' = gb_snd_list w \<and> aconns w' = aconns w \<and>
   live_devs w' = live_devs w \<and> card_infos w' = card_infos w \<and> snd_next w' = snd_next w \<and> ncalls w' = ncalls w + 1"
  by (auto simp: sync_on_def gb_sync_def Let_def split: bind_splits)

text \<open>A request that is answered with success keeps everything but the log.\<close>

lemma set_samples_keeps:
  assumes "gb_i2s_mgmt_set_samples_per_message conn k w = Some (ret, w')"
  shows "snds w' = snds w" "gb_snd_list w' = gb_snd_list w" "aconns w' = aconns w" "live_devs w' = live_devs w"
    "card_infos w' = card_infos w" "snd_next w' = snd_next w"
  using assms sync_on_keeps by (auto simp: gb_i2s_mgmt_set_samples_per_message_def split: bind_splits prod.splits)

lemma get_cfgs_succeeds:
  assumes "gb_i2s_mgmt_get_cfgs a c w = Some (0, w')" "snds w a = Some s"
  obtains b where "snds w' = (snds w)(a \<mapsto> s\<lparr>i2s_configs := Some b\<rparr>)" "gb_snd_list w' = gb_snd_list w" "aconns w' = aconns w"
    "live_devs w' = live_devs w" "card_infos w' = card_infos w" "snd_next w' = snd_next w"
proof -
  have "\<exists>b. snds w' = (snds w)(a \<mapsto> s\<lparr>i2s_configs := Some b\<rparr>) \<and> gb_snd_list w' = gb_snd_list w \<and> aconns w' = aconns w \<and>
      live_devs w' = live_devs w \<and> card_infos w' = card_infos w \<and> snd_next w' = snd_next w"
    using assms
    by (auto simp: gb_i2s_mgmt_get_cfgs_def kcall_def gb_i2s_mgmt_get_supported_configurations_def sync_on_def gb_sync_def Let_def put_snd_def
        split: if_splits bind_splits)
  then show ?thesis using that by blast
qed

lemma mgmt_init_fails:
  assumes "aconns w m = Some k" "gb_get_snd (ac_bundle k) w = Some (Some a, w1)" "snds w1 a = Some s" "i2s_configs s = None"
    "gb_i2s_mgmt_connection_init m w = Some (ret, w')" "ret \<noteq> 0"
  shows "\<exists>s'. snds w' a = Some s' \<and> mgmt_connection s' = Some m \<and> i2s_configs s' = None \<and> gb_snd_list w' = gb_snd_list w1"
proof -
  let ?s = "s\<lparr>mgmt_connection := Some m\<rparr>"
  let ?w2 = "put_conn m (k\<lparr>ac_private := Some a\<rparr>) (put_snd a ?s w1)"
  note u = assms(1-3) assms(5) [unfolded gb_i2s_mgmt_connection_init_def Let_def]
  obtain r3 w3 where g: "gb_i2s_mgmt_get_cfgs a m ?w2 = Some (r3, w3)" using u by (cases "gb_i2s_mgmt_get_cfgs a m ?w2") auto
  have s2: "snds ?w2 a = Some ?s" "gb_snd_list ?w2 = gb_snd_list w1" by (simp_all add: put_conn_def put_snd_def)
  show ?thesis
  proof (cases "r3 = 0")
    case False
    then have k: "snds w3 a = Some ?s" "gb_snd_list w3 = gb_snd_list w1" using get_cfgs_fails [OF g] s2 by simp_all
    then have "w' = w3" using u g False tx_out_kept [OF k(1), of r3] by simp
    then show ?thesis using k assms(4) by simp
  next
    case True
    obtain b where b: "snds w3 a = Some (?s\<lparr>i2s_configs := Some b\<rparr>)" "gb_snd_list w3 = gb_snd_list w1"
      using get_cfgs_succeeds [OF g [unfolded True] s2(1)] s2(2) by (metis fun_upd_same)
    obtain r4 w4 where q: "gb_i2s_mgmt_set_samples_per_message (Some m) 48 w3 = Some (r4, w4)"
      using u g True by (cases "gb_i2s_mgmt_set_samples_per_message (Some m) 48 w3") auto
    note k = set_samples_keeps [OF q]
    show ?thesis
      using u g True q b k assms(6)
      by (auto simp: kcall_def gb_i2s_mgmt_free_cfgs_def put_snd_def tx_out_def gb_free_snd_def split: if_splits)
  qed
qed

text \<open>
  C38 When the management connection of an audio bundle cannot be set up (the module does not answer the question for its
  configurations or refuses the number of samples, or memory is short), the error is returned but the device stays in the list and keeps the
  pointer to the connection, which its owner now destroys; and the first program that sets up a stream on this
  device makes the driver read the configurations through a NULL pointer.
\<close>

theorem audio_failed_mgmt_faults:
  assumes "aconns w m = Some k" "gb_get_snd (ac_bundle k) w = Some (Some a, w1)" "snds w1 a = Some s" "i2s_configs s = None"
    "gb_i2s_mgmt_connection_init m w = Some (ret, w')" "ret \<noteq> 0"
  shows "gb_snd_list w' = gb_snd_list w1 \<and> (case snds w' a of None \<Rightarrow> False | Some s' \<Rightarrow> mgmt_connection s' = Some m) \<and>
    gb_pcm_hw_params a rate chans width is_le w' = None"
  using mgmt_init_fails [OF assms] by (auto simp: gb_pcm_hw_params_def gb_i2s_mgmt_set_cfg_def Let_def)

text \<open>A module that does not know the question for its configurations.\<close>

definition demo_mute :: audio where
  "demo_mute = \<lparr>replies = \<lambda>i. if i = 2 then (- 71, []) else (0, []), ncalls = 0, sent = [], snds = Map.empty, snd_next = 1, gb_snd_list = [],
     device_count = 0, aconns = [6 \<mapsto> \<lparr>ac_bundle = 5, ac_cport = 2, ac_private = None\<rparr>],
     streams = Map.empty, live_devs = {}, card_infos = {}, components = {}, platforms = {}, workqueues = 0, via = []\<rparr>"

lemma case_Some2D: "(case x of None \<Rightarrow> False | Some (r, w) \<Rightarrow> P r w) \<Longrightarrow> \<exists>r w. x = Some (r, w) \<and> P r w"
  by (auto split: option.splits)

theorem audio_failed_mgmt_faults_witness:
  "\<exists>w'. gb_i2s_mgmt_connection_init 6 demo_mute = Some (- 71, w') \<and> gb_snd_list w' = [1] \<and> gb_pcm_hw_params 1 48000 2 16 True w' = None"
proof -
  have "case gb_i2s_mgmt_connection_init 6 demo_mute of None \<Rightarrow> False | Some (ret, w') \<Rightarrow> ret = - 71"
    by code_simp
  then obtain w' where i: "gb_i2s_mgmt_connection_init 6 demo_mute = Some (- 71, w')" by (blast dest: case_Some2D)
  have "case gb_get_snd 5 demo_mute of None \<Rightarrow> False | Some (sp, w1) \<Rightarrow> sp = Some 1 \<and> snds w1 1 = Some (blank_snd 0 5) \<and> gb_snd_list w1 = [1]"
    by code_simp
  then obtain w1 where g: "gb_get_snd 5 demo_mute = Some (Some 1, w1)" "snds w1 1 = Some (blank_snd 0 5)" "gb_snd_list w1 = [1]"
    by (blast dest: case_Some2D)
  have c: "aconns demo_mute 6 = Some \<lparr>ac_bundle = 5, ac_cport = 2, ac_private = None\<rparr>" by (simp add: demo_mute_def)
  have "gb_snd_list w' = gb_snd_list w1 \<and> gb_pcm_hw_params 1 48000 2 16 True w' = None"
    using audio_failed_mgmt_faults [OF c _ g(2) _ i, of 48000 2 16 True] g(1) by (simp add: blank_snd_def)
  then show ?thesis using i g(3) by simp
qed

fun ptr_devs :: "dev_ptr \<Rightarrow> dev set" where
  "ptr_devs (Ptr n) = {Simple n}"
| "ptr_devs _ = {}"

lemma get_snd_new:
  assumes "gb_find_snd b w = Some None" "gb_get_snd b w = Some (Some a, w1)"
  shows "a = snd_next w \<and> w1 = w\<lparr>ncalls := ncalls w + 1, snds := (snds w)(a \<mapsto> blank_snd (device_count w) b), snd_next := a + 1,
    device_count := device_count w + 1, gb_snd_list := a # gb_snd_list w\<rparr>"
  using assms by (auto simp: gb_get_snd_def kcall_def Let_def split: if_splits)

text \<open>The pointer that the kernel's answer stands for.\<close>

definition simple_ptr :: "(nat \<Rightarrow> int \<times> bytes) \<Rightarrow> nat \<Rightarrow> dev_ptr" where
  "simple_ptr r i = (if fst (r i) = 0 then Null else if fst (r i) < 0 then Err (fst (r i)) else Ptr (i + 1))"

lemma register_simple_effect:
  "platform_device_register_simple w = (simple_ptr (replies w) (ncalls w),
     w\<lparr>ncalls := ncalls w + 1, live_devs := ptr_devs (simple_ptr (replies w) (ncalls w)) \<union> live_devs w\<rparr>)"
  by (simp add: platform_device_register_simple_def kcall_def simple_ptr_def)

lemma tx_init_effect:
  assumes "aconns w c = Some k" "gb_find_snd (ac_bundle k) w = Some None" "gb_i2s_transmitter_connection_init c w = Some (0, w1)"
  defines "a \<equiv> snd_next w" and "codec \<equiv> simple_ptr (replies w) (ncalls w + 1)" and "dai \<equiv> simple_ptr (replies w) (ncalls w + 2)"
  shows "snds w1 = (snds w)(a \<mapsto> (blank_snd (device_count w) (ac_bundle k))
       \<lparr>simple_card_info := Some (ncalls w + 4), snd_codec := codec, i2s_tx_connection := Some c\<rparr>)"
    "aconns w1 = (aconns w)(c \<mapsto> k\<lparr>ac_private := Some a\<rparr>)" "gb_snd_list w1 = a # gb_snd_list w"
    "live_devs w1 = {Card a, Cpu_dai a} \<union> ptr_devs dai \<union> ptr_devs codec \<union> live_devs w" "Card a \<notin> live_devs w" "Cpu_dai a \<notin> live_devs w"
    "card_infos w1 = insert (ncalls w + 4) (card_infos w)"
proof -
  obtain sp w2 where g: "gb_get_snd (ac_bundle k) w = Some (sp, w2)"
    using assms(2) by (metis (no_types, lifting) bind.bind_lunit gb_get_snd_def surj_pair)
  note u = assms(1) g assms(3) [unfolded gb_i2s_transmitter_connection_init_def]
  have sp: "sp = Some a" using u get_snd_new [OF assms(2)] g by (cases sp) (auto simp: a_def)
  note w2 = get_snd_new [OF assms(2) g [unfolded sp], THEN conjunct2]
  let ?w3 = "w2\<lparr>ncalls := ncalls w2 + 1, live_devs := ptr_devs codec \<union> live_devs w2\<rparr>"
  let ?w4 = "?w3\<lparr>ncalls := ncalls ?w3 + 1, live_devs := ptr_devs dai \<union> live_devs ?w3\<rparr>"
  have c: "platform_device_register_simple w2 = (codec, ?w3)" by (simp add: register_simple_effect codec_def w2)
  have d: "platform_device_register_simple ?w3 = (dai, ?w4)" by (simp add: register_simple_effect dai_def w2)
  have tail: "tx_out x r v = Some (0, w1) \<Longrightarrow> r = 0" for x r v by (auto simp: tx_out_def split: bind_splits)
  have tail2: "tx_out_dai x q r v = Some (0, w1) \<Longrightarrow> r = 0" "tx_out_card x q r v = Some (0, w1) \<Longrightarrow> r = 0" for x q r v
    using tail by (auto simp: tx_out_dai_def tx_out_card_def split: bind_splits)
  have cn: "codec \<noteq> Null" using u sp c tail [of a "- ENOMEM" ?w3] by auto
  have dn: "dai \<noteq> Null" using u sp c d cn tail [of a "- ENOMEM" ?w4] by auto
  obtain ci w5 where ci: "setup_card_info ?w4 = (ci, w5)" by (metis surj_pair)
  have "ci \<noteq> None" using u sp c d cn dn ci tail [of a "- ENOMEM" w5] by (cases ci) auto
  then have w5: "ci = Some (ncalls ?w4 + 1)" "w5 = ?w4\<lparr>ncalls := ncalls ?w4 + 1, card_infos := insert (ncalls ?w4 + 1) (card_infos ?w4)\<rparr>"
    using ci by (auto simp: setup_card_info_def kcall_def split: if_splits)
  let ?s = "(blank_snd (device_count w) (ac_bundle k))\<lparr>simple_card_info := ci, snd_codec := codec, i2s_tx_connection := Some c\<rparr>"
  let ?w6 = "put_conn c (k\<lparr>ac_private := Some a\<rparr>) (put_snd a ?s w5)"
  have s5: "snds w5 a = Some (blank_snd (device_count w) (ac_bundle k))" by (simp add: w5 w2)
  have "do { (ret, w6) \<leftarrow> platform_device_register (Cpu_dai a) ?w6;
      if ret \<noteq> 0 then tx_out_dai a codec ret w6
      else do { (ret1, w7) \<leftarrow> platform_device_register (Card a) w6; if ret1 \<noteq> 0 then tx_out_card a codec ret1 w7 else Some (0, w7) } } = Some (0, w1)"
    using u sp c d cn dn ci \<open>ci \<noteq> None\<close> s5 by (simp add: Let_def del: not_None_eq)
  then obtain w6 where r6: "platform_device_register (Cpu_dai a) ?w6 = Some (0, w6)" "platform_device_register (Card a) w6 = Some (0, w1)"
    using tail2 by (auto split: bind_splits if_splits)
  have r: "Cpu_dai a \<notin> live_devs ?w6" "w6 = ?w6\<lparr>ncalls := ncalls ?w6 + 1, live_devs := insert (Cpu_dai a) (live_devs ?w6)\<rparr>"
      "Card a \<notin> live_devs w6" "w1 = w6\<lparr>ncalls := ncalls w6 + 1, live_devs := insert (Card a) (live_devs w6)\<rparr>"
    using r6 by (auto simp: platform_device_register_def kcall_def split: if_splits)
  show "snds w1 = (snds w)(a \<mapsto> (blank_snd (device_count w) (ac_bundle k))
       \<lparr>simple_card_info := Some (ncalls w + 4), snd_codec := codec, i2s_tx_connection := Some c\<rparr>)"
    "aconns w1 = (aconns w)(c \<mapsto> k\<lparr>ac_private := Some a\<rparr>)" "gb_snd_list w1 = a # gb_snd_list w"
    "live_devs w1 = {Card a, Cpu_dai a} \<union> ptr_devs dai \<union> ptr_devs codec \<union> live_devs w"
    "card_infos w1 = insert (ncalls w + 4) (card_infos w)"
    by (auto simp: r(2,4) put_conn_def put_snd_def w5 w2 a_def)
  show "Card a \<notin> live_devs w" "Cpu_dai a \<notin> live_devs w" using r(1,3) by (auto simp: r(2) put_conn_def put_snd_def w5 w2)
qed






text \<open>
  platform_device_register_simple reports errors as ERR_PTR, which the test for NULL does not notice: the connection is set up
  all the same, and its exit hands the error code to platform_device_unregister as a pointer.
\<close>

lemma audio_err_ptr_faults:
  assumes "aconns w c = Some k" "gb_find_snd (ac_bundle k) w = Some None" "gb_i2s_transmitter_connection_init c w = Some (0, w1)"
    "fst (replies w (ncalls w + 1)) < 0"
  shows "gb_i2s_transmitter_connection_exit c w1 = None"
  using tx_init_effect [OF assms(1-3)] assms(4)
  by (simp add: gb_i2s_transmitter_connection_exit_def unregister_dev_def platform_device_unregister_def simple_ptr_def)

text \<open>
  Bundle ids are only unique within an interface. A data connection of another module with the same bundle id finds the
  device of the first one and registers its platform devices a second time.
\<close>

lemma audio_same_bundle_id_faults:
  assumes "aconns w c = Some k" "gb_find_snd (ac_bundle k) w = Some (Some a)" "snds w a = Some s" "Cpu_dai a \<in> live_devs w"
    "0 < fst (replies w (ncalls w))" "0 < fst (replies w (ncalls w + 1))" "0 \<le> fst (replies w (ncalls w + 2))"
  shows "gb_i2s_transmitter_connection_init c w = None"
  using assms
  by (simp add: gb_i2s_transmitter_connection_init_def gb_get_snd_def register_simple_effect simple_ptr_def setup_card_info_def kcall_def
      platform_device_register_def put_conn_def put_snd_def)

text \<open>
  Stopping a stream queues the work that switches off the cport; closing the stream does not wait for it. When
  ALSA has freed the substream, the work reads it.
\<close>

lemma audio_close_with_work_faults:
  assumes "snds w a = Some s" "workqueue s" "substream s = Some st" "streams w st = Some rt"
  shows "case do { (_, w1) \<leftarrow> gb_dai_trigger a TRIGGER_STOP w; gb_pcm_close st w1 } of None \<Rightarrow> False
    | Some (_, w2) \<Rightarrow> (case snds w2 a of None \<Rightarrow> False | Some s2 \<Rightarrow> work_pending s2) \<and>
        gb_pcm_work junk a (w2\<lparr>streams := (streams w2)(st := None)\<rparr>) = None"
  using assms
  by (simp add: gb_dai_trigger_def gb_pcm_hrtimer_stop_def pcm_queue_work_def gb_pcm_close_def put_snd_def gb_pcm_work_def)

text \<open>Every open of the stream makes a workqueue, and no operation of the driver destroys one.\<close>

lemma audio_workqueue_leak:
  assumes "gb_pcm_open a st w = Some (0, w1)" "gb_pcm_close st w1 = Some (r, w2)"
  shows "workqueues w2 = workqueues w + 1"
  using assms
  by (auto simp: gb_pcm_open_def gb_pcm_close_def gb_pcm_hrtimer_init_def kcall_def Let_def put_snd_def split: if_splits bind_splits)

end
