(* ===== verification/GB_GPBridge.thy ===== *)
theory GB_GPBridge
  imports GB_Protocol
begin

text \<open>
  The bridged drivers as one module (gpbridge.c) and the part of audio.c that registers the audio protocols: nine init
  functions that each add to the registry of protocols or fail, with the gotos that take back what was done before.
  A protocol that is registered is at once bound to the connections that wait for it.
\<close>

section \<open>Definitions\<close>

text \<open>
  The registry and the two platform drivers of the audio code. What the kernel decides: how many connections wait for a
  protocol id, and the results of platform_driver_register.
\<close>

record gp_world =
  protocols :: "gb_protocol list"
  plat_driver :: bool
  pcm_driver :: bool

record gp_env =
  waiting :: "u8 \<Rightarrow> nat"
  plat_ret :: int
  pcm_ret :: int

abbreviation (input) EPROTO :: int where "EPROTO \<equiv> 71"

definition driver_protocol :: "u8 \<Rightarrow> string \<Rightarrow> gb_protocol" where
  "driver_protocol i nm = \<lparr>pr_id = i, pr_major = 0, pr_minor = 1, pr_count = 0, pr_name = nm\<rparr>"

definition gpio_protocol :: gb_protocol where "gpio_protocol = driver_protocol 0x02 ''gpio''"
definition i2c_protocol :: gb_protocol where "i2c_protocol = driver_protocol 0x03 ''i2c''"
definition uart_protocol :: gb_protocol where "uart_protocol = driver_protocol 0x04 ''uart''"
definition hid_protocol :: gb_protocol where "hid_protocol = driver_protocol 0x05 ''hid''"
definition usb_protocol :: gb_protocol where "usb_protocol = driver_protocol 0x06 ''usb''"
definition sdio_protocol :: gb_protocol where "sdio_protocol = driver_protocol 0x07 ''sdio''"
definition pwm_protocol :: gb_protocol where "pwm_protocol = driver_protocol 0x09 ''pwm''"
definition gb_i2s_mgmt_protocol :: gb_protocol where "gb_i2s_mgmt_protocol = driver_protocol 0x0a ''gb_audio_mgmt''"
definition spi_protocol :: gb_protocol where "spi_protocol = driver_protocol 0x0b ''spi''"
definition gb_i2s_receiver_protocol :: gb_protocol where "gb_i2s_receiver_protocol = driver_protocol 0x12 ''gb_audio_data''"

text \<open>
  The init and exit functions that gb_builtin_protocol_driver generates. gb_bundle_bind_protocols hands the new protocol to
  the connections that wait for it, which each take a reference.
\<close>

definition builtin_init :: "gp_env \<Rightarrow> gb_protocol \<Rightarrow> gp_world \<Rightarrow> int \<times> gp_world" where
  "builtin_init e p w = (case gb_protocol_register p (protocols w) of (r, ps) \<Rightarrow>
     (r, w\<lparr>protocols := if r = 0
        then ((\<lambda>qs. snd (gb_protocol_get True (pr_id p) (pr_major p) (pr_minor p) qs)) ^^ waiting e (pr_id p)) ps else ps\<rparr>))"

definition builtin_exit :: "gb_protocol \<Rightarrow> gp_world \<Rightarrow> gp_world" where
  "builtin_exit p w = w\<lparr>protocols := snd (gb_protocol_deregister (Some p) (protocols w))\<rparr>"

text \<open>gb_audio_protocol_init, its labels, and gb_audio_protocol_exit.\<close>

definition plat_driver_register :: "gp_env \<Rightarrow> gp_world \<Rightarrow> int \<times> gp_world" where
  "plat_driver_register e w = (plat_ret e, if plat_ret e = 0 then w\<lparr>plat_driver := True\<rparr> else w)"

definition pcm_driver_register :: "gp_env \<Rightarrow> gp_world \<Rightarrow> int \<times> gp_world" where
  "pcm_driver_register e w = (pcm_ret e, if pcm_ret e = 0 then w\<lparr>pcm_driver := True\<rparr> else w)"

definition err_unregister_i2s_mgmt :: "int \<Rightarrow> gp_world \<Rightarrow> int \<times> gp_world" where
  "err_unregister_i2s_mgmt err w = (err, builtin_exit gb_i2s_mgmt_protocol w)"

definition err_unregister_plat :: "int \<Rightarrow> gp_world \<Rightarrow> int \<times> gp_world" where
  "err_unregister_plat err w = err_unregister_i2s_mgmt err (builtin_exit gb_i2s_receiver_protocol w)"

definition err_unregister_pcm :: "int \<Rightarrow> gp_world \<Rightarrow> int \<times> gp_world" where
  "err_unregister_pcm err w = err_unregister_plat err (w\<lparr>plat_driver := False\<rparr>)"

definition gb_audio_protocol_init :: "gp_env \<Rightarrow> gp_world \<Rightarrow> int \<times> gp_world" where
  "gb_audio_protocol_init e w =
     (case builtin_init e gb_i2s_mgmt_protocol w of (err, w1) \<Rightarrow>
      if err \<noteq> 0 then (err, w1)
      else case builtin_init e gb_i2s_receiver_protocol w1 of (err, w2) \<Rightarrow>
      if err \<noteq> 0 then err_unregister_i2s_mgmt err w2
      else case plat_driver_register e w2 of (err, w3) \<Rightarrow>
      if err \<noteq> 0 then err_unregister_plat err w3
      else case pcm_driver_register e w3 of (err, w4) \<Rightarrow>
      if err \<noteq> 0 then err_unregister_pcm err w4 else (0, w4))"

definition gb_audio_protocol_exit :: "gp_world \<Rightarrow> gp_world" where
  "gb_audio_protocol_exit w = builtin_exit gb_i2s_mgmt_protocol (builtin_exit gb_i2s_receiver_protocol
     (w\<lparr>pcm_driver := False, plat_driver := False\<rparr>))"

text \<open>gpbridge_init: the labels from the last one up, and the chain of calls.\<close>

definition error_gpio :: "gp_world \<Rightarrow> int \<times> gp_world" where "error_gpio w = (- EPROTO, w)"
definition error_pwm :: "gp_world \<Rightarrow> int \<times> gp_world" where "error_pwm w = error_gpio (builtin_exit gpio_protocol w)"
definition error_uart :: "gp_world \<Rightarrow> int \<times> gp_world" where "error_uart w = error_pwm (builtin_exit pwm_protocol w)"
definition error_sdio :: "gp_world \<Rightarrow> int \<times> gp_world" where "error_sdio w = error_uart (builtin_exit uart_protocol w)"
definition error_usb :: "gp_world \<Rightarrow> int \<times> gp_world" where "error_usb w = error_sdio (builtin_exit sdio_protocol w)"
definition error_i2c :: "gp_world \<Rightarrow> int \<times> gp_world" where "error_i2c w = error_usb (builtin_exit usb_protocol w)"
definition error_spi :: "gp_world \<Rightarrow> int \<times> gp_world" where "error_spi w = error_i2c (builtin_exit i2c_protocol w)"
definition error_hid :: "gp_world \<Rightarrow> int \<times> gp_world" where "error_hid w = error_spi (builtin_exit spi_protocol w)"
definition error_audio :: "gp_world \<Rightarrow> int \<times> gp_world" where "error_audio w = error_hid (builtin_exit hid_protocol w)"

definition gpbridge_init :: "gp_env \<Rightarrow> gp_world \<Rightarrow> int \<times> gp_world" where
  "gpbridge_init e w =
     (case builtin_init e gpio_protocol w of (r, w1) \<Rightarrow> if r \<noteq> 0 then error_gpio w1
      else case builtin_init e pwm_protocol w1 of (r, w2) \<Rightarrow> if r \<noteq> 0 then error_pwm w2
      else case builtin_init e uart_protocol w2 of (r, w3) \<Rightarrow> if r \<noteq> 0 then error_uart w3
      else case builtin_init e sdio_protocol w3 of (r, w4) \<Rightarrow> if r \<noteq> 0 then error_sdio w4
      else case builtin_init e usb_protocol w4 of (r, w5) \<Rightarrow> if r \<noteq> 0 then error_usb w5
      else case builtin_init e i2c_protocol w5 of (r, w6) \<Rightarrow> if r \<noteq> 0 then error_i2c w6
      else case builtin_init e spi_protocol w6 of (r, w7) \<Rightarrow> if r \<noteq> 0 then error_spi w7
      else case builtin_init e hid_protocol w7 of (r, w8) \<Rightarrow> if r \<noteq> 0 then error_hid w8
      else case gb_audio_protocol_init e w8 of (r, w9) \<Rightarrow> if r \<noteq> 0 then error_audio w9 else (0, w9))"

definition gpbridge_exit :: "gp_world \<Rightarrow> gp_world" where
  "gpbridge_exit w =
     builtin_exit gpio_protocol (builtin_exit pwm_protocol (builtin_exit uart_protocol (builtin_exit sdio_protocol
       (builtin_exit usb_protocol (builtin_exit i2c_protocol (builtin_exit spi_protocol (builtin_exit hid_protocol
         (gb_audio_protocol_exit w))))))))"

section \<open>Chains of init functions\<close>

text \<open>
  The contract of a pair of init and exit functions that can be a link of such a chain: init either succeeds, and exit takes it
  back exactly, or it fails and changes nothing.
\<close>

locale reversible =
  fixes inv :: "'s \<Rightarrow> bool"
    and init :: "'s \<Rightarrow> int \<times> 's"
    and exit :: "'s \<Rightarrow> 's"
  assumes init_keeps: "inv s \<Longrightarrow> inv (snd (init s))"
    and failed_init: "inv s \<Longrightarrow> fst (init s) \<noteq> 0 \<Longrightarrow> snd (init s) = s"
    and exit_init: "inv s \<Longrightarrow> fst (init s) = 0 \<Longrightarrow> exit (snd (init s)) = s"

text \<open>A chain of calls with the gotos, and its links.\<close>

fun chain_init :: "(('s \<Rightarrow> int \<times> 's) \<times> ('s \<Rightarrow> 's)) list \<Rightarrow> 's \<Rightarrow> int \<times> 's" where
  "chain_init [] s = (0, s)"
| "chain_init (d # ds) s = (case fst d s of (r, s1) \<Rightarrow>
     if r \<noteq> 0 then (r, s1)
     else case chain_init ds s1 of (r2, s2) \<Rightarrow> if r2 \<noteq> 0 then (r2, snd d s2) else (0, s2))"

fun chain_exit :: "(('s \<Rightarrow> int \<times> 's) \<times> ('s \<Rightarrow> 's)) list \<Rightarrow> 's \<Rightarrow> 's" where
  "chain_exit [] s = s"
| "chain_exit (d # ds) s = snd d (chain_exit ds s)"

lemma reversible_chain: "(\<And>d. d \<in> set ds \<Longrightarrow> reversible I (fst d) (snd d)) \<Longrightarrow> reversible I (chain_init ds) (chain_exit ds)"
proof (induction ds)
  case Nil
  show ?case by unfold_locales simp_all
next
  case (Cons d ds)
  have d: "reversible I (fst d) (snd d)" and ds: "reversible I (chain_init ds) (chain_exit ds)" using Cons by auto
  note D = reversible.init_keeps [OF d] reversible.failed_init [OF d] reversible.exit_init [OF d]
  note C = reversible.init_keeps [OF ds] reversible.failed_init [OF ds] reversible.exit_init [OF ds]
  have "I (snd (chain_init (d # ds) s)) \<and>
      (if fst (chain_init (d # ds) s) = 0 then chain_exit (d # ds) (snd (chain_init (d # ds) s)) = s else snd (chain_init (d # ds) s) = s)"
    if "I s" for s
    using that D [of s] C [of "snd (fst d s)"] by (auto simp: split_beta)
  then show ?case by unfold_locales metis+
qed

lemma chain_init_snoc:
  "chain_init (ds @ [d]) s = (case chain_init ds s of (r, s1) \<Rightarrow> if r \<noteq> 0 then (r, s1)
     else case fst d s1 of (r2, s2) \<Rightarrow> if r2 \<noteq> 0 then (r2, chain_exit ds s2) else (0, s2))"
  by (induction ds arbitrary: s) (auto split: prod.splits)

lemma chain_exit_snoc: "chain_exit (ds @ [d]) s = chain_exit ds (snd d s)"
  by (induction ds) auto

section \<open>Registering and deregistering\<close>

lemma protocol_insert_split:
  "protocol_insert p ps = Some ps' \<Longrightarrow> \<exists>n \<le> length ps. ps' = take n ps @ p # drop n ps"
proof (induction ps arbitrary: ps')
  case (Cons q ps)
  show ?case
  proof (cases "ps' = p # q # ps")
    case False
    then obtain qs where "protocol_insert p ps = Some qs" "ps' = q # qs" using Cons.prems by (auto split: if_splits)
    then show ?thesis using Cons.IH [of qs] by (metis Suc_le_mono append_Cons drop_Suc_Cons length_Cons take_Suc_Cons)
  qed (rule exI [of _ 0], simp)
qed simp

lemma deregister_register:
  assumes "protocols_sorted ps" "protocol_insert p ps = Some ps'" "pr_count p = 0"
  shows "gb_protocol_deregister (Some p) ps' = (True, ps)"
proof -
  obtain n where n: "n \<le> length ps" "ps' = take n ps @ p # drop n ps" using protocol_insert_split [OF assms(2)] by blast
  have "ps' ! n = p" "n < length ps'" using n by (simp_all add: nth_append)
  then have "gb_protocol_find ps' (pr_id p) (pr_major p) (pr_minor p) = Some n"
    using gb_protocol_find_complete [OF protocol_insert_sorted [OF assms(1,2)], of n "pr_id p" "pr_major p" "pr_minor p"]
    by (simp add: proto_key_def)
  then show ?thesis using n assms(3) \<open>ps' ! n = p\<close> by (simp add: gb_protocol_deregister_def)
qed

text \<open>What the theorems assume of the registry, and the links of the chain.\<close>

definition gp_ok :: "gp_world \<Rightarrow> bool" where
  "gp_ok w \<longleftrightarrow> protocols_sorted (protocols w)"

definition proto_link :: "gp_env \<Rightarrow> gb_protocol \<Rightarrow> (gp_world \<Rightarrow> int \<times> gp_world) \<times> (gp_world \<Rightarrow> gp_world)" where
  "proto_link e p = (builtin_init e p, builtin_exit p)"

lemma proto_link_reversible:
  assumes "waiting e = (\<lambda>_. 0)" "pr_count p = 0"
  shows "reversible gp_ok (builtin_init e p) (builtin_exit p)"
proof
  fix w
  assume ok: "gp_ok w"
  then have s: "protocols_sorted (protocols w)" by (simp add: gp_ok_def)
  show "gp_ok (snd (builtin_init e p w))"
    using s protocol_insert_sorted [OF s]
    by (auto simp: gp_ok_def builtin_init_def gb_protocol_register_def assms(1) split: option.splits)
  show "snd (builtin_init e p w) = w" if "fst (builtin_init e p w) \<noteq> 0"
    using that by (auto simp: builtin_init_def gb_protocol_register_def split: option.splits)
  show "builtin_exit p (snd (builtin_init e p w)) = w" if "fst (builtin_init e p w) = 0"
    using that deregister_register [OF s _ assms(2)]
    by (auto simp: builtin_init_def builtin_exit_def gb_protocol_register_def assms(1) split: option.splits)
qed

definition gpbridge_protocols :: "gb_protocol list" where
  "gpbridge_protocols = [gpio_protocol, pwm_protocol, uart_protocol, sdio_protocol, usb_protocol, i2c_protocol, spi_protocol,
     hid_protocol, gb_i2s_mgmt_protocol, gb_i2s_receiver_protocol]"

definition plat_link :: "gp_env \<Rightarrow> (gp_world \<Rightarrow> int \<times> gp_world) \<times> (gp_world \<Rightarrow> gp_world)" where
  "plat_link e = (plat_driver_register e, \<lambda>w. w\<lparr>plat_driver := False\<rparr>)"

definition pcm_link :: "gp_env \<Rightarrow> (gp_world \<Rightarrow> int \<times> gp_world) \<times> (gp_world \<Rightarrow> gp_world)" where
  "pcm_link e = (pcm_driver_register e, \<lambda>w. w\<lparr>pcm_driver := False\<rparr>)"

definition gpbridge_links :: "gp_env \<Rightarrow> ((gp_world \<Rightarrow> int \<times> gp_world) \<times> (gp_world \<Rightarrow> gp_world)) list" where
  "gpbridge_links e = map (proto_link e) gpbridge_protocols @ [plat_link e, pcm_link e]"

text \<open>The gotos of the two functions are one chain.\<close>

lemmas gp_labels = error_gpio_def error_pwm_def error_uart_def error_sdio_def error_usb_def error_i2c_def error_spi_def error_hid_def
  error_audio_def err_unregister_i2s_mgmt_def err_unregister_plat_def err_unregister_pcm_def

lemma gpbridge_is_chain:
  "gpbridge_init e w = (case chain_init (gpbridge_links e) w of (r, w1) \<Rightarrow> (if r \<noteq> 0 then - EPROTO else 0, w1))"
  "gpbridge_exit w = chain_exit (gpbridge_links e) w"
  by (simp_all add: gpbridge_init_def gb_audio_protocol_init_def gpbridge_links_def gpbridge_protocols_def proto_link_def plat_link_def pcm_link_def
      gpbridge_exit_def gb_audio_protocol_exit_def gp_labels split: prod.split)

lemma builtin_init_uses:
  assumes "gp_ok w" "waiting e = (\<lambda>_. 0)"
  shows "if proto_uses (protocols w) (proto_key p) = None
    then \<exists>ps. builtin_init e p w = (0, w\<lparr>protocols := ps\<rparr>) \<and> proto_uses ps = (proto_uses (protocols w))(proto_key p \<mapsto> pr_count p)
    else builtin_init e p w = (- EEXIST, w)"
proof -
  have s: "protocols_sorted (protocols w)" using assms(1) by (simp add: gp_ok_def)
  have "(proto_uses (protocols w) (proto_key p) = None) = (protocol_insert p (protocols w) \<noteq> None)"
  proof (cases "proto_uses (protocols w) (proto_key p)")
    case None
    then have "proto_key p \<notin> proto_key ` set (protocols w)" using proto_uses_Some_iff [OF s, of "proto_key p"] by force
    then show ?thesis using None protocol_insert_None [OF s, of p] by simp
  next
    case (Some n)
    then obtain q where "q \<in> set (protocols w)" "proto_key q = proto_key p" using proto_uses_Some_iff [OF s, of "proto_key p" n] by auto
    then have "proto_key p \<in> proto_key ` set (protocols w)" using imageI [of q "set (protocols w)" proto_key] by simp
    then show ?thesis using Some protocol_insert_None [OF s, of p] by simp
  qed
  then show ?thesis using register_uses [OF s, of p] assms(2)
    by (cases "protocol_insert p (protocols w)") (simp_all add: builtin_init_def gb_protocol_register_def, blast)
qed

text \<open>A chain of protocols succeeds exactly if all their keys are free, and then adds them.\<close>

lemma chain_protocols:
  assumes "waiting e = (\<lambda>_. 0)" "distinct (map proto_key qs)" "\<forall>p \<in> set qs. pr_count p = 0" "gp_ok w"
  shows "if \<forall>p \<in> set qs. proto_uses (protocols w) (proto_key p) = None
    then \<exists>ps. chain_init (map (proto_link e) qs) w = (0, w\<lparr>protocols := ps\<rparr>) \<and>
      proto_uses ps = (\<lambda>k. if k \<in> proto_key ` set qs then Some 0 else proto_uses (protocols w) k)
    else fst (chain_init (map (proto_link e) qs) w) \<noteq> 0"
  using assms(2-4)
proof (induction qs arbitrary: w)
  case Nil
  then show ?case by (auto intro: exI [of _ "protocols w"])
next
  case (Cons p qs)
  note b = builtin_init_uses [OF Cons.prems(3) assms(1), of p]
  show ?case
  proof (cases "proto_uses (protocols w) (proto_key p) = None")
    case False
    then have "builtin_init e p w = (- EEXIST, w)" using b by (simp del: not_None_eq)
    then show ?thesis using False by (simp add: proto_link_def del: not_None_eq)
  next
    case True
    then obtain ps where ps: "builtin_init e p w = (0, w\<lparr>protocols := ps\<rparr>)" "proto_uses ps = (proto_uses (protocols w))(proto_key p \<mapsto> 0)"
      using b Cons.prems(2) by auto
    have ok: "gp_ok (w\<lparr>protocols := ps\<rparr>)"
      using reversible.init_keeps [OF proto_link_reversible [OF assms(1)] Cons.prems(3), of p] ps(1) Cons.prems(2) by simp
    have free: "(\<forall>q \<in> set qs. proto_uses ps (proto_key q) = None) = (\<forall>q \<in> set (p # qs). proto_uses (protocols w) (proto_key q) = None)"
    proof -
      have "q \<in> set qs \<Longrightarrow> proto_key q \<noteq> proto_key p" for q using Cons.prems(1) by (metis distinct.simps(2) imageI list.set_map list.simps(9))
      then show ?thesis using True by (auto simp: ps(2))
    qed
    show ?thesis
    proof (cases "\<forall>q \<in> set qs. proto_uses ps (proto_key q) = None")
      case t: True
      then obtain ps2 where "chain_init (map (proto_link e) qs) (w\<lparr>protocols := ps\<rparr>) = (0, w\<lparr>protocols := ps2\<rparr>)"
          "proto_uses ps2 = (\<lambda>k. if k \<in> proto_key ` set qs then Some 0 else proto_uses ps k)"
        using Cons.IH [OF _ _ ok] Cons.prems(1,2) by (auto cong: if_cong)
      moreover from this(2) have "proto_uses ps2 = (\<lambda>k. if k \<in> proto_key ` set (p # qs) then Some 0 else proto_uses (protocols w) k)"
        by (rule trans) (rule ext, simp add: ps(2))
      moreover have "\<forall>q \<in> set (p # qs). proto_uses (protocols w) (proto_key q) = None" using t free by blast
      ultimately show ?thesis using ps(1) by (simp add: proto_link_def [of e p]) blast
    next
      case f: False
      then have "fst (chain_init (map (proto_link e) qs) (w\<lparr>protocols := ps\<rparr>)) \<noteq> 0"
        using Cons.IH [OF _ _ ok] Cons.prems(1,2) by auto
      then show ?thesis using f ps unfolding free by (simp add: proto_link_def [of e p] split_beta)
    qed
  qed
qed

lemma gpbridge_links_reversible:
  assumes "waiting e = (\<lambda>_. 0)"
  shows "reversible (\<lambda>w. gp_ok w \<and> \<not> plat_driver w \<and> \<not> pcm_driver w) (chain_init (map (proto_link e) gpbridge_protocols)) (chain_exit (map (proto_link e) gpbridge_protocols))"
proof -
  have "reversible (\<lambda>w. gp_ok w \<and> \<not> plat_driver w \<and> \<not> pcm_driver w) (builtin_init e p) (builtin_exit p)" if "p \<in> set gpbridge_protocols" for p
  proof -
    have "pr_count p = 0"
      using that by (auto simp: gpbridge_protocols_def driver_protocol_def gpio_protocol_def pwm_protocol_def uart_protocol_def sdio_protocol_def
          usb_protocol_def i2c_protocol_def spi_protocol_def hid_protocol_def gb_i2s_mgmt_protocol_def gb_i2s_receiver_protocol_def)
    note r = proto_link_reversible [OF assms this]
    show ?thesis
      by unfold_locales (use reversible.init_keeps [OF r] reversible.failed_init [OF r] reversible.exit_init [OF r] in \<open>auto simp: builtin_init_def split: prod.splits\<close>)
  qed
  then show ?thesis by (intro reversible_chain) (auto simp: proto_link_def)
qed

interpretation gp: reversible "\<lambda>w. gp_ok w \<and> \<not> plat_driver w \<and> \<not> pcm_driver w"
  "chain_init (map (proto_link \<lparr>waiting = \<lambda>_. 0, plat_ret = a, pcm_ret = b\<rparr>) gpbridge_protocols)"
  "chain_exit (map (proto_link \<lparr>waiting = \<lambda>_. 0, plat_ret = a, pcm_ret = b\<rparr>) gpbridge_protocols)" for a b
  by (rule gpbridge_links_reversible) simp

lemma gpbridge_protocols_keys: "distinct (map proto_key gpbridge_protocols)" "\<forall>p \<in> set gpbridge_protocols. pr_count p = 0"
  by (simp_all add: gpbridge_protocols_def proto_key_def driver_protocol_def gpio_protocol_def pwm_protocol_def uart_protocol_def sdio_protocol_def
      usb_protocol_def i2c_protocol_def spi_protocol_def hid_protocol_def gb_i2s_mgmt_protocol_def gb_i2s_receiver_protocol_def)

text \<open>
  C39 The module of the bridged drivers comes up completely or not at all, as long as no connection waits for one of its protocols: if
  all ten protocols are free and both platform drivers can be registered, gpbridge_init registers them, and gpbridge_exit
  restores the registry exactly; otherwise it returns -EPROTO and the registry is what it was.
\<close>

theorem gpbridge_init_atomic:
  assumes "protocols_sorted (protocols w)" "\<not> plat_driver w" "\<not> pcm_driver w" "waiting e = (\<lambda>_. 0)"
  shows "case gpbridge_init e w of (r, w') \<Rightarrow>
    if (\<forall>p \<in> set gpbridge_protocols. proto_uses (protocols w) (proto_key p) = None) \<and> plat_ret e = 0 \<and> pcm_ret e = 0
    then r = 0 \<and> plat_driver w' \<and> pcm_driver w' \<and> gpbridge_exit w' = w \<and>
      proto_uses (protocols w') = (\<lambda>k. if k \<in> proto_key ` set gpbridge_protocols then Some 0 else proto_uses (protocols w) k)
    else r = - EPROTO \<and> w' = w"
proof -
  let ?ds = "map (proto_link e) gpbridge_protocols"
  have ok: "gp_ok w" using assms(1) by (simp add: gp_ok_def)
  have e: "e = \<lparr>waiting = \<lambda>_. 0, plat_ret = plat_ret e, pcm_ret = pcm_ret e\<rparr>" using assms(4) by simp
  have split: "chain_init (gpbridge_links e) w = (case chain_init ?ds w of (r, w1) \<Rightarrow> if r \<noteq> 0 then (r, w1)
      else if plat_ret e \<noteq> 0 then (plat_ret e, chain_exit ?ds w1)
      else if pcm_ret e \<noteq> 0 then (pcm_ret e, chain_exit ?ds (w1\<lparr>plat_driver := False\<rparr>)) else (0, w1\<lparr>plat_driver := True, pcm_driver := True\<rparr>))"
    using chain_init_snoc [of "?ds @ [plat_link e]" "pcm_link e" w] chain_init_snoc [of ?ds "plat_link e" w]
    by (simp add: gpbridge_links_def chain_exit_snoc plat_link_def pcm_link_def plat_driver_register_def pcm_driver_register_def split: prod.split)
  obtain r w1 where c: "chain_init ?ds w = (r, w1)" by (metis surj_pair)
  have w1: "\<not> plat_driver w1" "\<not> pcm_driver w1" "r \<noteq> 0 \<Longrightarrow> w1 = w" "r = 0 \<Longrightarrow> chain_exit ?ds w1 = w"
    using gp.init_keeps [of w "plat_ret e" "pcm_ret e", folded e] gp.failed_init [of w "plat_ret e" "pcm_ret e", folded e]
      gp.exit_init [of w "plat_ret e" "pcm_ret e", folded e] ok assms(2,3) c by auto
  then have same: "w1\<lparr>plat_driver := False\<rparr> = w1" "w1\<lparr>pcm_driver := False, plat_driver := False\<rparr> = w1" by simp_all
  note p = chain_protocols [OF assms(4) gpbridge_protocols_keys ok, unfolded c]
  have ex: "gpbridge_exit (w1\<lparr>plat_driver := True, pcm_driver := True\<rparr>) = chain_exit ?ds (w1\<lparr>pcm_driver := False, plat_driver := False\<rparr>)"
    unfolding gpbridge_is_chain(2) [of _ e] gpbridge_links_def
    using chain_exit_snoc [of "?ds @ [plat_link e]" "pcm_link e"] by (simp add: chain_exit_snoc plat_link_def pcm_link_def)
  show ?thesis
  proof (cases "\<forall>p \<in> set gpbridge_protocols. proto_uses (protocols w) (proto_key p) = None")
    case True
    then have "r = 0" "proto_uses (protocols w1) = (\<lambda>k. if k \<in> proto_key ` set gpbridge_protocols then Some 0 else proto_uses (protocols w) k)"
      using p by auto
    moreover have "chain_exit ?ds (w1\<lparr>plat_driver := False\<rparr>) = w" "gpbridge_exit (w1\<lparr>plat_driver := True, pcm_driver := True\<rparr>) = w"
      using \<open>r = 0\<close> w1(4) ex by (simp_all only: same)
    ultimately show ?thesis using True w1 unfolding gpbridge_is_chain(1) split c by simp
  next
    case False
    then have "r \<noteq> 0" using p by (simp del: not_None_eq split: if_splits)
    then show ?thesis using False w1(3) unfolding gpbridge_is_chain(1) split c by (simp del: not_None_eq)
  qed
qed

theorem gpbridge_init_atomic_witness:
  "gpbridge_init \<lparr>waiting = \<lambda>_. 0, plat_ret = 0, pcm_ret = - 12\<rparr> \<lparr>protocols = [driver_protocol 0x14 ''svc''], plat_driver = False, pcm_driver = False\<rparr>
     = (- EPROTO, \<lparr>protocols = [driver_protocol 0x14 ''svc''], plat_driver = False, pcm_driver = False\<rparr>)"
  using gpbridge_init_atomic [of "\<lparr>protocols = [driver_protocol 0x14 ''svc''], plat_driver = False, pcm_driver = False\<rparr>"
      "\<lparr>waiting = \<lambda>_. 0, plat_ret = 0, pcm_ret = - 12\<rparr>"] by (simp add: split_beta prod_eq_iff)

text \<open>
  Where a connection already waits for a protocol, the protocol is in use as soon as it is registered, and the exit
  function cannot take it back: after a failed gpbridge_init the registry still has it, although the module with its
  handlers is unloaded. Here a connection waits for gpio, and another module has registered pwm.
\<close>

lemma gpbridge_failed_init_leaves_protocol:
  "gpbridge_init \<lparr>waiting = \<lambda>i. if i = 2 then 1 else 0, plat_ret = 0, pcm_ret = 0\<rparr> \<lparr>protocols = [pwm_protocol], plat_driver = False, pcm_driver = False\<rparr> =
     (- EPROTO, \<lparr>protocols = [gpio_protocol\<lparr>pr_count := 1\<rparr>, pwm_protocol], plat_driver = False, pcm_driver = False\<rparr>)"
proof -
  let ?e = "\<lparr>waiting = \<lambda>i. if i = 2 then 1 else 0, plat_ret = 0, pcm_ret = 0\<rparr>"
  let ?w = "\<lambda>ps. \<lparr>protocols = ps, plat_driver = False, pcm_driver = False\<rparr>"
  let ?ps = "[gpio_protocol\<lparr>pr_count := 1\<rparr>, pwm_protocol]"
  have 1: "builtin_init ?e gpio_protocol (?w [pwm_protocol]) = (0, ?w ?ps)"
    by (simp add: builtin_init_def gb_protocol_register_def gb_protocol_get_def proto_before_def gpio_protocol_def pwm_protocol_def driver_protocol_def)
  have 2: "builtin_init ?e pwm_protocol (?w ?ps) = (- EEXIST, ?w ?ps)"
    by (simp add: builtin_init_def gb_protocol_register_def proto_before_def gpio_protocol_def pwm_protocol_def driver_protocol_def)
  have 3: "builtin_exit gpio_protocol (?w ?ps) = ?w ?ps"
    by (simp add: builtin_exit_def gb_protocol_deregister_def gpio_protocol_def pwm_protocol_def driver_protocol_def)
  show ?thesis by (simp only: gpbridge_init_def 1 2 3 prod.case error_pwm_def error_gpio_def) simp
qed

end
