(* ===== verification/GB_Wire.thy ===== *)
theory GB_Wire
  imports GB_GPIO_Props GB_Light_Props
begin

text \<open>
  The structures of greybus_protocols.h as types of messages, and type safety of drivers: whatever the kernel
  and the module do, each request that leaves the GPIO or the lights driver is a value of the structure its type asks for, and
  its response buffer has the size of the structure of the response.
\<close>

section \<open>Types of messages\<close>

text \<open>The fields of a packed structure.\<close>

datatype wire_field = U8 | LE16 | LE32 | Name nat

fun field_size :: "wire_field \<Rightarrow> nat" where
  "field_size U8 = 1"
| "field_size LE16 = 2"
| "field_size LE32 = 4"
| "field_size (Name n) = n"

fun has_type :: "wire_field list \<Rightarrow> bytes \<Rightarrow> bool" where
  "has_type [] b \<longleftrightarrow> b = []"
| "has_type (f # fs) b \<longleftrightarrow> field_size f \<le> length b \<and> has_type fs (drop (field_size f) b)"


text \<open>A protocol gives the structures of the request and of the response for each type of operation.\<close>

type_synonym layout = "u8 \<Rightarrow> (wire_field list \<times> wire_field list) option"

definition gpio_layout :: layout where
  "gpio_layout = map_of
     [(0x02, [], [U8]),
      (0x03, [U8], []),
      (0x04, [U8], []),
      (0x05, [U8], [U8]),
      (0x06, [U8], []),
      (0x07, [U8, U8], []),
      (0x08, [U8], [U8]),
      (0x09, [U8, U8], []),
      (0x0a, [U8, LE16], []),
      (0x0b, [U8, U8], []),
      (0x0c, [U8], []),
      (0x0d, [U8], [])]"

definition lights_layout :: layout where
  "lights_layout = map_of
     [(0x02, [], [U8]),
      (0x03, [U8], [U8, Name 32]),
      (0x04, [U8, U8], [U8, LE32, LE32, Name 32, LE32, Name 32]),
      (0x05, [U8, U8], [LE32, LE32, LE32, LE32, LE32, LE32]),
      (0x06, [U8, U8, U8], []),
      (0x07, [U8, U8, LE16, LE16], []),
      (0x08, [U8, U8, LE32], []),
      (0x09, [U8, U8, U8, U8], []),
      (0x0b, [U8, U8, LE32], []),
      (0x0c, [U8, U8, U8], []),
      (0x0d, [U8, U8, LE32], []),
      (0x0e, [U8, U8], [LE32])]"

definition conforms :: "layout \<Rightarrow> xfer \<Rightarrow> bool" where
  "conforms L x = (case L (x_type x) of None \<Rightarrow> False | Some (rq, rs) \<Rightarrow> has_type rq (x_req x) \<and> has_type rs (x_resp x))"

definition typed :: "layout \<Rightarrow> 'a class_env_scheme \<Rightarrow> bool" where
  "typed L e \<longleftrightarrow> list_all (conforms L) (sent e)"

section \<open>Keeping types\<close>

text \<open>The only way to the module is gb_sync.\<close>

definition msg_sizes :: "layout \<Rightarrow> u8 \<Rightarrow> nat \<Rightarrow> nat \<Rightarrow> bool" where
  "msg_sizes L ty k n \<longleftrightarrow> (case L ty of None \<Rightarrow> False | Some (rq, rs) \<Rightarrow> k = sum_list (map field_size rq) \<and> n = sum_list (map field_size rs))"







lemma gpio_msgs [simp]:
  "msg_sizes gpio_layout 3 (Suc 0) 0" "msg_sizes gpio_layout 4 (Suc 0) 0" "msg_sizes gpio_layout 5 (Suc 0) (Suc 0)"
  "msg_sizes gpio_layout 6 (Suc 0) 0" "msg_sizes gpio_layout 7 (Suc (Suc 0)) 0" "msg_sizes gpio_layout 8 (Suc 0) (Suc 0)"
  "msg_sizes gpio_layout 9 (Suc (Suc 0)) 0" "msg_sizes gpio_layout 10 (Suc (Suc (Suc 0))) 0" "msg_sizes gpio_layout 11 (Suc (Suc 0)) 0"
  "msg_sizes gpio_layout 12 (Suc 0) 0" "msg_sizes gpio_layout 13 (Suc 0) 0" "msg_sizes gpio_layout 10 3 0"
  "msg_sizes gpio_layout 7 2 0" "msg_sizes gpio_layout 9 2 0" "msg_sizes gpio_layout 11 2 0"
  by (simp_all add: msg_sizes_def gpio_layout_def)





text \<open>Lights: what allocates, frees, registers or stores leaves the log alone.\<close>

lemma lights_msgs [simp]:
  "msg_sizes lights_layout 2 0 (Suc 0)" "msg_sizes lights_layout 3 (Suc 0) 33" "msg_sizes lights_layout 4 2 77" "msg_sizes lights_layout 5 2 24"
  "msg_sizes lights_layout 6 3 0" "msg_sizes lights_layout 7 6 0" "msg_sizes lights_layout 8 6 0" "msg_sizes lights_layout 9 4 0"
  "msg_sizes lights_layout 11 6 0" "msg_sizes lights_layout 12 3 0" "msg_sizes lights_layout 13 6 0" "msg_sizes lights_layout 14 2 4"
  by (simp_all add: msg_sizes_def lights_layout_def)







lemma lights_upd_typed [simp]:
  "typed L (g\<lparr>lights := x1\<rparr>) = typed L (g :: gb_lights)" "typed L (g\<lparr>lights_count := x2\<rparr>) = typed L g" "typed L (g\<lparr>heap := x3\<rparr>) = typed L g"
  "typed L (g\<lparr>arr := x4\<rparr>) = typed L g" "typed L (g\<lparr>leds := x5\<rparr>) = typed L g" "typed L (g\<lparr>works := x6\<rparr>) = typed L g"
  "typed L (g\<lparr>subdevs := x7\<rparr>) = typed L g" "typed L (g\<lparr>subdevs := x7, nextp := x8\<rparr>) = typed L g" "typed L (put_light k l g) = typed L g"
  by (simp_all add: typed_def put_light_def)
























section \<open>Properties\<close>



end
