(* ===== verification/Spec2Isabelle.thy ===== *)
theory Spec2Isabelle
  imports GB_Protocol GB_Endo GB_Operation_Props GB_SVC_Props GB_ES2_Probe GB_Loopback_Props GB_GPIO_Props GB_Bus_Props GB_UART_Props
    GB_SDIO_Props GB_Raw GB_HID_Props GB_Simple GB_Light_Props
    GB_Audio_Props GB_GPBridge GB_Wire
begin

text \<open>
  \<^bold>\<open>Greybus.\<close> This library models the host side of the Greybus subsystem (src/) and proves what its
  core promises. Greybus connects an application processor (AP) with the modules of a phone. A host
  driver moves messages between the processor and numbered cports; on top of it

    \<^item> the \<^emph>\<open>protocol registry\<close> (protocol.c) keeps the protocol handlers in a sorted list,
    \<^item> the \<^emph>\<open>operation core\<close> (operation.c) pairs requests with responses on a connection,
    \<^item> the \<^emph>\<open>endo\<close> (endo.c) decodes the 16-bit id of the frame into the modules it can hold,
    \<^item> the \<^emph>\<open>device layer\<close> (connection.c, bundle.c, interface.c, module.c, core.c) owns the objects,
    \<^item> the \<^emph>\<open>manifest parser\<close> (manifest.c) turns what an interface sends about itself into bundles
      and connections,
    \<^item> the \<^emph>\<open>control\<close>, \<^emph>\<open>SVC\<close> and \<^emph>\<open>firmware\<close> protocols (control.c, svc.c, firmware.c) bring
      interfaces up and down and let them boot,
    \<^item> the \<^emph>\<open>host drivers\<close> (es1.c, es2.c) carry messages over USB, below the core,
    \<^item> the \<^emph>\<open>class drivers\<close> (loopback.c, gpio.c, i2c.c, spi.c, uart.c, sdio.c, raw.c, hid.c,
      light.c, pwm.c, battery.c, vibrator.c, usb.c, audio*.c) offer the functions of a module to the kernel, on top of the core;
      gpbridge.c registers those of the bridged PHY class.

  \<^bold>\<open>How the code is modelled.\<close>

    \<^item> Integers have their width (\<open>u8\<close>, \<open>u16\<close>, \<open>u32\<close>, \<open>size_t\<close> of 64 bits); a C \<open>int\<close> that only carries 0, an
      errno or a small count is an \<open>int\<close>. Memory that crosses the wire is a list of bytes, read and
      written through functions that fail out of bounds.
    \<^item> A function that can touch freed memory, a NULL pointer or a byte outside a buffer returns an
      \<open>option\<close>; \<open>None\<close> is that fault. Errors of the source are negative results next to the new state.
    \<^item> Objects live in stores from addresses to \<open>option\<close>; a freed address holds \<open>None\<close>, so that lists
      that still name a freed object are visible.
    \<^item> What the kernel, the host driver and the module at the other end decide is a parameter: an
      argument of the function, or, for the long call chains of the device layer, the next entry of
      the sequence \<open>answers\<close>, with all calls recorded in \<open>trace\<close>. Every theorem holds for all answers.
    \<^item> A handler of the operation core runs atomically; it takes the connection's lock for the parts
      that touch shared state. Handlers that wait (cancellation, synchronous calls) are split at the
      point where they wait. Interleavings of handlers are the runs of a state machine.
    \<^item> No fuel is used. Loops over lists are structural recursions; the loops that are not (the
      descriptor scan and the loop over bundle descriptors of the manifest parser, the module
      id search of the endo) have termination proofs. The transfer loop of sdio.c need not end: it is a
      partial function whose outer \<open>None\<close> is running forever, with a theorem when it ends and one when it does not.

  \<^bold>\<open>The theories.\<close>

    \<^item> \<open>GB_Prelude\<close>: machine types, endianness, bytes, the kernel's id allocator, error codes.
    \<^item> \<open>GB_Protocol\<close>: protocol.c. The list stays sorted, newest version first; search with early exit
      finds exactly what is registered; use counts refine a count of users up to 255 users.
    \<^item> \<open>GB_Endo\<close>: endo.c. Which endo ids are accepted, which module an interface belongs to, which
      modules are created.
    \<^item> \<open>GB_Message\<close>, \<open>GB_Operation\<close>: operation.c, operation.h. Message layout and allocation, status
      codes, and every handler.
    \<^item> \<open>GB_Operation_Inv\<close>, \<open>GB_Operation_Handlers\<close>: the invariant of reference counts, activity counts,
      lists and work queues, and that each handler keeps it and does not fault.
    \<^item> \<open>GB_Machine\<close>, \<open>GB_Operation_Steps\<close>: runs of events and what holds in every reachable state.
    \<^item> \<open>GB_Operation_Props\<close>: what a response and a request do, and the two ways in which the code
      fails when the environment does not do what \<open>op_enabled\<close> asks of it.
    \<^item> \<open>GB_Device\<close>: the objects of the device layer, the environment, control.c and the requests of
      svc.c. \<open>GB_Connection\<close>: connection.c and bundle.c. \<open>GB_Connection_Inv\<close>: the bookkeeping of cport
      ids, lists and objects that creation and destruction keep exact.
    \<^item> \<open>GB_Manifest\<close>, \<open>GB_Manifest_Props\<close>: manifest.c at byte level: what the scan locates, that parsing
      leaves no descriptor allocated, where it reads beyond the manifest.
    \<^item> \<open>GB_Interface\<close>, \<open>GB_SVC\<close>, \<open>GB_Core\<close>: interface.c, module.c, svc.c, core.c, firmware.c.
      \<open>GB_SVC_Props\<close>: the order of SVC requests, the limits of a host device, matching, initialisation,
      firmware fetches, and runs of the bring-up that fault.
    \<^item> \<open>GB_ES2\<close>, \<open>GB_ES2_Props\<close>, \<open>GB_ES2_Probe\<close>: es2.c and what differs in es1.c. The pool of urbs with
      its reference counts, sending, cancelling, completing, the mapping of cports, probing and disconnecting;
      no run touches a freed urb, a urb under cancellation is not reused, cport ids survive packing.
    \<^item> \<open>GB_Loopback\<close>, \<open>GB_Loopback_Props\<close>: loopback.c. Statistics, latencies, the test threads
      (a bounded test ends with exactly the requested calls), the echo handler.
    \<^item> \<open>GB_Class\<close>: what the class drivers share: synchronous requests as questions to the module with a
      log of what was sent, buffers of requests, and the contract of a driver that caches the state of its module.
    \<^item> \<open>GB_GPIO\<close>, \<open>GB_GPIO_Props\<close>: gpio.c. The cached lines agree with what the module was told; deferred
      interrupt changes are coalesced.
    \<^item> \<open>GB_Bus\<close>, \<open>GB_Bus_Props\<close>: i2c.c and spi.c. A transfer is encoded so that the module can decode
      it, and what is received reaches the buffers of the caller.
    \<^item> \<open>GB_UART\<close>, \<open>GB_UART_Props\<close>: uart.c. Input, output, modem lines, minors and connections, and the
      wait that never ends.
    \<^item> \<open>GB_SDIO\<close>, \<open>GB_SDIO_Props\<close>: sdio.c. Data transfers in turns of whole blocks, card events before and
      after the host is registered, requests and their completion.
    \<^item> \<open>GB_Raw\<close>: raw.c as a queue of packets with limits. \<open>GB_HID\<close>, \<open>GB_HID_Props\<close>: hid.c, its
      report buffers and the power state over opens and closes. \<open>GB_Simple\<close>: pwm.c, battery.c,
      vibrator.c and usb.c.
    \<^item> \<open>GB_Light\<close>, \<open>GB_Light_Inv\<close>, \<open>GB_Light_Props\<close>: light.c with the heap blocks of its channels.
      Configuration, registration and release own each block exactly once as long as no channel is a
      flash and no reconfiguration is refused; both exceptions are runs that fault.
    \<^item> \<open>GB_Audio\<close>, \<open>GB_Audio_Props\<close>: audio.c, audio-gb-cmds.c, audio-pcm.c and audio-dai.c. The periods of a
      stream leave in order and wrap with the ring buffer of ALSA, the configuration chosen is the one the module
      offered and accepted, the set-up and removal of the connections of a bundle, and how a failed set-up of the management connection faults.
    \<^item> \<open>GB_GPBridge\<close>: gpbridge.c and the two audio protocols on the registry: initialisation registers all or none.
    \<^item> \<open>GB_Wire\<close>: the request and response structures of greybus_protocols.h as layouts, and that what the
      GPIO and lights drivers send has the layout of its type.

  \<^bold>\<open>Interfaces.\<close> \<open>wire_format\<close> is the contract of an encoding with its decoding, interpreted on the message
  header; \<open>protocol_registry\<close> is what the use counts of the registry owe to users of protocols, interpreted on
  the list; \<open>safe_machine\<close> derives safety of all runs from an invariant, interpreted on the handlers of
  the operation core, on the urb pool of the host driver, on the connections of the UART driver and on the lights of a
  module; \<open>cached_module\<close> extends it by the agreement of a driver with its module, interpreted on the GPIO driver and on
  the HID driver; \<open>packet_queue\<close> is a bounded queue of packets, interpreted on raw.c; \<open>reversible\<close> is a step with its inverse,
  interpreted on the chain of registrations of gpbridge.c. \<open>wire_format\<close> is also interpreted on the
  descriptors of i2c and spi transfers and on the configuration of an i2s stream.

  \<^bold>\<open>Not modelled.\<close> debugfs.c, which creates one directory, and kernel_ver.h, which selects variants of
  kernel functions; the variants for other kernel versions; the codec branch \<open>USE_RT5645\<close> of audio.c, which is compiled out. Sysfs attributes, debugfs and log messages have no effect on the
  state. Memory ordering and preemption inside a handler are not visible in the model. In
  the device layer a synchronous request is one question to the environment; the machinery behind it
  is the subject of the operation theories. Cancelling all operations of a connection is a question to the
  environment there as well.
\<close>

end
